(* ===== verification/Go_Prelude.thy ===== *)
theory Go_Prelude
  imports Main "HOL-Library.Word" "HOL-Library.Char_ord" "HOL-Library.List_Lexorder" "HOL-Library.Sublist"
begin

text \<open>
  Conventions shared by every theory of the development: Go strings, durations and
  instants, map iteration, and the facts about them that the component proofs use.

  \<^item> A Go string is a sequence of bytes: \<open>string\<close>, a list of \<open>char\<close>.
  \<^item> \<open>time.Duration\<close> is an \<open>int\<close> number of nanoseconds; it is kept inside 64 bits where
    the code can leave them (\<open>time_sub\<close> saturates as \<open>time.Time.Sub\<close> does).
  \<^item> \<open>time.Time\<close> is the number of nanoseconds since Go's zero time, so \<open>IsZero\<close> is \<open>= 0\<close>.
    The clock is an argument \<open>now\<close> of every operation that calls \<open>time.Now\<close>.
  \<^item> A pointer or interface that may be nil is an \<open>option\<close>.
  \<^item> A Go map is a partial function. Its iteration order is unspecified, so every
    operation that ranges over a map takes the visiting order as an argument, and the
    theorems hold for every order that \<open>enumerates\<close> the map.
  \<^item> An error result is the left of a sum; a panic is an error value of its own.
\<close>

section \<open>Collections of facts\<close>

named_theorems go_defs \<open>definitions of operations, unfolded by the component proofs\<close>
named_theorems go_inv \<open>operations keep the invariant of their component\<close>

section \<open>Instants and durations\<close>

type_synonym duration = int
type_synonym instant = int

definition nanosecond :: duration where "nanosecond = 1"
definition millisecond :: duration where "millisecond = 1000000"
definition second :: duration where "second = 1000000000"
definition minute :: duration where "minute = 60 * 1000000000"

definition min_duration :: duration where "min_duration = - (2 ^ 63)"
definition max_duration :: duration where "max_duration = 2 ^ 63 - 1"

definition time_sub :: "instant \<Rightarrow> instant \<Rightarrow> duration" where
  "time_sub t u = max min_duration (min max_duration (t - u))"

definition is_zero_time :: "instant \<Rightarrow> bool" where
  "is_zero_time t = (t = 0)"

lemma time_sub_exact: "min_duration \<le> t - u \<Longrightarrow> t - u \<le> max_duration \<Longrightarrow> time_sub t u = t - u"
  by (simp add: time_sub_def)

lemma time_sub_mono: "t \<le> t' \<Longrightarrow> time_sub t u \<le> time_sub t' u"
  by (simp add: time_sub_def)

lemma time_sub_self [simp]: "time_sub t t = 0"
  by (simp add: time_sub_def min_duration_def max_duration_def)

lemma time_sub_gt:
  assumes "0 \<le> d" and "d < max_duration"
  shows "d < time_sub t u \<longleftrightarrow> d < t - u"
  using assms by (auto simp: time_sub_def min_duration_def max_duration_def)

lemma time_sub_lt_neg:
  assumes "0 \<le> d" and "d \<le> max_duration"
  shows "time_sub t u < - d \<longleftrightarrow> t - u < - d"
  using assms by (auto simp: time_sub_def min_duration_def max_duration_def)

lemma time_sub_less: "t \<le> now \<Longrightarrow> now < t + d \<Longrightarrow> time_sub now t < d"
  by (auto simp: time_sub_def min_duration_def max_duration_def)

text \<open>Go's \<open>/\<close> on integers truncates towards zero.\<close>

definition trunc_div :: "int \<Rightarrow> int \<Rightarrow> int" where
  "trunc_div dividend divisor =
     (let quotient = \<bar>dividend\<bar> div \<bar>divisor\<bar>
      in if (dividend < 0) = (divisor < 0) then quotient else - quotient)"

lemma trunc_div_nonneg: "0 \<le> n \<Longrightarrow> 0 < d \<Longrightarrow> trunc_div n d = n div d"
  by (simp add: trunc_div_def)

text \<open>Arithmetic of \<open>int64\<close>: the value kept of an integer that may not fit.\<close>

definition wrap64 :: "int \<Rightarrow> int" where
  "wrap64 i = sint (word_of_int i :: 64 word)"

lemma wrap64_id: "- (2 ^ 63) \<le> i \<Longrightarrow> i < 2 ^ 63 \<Longrightarrow> wrap64 i = i"
  unfolding wrap64_def sint_sbintrunc' by (rule signed_take_bit_int_eq_self) simp_all

text \<open>\<open>time.Unix(sec, 0)\<close>: the seconds are stored relative to year 1, in an \<open>int64\<close>.\<close>

definition unix_time :: "int \<Rightarrow> instant" where
  "unix_time sec = wrap64 (sec + 62135596800) * second"

definition to_unix :: "instant \<Rightarrow> int" where
  "to_unix t = t div second - 62135596800"

section \<open>Iterating over a map\<close>

definition enumerates :: "'k list \<Rightarrow> ('k \<rightharpoonup> 'v) \<Rightarrow> bool" where
  "enumerates ks m \<longleftrightarrow> distinct ks \<and> set ks = dom m"

lemma enumerates_set: "enumerates ks m \<Longrightarrow> set ks = dom m"
  by (simp add: enumerates_def)

lemma enumerates_distinct: "enumerates ks m \<Longrightarrow> distinct ks"
  by (simp add: enumerates_def)

lemma enumerates_Some: "enumerates ks m \<Longrightarrow> k \<in> set ks \<longleftrightarrow> (\<exists>v. m k = Some v)"
  by (auto simp: enumerates_def)

lemma enumerates_length: "enumerates ks m \<Longrightarrow> length ks = card (dom m)"
  by (metis distinct_card enumerates_def)

lemma enumerates_empty [simp]: "enumerates [] Map.empty"
  by (simp add: enumerates_def)

lemma enumerates_single [simp]: "enumerates [k] [k \<mapsto> v]"
  by (simp add: enumerates_def)

lemma enumerates_pair: "k \<noteq> l \<Longrightarrow> enumerates [k, l] [k \<mapsto> v, l \<mapsto> w]"
  by (auto simp: enumerates_def)

section \<open>Strings\<close>

text \<open>\<open>strings.HasPrefix\<close>, \<open>strings.HasSuffix\<close>, \<open>strings.TrimSuffix\<close>.\<close>

definition has_prefix :: "string \<Rightarrow> string \<Rightarrow> bool" where
  "has_prefix s p = (take (length p) s = p)"

definition has_suffix :: "string \<Rightarrow> string \<Rightarrow> bool" where
  "has_suffix s p = (take (length p) (rev s) = rev p)"

definition trim_suffix :: "string \<Rightarrow> string \<Rightarrow> string" where
  "trim_suffix s p = (if has_suffix s p then take (length s - length p) s else s)"

lemma has_prefix_iff: "has_prefix s p \<longleftrightarrow> (\<exists>r. s = p @ r)"
  by (metis append_eq_conv_conj append_take_drop_id has_prefix_def)

lemma has_suffix_iff: "has_suffix s p \<longleftrightarrow> (\<exists>r. s = r @ p)"
proof -
  have "has_suffix s p \<longleftrightarrow> (\<exists>r. rev s = rev p @ r)"
    using has_prefix_iff [of "rev s" "rev p"] by (simp add: has_prefix_def has_suffix_def)
  also have "\<dots> \<longleftrightarrow> (\<exists>r. s = r @ p)"
    by (metis rev_append rev_rev_ident)
  finally show ?thesis .
qed

lemma has_prefix_append [simp]: "has_prefix (p @ r) p"
  by (simp add: has_prefix_def)

lemma has_suffix_append [simp]: "has_suffix (r @ p) p"
  by (simp add: has_suffix_def)

lemma trim_suffix_append [simp]: "trim_suffix (r @ p) p = r"
  by (simp add: trim_suffix_def)

lemma trim_suffix_self: "has_suffix s p \<Longrightarrow> trim_suffix s p @ p = s"
  by (auto simp: has_suffix_iff)

text \<open>
  \<open>strings.LastIndex\<close> for a one-byte separator: the position of its last occurrence,
  -1 where there is none.
\<close>

fun last_index_from :: "int \<Rightarrow> int \<Rightarrow> string \<Rightarrow> char \<Rightarrow> int" where
  "last_index_from found i [] c = found"
| "last_index_from found i (x # xs) c = last_index_from (if x = c then i else found) (i + 1) xs c"

definition last_index :: "string \<Rightarrow> char \<Rightarrow> int" where
  "last_index s c = last_index_from (- 1) 0 s c"

lemma last_index_from_notin: "c \<notin> set xs \<Longrightarrow> last_index_from f i xs c = f"
  by (induction xs arbitrary: f i) auto

lemma last_index_from_append:
  "last_index_from f i (xs @ ys) c
     = last_index_from (last_index_from f i xs c) (i + int (length xs)) ys c"
  by (induction xs arbitrary: f i) (auto simp: algebra_simps)

lemma last_index_split: "c \<notin> set ys \<Longrightarrow> last_index (xs @ c # ys) c = int (length xs)"
  by (simp add: last_index_def last_index_from_append last_index_from_notin)

lemma last_index_none: "c \<notin> set xs \<Longrightarrow> last_index xs c = - 1"
  by (simp add: last_index_def last_index_from_notin)

lemma last_index_from_bound: "last_index_from f i xs c = f \<or> i \<le> last_index_from f i xs c"
proof (induction xs arbitrary: f i)
  case Nil
  show ?case by simp
next
  case (Cons x xs)
  from Cons.IH [of "if x = c then i else f" "i + 1"] show ?case by (auto split: if_splits)
qed

lemma last_index_in: "0 \<le> last_index s c \<Longrightarrow> \<exists>r. s = take (nat (last_index s c)) s @ c # r"
proof (induction s rule: rev_induct)
  case Nil
  then show ?case by (simp add: last_index_def)
next
  case (snoc x xs)
  have last: "last_index (xs @ [x]) c = (if x = c then int (length xs) else last_index xs c)"
    by (simp add: last_index_def last_index_from_append)
  show ?case
  proof (cases "x = c")
    case True
    with last show ?thesis by simp
  next
    case False
    with snoc last obtain r where r: "xs = take (nat (last_index xs c)) xs @ c # r" by auto
    from r have "length xs = length (take (nat (last_index xs c)) xs) + Suc (length r)"
      by (metis length_Cons length_append)
    then have "nat (last_index xs c) \<le> length xs" by (auto simp: min_def split: if_splits)
    from arg_cong [OF r, of "\<lambda>ys. ys @ [x]"] this
    have "xs @ [x] = take (nat (last_index (xs @ [x]) c)) (xs @ [x]) @ c # (r @ [x])"
      using False last by simp
    then show ?thesis by blast
  qed
qed

text \<open>\<open>strings.Split\<close> on a one-byte separator, and \<open>strings.Trim\<close> with a set of bytes.\<close>

fun split_on :: "char \<Rightarrow> string \<Rightarrow> string list" where
  "split_on c [] = [[]]"
| "split_on c (x # xs) =
     (if x = c then [] # split_on c xs
      else (case split_on c xs of [] \<Rightarrow> [[x]] | p # ps \<Rightarrow> (x # p) # ps))"

definition trim_chars :: "char set \<Rightarrow> string \<Rightarrow> string" where
  "trim_chars cs s = rev (dropWhile (\<lambda>c. c \<in> cs) (rev (dropWhile (\<lambda>c. c \<in> cs) s)))"

lemma split_on_nonempty [simp]: "split_on c s \<noteq> []"
  by (cases s) (auto split: list.splits)

lemma split_on_notin: "c \<notin> set s \<Longrightarrow> split_on c s = [s]"
  by (induction s) auto

lemma split_on_append: "c \<notin> set p \<Longrightarrow> split_on c (p @ c # s) = p # split_on c s"
  by (induction p) (auto split: list.splits)

lemma dropWhile_none: "(\<And>x. x \<in> set xs \<Longrightarrow> \<not> P x) \<Longrightarrow> dropWhile P xs = xs"
  by (cases xs) auto

lemma dropWhile_stops: "dropWhile P xs = [] \<or> \<not> P (hd (dropWhile P xs))"
  using hd_dropWhile [of P xs] by auto

lemma trim_chars_none: "set s \<inter> cs = {} \<Longrightarrow> trim_chars cs s = s"
  unfolding trim_chars_def by (subst dropWhile_none, force)+ simp

text \<open>
  \<open>strings.ToLower\<close> and \<open>strings.TrimSpace\<close> on ASCII: the strings the code compares
  with are ASCII, and bytes outside A-Z are left alone.
\<close>

definition lower_char :: "char \<Rightarrow> char" where
  "lower_char c = (if CHR ''A'' \<le> c \<and> c \<le> CHR ''Z'' then char_of (of_char c + 32 :: nat) else c)"

definition to_lower :: "string \<Rightarrow> string" where
  "to_lower s = map lower_char s"

lemma length_to_lower [simp]: "length (to_lower s) = length s"
  by (simp add: to_lower_def)

definition space_chars :: "char set" where
  "space_chars = {CHR '' '', CHR 0x09, CHR 0x0A, CHR 0x0B, CHR 0x0C, CHR 0x0D}"

definition trim_space :: "string \<Rightarrow> string" where
  "trim_space s = trim_chars space_chars s"

text \<open>\<open>strings.Contains\<close>, and \<open>strings.SplitN(s, c, 2)\<close> for a one-byte separator.\<close>

fun contains :: "string \<Rightarrow> string \<Rightarrow> bool" where
  "contains [] sub = (sub = [])"
| "contains (x # xs) sub = (has_prefix (x # xs) sub \<or> contains xs sub)"

definition split_n2 :: "char \<Rightarrow> string \<Rightarrow> string list" where
  "split_n2 c s = (if c \<in> set s then [takeWhile (\<lambda>x. x \<noteq> c) s, drop 1 (dropWhile (\<lambda>x. x \<noteq> c) s)] else [s])"

text \<open>\<open>strings.Join\<close>.\<close>

fun strings_Join :: "string list \<Rightarrow> string \<Rightarrow> string" where
  "strings_Join [] sep = []"
| "strings_Join [s] sep = s"
| "strings_Join (s # t # rest) sep = s @ sep @ strings_Join (t # rest) sep"

text \<open>Decimal text of an integer, as \<open>%d\<close> and \<open>strconv.FormatInt\<close> print it.\<close>

fun nat_text :: "nat \<Rightarrow> string" where
  "nat_text n =
     (if n < 10 then [char_of (48 + n)] else nat_text (n div 10) @ [char_of (48 + n mod 10)])"

declare nat_text.simps [simp del]

definition int_text :: "int \<Rightarrow> string" where
  "int_text i = (if i < 0 then CHR ''-'' # nat_text (nat (- i)) else nat_text (nat i))"

lemma nat_text_digit: "n < 10 \<Longrightarrow> nat_text n = [char_of (48 + n)]"
  by (simp add: nat_text.simps)

lemma nat_text_step: "10 \<le> n \<Longrightarrow> nat_text n = nat_text (n div 10) @ [char_of (48 + n mod 10)]"
  by (subst nat_text.simps) simp

lemma nat_text_nonempty [simp]: "nat_text n \<noteq> []"
  by (subst nat_text.simps) simp

text \<open>
  The value of \<open>strconv.ParseInt(s, 10, 64)\<close>: 0 on a syntax error; on a range error, which is
  found before any later character is looked at, the nearest \<open>int64\<close>.
\<close>

definition is_digit :: "char \<Rightarrow> bool" where
  "is_digit c \<longleftrightarrow> 48 \<le> (of_char c :: nat) \<and> (of_char c :: nat) \<le> 57"

fun parse_uint :: "nat \<Rightarrow> string \<Rightarrow> nat option" where
  "parse_uint n [] = Some n"
| "parse_uint n (c # cs) =
     (if \<not> is_digit c then None
      else let n1 = 10 * n + (of_char c - 48) in
        if 2 ^ 64 \<le> n1 then Some (2 ^ 64 - 1) else parse_uint n1 cs)"

definition ParseInt10 :: "string \<Rightarrow> int" where
  "ParseInt10 s =
     (case s of [] \<Rightarrow> 0
      | c # cs \<Rightarrow>
          let neg = (c = CHR ''-'');
              digits = (if c = CHR ''+'' \<or> c = CHR ''-'' then cs else s)
          in if digits = [] then 0
             else case parse_uint 0 digits of
               None \<Rightarrow> 0
             | Some un \<Rightarrow>
                 if \<not> neg \<and> 2 ^ 63 \<le> un then 2 ^ 63 - 1
                 else if neg \<and> 2 ^ 63 < un then - (2 ^ 63)
                 else if neg then - int un else int un)"

lemma of_char_digit: "d < 10 \<Longrightarrow> (of_char (char_of (48 + d) :: char) :: nat) = 48 + d"
  by (simp only: of_char_of) simp

lemma parse_uint_snoc:
  "parse_uint a xs = Some b \<Longrightarrow> b < 2 ^ 64 - 1 \<Longrightarrow> d < 10 \<Longrightarrow> 10 * b + d < 2 ^ 64
     \<Longrightarrow> parse_uint a (xs @ [char_of (48 + d)]) = Some (10 * b + d)"
proof (induction xs arbitrary: a)
  case Nil
  then show ?case by (simp add: is_digit_def of_char_digit)
next
  case (Cons x xs)
  then show ?case by (auto simp: Let_def split: if_splits)
qed

lemma parse_uint_nat_text: "n < 2 ^ 64 - 1 \<Longrightarrow> parse_uint 0 (nat_text n) = Some n"
proof (induction n rule: nat_text.induct)
  case (1 n)
  show ?case
  proof (cases "n < 10")
    case True
    then show ?thesis by (simp add: nat_text_digit is_digit_def of_char_digit)
  next
    case False
    with 1 have "parse_uint 0 (nat_text (n div 10)) = Some (n div 10)" by simp
    from parse_uint_snoc [OF this, of "n mod 10"] False 1(2) show ?thesis
      by (simp add: nat_text_step)
  qed
qed

lemma nat_text_digits: "c \<in> set (nat_text n) \<Longrightarrow> is_digit c"
proof (induction n rule: nat_text.induct)
  case (1 n)
  then show ?case
    by (cases "n < 10") (auto simp: nat_text_digit nat_text_step is_digit_def of_char_digit)
qed

lemma ParseInt10_int_text:
  assumes "- (2 ^ 63) \<le> i" and "i < 2 ^ 63"
  shows "ParseInt10 (int_text i) = i"
proof (cases "i < 0")
  case True
  with assms have "nat (- i) < 2 ^ 64 - 1" "nat (- i) \<le> 2 ^ 63" by auto
  with True show ?thesis
    by (simp add: ParseInt10_def int_text_def parse_uint_nat_text Let_def)
next
  case False
  with assms have n: "nat i < 2 ^ 64 - 1" "nat i < 2 ^ 63" by auto
  obtain c cs where t: "nat_text (nat i) = c # cs" by (cases "nat_text (nat i)") auto
  then have "is_digit c" using nat_text_digits [of c "nat i"] by simp
  then have "c \<noteq> CHR ''+'' \<and> c \<noteq> CHR ''-''" by (auto simp: is_digit_def)
  with False n t parse_uint_nat_text [OF n(1)] show ?thesis
    by (simp add: ParseInt10_def int_text_def Let_def)
qed

text \<open>
  \<open>strconv.Quote\<close>, which \<open>%q\<close> prints: quotes, backslashes and control characters are escaped.
  A byte above 127 is kept, as it is inside the printable UTF-8 text the code quotes.
\<close>

definition hex_digit :: "nat \<Rightarrow> char" where
  "hex_digit n = (if n < 10 then char_of (48 + n) else char_of (87 + n))"

definition quote_char :: "char \<Rightarrow> string" where
  "quote_char c = (let n = of_char c :: nat in
     if c = CHR 0x22 then [CHR 0x5C, CHR 0x22]
     else if c = CHR 0x5C then [CHR 0x5C, CHR 0x5C]
     else if n = 7 then CHR 0x5C # ''a'' else if n = 8 then CHR 0x5C # ''b''
     else if n = 9 then CHR 0x5C # ''t'' else if n = 10 then CHR 0x5C # ''n''
     else if n = 11 then CHR 0x5C # ''v'' else if n = 12 then CHR 0x5C # ''f''
     else if n = 13 then CHR 0x5C # ''r''
     else if n < 32 \<or> n = 127 then CHR 0x5C # CHR ''x'' # [hex_digit (n div 16), hex_digit (n mod 16)]
     else [c])"

definition quote :: "string \<Rightarrow> string" where
  "quote s = CHR 0x22 # concat (map quote_char s) @ [CHR 0x22]"

section \<open>Lists, options and sums\<close>

fun first_some :: "('a \<Rightarrow> 'b option) \<Rightarrow> 'a list \<Rightarrow> 'b option" where
  "first_some f [] = None"
| "first_some f (x # xs) = (case f x of Some y \<Rightarrow> Some y | None \<Rightarrow> first_some f xs)"

lemma first_some_None: "first_some f xs = None \<longleftrightarrow> (\<forall>x \<in> set xs. f x = None)"
  by (induction xs) (auto split: option.splits)

lemma first_some_SomeD: "first_some f xs = Some y \<Longrightarrow> \<exists>x \<in> set xs. f x = Some y"
  by (induction xs) (auto split: option.splits)

lemma map_of_same: "distinct ks \<Longrightarrow> map_of (map (\<lambda>k. (k, f k)) ks) k = (if k \<in> set ks then Some (f k) else None)"
  by (induction ks) auto

end
