(* ===== verification/Errors_Core.thy ===== *)
theory Errors_Core
  imports Go_Prelude
begin

text \<open>
  Package \<open>pkg/errors\<close>: the error values (\<open>errors.go\<close>), the chain functions of the
  standard library that \<open>go113.go\<close> re-exports, the code registry (\<open>code.go\<close>) and the
  error text with its formatting (\<open>format.go\<close>).

  The constructors of \<open>gerr\<close> are the struct types of the package. Every allocated error
  carries a \<open>site\<close>: the identity of the new object (pointers compare by it) and the
  program counters that \<open>callers()\<close> recorded. \<open>std\<close> and \<open>std_wrap\<close> are the errors of
  the standard library (\<open>errors.New\<close>, \<open>fmt.Errorf\<close> without and with a wrapped error).
  A format string and its arguments enter as the formatted text.
\<close>

section \<open>Error values\<close>

record site =
  addr :: nat
  pcs :: "nat list"

datatype gerr =
    std site string
  | std_wrap site string gerr
  | fundamental site string
  | withStack site gerr
  | withMessage site gerr string
  | withCode site string int "gerr option"
  | aggregate "gerr list"

fun is_withCode :: "gerr \<Rightarrow> bool" where
  "is_withCode (withCode s m c cause) = True"
| "is_withCode e = False"

definition New :: "site \<Rightarrow> string \<Rightarrow> gerr" where
  "New s message = fundamental s message"

definition Errorf :: "site \<Rightarrow> string \<Rightarrow> gerr" where
  "Errorf s text = fundamental s text"

fun WithStack :: "site \<Rightarrow> gerr option \<Rightarrow> gerr option" where
  "WithStack s None = None"
| "WithStack s (Some (withCode s' m c cause)) = Some (withCode s m c (Some (withCode s' m c cause)))"
| "WithStack s (Some e) = Some (withStack s e)"

text \<open>\<open>Wrap\<close> allocates two objects where the error is not coded: \<open>s1\<close> is the message's.\<close>

fun Wrap :: "site \<Rightarrow> site \<Rightarrow> gerr option \<Rightarrow> string \<Rightarrow> gerr option" where
  "Wrap s1 s None message = None"
| "Wrap s1 s (Some (withCode s' m c cause)) message =
     Some (withCode s message c (Some (withCode s' m c cause)))"
| "Wrap s1 s (Some e) message = Some (withStack s (withMessage s1 e message))"

fun Wrapf :: "site \<Rightarrow> site \<Rightarrow> gerr option \<Rightarrow> string \<Rightarrow> gerr option" where
  "Wrapf s1 s None text = None"
| "Wrapf s1 s (Some (withCode s' m c cause)) text =
     Some (withCode s text c (Some (withCode s' m c cause)))"
| "Wrapf s1 s (Some e) text = Some (withStack s (withMessage s1 e text))"

definition WithMessage :: "site \<Rightarrow> gerr option \<Rightarrow> string \<Rightarrow> gerr option" where
  "WithMessage s err message = (case err of None \<Rightarrow> None | Some e \<Rightarrow> Some (withMessage s e message))"

definition WithMessagef :: "site \<Rightarrow> gerr option \<Rightarrow> string \<Rightarrow> gerr option" where
  "WithMessagef s err text = (case err of None \<Rightarrow> None | Some e \<Rightarrow> Some (withMessage s e text))"

definition WithCode :: "site \<Rightarrow> int \<Rightarrow> string \<Rightarrow> gerr" where
  "WithCode s c text = withCode s text c None"

definition WrapC :: "site \<Rightarrow> gerr option \<Rightarrow> int \<Rightarrow> string \<Rightarrow> gerr option" where
  "WrapC s err c text = (case err of None \<Rightarrow> None | Some e \<Rightarrow> Some (withCode s text c (Some e)))"

lemma WithStack_plain: "\<not> is_withCode e \<Longrightarrow> WithStack s (Some e) = Some (withStack s e)"
  by (cases e) auto

lemma WithStack_code:
  "is_withCode e \<Longrightarrow> \<exists>m c. WithStack s (Some e) = Some (withCode s m c (Some e)) \<and> (\<exists>s' k. e = withCode s' m c k)"
  by (cases e) auto

lemma Wrap_plain:
  "\<not> is_withCode e \<Longrightarrow> Wrap s1 s (Some e) m = Some (withStack s (withMessage s1 e m))"
  by (cases e) auto

lemma Wrap_code:
  "is_withCode e \<Longrightarrow> \<exists>c. Wrap s1 s (Some e) m = Some (withCode s m c (Some e)) \<and> (\<exists>s' m' k. e = withCode s' m' c k)"
  by (cases e) auto

lemma Wrapf_eq_Wrap: "Wrapf s1 s err text = Wrap s1 s err text"
  by (cases "(s1, s, err, text)" rule: Wrap.cases) auto

section \<open>Cause and Unwrap\<close>

text \<open>
  \<open>cause_method\<close> is the result of the \<open>Cause()\<close> method, None where the type has no such
  method; its inner None is a nil cause. The loop of \<open>Cause\<close> stops at either.
\<close>

fun cause_method :: "gerr \<Rightarrow> gerr option option" where
  "cause_method (withStack s e) = Some (Some e)"
| "cause_method (withMessage s e m) = Some (Some e)"
| "cause_method (withCode s m c cause) = Some cause"
| "cause_method e = None"

lemma cause_method_size: "cause_method e = Some (Some e') \<Longrightarrow> size e' < size e"
  by (cases e) auto

function cause_loop :: "gerr \<Rightarrow> gerr" where
  "cause_loop e = (case cause_method e of Some (Some e') \<Rightarrow> cause_loop e' | _ \<Rightarrow> e)"
  by pat_completeness auto
termination
  by (relation "measure size") (auto dest: cause_method_size)

declare cause_loop.simps [simp del]

definition Cause :: "gerr option \<Rightarrow> gerr option" where
  "Cause err = map_option cause_loop err"

text \<open>
  \<open>withStack.Unwrap\<close> forwards to the \<open>Unwrap\<close> of the error it embeds, where that has one.
\<close>

fun has_unwrap :: "gerr \<Rightarrow> bool" where
  "has_unwrap (std s m) = False"
| "has_unwrap (fundamental s m) = False"
| "has_unwrap (aggregate es) = False"
| "has_unwrap e = True"

fun unwrap_method :: "gerr \<Rightarrow> gerr option" where
  "unwrap_method (std_wrap s m e) = Some e"
| "unwrap_method (withStack s e) = (if has_unwrap e then unwrap_method e else Some e)"
| "unwrap_method (withMessage s e m) = Some e"
| "unwrap_method (withCode s m c cause) = cause"
| "unwrap_method e = None"

definition Unwrap :: "gerr option \<Rightarrow> gerr option" where
  "Unwrap err = (case err of None \<Rightarrow> None | Some e \<Rightarrow> unwrap_method e)"

lemma unwrap_method_size: "unwrap_method e = Some e' \<Longrightarrow> size e' < size e"
  by (induction e arbitrary: e' rule: unwrap_method.induct) (fastforce split: if_splits)+

lemma unwrap_method_None: "\<not> has_unwrap e \<Longrightarrow> unwrap_method e = None"
  by (cases e) auto

section \<open>errors.Is and errors.As\<close>

text \<open>
  \<open>aggregate.visit\<close>: nested aggregates are entered, any other element is given to the
  callback, which may keep a state; the first match stops the visit.
\<close>

fun visit :: "(gerr \<Rightarrow> 's \<Rightarrow> bool \<times> 's) \<Rightarrow> gerr list \<Rightarrow> 's \<Rightarrow> bool \<times> 's" where
  "visit f [] s = (False, s)"
| "visit f (aggregate es # rest) s =
     (case visit f es s of (True, s') \<Rightarrow> (True, s') | (False, s') \<Rightarrow> visit f rest s')"
| "visit f (e # rest) s =
     (case f e s of (True, s') \<Rightarrow> (True, s') | (False, s') \<Rightarrow> visit f rest s')"

text \<open>The elements a visit gives to its callback, in order.\<close>

fun leaves :: "gerr list \<Rightarrow> gerr list" where
  "leaves [] = []"
| "leaves (aggregate es # rest) = leaves es @ leaves rest"
| "leaves (e # rest) = e # leaves rest"

fun is_aggregate :: "gerr \<Rightarrow> bool" where
  "is_aggregate (aggregate es) = True"
| "is_aggregate e = False"

lemma leaves_Cons: "\<not> is_aggregate e \<Longrightarrow> leaves (e # rest) = e # leaves rest"
  by (cases e) auto

lemma visit_Cons:
  "\<not> is_aggregate e \<Longrightarrow> visit f (e # rest) s =
     (case f e s of (True, s') \<Rightarrow> (True, s') | (False, s') \<Rightarrow> visit f rest s')"
  by (cases e) auto

lemma leaves_append [simp]: "leaves (xs @ ys) = leaves xs @ leaves ys"
  by (induction xs rule: leaves.induct) auto

lemma leaves_not_aggregate: "e \<in> set (leaves es) \<Longrightarrow> \<not> is_aggregate e"
  by (induction es rule: leaves.induct) auto

lemma leaves_flat: "(\<And>e. e \<in> set es \<Longrightarrow> \<not> is_aggregate e) \<Longrightarrow> leaves es = es"
  by (induction es) (auto simp: leaves_Cons)

lemma leaves_idem [simp]: "leaves (leaves es) = leaves es"
  by (rule leaves_flat) (rule leaves_not_aggregate)

lemma leaves_size: "e \<in> set (leaves es) \<Longrightarrow> size e < Suc (size_list size es)"
  by (induction es rule: leaves.induct) auto

text \<open>A visit is a loop over the leaves.\<close>

lemma visit_cong [fundef_cong]:
  assumes "es = es'" and "s = s'" and "\<And>e s. e \<in> set (leaves es') \<Longrightarrow> f e s = g e s"
  shows "visit f es s = visit g es' s'"
proof -
  have "(\<And>e s. e \<in> set (leaves es) \<Longrightarrow> f e s = g e s) \<Longrightarrow> visit f es s = visit g es s" for es s
    by (induction f es s rule: visit.induct) (auto split: prod.splits bool.splits)
  with assms show ?thesis by blast
qed

lemma visit_leaves: "visit f es s = visit f (leaves es) s"
proof (induction f es s rule: visit.induct)
  case (2 f es rest s)
  have app: "visit f (leaves xs @ ys) s' =
      (case visit f (leaves xs) s' of (True, t) \<Rightarrow> (True, t) | (False, t) \<Rightarrow> visit f ys t)" for xs ys s'
  proof (induction "leaves xs" arbitrary: xs s')
    case Nil
    then show ?case by simp
  next
    case (Cons a as)
    then have "as = leaves as" "\<not> is_aggregate a"
      by (metis leaves_idem leaves_not_aggregate list.set_intros(1) list.sel(3) leaves_flat list.set_intros(2))+
    with Cons.hyps(1) [of as] show ?case
      by (simp add: Cons.hyps(2) [symmetric] visit_Cons split: prod.splits bool.splits)
  qed
  show ?case
    using 2 by (simp add: app split: prod.splits bool.splits)
qed (auto split: prod.splits bool.splits)

lemma visit_stateless:
  "fst (visit (\<lambda>e s. (p e, s)) es s) \<longleftrightarrow> (\<exists>e \<in> set (leaves es). p e)"
proof -
  have "fst (visit f es s) \<longleftrightarrow> (\<exists>e \<in> set (leaves es). p e)" if "\<And>e s. f e s = (p e, s)" for f
    using that by (induction f es s rule: visit.induct) (auto split: prod.splits bool.splits dest: sym)
  then show ?thesis by simp
qed

text \<open>
  \<open>errors.Is\<close>: a comparable target (a pointer) matches by identity, an aggregate by its
  own \<open>Is\<close> method, which asks every error it visits; then the chain goes on by \<open>Unwrap\<close>.
\<close>

definition same_error :: "gerr \<Rightarrow> gerr \<Rightarrow> bool" where
  "same_error e target \<longleftrightarrow> \<not> is_aggregate target \<and> e = target"

function err_is :: "gerr \<Rightarrow> gerr \<Rightarrow> bool" where
  "err_is e target =
     (if same_error e target then True
      else case e of
        aggregate es \<Rightarrow> fst (visit (\<lambda>x u. (err_is x target, u)) es ())
      | _ \<Rightarrow> (case unwrap_method e of None \<Rightarrow> False | Some e' \<Rightarrow> err_is e' target))"
  by pat_completeness auto
termination
  by (relation "measure (\<lambda>(e, t). size e)")
    (auto simp del: unwrap_method.simps dest: leaves_size dest!: unwrap_method_size)

declare err_is.simps [simp del]

definition Is :: "gerr option \<Rightarrow> gerr option \<Rightarrow> bool" where
  "Is err target =
     (case (err, target) of
        (Some e, Some t) \<Rightarrow> err_is e t
      | (None, None) \<Rightarrow> True
      | _ \<Rightarrow> False)"

lemma err_is_refl: "\<not> is_aggregate e \<Longrightarrow> err_is e e"
  by (simp add: err_is.simps same_error_def)

lemma err_is_aggregate: "err_is (aggregate es) t \<longleftrightarrow> (\<exists>e \<in> set (leaves es). err_is e t)"
  by (subst err_is.simps) (auto simp: same_error_def visit_stateless)

lemma err_is_chain:
  "\<not> is_aggregate e \<Longrightarrow>
     err_is e t \<longleftrightarrow> same_error e t \<or> (\<exists>e'. unwrap_method e = Some e' \<and> err_is e' t)"
  by (subst err_is.simps) (cases e; auto split: option.splits)

text \<open>\<open>errors.As\<close> with a \<open>*withCode\<close> target: the first coded error of the chain.\<close>

function as_withCode :: "gerr \<Rightarrow> gerr option" where
  "as_withCode e =
     (if is_withCode e then Some e
      else case unwrap_method e of None \<Rightarrow> None | Some e' \<Rightarrow> as_withCode e')"
  by pat_completeness auto
termination
  by (relation "measure size") (auto dest: unwrap_method_size)

declare as_withCode.simps [simp del]

section \<open>The code registry\<close>

text \<open>
  A \<open>Coder\<close> is an interface: the record holds what its four methods return.
  \<open>defaultCoder\<close> is the implementation of the package.
\<close>

record coder =
  coder_Code :: int
  coder_HTTPStatus :: int
  coder_String :: string
  coder_Reference :: string

record defaultCoder =
  C :: int
  HTTP :: int
  Ext :: string
  Ref :: string

definition HTTPStatus :: "defaultCoder \<Rightarrow> int" where
  "HTTPStatus c = (if HTTP c = 0 then 200 else HTTP c)"

definition as_Coder :: "defaultCoder \<Rightarrow> coder" where
  "as_Coder c =
     \<lparr>coder_Code = C c, coder_HTTPStatus = HTTPStatus c, coder_String = Ext c, coder_Reference = Ref c\<rparr>"

definition unknownCoder :: defaultCoder where
  "unknownCoder = \<lparr>C = 1, HTTP = 500, Ext = ''An internal server error occurred'',
     Ref = ''http://github.com/FangcunMount/component-base/errors/README.md''\<rparr>"

type_synonym registry = "int \<rightharpoonup> coder"

definition init_codes :: registry where
  "init_codes = [coder_Code (as_Coder unknownCoder) \<mapsto> as_Coder unknownCoder]"

datatype registry_panic = ReservedCode | CodeAlreadyExists int

definition Register :: "coder \<Rightarrow> registry \<Rightarrow> registry_panic + registry" where
  "Register c codes =
     (if coder_Code c = 0 then Inl ReservedCode else Inr (codes(coder_Code c \<mapsto> c)))"

definition MustRegister :: "coder \<Rightarrow> registry \<Rightarrow> registry_panic + registry" where
  "MustRegister c codes =
     (if coder_Code c = 0 then Inl ReservedCode
      else case codes (coder_Code c) of
        Some _ \<Rightarrow> Inl (CodeAlreadyExists (coder_Code c))
      | None \<Rightarrow> Inr (codes(coder_Code c \<mapsto> c)))"

definition ParseCoder :: "registry \<Rightarrow> gerr option \<Rightarrow> coder option" where
  "ParseCoder codes err =
     (case err of
        None \<Rightarrow> None
      | Some e \<Rightarrow>
          (case as_withCode e of
             Some (withCode s m c cause) \<Rightarrow>
               (case codes c of Some k \<Rightarrow> Some k | None \<Rightarrow> Some (as_Coder unknownCoder))
           | _ \<Rightarrow> Some (as_Coder unknownCoder)))"

fun is_code :: "gerr \<Rightarrow> int \<Rightarrow> bool" where
  "is_code (withCode s m c cause) k =
     (if c = k then True
      else case cause of Some e \<Rightarrow> is_code e k | None \<Rightarrow> False)"
| "is_code e k = False"

definition IsCode :: "gerr option \<Rightarrow> int \<Rightarrow> bool" where
  "IsCode err k = (case err of None \<Rightarrow> False | Some e \<Rightarrow> is_code e k)"

section \<open>Text and formatting\<close>

text \<open>
  \<open>stack.go\<close>: a \<open>Frame\<close> is a program counter plus one. \<open>func_at\<close> stands for
  \<open>runtime.FuncForPC\<close>: file, line and name of the function, if there is one.
\<close>

type_synonym func_table = "nat \<Rightarrow> (string \<times> int \<times> string) option"

definition frame_file :: "func_table \<Rightarrow> nat \<Rightarrow> string" where
  "frame_file func_at f = (case func_at (f - 1) of None \<Rightarrow> ''unknown'' | Some (file, line, name) \<Rightarrow> file)"

definition frame_line :: "func_table \<Rightarrow> nat \<Rightarrow> int" where
  "frame_line func_at f = (case func_at (f - 1) of None \<Rightarrow> 0 | Some (file, line, name) \<Rightarrow> line)"

definition frame_name :: "func_table \<Rightarrow> nat \<Rightarrow> string" where
  "frame_name func_at f = (case func_at (f - 1) of None \<Rightarrow> ''unknown'' | Some (file, line, name) \<Rightarrow> name)"

text \<open>The text of a coded error: its registered text, its own message where that is empty.\<close>

definition code_of :: "registry \<Rightarrow> int \<Rightarrow> coder" where
  "code_of codes c = (case codes c of None \<Rightarrow> as_Coder unknownCoder | Some k \<Rightarrow> k)"

definition code_message :: "registry \<Rightarrow> string \<Rightarrow> int \<Rightarrow> string" where
  "code_message codes m c =
     (let extMsg = coder_String (code_of codes c) in if extMsg = [] then m else extMsg)"

definition line_chars :: "char set" where
  "line_chars = {CHR 0x0D, CHR 0x0A, CHR 0x09}"

text \<open>
  \<open>Error()\<close> of every type. The callback of \<open>aggregate.Error\<close> keeps the messages it has
  seen and the text built so far, and never stops the visit.
\<close>

definition add_message :: "string \<Rightarrow> string set \<times> string \<Rightarrow> string set \<times> string" where
  "add_message msg st =
     (case st of (seenerrs, result) \<Rightarrow>
        if msg \<in> seenerrs then (seenerrs, result)
        else (insert msg seenerrs,
              (if seenerrs = {} then result else result @ '', '') @ msg))"

definition close_messages :: "string set \<times> string \<Rightarrow> string" where
  "close_messages st =
     (case st of (seenerrs, result) \<Rightarrow>
        if card seenerrs = 1 then result else ''['' @ result @ '']'')"

function Error :: "registry \<Rightarrow> gerr \<Rightarrow> string" where
  "Error codes (std s m) = m"
| "Error codes (std_wrap s m e) = m"
| "Error codes (fundamental s m) = m"
| "Error codes (withStack s e) = Error codes e"
| "Error codes (withMessage s e m) = m"
| "Error codes (withCode s m c cause) = trim_chars line_chars (code_message codes m c)"
| "Error codes (aggregate []) = []"
| "Error codes (aggregate [e]) = Error codes e"
| "Error codes (aggregate (e1 # e2 # es)) =
     close_messages (snd
       (visit (\<lambda>e st. (False, add_message (Error codes e) st)) (e1 # e2 # es) ({}, [])))"
  by pat_completeness auto
termination
  by (relation "measure (\<lambda>(cs, e). size e)") (auto simp del: leaves.simps dest: leaves_size)

section \<open>Lemmas\<close>

lemma cause_loop_step [simp]:
  "cause_loop (withStack s e) = cause_loop e"
  "cause_loop (withMessage s e m) = cause_loop e"
  "cause_loop (withCode s m c (Some e)) = cause_loop e"
  by (subst cause_loop.simps, simp)+

lemma cause_loop_stop: "cause_method (cause_loop e) \<in> {None, Some None}"
  by (induction e rule: cause_loop.induct) (subst cause_loop.simps, auto split: option.splits)

lemma same_error_size: "same_error e t \<Longrightarrow> size t \<le> size e"
  by (auto simp: same_error_def)

lemma err_is_size: "err_is e t \<Longrightarrow> size t \<le> size e"
proof (induction e arbitrary: t rule: measure_induct_rule [where f = size])
  case (less e)
  show ?case
  proof (cases "is_aggregate e")
    case True
    then obtain es where e: "e = aggregate es" by (cases e) auto
    with less.prems obtain x where "x \<in> set (leaves es)" "err_is x t"
      by (auto simp: err_is_aggregate)
    with less.IH [of x t] e show ?thesis by (fastforce dest: leaves_size)
  next
    case False
    with less.prems consider "same_error e t"
      | e' where "unwrap_method e = Some e'" "err_is e' t"
      by (auto simp: err_is_chain)
    then show ?thesis
      by cases (auto dest: same_error_size unwrap_method_size intro: less.IH order_trans less_imp_le)
  qed
qed

lemma unwrap_has: "unwrap_method e = Some e' \<Longrightarrow> has_unwrap e"
  by (cases e) auto

lemma as_withCode_unwrap:
  "\<not> is_withCode e \<Longrightarrow> as_withCode e = Option.bind (unwrap_method e) as_withCode"
  by (subst as_withCode.simps) (auto split: option.splits)

lemma as_withCode_coded [simp]: "is_withCode e \<Longrightarrow> as_withCode e = Some e"
  by (subst as_withCode.simps) simp

lemma as_withCode_withMessage [simp]: "as_withCode (withMessage s e m) = as_withCode e"
  by (subst as_withCode.simps) simp

lemma as_withCode_withStack [simp]: "\<not> is_withCode e \<Longrightarrow> as_withCode (withStack s e) = as_withCode e"
  by (cases "has_unwrap e") (auto simp: as_withCode_unwrap unwrap_method_None)

lemma as_withCode_is_withCode: "as_withCode e = Some x \<Longrightarrow> is_withCode x"
  by (induction e rule: as_withCode.induct)
    (subst (asm) (2) as_withCode.simps, auto split: if_splits option.splits)

lemmas annotate_simps = WithMessage_def WithMessagef_def WrapC_def Wrapf_eq_Wrap

lemma ParseCoder_plain: "ParseCoder codes (Some e) =
    Some (case as_withCode e of Some (withCode s m c cause) \<Rightarrow> code_of codes c | _ \<Rightarrow> as_Coder unknownCoder)"
  by (auto simp: ParseCoder_def code_of_def split: option.splits gerr.splits)

lemma ParseCoder_coded [simp]: "ParseCoder codes (Some (withCode s m c cause)) = Some (code_of codes c)"
  by (simp add: ParseCoder_plain)

section \<open>Properties\<close>

text \<open>
  Annotating an error, with a stack, a message or both, never changes the coder that
  \<open>ParseCoder\<close> finds for it, whatever the registry holds; nil stays nil.
\<close>
theorem annotations_keep_ParseCoder:
  "ParseCoder codes (WithStack s err) = ParseCoder codes err
   \<and> ParseCoder codes (Wrap s1 s err m) = ParseCoder codes err
   \<and> ParseCoder codes (Wrapf s1 s err m) = ParseCoder codes err
   \<and> ParseCoder codes (WithMessage s err m) = ParseCoder codes err"
proof (cases err)
  case None
  then show ?thesis by (simp add: annotate_simps ParseCoder_def)
next
  case (Some e)
  show ?thesis
  proof (cases "is_withCode e")
    case True
    with Some show ?thesis by (cases e) (auto simp: annotate_simps ParseCoder_plain)
  next
    case False
    with Some show ?thesis
      by (simp add: annotate_simps WithStack_plain Wrap_plain ParseCoder_plain)
  qed
qed

text \<open>
  \<open>Cause\<close> returns the root of an error: it sees through every annotation
  (\<open>WithStack\<close>, \<open>Wrap\<close>, \<open>WithMessage\<close>, \<open>WrapC\<close>), and what it returns has no cause left.
\<close>
theorem Cause_finds_the_root:
  "Cause (WithStack s err) = Cause err
   \<and> Cause (Wrap s1 s err m) = Cause err
   \<and> Cause (WithMessage s err m) = Cause err
   \<and> Cause (WrapC s err c m) = Cause err
   \<and> (case Cause err of None \<Rightarrow> err = None | Some e \<Rightarrow> cause_method e \<in> {None, Some None})"
proof (cases err)
  case None
  then show ?thesis by (simp add: annotate_simps Cause_def)
next
  case (Some e)
  with cause_loop_stop [of e] show ?thesis
    by (cases "is_withCode e"; cases e) (auto simp: annotate_simps Cause_def)
qed

text \<open>
  Wrapping keeps what \<open>errors.Is\<close> answers: every target that matched an error still
  matches it behind \<open>Wrap\<close>, \<open>WithMessage\<close> and \<open>WrapC\<close>.
\<close>
theorem wrapping_keeps_Is:
  assumes "Is (Some e) (Some t)"
  shows "Is (Wrap s1 s (Some e) m) (Some t)
    \<and> Is (WithMessage s (Some e) m) (Some t)
    \<and> Is (WrapC s (Some e) c m) (Some t)"
proof -
  have chain: "unwrap_method x = Some e \<Longrightarrow> \<not> is_aggregate x \<Longrightarrow> err_is x t" for x
    using assms by (auto simp: Is_def err_is_chain)
  show ?thesis
  proof (cases "is_withCode e")
    case True
    with Wrap_code [OF True, of s1 s m] chain show ?thesis
      by (auto simp: annotate_simps Is_def)
  next
    case False
    from chain have "err_is (withStack s (withMessage s1 e m)) t" by simp
    with False chain show ?thesis
      by (simp add: annotate_simps Wrap_plain Is_def)
  qed
qed

theorem wrapping_keeps_Is_witness:
  "Is (Wrap \<lparr>addr = 1, pcs = []\<rparr> \<lparr>addr = 2, pcs = []\<rparr> (Some (std \<lparr>addr = 0, pcs = []\<rparr> ''EOF'')) ''read'')
      (Some (std \<lparr>addr = 0, pcs = []\<rparr> ''EOF''))"
proof -
  let ?e = "std \<lparr>addr = 0, pcs = []\<rparr> ''EOF''"
  have "Is (Some ?e) (Some ?e)" by (simp add: Is_def err_is_refl)
  from wrapping_keeps_Is [OF this] show ?thesis by blast
qed

text \<open>
  \<open>WithStack\<close> alone does not: where the annotated error has an \<open>Unwrap\<close> of its own
  and carries no code, \<open>withStack.Unwrap\<close> skips it, and \<open>errors.Is\<close> no longer finds it.
\<close>
theorem WithStack_hides_from_Is:
  assumes "has_unwrap e" and "\<not> is_withCode e"
  shows "Is (Some e) (Some e) \<and> \<not> Is (WithStack s (Some e)) (Some e)"
proof -
  from assms have agg: "\<not> is_aggregate e" by (cases e) auto
  have "\<not> err_is (withStack s e) e"
  proof
    assume "err_is (withStack s e) e"
    with assms obtain e' where "unwrap_method e = Some e'" "err_is e' e"
      by (auto simp: err_is_chain same_error_def)
    then show False by (auto dest!: err_is_size unwrap_method_size)
  qed
  with assms agg show ?thesis by (simp add: Is_def WithStack_plain err_is_refl)
qed

theorem WithStack_hides_from_Is_witness:
  "\<not> Is (WithStack \<lparr>addr = 2, pcs = []\<rparr>
        (Some (withMessage \<lparr>addr = 1, pcs = []\<rparr> (std \<lparr>addr = 0, pcs = []\<rparr> ''EOF'') ''read'')))
      (Some (withMessage \<lparr>addr = 1, pcs = []\<rparr> (std \<lparr>addr = 0, pcs = []\<rparr> ''EOF'') ''read''))"
  using WithStack_hides_from_Is
    [of "withMessage \<lparr>addr = 1, pcs = []\<rparr> (std \<lparr>addr = 0, pcs = []\<rparr> ''EOF'') ''read''"
      "\<lparr>addr = 2, pcs = []\<rparr>"] by simp

text \<open>
  \<open>IsCode\<close> sees only the coded errors at the head of the chain. A message around a
  coded error hides its code from \<open>IsCode\<close>, although the chain still holds it and
  \<open>ParseCoder\<close> still finds it; \<open>WrapC\<close> keeps both codes visible.
\<close>
lemma IsCode_stops_at_messages:
  "\<not> IsCode (WithMessage s (Some (WithCode s' c text)) m) c
   \<and> ParseCoder codes (WithMessage s (Some (WithCode s' c text)) m) = Some (code_of codes c)
   \<and> IsCode (WrapC s (Some (WithCode s' c text)) d m) c
   \<and> IsCode (WrapC s (Some (WithCode s' c text)) d m) d"
  by (simp add: IsCode_def WithMessage_def WithCode_def WrapC_def ParseCoder_plain)

text \<open>
  Registering a coder makes its code resolve to it and no other code change;
  \<open>MustRegister\<close> panics on a taken code instead of replacing it, and code 0 is refused.
\<close>
lemma registration:
  "(case Register k codes of
      Inl p \<Rightarrow> coder_Code k = 0 \<and> p = ReservedCode
    | Inr codes' \<Rightarrow> coder_Code k \<noteq> 0
        \<and> ParseCoder codes' (Some (WithCode s (coder_Code k) m)) = Some k
        \<and> (\<forall>c. c = coder_Code k \<or> codes' c = codes c))
   \<and> (case MustRegister k codes of
      Inl p \<Rightarrow> (case p of ReservedCode \<Rightarrow> coder_Code k = 0
               | CodeAlreadyExists c \<Rightarrow> c = coder_Code k \<and> (\<exists>k'. codes c = Some k'))
    | Inr codes' \<Rightarrow> codes (coder_Code k) = None \<and> Register k codes = Inr codes' \<and> codes \<subseteq>\<^sub>m codes')"
  by (auto simp: Register_def MustRegister_def WithCode_def code_of_def map_le_def split: option.splits)

end
