(* ===== verification/Errors_Sets.thy ===== *)
theory Errors_Sets
  imports Go_Prelude
begin

text \<open>
  \<open>pkg/errors/sets.go\<close>: the string set that \<open>aggregate.Error\<close> deduplicates with. The Go
  type is \<open>map[string]Empty\<close>, here the set of its keys; methods that range over a map take
  the visiting order. Methods that change their receiver return the changed set.
\<close>

section \<open>Operations\<close>

fun Insert :: "string set \<Rightarrow> string list \<Rightarrow> string set" where
  "Insert s [] = s"
| "Insert s (item # items) = Insert (insert item s) items"

definition NewString :: "string list \<Rightarrow> string set" where
  "NewString items = Insert {} items"

fun Delete :: "string set \<Rightarrow> string list \<Rightarrow> string set" where
  "Delete s [] = s"
| "Delete s (item # items) = Delete (s - {item}) items"

definition Has :: "string set \<Rightarrow> string \<Rightarrow> bool" where
  "Has s item \<longleftrightarrow> item \<in> s"

fun HasAll :: "string set \<Rightarrow> string list \<Rightarrow> bool" where
  "HasAll s [] = True"
| "HasAll s (item # items) = (if \<not> Has s item then False else HasAll s items)"

fun HasAny :: "string set \<Rightarrow> string list \<Rightarrow> bool" where
  "HasAny s [] = False"
| "HasAny s (item # items) = (if Has s item then True else HasAny s items)"

definition Len :: "string set \<Rightarrow> nat" where
  "Len s = card s"

text \<open>The loops of \<open>Difference\<close>, \<open>Union\<close> and \<open>Intersection\<close> over the keys of a map.\<close>

fun insert_where :: "(string \<Rightarrow> bool) \<Rightarrow> string list \<Rightarrow> string set \<Rightarrow> string set" where
  "insert_where p [] result = result"
| "insert_where p (key # keys) result =
     insert_where p keys (if p key then Insert result [key] else result)"

definition Difference :: "string list \<Rightarrow> string set \<Rightarrow> string set" where
  "Difference keys s2 = insert_where (\<lambda>key. \<not> Has s2 key) keys (NewString [])"

definition Union :: "string list \<Rightarrow> string list \<Rightarrow> string set" where
  "Union keys keys2 =
     insert_where (\<lambda>_. True) keys2 (insert_where (\<lambda>_. True) keys (NewString []))"

definition Intersection :: "string list \<Rightarrow> string set \<Rightarrow> string list \<Rightarrow> string set \<Rightarrow> string set" where
  "Intersection keys s keys2 s2 =
     (if Len s < Len s2 then insert_where (Has s2) keys (NewString [])
      else insert_where (Has s) keys2 (NewString []))"

fun IsSuperset :: "string set \<Rightarrow> string list \<Rightarrow> bool" where
  "IsSuperset s [] = True"
| "IsSuperset s (item # keys2) = (if \<not> Has s item then False else IsSuperset s keys2)"

definition Equal :: "string set \<Rightarrow> string set \<Rightarrow> string list \<Rightarrow> bool" where
  "Equal s s2 keys2 \<longleftrightarrow> Len s = Len s2 \<and> IsSuperset s keys2"

text \<open>\<open>sort.Sort\<close> with \<open>Less\<close> the order of strings, byte by byte.\<close>

definition lessString :: "string \<Rightarrow> string \<Rightarrow> bool" where
  "lessString lhs rhs \<longleftrightarrow> lhs < rhs"

fun UnsortedList :: "string list \<Rightarrow> string list" where
  "UnsortedList [] = []"
| "UnsortedList (key # keys) = key # UnsortedList keys"

definition List :: "string list \<Rightarrow> string list" where
  "List keys = sort (UnsortedList keys)"

definition PopAny :: "string list \<Rightarrow> string set \<Rightarrow> (string \<times> bool) \<times> string set" where
  "PopAny keys s = (case keys of [] \<Rightarrow> (([], False), s) | key # _ \<Rightarrow> ((key, True), Delete s [key]))"

section \<open>Lemmas\<close>

definition ranges :: "string list \<Rightarrow> string set \<Rightarrow> bool" where
  "ranges keys s \<longleftrightarrow> distinct keys \<and> set keys = s"

lemma Insert_eq [simp]: "Insert s items = s \<union> set items"
  by (induction s items rule: Insert.induct) auto

lemma Delete_eq [simp]: "Delete s items = s - set items"
  by (induction s items rule: Delete.induct) auto

lemma HasAll_iff [simp]: "HasAll s items \<longleftrightarrow> set items \<subseteq> s"
  by (induction s items rule: HasAll.induct) (auto simp: Has_def)

lemma HasAny_iff [simp]: "HasAny s items \<longleftrightarrow> set items \<inter> s \<noteq> {}"
  by (induction s items rule: HasAny.induct) (auto simp: Has_def)

lemma IsSuperset_iff [simp]: "IsSuperset s keys2 \<longleftrightarrow> set keys2 \<subseteq> s"
  by (induction s keys2 rule: IsSuperset.induct) (auto simp: Has_def)

lemma insert_where_eq [simp]: "insert_where p keys result = result \<union> {k \<in> set keys. p k}"
  by (induction p keys result rule: insert_where.induct) auto

lemma UnsortedList_eq [simp]: "UnsortedList keys = keys"
  by (induction keys) auto

lemma NewString_eq [simp]: "NewString items = set items"
  by (simp add: NewString_def)

section \<open>Properties\<close>

text \<open>
  Whatever order the maps are visited in, the set operations compute the operations on
  sets they are named after: difference, union, intersection (walking the smaller set),
  superset and equality; and \<open>List\<close> is the sorted list of the elements, each once.
\<close>
theorem set_operations:
  assumes "ranges keys s" and "ranges keys2 s2"
  shows "Difference keys s2 = s - s2
    \<and> Union keys keys2 = s \<union> s2
    \<and> Intersection keys s keys2 s2 = s \<inter> s2
    \<and> (IsSuperset s keys2 \<longleftrightarrow> s2 \<subseteq> s)
    \<and> (Equal s s2 keys2 \<longleftrightarrow> s = s2)
    \<and> List keys = sorted_list_of_set s"
proof -
  from assms have fin: "finite s" "finite s2" and sets: "set keys = s" "set keys2 = s2"
    and dist: "distinct keys" by (auto simp: ranges_def)
  have equal: "Equal s s2 keys2 \<longleftrightarrow> s = s2"
    unfolding Equal_def Len_def IsSuperset_iff sets
    using fin(1) card_subset_eq [of s s2] by fastforce
  have "sorted_list_of_set (set keys) = sort (remdups keys)"
    by (rule sorted_list_of_set_sort_remdups)
  with dist sets have list: "List keys = sorted_list_of_set s"
    by (simp add: List_def distinct_remdups_id)
  show ?thesis
    unfolding equal list using sets
    by (auto simp: Difference_def Union_def Intersection_def Has_def)
qed

theorem set_operations_witness:
  "Difference [''b'', ''a''] {''b''} = {''a'', ''b''} - {''b''}
   \<and> List [''b'', ''a''] = sorted_list_of_set {''a'', ''b''}"
  using set_operations [of "[''b'', ''a'']" "{''a'', ''b''}" "[''b'']" "{''b''}"]
  by (auto simp: ranges_def)

end
