(* ===== verification/Errors_Aggregate.thy ===== *)
theory Errors_Aggregate
  imports Errors_Core Errors_Sets "HOL-Library.Multiset"
begin

text \<open>
  \<open>pkg/errors/aggregate.go\<close>: building, filtering, flattening and printing aggregates of
  errors. \<open>aggregate\<close> is the only implementation of the \<open>Aggregate\<close> interface in the
  repository; its elements are not nil, because only \<open>NewAggregate\<close> builds one.
\<close>

section \<open>Operations\<close>

definition NewAggregate :: "gerr option list \<Rightarrow> gerr option" where
  "NewAggregate errlist =
     (if errlist = [] then None
      else let errs = map the (filter (\<lambda>e. e \<noteq> None) errlist)
        in if errs = [] then None else Some (aggregate errs))"

fun matchesError :: "gerr \<Rightarrow> (gerr \<Rightarrow> bool) list \<Rightarrow> bool" where
  "matchesError err [] = False"
| "matchesError err (fn # fns) = (if fn err then True else matchesError err fns)"

text \<open>\<open>FilterOut\<close> of an error that is not nil, and its loop over an aggregate.\<close>

fun filter_out :: "(gerr \<Rightarrow> bool) list \<Rightarrow> gerr \<Rightarrow> gerr option"
  and filterErrors :: "(gerr \<Rightarrow> bool) list \<Rightarrow> gerr list \<Rightarrow> gerr list" where
  "filter_out fns err =
     (case err of
        aggregate es \<Rightarrow> NewAggregate (map Some (filterErrors fns es))
      | _ \<Rightarrow> (if \<not> matchesError err fns then Some err else None))"
| "filterErrors fns [] = []"
| "filterErrors fns (err # rest) =
     (case filter_out fns err of None \<Rightarrow> [] | Some r \<Rightarrow> [r]) @ filterErrors fns rest"

definition FilterOut :: "gerr option \<Rightarrow> (gerr \<Rightarrow> bool) list \<Rightarrow> gerr option" where
  "FilterOut err fns = (case err of None \<Rightarrow> None | Some e \<Rightarrow> filter_out fns e)"

fun Errors :: "gerr option \<Rightarrow> gerr list" where
  "Errors (Some (aggregate es)) = es"
| "Errors e = []"

fun flatten :: "gerr list \<Rightarrow> gerr option"
  and flatten_loop :: "gerr list \<Rightarrow> gerr list" where
  "flatten es = NewAggregate (map Some (flatten_loop es))"
| "flatten_loop [] = []"
| "flatten_loop (err # rest) =
     (case err of
        aggregate es \<Rightarrow> (case flatten es of None \<Rightarrow> [] | Some r \<Rightarrow> Errors (Some r))
      | _ \<Rightarrow> [err]) @ flatten_loop rest"

definition Flatten :: "gerr list option \<Rightarrow> gerr option" where
  "Flatten agg = (case agg of None \<Rightarrow> None | Some es \<Rightarrow> flatten es)"

fun Reduce :: "gerr option \<Rightarrow> gerr option" where
  "Reduce (Some (aggregate [e])) = Some e"
| "Reduce (Some (aggregate [])) = None"
| "Reduce err = err"

text \<open>
  \<open>CreateAggregateFromMessageCountMap\<close>: \<open>keys\<close> is the order the map is visited in, \<open>at\<close>
  the object allocated for a message.
\<close>

definition count_text :: "int \<Rightarrow> string" where
  "count_text n = (if n > 1 then '' (repeated '' @ int_text n @ '' times)'' else [])"

definition CreateAggregateFromMessageCountMap ::
    "(string \<Rightarrow> site) \<Rightarrow> string list \<Rightarrow> (string \<rightharpoonup> int) option \<Rightarrow> gerr option" where
  "CreateAggregateFromMessageCountMap at keys m =
     (case m of
        None \<Rightarrow> None
      | Some counts \<Rightarrow>
          NewAggregate (map (\<lambda>errStr. Some (std (at errStr)
            (errStr @ count_text (case counts errStr of Some n \<Rightarrow> n | None \<Rightarrow> 0)))) keys))"

text \<open>
  \<open>AggregateGoroutines\<close>: \<open>results\<close> are the returned errors, \<open>order\<close> the indices in the
  order the goroutines send on the channel.
\<close>

fun receive :: "gerr option list \<Rightarrow> gerr option list \<Rightarrow> gerr option list" where
  "receive [] errs = errs"
| "receive (err # sent) errs = receive sent (if err \<noteq> None then errs @ [err] else errs)"

definition AggregateGoroutines :: "gerr option list \<Rightarrow> nat list \<Rightarrow> gerr option" where
  "AggregateGoroutines results order = NewAggregate (receive (map (\<lambda>i. results ! i) order) [])"

section \<open>Lemmas\<close>

lemma NewAggregate_Some: "NewAggregate (map Some es) = (if es = [] then None else Some (aggregate es))"
  by (simp add: NewAggregate_def filter_map comp_def)

lemma NewAggregate_None_iff: "NewAggregate errlist = None \<longleftrightarrow> set errlist \<subseteq> {None}"
  by (auto simp: NewAggregate_def filter_empty_conv)

lemma matchesError_iff: "matchesError err fns \<longleftrightarrow> (\<exists>fn \<in> set fns. fn err)"
  by (induction err fns rule: matchesError.induct) auto

text \<open>The leaves of an error that may be nil.\<close>

definition leaves_of :: "gerr option \<Rightarrow> gerr list" where
  "leaves_of err = (case err of None \<Rightarrow> [] | Some e \<Rightarrow> leaves [e])"

lemma leaves_of_simps [simp]:
  "leaves_of None = []" "leaves_of (Some e) = leaves [e]"
  by (simp_all add: leaves_of_def)

lemma leaves_of_NewAggregate [simp]: "leaves_of (NewAggregate (map Some es)) = leaves es"
  by (simp add: NewAggregate_Some)

lemma leaves_Cons_append: "leaves (e # es) = leaves [e] @ leaves es"
  by (cases e) auto

lemma leaves_plain [simp]: "\<not> is_aggregate e \<Longrightarrow> leaves [e] = [e]"
  by (cases e) auto

lemma filter_out_leaves:
  "leaves_of (filter_out fns e) = filter (\<lambda>e. \<not> matchesError e fns) (leaves [e])"
  "leaves (filterErrors fns es) = filter (\<lambda>e. \<not> matchesError e fns) (leaves es)"
proof (induction fns e and fns es rule: filter_out_filterErrors.induct)
  case (1 fns err)
  then show ?case by (cases err) auto
next
  case (3 fns err rest)
  then show ?case
    by (subst leaves_Cons_append)
      (auto simp del: filter_out.simps leaves.simps(2,3) split: option.splits)
qed simp

lemma flatten_leaves:
  "flatten es = (if leaves es = [] then None else Some (aggregate (leaves es)))"
  "flatten_loop es' = leaves es'"
proof (induction es and es' rule: flatten_flatten_loop.induct)
  case (1 es)
  then show ?case by (simp add: NewAggregate_Some)
next
  case (3 err rest)
  then show ?case by (cases err) auto
qed simp

lemma receive_eq: "receive sent errs = errs @ filter (\<lambda>e. e \<noteq> None) sent"
  by (induction sent errs rule: receive.induct) auto

text \<open>
  The text of an aggregate as a function of the messages of its leaves: each message once,
  at its first occurrence, in brackets unless there is only one.
\<close>

definition first_occurrences :: "'a list \<Rightarrow> 'a list" where
  "first_occurrences xs = rev (remdups (rev xs))"

fun join_comma :: "string list \<Rightarrow> string" where
  "join_comma [] = []"
| "join_comma [x] = x"
| "join_comma (x # y # zs) = x @ '', '' @ join_comma (y # zs)"

definition render :: "string list \<Rightarrow> string" where
  "render msgs =
     (case first_occurrences msgs of
        [m] \<Rightarrow> m
      | ms \<Rightarrow> ''['' @ join_comma ms @ '']'')"

lemma first_occurrences_snoc:
  "first_occurrences (xs @ [x]) = (if x \<in> set xs then first_occurrences xs else first_occurrences xs @ [x])"
  by (simp add: first_occurrences_def)

lemma set_first_occurrences [simp]: "set (first_occurrences xs) = set xs"
  by (simp add: first_occurrences_def)

lemma distinct_first_occurrences [simp]: "distinct (first_occurrences xs)"
  by (simp add: first_occurrences_def)

lemma join_comma_snoc: "join_comma (xs @ [x]) = (if xs = [] then x else join_comma xs @ '', '' @ x)"
  by (induction xs rule: join_comma.induct) auto

lemma fold_add_message:
  "foldl (\<lambda>st m. add_message m st) ({}, []) msgs = (set msgs, join_comma (first_occurrences msgs))"
proof (induction msgs rule: rev_induct)
  case Nil
  then show ?case by (simp add: first_occurrences_def)
next
  case (snoc x xs)
  have "first_occurrences xs = [] \<longleftrightarrow> xs = []"
    by (simp add: first_occurrences_def)
  with snoc show ?case
    by (auto simp: add_message_def first_occurrences_snoc join_comma_snoc)
qed

lemma visit_never_stops:
  "snd (visit (\<lambda>e st. (False, g e st)) es s) = foldl (\<lambda>st e. g e st) s (leaves es)"
proof -
  have "visit f es s = (False, foldl (\<lambda>st e. g e st) s (leaves es))" if "\<And>e s. f e s = (False, g e s)" for f
    using that by (induction f es s rule: visit.induct) auto
  then show ?thesis by simp
qed

lemma foldl_map_arg: "foldl (\<lambda>st e. h (f e) st) s es = foldl (\<lambda>st m. h m st) s (map f es)"
  by (induction es arbitrary: s) auto

lemma close_messages_render:
  "close_messages (set msgs, join_comma (first_occurrences msgs)) = render msgs"
proof -
  have len: "length (first_occurrences msgs) = card (set msgs)"
    by (metis distinct_card distinct_first_occurrences set_first_occurrences)
  show ?thesis
  proof (cases "card (set msgs) = 1")
    case True
    with len obtain m where "first_occurrences msgs = [m]"
      by (metis One_nat_def length_0_conv length_Suc_conv)
    with True show ?thesis by (simp add: close_messages_def render_def)
  next
    case False
    with len show ?thesis
      by (auto simp: close_messages_def render_def split: list.splits)
  qed
qed

lemma render_single [simp]: "render [m] = m"
  by (simp add: render_def first_occurrences_def)

lemma Error_leaves:
  "leaves es \<noteq> [] \<Longrightarrow> Error codes (aggregate es) = render (map (Error codes) (leaves es))"
proof (induction "size_list size es" arbitrary: es rule: less_induct)
  case less
  then consider e where "es = [e]" | e1 e2 rest where "es = e1 # e2 # rest"
    by (cases es rule: remdups_adj.cases) auto
  then show ?case
  proof cases
    case 1
    with less show ?thesis by (cases e) auto
  next
    case 2
    show ?thesis
      by (simp only: 2 Error.simps visit_never_stops foldl_map_arg [of add_message "Error codes"]
        fold_add_message close_messages_render)
  qed
qed

section \<open>Properties\<close>

text \<open>
  \<open>Flatten\<close> turns any nesting of aggregates into one level: the result holds exactly
  the non-aggregate errors, in the order they are nested, none of them an aggregate; it is
  nil just when there is none, and its text is the text of the nested aggregate.
\<close>
theorem Flatten_flattens:
  "Flatten (Some es) = (if leaves es = [] then None else Some (aggregate (leaves es)))
   \<and> Flatten None = None
   \<and> (\<forall>e \<in> set (Errors (Flatten (Some es))). \<not> is_aggregate e)
   \<and> (case Flatten (Some es) of None \<Rightarrow> True | Some agg \<Rightarrow> Error codes agg = Error codes (aggregate es))"
  using Error_leaves [of es codes] Error_leaves [of "leaves es" codes]
  by (auto simp: Flatten_def flatten_leaves simp del: flatten.simps dest: leaves_not_aggregate)

theorem Flatten_flattens_witness:
  "Flatten (Some [aggregate [std \<lparr>addr = 0, pcs = []\<rparr> ''a''], std \<lparr>addr = 1, pcs = []\<rparr> ''b''])
     = Some (aggregate [std \<lparr>addr = 0, pcs = []\<rparr> ''a'', std \<lparr>addr = 1, pcs = []\<rparr> ''b''])"
  using Flatten_flattens
    [of "[aggregate [std \<lparr>addr = 0, pcs = []\<rparr> ''a''], std \<lparr>addr = 1, pcs = []\<rparr> ''b'']" Map.empty]
  by simp

text \<open>
  \<open>FilterOut\<close> keeps, in order, exactly the non-aggregate errors that no matcher
  accepts; the result is nil when the matchers accept them all. Aggregates themselves are
  never given to a matcher.
\<close>
theorem FilterOut_keeps_unmatched:
  "leaves_of (FilterOut err fns) = filter (\<lambda>e. \<not> list_ex (\<lambda>fn. fn e) fns) (leaves_of err)"
  by (cases err)
    (simp_all add: FilterOut_def filter_out_leaves matchesError_iff list_ex_iff del: filter_out.simps)

text \<open>
  The text of an aggregate lists the messages of its nested errors, each distinct
  message once in the order of first occurrence, separated by commas, in brackets unless
  only one message is left.
\<close>
theorem aggregate_text:
  assumes "leaves es \<noteq> []"
  shows "Error codes (aggregate es) = render (map (Error codes) (leaves es))"
  using assms by (rule Error_leaves)

theorem aggregate_text_witness:
  "Error Map.empty (aggregate [std \<lparr>addr = 0, pcs = []\<rparr> ''a'', aggregate
       [std \<lparr>addr = 1, pcs = []\<rparr> ''b'', std \<lparr>addr = 2, pcs = []\<rparr> ''a'']]) = ''[a, b]''"
  using aggregate_text [of "[std \<lparr>addr = 0, pcs = []\<rparr> ''a'', aggregate
       [std \<lparr>addr = 1, pcs = []\<rparr> ''b'', std \<lparr>addr = 2, pcs = []\<rparr> ''a'']]" Map.empty]
  by (simp add: render_def first_occurrences_def)

text \<open>
  \<open>filterErrors\<close> does not flatten: an aggregate inside an aggregate that keeps an
  unmatched error stays nested in the result of \<open>FilterOut\<close>.
\<close>
lemma FilterOut_keeps_nesting:
  assumes "\<not> is_aggregate e" and "\<forall>fn \<in> set fns. \<not> fn e"
  shows "FilterOut (Some (aggregate [aggregate [e]])) fns = Some (aggregate [aggregate [e]])
    \<and> Flatten (Some [aggregate [e]]) = Some (aggregate [e])"
proof -
  from assms have "filter_out fns e = Some e"
    by (cases e) (auto simp: matchesError_iff)
  with assms show ?thesis
    by (simp add: FilterOut_def Flatten_def flatten_leaves NewAggregate_def del: flatten.simps)
qed

text \<open>
  \<open>AggregateGoroutines\<close> returns nil just when every function succeeded, and otherwise
  exactly the errors of the functions that failed, in whatever order they finish.
\<close>
theorem AggregateGoroutines_collects:
  assumes "mset order = mset [0 ..< length results]"
  shows "(AggregateGoroutines results order = None \<longleftrightarrow> set results \<subseteq> {None})
    \<and> mset (map Some (Errors (AggregateGoroutines results order)))
        = mset (filter (\<lambda>e. e \<noteq> None) results)"
proof -
  let ?sent = "map (\<lambda>i. results ! i) order"
  from assms have "mset ?sent = image_mset ((!) results) (mset [0 ..< length results])"
    by (simp flip: assms)
  also have "\<dots> = mset results"
    by (metis map_nth mset_map)
  finally have sent: "mset ?sent = mset results" .
  then have fs: "mset (filter (\<lambda>e. e \<noteq> None) ?sent) = mset (filter (\<lambda>e. e \<noteq> None) results)"
    by (simp only: mset_filter)
  have "map Some (Errors (AggregateGoroutines results order)) = filter (\<lambda>e. e \<noteq> None) ?sent"
    by (auto simp: AggregateGoroutines_def receive_eq NewAggregate_def comp_def map_idI filter_empty_conv
        split: if_splits intro!: map_idI)
  with fs mset_eq_setD [OF sent] show ?thesis
    by (auto simp: AggregateGoroutines_def receive_eq NewAggregate_None_iff)
qed

theorem AggregateGoroutines_collects_witness:
  "AggregateGoroutines [Some (std \<lparr>addr = 0, pcs = []\<rparr> ''a''), None] [1, 0] \<noteq> None"
  using AggregateGoroutines_collects [of "[1, 0]" "[Some (std \<lparr>addr = 0, pcs = []\<rparr> ''a''), None]"]
  by (auto simp: upt_rec)

end
