(* ===== verification/Errors_Format.thy ===== *)
theory Errors_Format
  imports Errors_Core
begin

text \<open>
  \<open>pkg/errors/format.go\<close>: \<open>withCode.Format\<close>, the text that \<open>%s\<close>, \<open>%v\<close>, \<open>%-v\<close>, \<open>%+v\<close>
  and the \<open>#\<close> variants print. \<open>json.Marshal\<close> is the argument \<open>marshal\<close>,
  \<open>runtime.FuncForPC\<close> the argument \<open>func_at\<close>. Reading the first frame of an empty stack
  panics in Go; the result is None there.
\<close>

section \<open>Operations\<close>

record formatInfo =
  fi_code :: int
  fi_message :: string
  fi_err :: string
  fi_stack :: "nat list option"

record format_flags =
  flag_sharp :: bool
  flag_minus :: bool
  flag_plus :: bool

datatype json_value = JString string | JInt int

type_synonym json_object = "string \<rightharpoonup> json_value"

text \<open>\<open>list\<close>: the error, followed by what repeated calls of \<open>Unwrap\<close> give.\<close>

function chain :: "gerr \<Rightarrow> gerr list" where
  "chain e =
     (if has_unwrap e
      then e # (case unwrap_method e of None \<Rightarrow> [] | Some e' \<Rightarrow> chain e')
      else [e])"
  by pat_completeness auto
termination
  by (relation "measure size") (auto dest: unwrap_method_size)

declare chain.simps [simp del]

fun buildFormatInfo :: "registry \<Rightarrow> gerr \<Rightarrow> formatInfo" where
  "buildFormatInfo codes (fundamental s m) =
     \<lparr>fi_code = C unknownCoder, fi_message = m, fi_err = m, fi_stack = Some (pcs s)\<rparr>"
| "buildFormatInfo codes (withStack s e) =
     \<lparr>fi_code = C unknownCoder, fi_message = Error codes (withStack s e),
      fi_err = Error codes (withStack s e), fi_stack = Some (pcs s)\<rparr>"
| "buildFormatInfo codes (withCode s m c cause) =
     (let coder = code_of codes c;
          extMsg = coder_String coder;
          extMsg = (if extMsg = [] then m else extMsg)
      in \<lparr>fi_code = coder_Code coder, fi_message = extMsg, fi_err = m, fi_stack = Some (pcs s)\<rparr>)"
| "buildFormatInfo codes e =
     \<lparr>fi_code = C unknownCoder, fi_message = Error codes e, fi_err = Error codes e, fi_stack = None\<rparr>"

text \<open>The position of the first frame, as \<open>format\<close> prints it in both modes.\<close>

definition frame_place :: "func_table \<Rightarrow> nat \<Rightarrow> string" where
  "frame_place func_at f =
     frame_file func_at f @ '':'' @ int_text (frame_line func_at f) @ '' ('' @ frame_name func_at f @ '')''"

definition format_entry ::
    "func_table \<Rightarrow> int \<Rightarrow> json_object list \<Rightarrow> string \<Rightarrow> formatInfo \<Rightarrow> string \<Rightarrow> bool \<Rightarrow> bool \<Rightarrow> bool
      \<Rightarrow> (json_object list \<times> string) option" where
  "format_entry func_at k jsonData str finfo sep flagDetail flagTrace modeJSON =
     (if modeJSON then
        (if flagDetail \<or> flagTrace then
           (case fi_stack finfo of
              Some [] \<Rightarrow> None
            | Some (f # _) \<Rightarrow> Some (jsonData @
                [[''message'' \<mapsto> JString (fi_message finfo), ''code'' \<mapsto> JInt (fi_code finfo),
                  ''error'' \<mapsto> JString (fi_err finfo),
                  ''caller'' \<mapsto> JString (''#'' @ int_text k @ '' '' @ frame_place func_at f)]], str)
            | None \<Rightarrow> Some (jsonData @
                [[''message'' \<mapsto> JString (fi_message finfo), ''code'' \<mapsto> JInt (fi_code finfo),
                  ''error'' \<mapsto> JString (fi_err finfo),
                  ''caller'' \<mapsto> JString (''#'' @ int_text k)]], str))
         else Some (jsonData @ [[''error'' \<mapsto> JString (fi_message finfo)]], str))
      else
        (if flagDetail \<or> flagTrace then
           (case fi_stack finfo of
              Some [] \<Rightarrow> None
            | Some (f # _) \<Rightarrow> Some (jsonData, str @ sep @ fi_err finfo @ '' - #'' @ int_text k @ '' ['' @
                frame_place func_at f @ ''] ('' @ int_text (fi_code finfo) @ '') '' @ fi_message finfo)
            | None \<Rightarrow> Some (jsonData, str @ sep @ fi_err finfo @ '' - #'' @ int_text k @ '' '' @ fi_message finfo))
         else Some (jsonData, str @ fi_message finfo)))"

text \<open>The loop over the chain; \<open>k\<close> is the index of its first element.\<close>

fun format_loop ::
    "registry \<Rightarrow> func_table \<Rightarrow> format_flags \<Rightarrow> int \<Rightarrow> int \<Rightarrow> string \<Rightarrow> gerr list
      \<Rightarrow> json_object list \<times> string \<Rightarrow> (json_object list \<times> string) option" where
  "format_loop codes func_at fl len k sep [] (jsonData, str) = Some (jsonData, str)"
| "format_loop codes func_at fl len k sep (e # errs) (jsonData, str) =
     (case format_entry func_at (len - k - 1) jsonData str (buildFormatInfo codes e) sep
             (flag_minus fl) (flag_plus fl) (flag_sharp fl) of
        None \<Rightarrow> None
      | Some (jsonData, str) \<Rightarrow>
          if \<not> flag_plus fl then Some (jsonData, str)
          else if \<not> flag_minus fl \<and> \<not> flag_plus fl \<and> \<not> flag_sharp fl then Some (jsonData, str)
          else format_loop codes func_at fl len (k + 1) ''; '' errs (jsonData, str))"

definition Format ::
    "(json_object list \<Rightarrow> string) \<Rightarrow> registry \<Rightarrow> func_table \<Rightarrow> format_flags \<Rightarrow> char \<Rightarrow> gerr \<Rightarrow> string option" where
  "Format marshal codes func_at fl verb w =
     (if verb = CHR ''v'' then
        (let errs = chain w in
         case format_loop codes func_at fl (int (length errs)) 0 [] errs ([], []) of
           None \<Rightarrow> None
         | Some (jsonData, str) \<Rightarrow>
             Some (trim_chars line_chars (if flag_sharp fl then str @ marshal jsonData else str)))
      else Some (fi_message (buildFormatInfo codes w)))"

section \<open>Lemmas\<close>

lemma chain_nonempty [simp]: "chain e \<noteq> []"
  by (subst chain.simps) simp

lemma hd_chain [simp]: "hd (chain e) = e"
  by (subst chain.simps) simp

lemma chain_Cons: "chain e = e # tl (chain e)"
  by (subst list.collapse [symmetric, of "chain e"]) simp_all

definition stacked :: "gerr \<Rightarrow> bool" where
  "stacked e \<longleftrightarrow> (case e of fundamental s m \<Rightarrow> pcs s \<noteq> [] | withStack s e \<Rightarrow> pcs s \<noteq> []
     | withCode s m c cause \<Rightarrow> pcs s \<noteq> [] | _ \<Rightarrow> True)"

text \<open>One entry of the detailed text, and the entries of a chain, numbered down to 0.\<close>

definition segment :: "registry \<Rightarrow> func_table \<Rightarrow> int \<Rightarrow> gerr \<Rightarrow> string" where
  "segment codes func_at k e =
     (let fi = buildFormatInfo codes e in
      fi_err fi @ '' - #'' @ int_text k @
      (case fi_stack fi of
         Some (f # _) \<Rightarrow> '' ['' @ frame_place func_at f @ ''] ('' @ int_text (fi_code fi) @ '') ''
       | _ \<Rightarrow> '' '') @ fi_message fi)"

fun segments :: "registry \<Rightarrow> func_table \<Rightarrow> gerr list \<Rightarrow> string list" where
  "segments codes func_at [] = []"
| "segments codes func_at (e # errs) = segment codes func_at (int (length errs)) e # segments codes func_at errs"

fun join_semi :: "string list \<Rightarrow> string" where
  "join_semi [] = []"
| "join_semi [x] = x"
| "join_semi (x # y # zs) = x @ ''; '' @ join_semi (y # zs)"

lemma stacked_stack: "stacked e \<Longrightarrow> fi_stack (buildFormatInfo codes e) \<noteq> Some []"
  by (cases e) (auto simp: stacked_def Let_def)

lemma format_entry_segment:
  assumes "stacked e" and "d \<or> t"
  shows "format_entry func_at k jsonData str (buildFormatInfo codes e) sep d t False
    = Some (jsonData, str @ sep @ segment codes func_at k e)"
  using assms stacked_stack [OF assms(1), of codes]
  by (auto simp: format_entry_def segment_def Let_def split: option.splits list.splits)

lemma format_loop_trace:
  assumes "flag_plus fl" and "\<not> flag_sharp fl"
    and "list_all stacked errs" and "len - k = int (length errs)"
  shows "format_loop codes func_at fl len k sep errs (j, str)
    = Some (j, if errs = [] then str else str @ sep @ join_semi (segments codes func_at errs))"
  using assms(3,4)
proof (induction errs arbitrary: k sep str)
  case Nil
  then show ?case by simp
next
  case (Cons e errs)
  from Cons.prems have pos: "len - k - 1 = int (length errs)" by simp
  from Cons.prems have "len - (k + 1) = int (length errs)" by simp
  with Cons.IH [of "k + 1"] Cons.prems
  have "format_loop codes func_at fl len (k + 1) ''; '' errs (j, str')
      = Some (j, if errs = [] then str' else str' @ ''; '' @ join_semi (segments codes func_at errs))" for str'
    by simp
  with assms(1,2) Cons.prems pos show ?case
    by (cases errs) (auto simp: format_entry_segment)
qed

section \<open>Properties\<close>

text \<open>
  \<open>Error()\<close> of a coded error is what \<open>%v\<close> prints without flags: the external text
  registered for its code, its own message where that is empty, whatever it wraps; the
  unregistered code prints the text of the unknown coder.
\<close>
lemma Format_is_Error:
  "Format marshal codes func_at \<lparr>flag_sharp = False, flag_minus = False, flag_plus = False\<rparr> CHR ''v''
       (withCode s m c cause)
     = Some (Error codes (withCode s m c cause))
   \<and> Error codes (withCode s m c cause) =
       trim_chars line_chars
         (case codes c of
            None \<Rightarrow> ''An internal server error occurred''
          | Some k \<Rightarrow> if coder_String k = [] then m else coder_String k)"
proof -
  obtain rest where "chain (withCode s m c cause) = withCode s m c cause # rest"
    by (metis chain_Cons)
  then show ?thesis
    by (auto simp: Format_def format_entry_def code_message_def code_of_def Let_def as_Coder_def
        unknownCoder_def split: option.splits)
qed

text \<open>
  \<open>%+v\<close> prints the whole chain: one entry for every error of the chain, the outermost
  first, numbered down to 0, separated by semicolons; each entry holds the error, its
  first frame where it has a stack, and its external message.
\<close>
theorem Format_trace:
  assumes "list_all stacked (chain w)"
  shows "Format marshal codes func_at \<lparr>flag_sharp = False, flag_minus = d, flag_plus = True\<rparr> CHR ''v'' w
      = Some (trim_chars line_chars (join_semi (segments codes func_at (chain w))))
    \<and> length (segments codes func_at (chain w)) = length (chain w)"
proof -
  have "length (segments codes func_at errs) = length errs" for errs
    by (induction errs) auto
  with assms show ?thesis by (simp add: Format_def format_loop_trace)
qed

theorem Format_trace_witness:
  "Format (\<lambda>_. []) Map.empty (\<lambda>_. None) \<lparr>flag_sharp = False, flag_minus = False, flag_plus = True\<rparr> CHR ''v''
      (withMessage \<lparr>addr = 1, pcs = []\<rparr> (std \<lparr>addr = 0, pcs = []\<rparr> ''EOF'') ''read'')
    = Some (trim_chars line_chars (''read - #1 read; EOF - #0 EOF''))"
proof -
  have nat: "nat_text (Suc 0) = ''1''" "nat_text 0 = ''0''"
    by code_simp+
  have ch: "chain (withMessage \<lparr>addr = 1, pcs = []\<rparr> (std \<lparr>addr = 0, pcs = []\<rparr> ''EOF'') ''read'')
      = [withMessage \<lparr>addr = 1, pcs = []\<rparr> (std \<lparr>addr = 0, pcs = []\<rparr> ''EOF'') ''read'', std \<lparr>addr = 0, pcs = []\<rparr> ''EOF'']"
    by (simp add: chain.simps)
  with Format_trace [of "withMessage \<lparr>addr = 1, pcs = []\<rparr> (std \<lparr>addr = 0, pcs = []\<rparr> ''EOF'') ''read''"
      "\<lambda>_. []" Map.empty "\<lambda>_. None" False]
  show ?thesis by (simp add: stacked_def segment_def int_text_def nat)
qed

end
