(* ===== verification/Event_Catalog.thy ===== *)
theory Event_Catalog
  imports Go_Prelude
begin

text \<open>
  \<open>pkg/eventcatalog\<close>: the event contract configuration (\<open>config.go\<close>) and its immutable
  query view (\<open>catalog.go\<close>). \<open>yaml.Unmarshal\<close> and \<open>os.ReadFile\<close> are arguments of the
  operations that call them. The topic and event maps are visited in the orders given.
\<close>

section \<open>Configuration\<close>

record TopicConfig =
  tc_Name :: string
  tc_Description :: string

definition DeliveryClassBestEffort :: string where
  "DeliveryClassBestEffort = ''best_effort''"

definition DeliveryClassDurableOutbox :: string where
  "DeliveryClassDurableOutbox = ''durable_outbox''"

definition delivery_Valid :: "string \<Rightarrow> bool" where
  "delivery_Valid c \<longleftrightarrow> c = DeliveryClassBestEffort \<or> c = DeliveryClassDurableOutbox"

record EventConfig =
  ec_Topic :: string
  ec_Delivery :: string
  ec_Aggregate :: string
  ec_Domain :: string
  ec_Description :: string
  ec_Handler :: string

record Config =
  Version :: string
  Topics :: "string \<rightharpoonup> TopicConfig"
  Events :: "string \<rightharpoonup> EventConfig"

record ValidateOptions =
  RequireHandler :: bool
  RequireTopicReferenced :: bool

definition StrictValidateOptions :: ValidateOptions where
  "StrictValidateOptions = \<lparr>RequireHandler = True, RequireTopicReferenced = True\<rparr>"

datatype config_error =
    ReadFailed string
  | ParseFailed string
  | UnknownTopic string string
  | EmptyHandler string
  | EmptyDelivery string
  | InvalidDelivery string string
  | TopicHasNoEvents string

text \<open>The loop of \<open>ValidateWithOptions\<close> over the events, collecting the topics they name.\<close>

fun validate_events ::
    "Config \<Rightarrow> ValidateOptions \<Rightarrow> string list \<Rightarrow> string set \<Rightarrow> config_error + string set" where
  "validate_events c opts [] referenced = Inr referenced"
| "validate_events c opts (eventType # rest) referenced =
     (case Events c eventType of
        None \<Rightarrow> validate_events c opts rest referenced
      | Some eventCfg \<Rightarrow>
          (case Topics c (ec_Topic eventCfg) of
             None \<Rightarrow> Inl (UnknownTopic eventType (ec_Topic eventCfg))
           | Some _ \<Rightarrow>
               if RequireHandler opts \<and> ec_Handler eventCfg = [] then Inl (EmptyHandler eventType)
               else if ec_Delivery eventCfg = [] then Inl (EmptyDelivery eventType)
               else if \<not> delivery_Valid (ec_Delivery eventCfg)
                 then Inl (InvalidDelivery eventType (ec_Delivery eventCfg))
               else validate_events c opts rest (insert (ec_Topic eventCfg) referenced)))"

fun validate_topics :: "string list \<Rightarrow> string set \<Rightarrow> config_error option" where
  "validate_topics [] referenced = None"
| "validate_topics (topicKey # rest) referenced =
     (if topicKey \<notin> referenced then Some (TopicHasNoEvents topicKey)
      else validate_topics rest referenced)"

definition ValidateWithOptions ::
    "string list \<Rightarrow> string list \<Rightarrow> Config \<Rightarrow> ValidateOptions \<Rightarrow> config_error option" where
  "ValidateWithOptions event_keys topic_keys c opts =
     (case validate_events c opts event_keys {} of
        Inl err \<Rightarrow> Some err
      | Inr referenced \<Rightarrow>
          if RequireTopicReferenced opts then validate_topics topic_keys referenced else None)"

definition config_Validate :: "string list \<Rightarrow> string list \<Rightarrow> Config \<Rightarrow> config_error option" where
  "config_Validate event_keys topic_keys c =
     ValidateWithOptions event_keys topic_keys c StrictValidateOptions"

definition ParseWithOptions ::
    "(string \<Rightarrow> string + Config) \<Rightarrow> string list \<Rightarrow> string list \<Rightarrow> string \<Rightarrow> ValidateOptions
      \<Rightarrow> config_error + Config" where
  "ParseWithOptions yaml_unmarshal event_keys topic_keys data opts =
     (case yaml_unmarshal data of
        Inl err \<Rightarrow> Inl (ParseFailed err)
      | Inr cfg \<Rightarrow>
          (case ValidateWithOptions event_keys topic_keys cfg opts of
             Some err \<Rightarrow> Inl err
           | None \<Rightarrow> Inr cfg))"

definition Parse ::
    "(string \<Rightarrow> string + Config) \<Rightarrow> string list \<Rightarrow> string list \<Rightarrow> string \<Rightarrow> config_error + Config" where
  "Parse yaml_unmarshal event_keys topic_keys data =
     ParseWithOptions yaml_unmarshal event_keys topic_keys data StrictValidateOptions"

definition LoadWithOptions ::
    "(string \<Rightarrow> string + string) \<Rightarrow> (string \<Rightarrow> string + Config) \<Rightarrow> string list \<Rightarrow> string list
      \<Rightarrow> string \<Rightarrow> ValidateOptions \<Rightarrow> config_error + Config" where
  "LoadWithOptions read_file yaml_unmarshal event_keys topic_keys path opts =
     (case read_file path of
        Inl err \<Rightarrow> Inl (ReadFailed err)
      | Inr data \<Rightarrow> ParseWithOptions yaml_unmarshal event_keys topic_keys data opts)"

definition config_GetTopicName :: "Config \<Rightarrow> string \<Rightarrow> string option" where
  "config_GetTopicName c eventType =
     (case Events c eventType of
        None \<Rightarrow> None
      | Some eventCfg \<Rightarrow> map_option tc_Name (Topics c (ec_Topic eventCfg)))"

fun GetEventsByTopic :: "string list \<Rightarrow> Config \<Rightarrow> string \<Rightarrow> string list" where
  "GetEventsByTopic [] c topicKey = []"
| "GetEventsByTopic (eventType # rest) c topicKey =
     (case Events c eventType of
        Some eventCfg \<Rightarrow> (if ec_Topic eventCfg = topicKey then [eventType] else [])
      | None \<Rightarrow> []) @ GetEventsByTopic rest c topicKey"

definition GetTopicKeys :: "string list \<Rightarrow> string list" where
  "GetTopicKeys topic_keys = topic_keys"

definition GetHandlerName :: "Config \<Rightarrow> string \<Rightarrow> string \<times> bool" where
  "GetHandlerName c eventType =
     (case Events c eventType of
        None \<Rightarrow> ([], False)
      | Some eventCfg \<Rightarrow> (ec_Handler eventCfg, ec_Handler eventCfg \<noteq> []))"

definition config_GetDeliveryClass :: "Config \<Rightarrow> string \<Rightarrow> string option" where
  "config_GetDeliveryClass c eventType =
     (case Events c eventType of
        None \<Rightarrow> None
      | Some eventCfg \<Rightarrow> if ec_Delivery eventCfg = [] then None else Some (ec_Delivery eventCfg))"

section \<open>Catalog\<close>

record Catalog =
  cat_config :: "Config option"
  eventToTopic :: "string \<rightharpoonup> string"
  topicToEvents :: "string \<rightharpoonup> string list"

definition empty_catalog :: "Config option \<Rightarrow> Catalog" where
  "empty_catalog cfg = \<lparr>cat_config = cfg, eventToTopic = Map.empty, topicToEvents = Map.empty\<rparr>"

definition slice_at :: "(string \<rightharpoonup> string list) \<Rightarrow> string \<Rightarrow> string list" where
  "slice_at m k = (case m k of None \<Rightarrow> [] | Some xs \<Rightarrow> xs)"

definition add_event :: "Config \<Rightarrow> string \<Rightarrow> Catalog \<Rightarrow> Catalog" where
  "add_event cfg eventType c =
     (case Events cfg eventType of
        None \<Rightarrow> c
      | Some eventCfg \<Rightarrow>
          (case Topics cfg (ec_Topic eventCfg) of
             None \<Rightarrow> c
           | Some topicCfg \<Rightarrow>
               c\<lparr>eventToTopic := (eventToTopic c)(eventType \<mapsto> tc_Name topicCfg),
                 topicToEvents := (topicToEvents c)
                   (tc_Name topicCfg \<mapsto> slice_at (topicToEvents c) (tc_Name topicCfg) @ [eventType])\<rparr>))"

fun add_events :: "Config \<Rightarrow> string list \<Rightarrow> Catalog \<Rightarrow> Catalog" where
  "add_events cfg [] c = c"
| "add_events cfg (eventType # rest) c = add_events cfg rest (add_event cfg eventType c)"

definition NewCatalog :: "string list \<Rightarrow> Config option \<Rightarrow> Catalog" where
  "NewCatalog event_keys cfg =
     (case cfg of
        None \<Rightarrow> empty_catalog None
      | Some conf \<Rightarrow> add_events conf event_keys (empty_catalog (Some conf)))"

text \<open>The queries; the receiver may be a nil pointer.\<close>

definition GetTopicForEvent :: "Catalog option \<Rightarrow> string \<Rightarrow> string option" where
  "GetTopicForEvent c eventType = (case c of None \<Rightarrow> None | Some cat \<Rightarrow> eventToTopic cat eventType)"

definition GetEventsForTopic :: "Catalog option \<Rightarrow> string \<Rightarrow> string list" where
  "GetEventsForTopic c topicName =
     (case c of None \<Rightarrow> [] | Some cat \<Rightarrow> slice_at (topicToEvents cat) topicName)"

definition GetTopicConfig :: "Catalog option \<Rightarrow> string \<Rightarrow> TopicConfig option" where
  "GetTopicConfig c topicKey =
     (case Option.bind c cat_config of None \<Rightarrow> None | Some cfg \<Rightarrow> Topics cfg topicKey)"

definition GetEventConfig :: "Catalog option \<Rightarrow> string \<Rightarrow> EventConfig option" where
  "GetEventConfig c eventType =
     (case Option.bind c cat_config of None \<Rightarrow> None | Some cfg \<Rightarrow> Events cfg eventType)"

definition GetDeliveryClass :: "Catalog option \<Rightarrow> string \<Rightarrow> string option" where
  "GetDeliveryClass c eventType =
     (case Option.bind c cat_config of None \<Rightarrow> None | Some cfg \<Rightarrow> config_GetDeliveryClass cfg eventType)"

definition IsDurableOutbox :: "Catalog option \<Rightarrow> string \<Rightarrow> bool" where
  "IsDurableOutbox c eventType \<longleftrightarrow> GetDeliveryClass c eventType = Some DeliveryClassDurableOutbox"

definition AllTopicNames :: "Catalog option \<Rightarrow> string list \<Rightarrow> string list" where
  "AllTopicNames c name_keys = (case c of None \<Rightarrow> [] | Some cat \<Rightarrow> name_keys)"

definition IsEventRegistered :: "Catalog option \<Rightarrow> string \<Rightarrow> bool" where
  "IsEventRegistered c eventType =
     (case c of None \<Rightarrow> False | Some cat \<Rightarrow> eventToTopic cat eventType \<noteq> None)"

record TopicSubscription =
  sub_TopicName :: string
  sub_TopicKey :: string
  sub_EventTypes :: "string list"

fun subscriptions_loop :: "string list \<Rightarrow> string list \<Rightarrow> Config \<Rightarrow> TopicSubscription list" where
  "subscriptions_loop event_keys [] cfg = []"
| "subscriptions_loop event_keys (topicKey # rest) cfg =
     (case Topics cfg topicKey of
        None \<Rightarrow> []
      | Some topicCfg \<Rightarrow>
          let events = GetEventsByTopic event_keys cfg topicKey
          in if events = [] then []
             else [\<lparr>sub_TopicName = tc_Name topicCfg, sub_TopicKey = topicKey, sub_EventTypes = events\<rparr>])
     @ subscriptions_loop event_keys rest cfg"

definition TopicSubscriptions :: "string list \<Rightarrow> string list \<Rightarrow> Catalog option \<Rightarrow> TopicSubscription list" where
  "TopicSubscriptions event_keys topic_keys c =
     (case Option.bind c cat_config of None \<Rightarrow> [] | Some cfg \<Rightarrow> subscriptions_loop event_keys topic_keys cfg)"

section \<open>Lemmas\<close>

definition event_ok :: "ValidateOptions \<Rightarrow> Config \<Rightarrow> EventConfig \<Rightarrow> bool" where
  "event_ok opts c ec \<longleftrightarrow>
     Topics c (ec_Topic ec) \<noteq> None \<and> (RequireHandler opts \<longrightarrow> ec_Handler ec \<noteq> [])
     \<and> delivery_Valid (ec_Delivery ec)"

definition config_ok :: "ValidateOptions \<Rightarrow> Config \<Rightarrow> bool" where
  "config_ok opts c \<longleftrightarrow>
     (\<forall>e ec. Events c e = Some ec \<longrightarrow> event_ok opts c ec)
     \<and> (RequireTopicReferenced opts \<longrightarrow>
          (\<forall>t tc. Topics c t = Some tc \<longrightarrow> (\<exists>e ec. Events c e = Some ec \<and> ec_Topic ec = t)))"

lemma delivery_Valid_nonempty: "delivery_Valid d \<Longrightarrow> d \<noteq> []"
  by (auto simp: delivery_Valid_def DeliveryClassBestEffort_def DeliveryClassDurableOutbox_def)

lemma validate_events_Inr:
  "validate_events c opts es ref = Inr r \<longleftrightarrow>
     (\<forall>e \<in> set es. \<forall>ec. Events c e = Some ec \<longrightarrow> event_ok opts c ec)
     \<and> r = ref \<union> {ec_Topic ec |e ec. e \<in> set es \<and> Events c e = Some ec}"
proof (induction c opts es ref rule: validate_events.induct)
  case (1 c opts ref)
  then show ?case by auto
next
  case (2 c opts e rest ref)
  show ?case
  proof (cases "Events c e")
    case None
    with 2(1) show ?thesis by auto
  next
    case (Some ec)
    show ?thesis
    proof (cases "event_ok opts c ec")
      case True
      then obtain tc where tc: "Topics c (ec_Topic ec) = Some tc"
        and ok: "\<not> (RequireHandler opts \<and> ec_Handler ec = [])" "ec_Delivery ec \<noteq> []"
          "delivery_Valid (ec_Delivery ec)"
        by (auto simp: event_ok_def dest: delivery_Valid_nonempty)
      from 2(2) [OF Some tc] ok Some tc True show ?thesis by auto
    next
      case False
      with Some show ?thesis
        by (auto simp: event_ok_def dest: delivery_Valid_nonempty split: option.splits)
    qed
  qed
qed

lemma validate_topics_None: "validate_topics ts ref = None \<longleftrightarrow> set ts \<subseteq> ref"
  by (induction ts ref rule: validate_topics.induct) auto

lemma validate_iff:
  assumes "enumerates eks (Events c)" and "enumerates tks (Topics c)"
  shows "ValidateWithOptions eks tks c opts = None \<longleftrightarrow> config_ok opts c"
proof (cases "validate_events c opts eks {}")
  case (Inl err)
  then have "\<not> (\<exists>r. validate_events c opts eks {} = Inr r)" by simp
  then have "\<not> (\<forall>e \<in> set eks. \<forall>ec. Events c e = Some ec \<longrightarrow> event_ok opts c ec)"
    unfolding validate_events_Inr by blast
  with Inl show ?thesis by (auto simp: ValidateWithOptions_def config_ok_def)
next
  case (Inr r)
  then have r: "\<And>e ec. Events c e = Some ec \<Longrightarrow> event_ok opts c ec"
    "r = {ec_Topic ec |e ec. Events c e = Some ec}"
    using assms(1) by (auto simp: validate_events_Inr enumerates_def)
  have "dom (Topics c) \<subseteq> r \<longleftrightarrow> (\<forall>t tc. Topics c t = Some tc \<longrightarrow> (\<exists>e ec. Events c e = Some ec \<and> ec_Topic ec = t))"
    unfolding r(2) by blast
  with Inr r(1) show ?thesis
    using assms(2) by (simp add: ValidateWithOptions_def config_ok_def validate_topics_None enumerates_def)
qed

lemma config_GetTopicName_ok:
  assumes "config_ok opts cfg"
  shows "(config_GetTopicName cfg e = None) = (Events cfg e = None)"
  using assms by (auto simp: config_GetTopicName_def config_ok_def event_ok_def split: option.splits)

lemma config_GetDeliveryClass_ok:
  assumes "config_ok opts cfg"
  shows "(config_GetDeliveryClass cfg e = None) = (Events cfg e = None)"
    and "config_GetDeliveryClass cfg e = Some d \<Longrightarrow> delivery_Valid d"
  using assms delivery_Valid_nonempty
  by (auto simp: config_GetDeliveryClass_def config_ok_def event_ok_def split: option.splits if_splits)

text \<open>What building the catalog does to its fields.\<close>

lemma add_event_config [simp]: "cat_config (add_event cfg e c) = cat_config c"
  by (simp add: add_event_def split: option.splits)

lemma add_events_config [simp]: "cat_config (add_events cfg es c) = cat_config c"
  by (induction cfg es c rule: add_events.induct) auto

lemma add_event_topic:
  "eventToTopic (add_event cfg e c) =
     (case config_GetTopicName cfg e of None \<Rightarrow> eventToTopic c | Some t \<Rightarrow> (eventToTopic c)(e \<mapsto> t))"
  by (auto simp: add_event_def config_GetTopicName_def split: option.splits)

lemma add_event_events:
  "slice_at (topicToEvents (add_event cfg e c)) t =
     slice_at (topicToEvents c) t @ (if config_GetTopicName cfg e = Some t then [e] else [])"
  by (auto simp: add_event_def config_GetTopicName_def slice_at_def split: option.splits)

lemma add_event_names:
  "dom (topicToEvents (add_event cfg e c)) =
     dom (topicToEvents c) \<union> set_option (config_GetTopicName cfg e)"
  by (auto simp: add_event_def config_GetTopicName_def split: option.splits)

lemma add_events_topic:
  "eventToTopic (add_events cfg es c) e =
     (if e \<in> set es \<and> config_GetTopicName cfg e \<noteq> None then config_GetTopicName cfg e
      else eventToTopic c e)"
  by (induction cfg es c rule: add_events.induct) (auto simp: add_event_topic split: option.splits)

lemma add_events_events:
  "slice_at (topicToEvents (add_events cfg es c)) t =
     slice_at (topicToEvents c) t @ filter (\<lambda>e. config_GetTopicName cfg e = Some t) es"
  by (induction cfg es c rule: add_events.induct) (auto simp: add_event_events)

lemma slice_at_empty: "slice_at (topicToEvents (empty_catalog cfg)) t = []"
  by (simp add: slice_at_def empty_catalog_def)

lemma add_events_names:
  "dom (topicToEvents (add_events cfg es c)) =
     dom (topicToEvents c) \<union> {t. \<exists>e \<in> set es. config_GetTopicName cfg e = Some t}"
  by (induction cfg es c rule: add_events.induct) (auto simp: add_event_names)

lemma config_GetTopicName_dom: "config_GetTopicName cfg e = Some t \<Longrightarrow> e \<in> dom (Events cfg)"
  by (auto simp: config_GetTopicName_def split: option.splits)

lemma NewCatalog_topic:
  assumes "enumerates eks (Events cfg)"
  shows "GetTopicForEvent (Some (NewCatalog eks (Some cfg))) e = config_GetTopicName cfg e"
  using assms config_GetTopicName_dom [of cfg e]
  by (cases "config_GetTopicName cfg e")
    (auto simp: GetTopicForEvent_def NewCatalog_def add_events_topic empty_catalog_def enumerates_def)

lemma NewCatalog_events:
  "GetEventsForTopic (Some (NewCatalog eks (Some cfg))) t
     = filter (\<lambda>e. config_GetTopicName cfg e = Some t) eks"
  by (simp add: GetEventsForTopic_def NewCatalog_def add_events_events slice_at_empty)

lemma NewCatalog_delivery:
  "GetDeliveryClass (Some (NewCatalog eks (Some cfg))) e = config_GetDeliveryClass cfg e"
  by (simp add: GetDeliveryClass_def NewCatalog_def empty_catalog_def)

lemma GetEventsByTopic_filter:
  "GetEventsByTopic eks cfg k
     = filter (\<lambda>e. \<exists>ec. Events cfg e = Some ec \<and> ec_Topic ec = k) eks"
  by (induction eks cfg k rule: GetEventsByTopic.induct) (auto split: option.splits)

lemma GetEventsByTopic_member:
  "Events cfg e = Some ec \<Longrightarrow> e \<in> set (GetEventsByTopic eks cfg k) \<longleftrightarrow> e \<in> set eks \<and> ec_Topic ec = k"
  by (auto simp: GetEventsByTopic_filter)

lemma subscriptions_of_event:
  assumes "Events cfg e = Some ec" and "e \<in> set eks" and "Topics cfg (ec_Topic ec) = Some tc"
    and "distinct tks"
  shows "filter (\<lambda>sub. e \<in> set (sub_EventTypes sub)) (subscriptions_loop eks tks cfg) =
    (if ec_Topic ec \<in> set tks
     then [\<lparr>sub_TopicName = tc_Name tc, sub_TopicKey = ec_Topic ec,
            sub_EventTypes = GetEventsByTopic eks cfg (ec_Topic ec)\<rparr>] else [])"
  using assms(4)
proof (induction tks)
  case Nil
  then show ?case by simp
next
  case (Cons k tks)
  have "e \<in> set (GetEventsByTopic eks cfg k) \<longleftrightarrow> ec_Topic ec = k"
    using GetEventsByTopic_member [OF assms(1)] assms(2) by simp
  with Cons assms(3) show ?case
    by (auto simp: Let_def split: option.splits)
qed

section \<open>The resolver interface\<close>

text \<open>
  What a client of \<open>TopicResolver\<close> and \<open>DeliveryClassResolver\<close> relies on: an event type
  that has a topic has a delivery class, and a delivery class is a supported one.
\<close>

locale topic_resolver =
  fixes topic_for :: "'r \<Rightarrow> string \<Rightarrow> string option"
    and delivery_for :: "'r \<Rightarrow> string \<Rightarrow> string option"
    and wf :: "'r \<Rightarrow> bool"
  assumes same_events: "wf r \<Longrightarrow> (topic_for r e = None) = (delivery_for r e = None)"
    and supported: "wf r \<Longrightarrow> delivery_for r e = Some d \<Longrightarrow> delivery_Valid d"

text \<open>A catalog of a configuration that passed validation is such a resolver.\<close>

definition validated :: "Catalog option \<Rightarrow> bool" where
  "validated c \<longleftrightarrow> (\<exists>opts cfg eks. config_ok opts cfg \<and> enumerates eks (Events cfg)
     \<and> c = Some (NewCatalog eks (Some cfg)))"

interpretation catalog: topic_resolver GetTopicForEvent GetDeliveryClass validated
  by unfold_locales
    (auto simp: validated_def NewCatalog_topic NewCatalog_delivery config_GetTopicName_ok
      config_GetDeliveryClass_ok dest: config_GetDeliveryClass_ok(2))

text \<open>A small valid configuration, at which the properties are applied.\<close>

definition sample_event :: EventConfig where
  "sample_event = \<lparr>ec_Topic = ''t'', ec_Delivery = ''durable_outbox'', ec_Aggregate = [],
        ec_Domain = [], ec_Description = [], ec_Handler = ''h''\<rparr>"

definition sample_config :: Config where
  "sample_config = \<lparr>Version = ''1'', Topics = [''t'' \<mapsto> \<lparr>tc_Name = ''qs.t'', tc_Description = []\<rparr>],
     Events = [''e'' \<mapsto> sample_event]\<rparr>"

lemma sample_config_ok:
  "config_ok StrictValidateOptions sample_config"
  "enumerates [''e''] (Events sample_config)" "enumerates [''t''] (Topics sample_config)"
  "Events sample_config ''e'' = Some sample_event" "ec_Topic sample_event = ''t''"
  "config_GetTopicName sample_config ''e'' = Some ''qs.t''"
  by (simp_all add: config_ok_def event_ok_def StrictValidateOptions_def delivery_Valid_def
      DeliveryClassDurableOutbox_def config_GetTopicName_def sample_config_def sample_event_def)

section \<open>Properties\<close>

text \<open>
  C32: Validation accepts a configuration just when every event names a declared topic, has
  a supported delivery class and (where required) a handler, and (where required) every
  topic has an event; the verdict does not depend on the order the maps are visited in.
\<close>
theorem validation_verdict:
  assumes "enumerates eks (Events c)" and "enumerates tks (Topics c)"
  shows "ValidateWithOptions eks tks c opts = None \<longleftrightarrow>
    (\<forall>e ec. Events c e = Some ec \<longrightarrow>
       Topics c (ec_Topic ec) \<noteq> None \<and> (RequireHandler opts \<longrightarrow> ec_Handler ec \<noteq> [])
       \<and> ec_Delivery ec \<in> {''best_effort'', ''durable_outbox''})
    \<and> (RequireTopicReferenced opts \<longrightarrow>
       (\<forall>t tc. Topics c t = Some tc \<longrightarrow> (\<exists>e ec. Events c e = Some ec \<and> ec_Topic ec = t)))"
  unfolding validate_iff [OF assms] config_ok_def event_ok_def delivery_Valid_def
    DeliveryClassBestEffort_def DeliveryClassDurableOutbox_def
  by simp

theorem validation_verdict_witness:
  "ValidateWithOptions [''e''] [''t'']
     sample_config StrictValidateOptions = None"
  by (subst validation_verdict)
    (auto simp: StrictValidateOptions_def sample_config_def sample_event_def)

text \<open>
  The two indexes of a catalog agree with each other and with the configuration: an
  event is listed under a topic name just when that is the topic it resolves to, once; an
  event is registered just when it resolves; the names with events are the listed ones.
\<close>
theorem catalog_indexes_agree:
  assumes "enumerates eks (Events cfg)" and "c = Some (NewCatalog eks (Some cfg))"
  shows "GetTopicForEvent c e = config_GetTopicName cfg e
    \<and> (e \<in> set (GetEventsForTopic c t) \<longleftrightarrow> GetTopicForEvent c e = Some t)
    \<and> distinct (GetEventsForTopic c t)
    \<and> (IsEventRegistered c e \<longleftrightarrow> (\<exists>t. e \<in> set (GetEventsForTopic c t)))
    \<and> GetDeliveryClass c e = config_GetDeliveryClass cfg e"
proof -
  from assms(1) have in_eks: "config_GetTopicName cfg x = Some n \<Longrightarrow> x \<in> set eks" for x n
    by (auto simp: enumerates_def dest: config_GetTopicName_dom)
  have topic: "GetTopicForEvent c x = config_GetTopicName cfg x" for x
    unfolding assms(2) by (rule NewCatalog_topic [OF assms(1)])
  moreover have "IsEventRegistered c e \<longleftrightarrow> config_GetTopicName cfg e \<noteq> None"
    using topic [of e] assms(2) by (simp add: IsEventRegistered_def GetTopicForEvent_def)
  ultimately show ?thesis
    using assms in_eks
    by (auto simp: NewCatalog_events NewCatalog_delivery enumerates_def)
qed

theorem catalog_indexes_agree_witness:
  "GetEventsForTopic (Some (NewCatalog [''e''] (Some
     sample_config))) ''qs.t'' = [''e'']
   \<and> distinct (GetEventsForTopic (Some (NewCatalog [''e''] (Some
     sample_config))) ''qs.t'')"
  using catalog_indexes_agree [of "[''e'']" sample_config _ "''e''" "''qs.t''"]
  by (simp add: NewCatalog_events sample_config_ok)

text \<open>
  The subscriptions of a validated configuration cover every event exactly once, under
  the key and the name of its topic, and none is empty.
\<close>
theorem subscriptions_cover_events:
  assumes "config_ok opts cfg" and "enumerates eks (Events cfg)" and "enumerates tks (Topics cfg)"
    and "Events cfg e = Some ec"
  shows "\<exists>sub. filter (\<lambda>sub. e \<in> set (sub_EventTypes sub))
        (TopicSubscriptions eks tks (Some (NewCatalog eks (Some cfg)))) = [sub]
    \<and> sub_TopicKey sub = ec_Topic ec \<and> Some (sub_TopicName sub) = config_GetTopicName cfg e"
proof -
  from assms(1,4) have "Topics cfg (ec_Topic ec) \<noteq> None"
    unfolding config_ok_def event_ok_def by blast
  then obtain tc where tc: "Topics cfg (ec_Topic ec) = Some tc" by blast
  have subs: "TopicSubscriptions eks tks (Some (NewCatalog eks (Some cfg))) = subscriptions_loop eks tks cfg"
    by (simp add: TopicSubscriptions_def NewCatalog_def empty_catalog_def)
  from assms have "ec_Topic ec \<in> set tks" "e \<in> set eks" "distinct tks"
    using tc by (auto simp: enumerates_def)
  with assms(4) tc show ?thesis
    unfolding subs by (simp add: subscriptions_of_event config_GetTopicName_def)
qed

theorem subscriptions_cover_events_witness:
  "\<exists>sub. filter (\<lambda>sub. ''e'' \<in> set (sub_EventTypes sub))
        (TopicSubscriptions [''e''] [''t''] (Some (NewCatalog [''e''] (Some sample_config)))) = [sub]
    \<and> sub_TopicKey sub = ''t'' \<and> Some (sub_TopicName sub) = Some ''qs.t''"
  using subscriptions_cover_events [OF sample_config_ok(1-4)] by (simp add: sample_config_ok)

end
