(* ===== verification/Outbox_Core.thy ===== *)
theory Outbox_Core
  imports Event_Catalog
begin

text \<open>
  \<open>pkg/event\<close> (events and their collector), \<open>pkg/eventcodec\<close> (envelope and metadata) and
  \<open>pkg/outboxcore\<close> (staging events as outbox records, the status snapshot, the status
  transitions). \<open>json.Marshal\<close> and \<open>json.Unmarshal\<close> are arguments; \<open>uuid.New\<close> and the
  clock are the arguments \<open>uuid\<close> and \<open>clock\<close>. An age in seconds is kept as the duration
  it is computed from.
\<close>

section \<open>Events\<close>

text \<open>A \<open>DomainEvent\<close> is an interface: the results of its methods, and its raw data.\<close>

record DomainEvent =
  EventID :: string
  EventType :: string
  OccurredAt :: instant
  AggregateType :: string
  AggregateID :: string
  Data :: string

definition NewBaseEvent :: "string \<Rightarrow> instant \<Rightarrow> string \<Rightarrow> string \<Rightarrow> string \<Rightarrow> string \<Rightarrow> DomainEvent" where
  "NewBaseEvent uuid clock eventType aggregateType aggregateID data =
     \<lparr>EventID = uuid, EventType = eventType, OccurredAt = clock, AggregateType = aggregateType,
      AggregateID = aggregateID, Data = data\<rparr>"

type_synonym EventCollector = "DomainEvent list"

definition NewEventCollector :: EventCollector where
  "NewEventCollector = []"

definition AddEvent :: "EventCollector \<Rightarrow> DomainEvent \<Rightarrow> EventCollector" where
  "AddEvent c evt = c @ [evt]"

definition ClearEvents :: "EventCollector \<Rightarrow> EventCollector" where
  "ClearEvents c = []"

definition HasEvents :: "EventCollector \<Rightarrow> bool" where
  "HasEvents c \<longleftrightarrow> length c > 0"

section \<open>Codec\<close>

datatype codec_error = DomainEventIsNil | MarshalFailed string | EnvelopeFailed string | EncoderFailed string

record Envelope =
  env_ID :: string
  env_EventType :: string
  env_OccurredAt :: instant
  env_AggregateType :: string
  env_AggregateID :: string
  env_Data :: string

definition EncodeDomainEvent ::
    "(DomainEvent \<Rightarrow> string + string) \<Rightarrow> DomainEvent option \<Rightarrow> codec_error + string" where
  "EncodeDomainEvent json_marshal evt =
     (case evt of
        None \<Rightarrow> Inl DomainEventIsNil
      | Some e \<Rightarrow> (case json_marshal e of Inl err \<Rightarrow> Inl (MarshalFailed err) | Inr payload \<Rightarrow> Inr payload))"

definition DecodeEnvelope :: "(string \<Rightarrow> string + Envelope) \<Rightarrow> string \<Rightarrow> codec_error + Envelope" where
  "DecodeEnvelope json_unmarshal payload =
     (case json_unmarshal payload of Inl err \<Rightarrow> Inl (EnvelopeFailed err) | Inr env \<Rightarrow> Inr env)"

definition DecodeDomainEvent :: "(string \<Rightarrow> string + Envelope) \<Rightarrow> string \<Rightarrow> codec_error + DomainEvent" where
  "DecodeDomainEvent json_unmarshal payload =
     (case DecodeEnvelope json_unmarshal payload of
        Inl err \<Rightarrow> Inl err
      | Inr env \<Rightarrow> Inr
          \<lparr>EventID = env_ID env, EventType = env_EventType env, OccurredAt = env_OccurredAt env,
           AggregateType = env_AggregateType env, AggregateID = env_AggregateID env, Data = env_Data env\<rparr>)"

text \<open>\<open>format_time\<close> is \<open>Format(OccurredAtLayout)\<close>.\<close>

definition MetadataFromEvent ::
    "(instant \<Rightarrow> string) \<Rightarrow> DomainEvent option \<Rightarrow> string \<Rightarrow> (string \<rightharpoonup> string)" where
  "MetadataFromEvent format_time evt source =
     (case evt of
        None \<Rightarrow> Map.empty
      | Some e \<Rightarrow>
          [''event_type'' \<mapsto> EventType e,
           ''aggregate_type'' \<mapsto> AggregateType e,
           ''aggregate_id'' \<mapsto> AggregateID e,
           ''occurred_at'' \<mapsto> format_time (OccurredAt e),
           ''source'' \<mapsto> source])"

section \<open>Outbox records\<close>

definition StatusPending :: string where "StatusPending = ''pending''"
definition StatusPublishing :: string where "StatusPublishing = ''publishing''"
definition StatusPublished :: string where "StatusPublished = ''published''"
definition StatusFailed :: string where "StatusFailed = ''failed''"

definition DefaultPublishingStaleFor :: duration where "DefaultPublishingStaleFor = minute"
definition DefaultRelayRetryDelay :: duration where "DefaultRelayRetryDelay = 10 * second"
definition DefaultDecodeFailureRetryDelay :: duration where "DefaultDecodeFailureRetryDelay = 10 * second"
definition DefaultFailedTransitionAttempts :: int where "DefaultFailedTransitionAttempts = 1"

definition unfinishedStatuses :: "string list" where
  "unfinishedStatuses = [StatusPending, StatusFailed, StatusPublishing]"

fun known_status :: "string list \<Rightarrow> string \<Rightarrow> bool" where
  "known_status [] status = False"
| "known_status (known # rest) status = (if status = known then True else known_status rest status)"

definition isUnfinishedStatus :: "string \<Rightarrow> bool" where
  "isUnfinishedStatus status = known_status unfinishedStatuses status"

record Record =
  rec_EventID :: string
  rec_EventType :: string
  rec_AggregateType :: string
  rec_AggregateID :: string
  rec_TopicName :: string
  rec_PayloadJSON :: string
  rec_Status :: string
  rec_AttemptCount :: int
  rec_NextAttemptAt :: instant
  rec_CreatedAt :: instant
  rec_UpdatedAt :: instant

text \<open>
  A resolver gives the topic of an event; \<open>res_delivery\<close> is None where its type does not
  implement \<open>DeliveryClassResolver\<close>.
\<close>

record resolver =
  res_topic :: "string \<Rightarrow> string option"
  res_delivery :: "(string \<Rightarrow> string option) option"

definition catalog_resolver :: "Catalog option \<Rightarrow> resolver" where
  "catalog_resolver c = \<lparr>res_topic = GetTopicForEvent c, res_delivery = Some (GetDeliveryClass c)\<rparr>"

record BuildRecordsOptions =
  opt_Events :: "DomainEvent list"
  opt_Resolver :: "resolver option"
  opt_Encoder :: "(DomainEvent \<Rightarrow> codec_error + string) option"
  opt_Now :: instant

datatype build_error =
    EventNotFound string
  | NoDeliveryClass string
  | CannotBeStaged string string
  | EncodeFailed codec_error

fun build_records ::
    "resolver \<Rightarrow> (DomainEvent \<Rightarrow> codec_error + string) \<Rightarrow> instant \<Rightarrow> DomainEvent list \<Rightarrow> Record list
      \<Rightarrow> build_error + Record list" where
  "build_records resolver encoder now [] records = Inr records"
| "build_records resolver encoder now (evt # rest) records =
     (case res_topic resolver (EventType evt) of
        None \<Rightarrow> Inl (EventNotFound (EventType evt))
      | Some topicName \<Rightarrow>
          (case (case res_delivery resolver of
                   None \<Rightarrow> None
                 | Some get_delivery \<Rightarrow>
                     (case get_delivery (EventType evt) of
                        None \<Rightarrow> Some (NoDeliveryClass (EventType evt))
                      | Some delivery \<Rightarrow>
                          if delivery \<noteq> DeliveryClassDurableOutbox
                          then Some (CannotBeStaged (EventType evt) delivery) else None)) of
             Some err \<Rightarrow> Inl err
           | None \<Rightarrow>
               (case encoder evt of
                  Inl err \<Rightarrow> Inl (EncodeFailed err)
                | Inr payload \<Rightarrow>
                    build_records resolver encoder now rest (records @
                      [\<lparr>rec_EventID = EventID evt, rec_EventType = EventType evt,
                        rec_AggregateType = AggregateType evt, rec_AggregateID = AggregateID evt,
                        rec_TopicName = topicName, rec_PayloadJSON = payload,
                        rec_Status = StatusPending, rec_AttemptCount = 0,
                        rec_NextAttemptAt = now, rec_CreatedAt = now, rec_UpdatedAt = now\<rparr>]))))"

definition BuildRecords ::
    "(DomainEvent \<Rightarrow> string + string) \<Rightarrow> instant \<Rightarrow> BuildRecordsOptions \<Rightarrow> build_error + Record list" where
  "BuildRecords json_marshal clock opts =
     (if length (opt_Events opts) = 0 then Inr []
      else
        let resolver = (case opt_Resolver opts of
                          None \<Rightarrow> catalog_resolver (Some (NewCatalog [] None)) | Some r \<Rightarrow> r);
            encoder = (case opt_Encoder opts of
                          None \<Rightarrow> (\<lambda>e. EncodeDomainEvent json_marshal (Some e)) | Some f \<Rightarrow> f);
            now = (if is_zero_time (opt_Now opts) then clock else opt_Now opts)
        in build_records resolver encoder now (opt_Events opts) [])"

section \<open>Status snapshot\<close>

record StatusObservation =
  obs_Status :: string
  obs_Count :: int
  obs_OldestCreatedAt :: "instant option"

record StatusBucket =
  bucket_Status :: string
  bucket_Count :: int
  bucket_OldestCreatedAt :: "instant option"
  bucket_OldestAge :: duration

record StatusSnapshot =
  snap_Store :: string
  snap_GeneratedAt :: instant
  snap_Buckets :: "StatusBucket list"

fun by_status :: "StatusObservation list \<Rightarrow> (string \<rightharpoonup> StatusObservation) \<Rightarrow> (string \<rightharpoonup> StatusObservation)" where
  "by_status [] m = m"
| "by_status (observation # rest) m =
     (if \<not> isUnfinishedStatus (obs_Status observation) then by_status rest m
      else by_status rest (m(obs_Status observation \<mapsto> observation)))"

definition status_bucket :: "instant \<Rightarrow> (string \<rightharpoonup> StatusObservation) \<Rightarrow> string \<Rightarrow> StatusBucket" where
  "status_bucket now byStatus status =
     (let observation = (case byStatus status of
            Some ob \<Rightarrow> ob | None \<Rightarrow> \<lparr>obs_Status = [], obs_Count = 0, obs_OldestCreatedAt = None\<rparr>);
          age = (case obs_OldestCreatedAt observation of
            Some t \<Rightarrow> (if obs_Count observation > 0
                       then (let a = time_sub now t in if a < 0 then 0 else a) else 0)
          | None \<Rightarrow> 0)
      in \<lparr>bucket_Status = status, bucket_Count = obs_Count observation,
          bucket_OldestCreatedAt = obs_OldestCreatedAt observation, bucket_OldestAge = age\<rparr>)"

definition BuildStatusSnapshot ::
    "instant \<Rightarrow> string \<Rightarrow> instant \<Rightarrow> StatusObservation list \<Rightarrow> StatusSnapshot" where
  "BuildStatusSnapshot clock store now observations =
     (let now = (if is_zero_time now then clock else now);
          byStatus = by_status observations Map.empty
      in \<lparr>snap_Store = store, snap_GeneratedAt = now,
          snap_Buckets = map (status_bucket now byStatus) unfinishedStatuses\<rparr>)"

record PendingEvent =
  pend_EventID :: string
  pend_Event :: DomainEvent

definition DecodePendingEvent ::
    "(string \<Rightarrow> string + Envelope) \<Rightarrow> string \<Rightarrow> string \<Rightarrow> (string \<Rightarrow> codec_error + DomainEvent) option list
      \<Rightarrow> codec_error + PendingEvent" where
  "DecodePendingEvent json_unmarshal eventID payloadJSON decoders =
     (let decoder = (case decoders of Some d # _ \<Rightarrow> d | _ \<Rightarrow> DecodeDomainEvent json_unmarshal)
      in case decoder payloadJSON of
           Inl err \<Rightarrow> Inl err
         | Inr evt \<Rightarrow> Inr \<lparr>pend_EventID = eventID, pend_Event = evt\<rparr>)"

section \<open>Transitions\<close>

record PublishedTransition =
  pub_Status :: string
  pub_PublishedAt :: instant
  pub_UpdatedAt :: instant

definition NewPublishedTransition :: "instant \<Rightarrow> PublishedTransition" where
  "NewPublishedTransition publishedAt =
     \<lparr>pub_Status = StatusPublished, pub_PublishedAt = publishedAt, pub_UpdatedAt = publishedAt\<rparr>"

record FailedTransition =
  fail_Status :: string
  fail_LastError :: string
  fail_NextAttemptAt :: instant
  fail_UpdatedAt :: instant
  fail_AttemptIncrement :: int

definition NewFailedTransition :: "instant \<Rightarrow> string \<Rightarrow> instant \<Rightarrow> instant \<Rightarrow> FailedTransition" where
  "NewFailedTransition clock lastError nextAttemptAt updatedAt =
     \<lparr>fail_Status = StatusFailed, fail_LastError = lastError, fail_NextAttemptAt = nextAttemptAt,
      fail_UpdatedAt = (if is_zero_time updatedAt then clock else updatedAt),
      fail_AttemptIncrement = DefaultFailedTransitionAttempts\<rparr>"

definition NewDecodeFailureTransition :: "instant \<Rightarrow> instant \<Rightarrow> string \<Rightarrow> instant \<Rightarrow> FailedTransition" where
  "NewDecodeFailureTransition clock1 clock2 decodeErr now =
     (let now = (if is_zero_time now then clock1 else now)
      in NewFailedTransition clock2 (''decode outbox payload: '' @ decodeErr)
           (now + DefaultDecodeFailureRetryDelay) now)"

section \<open>Staging with a well-formed resolver\<close>

definition record_of :: "(string \<Rightarrow> string option) \<Rightarrow> (DomainEvent \<Rightarrow> codec_error + string) \<Rightarrow> instant
    \<Rightarrow> DomainEvent \<Rightarrow> Record" where
  "record_of topic encoder now evt =
     \<lparr>rec_EventID = EventID evt, rec_EventType = EventType evt, rec_AggregateType = AggregateType evt,
      rec_AggregateID = AggregateID evt, rec_TopicName = the (topic (EventType evt)),
      rec_PayloadJSON = projr (encoder evt), rec_Status = StatusPending, rec_AttemptCount = 0,
      rec_NextAttemptAt = now, rec_CreatedAt = now, rec_UpdatedAt = now\<rparr>"

text \<open>The client's lemmas over the resolver interface.\<close>

context topic_resolver begin

lemma build_Inr_iff:
  assumes "wf r"
  shows "build_records \<lparr>res_topic = topic_for r, res_delivery = Some (delivery_for r)\<rparr> enc now evts acc = Inr recs
    \<longleftrightarrow> list_all (\<lambda>e. delivery_for r (EventType e) = Some DeliveryClassDurableOutbox
            \<and> \<not> isl (enc e)) evts
        \<and> recs = acc @ map (record_of (topic_for r) enc now) evts"
proof (induction evts arbitrary: acc)
  case Nil
  then show ?case by auto
next
  case (Cons e evts)
  show ?case
  proof (cases "delivery_for r (EventType e) = Some DeliveryClassDurableOutbox \<and> \<not> isl (enc e)")
    case True
    with same_events [OF assms, of "EventType e"] obtain t p
      where "topic_for r (EventType e) = Some t" "enc e = Inr p"
      by (cases "enc e") auto
    with True Cons.IH show ?thesis by (simp add: record_of_def)
  next
    case False
    then show ?thesis
      by (auto split: option.splits sum.splits)
  qed
qed

lemma build_never_lacks_delivery:
  assumes "wf r"
  shows "build_records \<lparr>res_topic = topic_for r, res_delivery = Some (delivery_for r)\<rparr> enc now evts recs
    \<noteq> Inl (NoDeliveryClass t)"
proof (induction evts arbitrary: recs)
  case Nil
  then show ?case by simp
next
  case (Cons e evts)
  with same_events [OF assms, of "EventType e"] show ?case
    by (auto split: option.splits sum.splits)
qed

end

section \<open>Properties\<close>

text \<open>
  C6: With the catalog of a validated configuration, staging succeeds just when every event
  is declared \<open>durable_outbox\<close> and can be encoded; then there is one pending record per
  event, in order, with the topic of its event, no attempts made and due at once. The
  failure \<open>has no delivery class\<close> cannot happen.
\<close>
theorem staging_validated_events:
  assumes "validated c"
    and "opts = \<lparr>opt_Events = evts, opt_Resolver = Some (catalog_resolver c), opt_Encoder = Some enc, opt_Now = now\<rparr>"
    and "now \<noteq> 0"
  shows "(BuildRecords marshal clock opts = Inr recs \<longleftrightarrow>
       list_all (\<lambda>e. IsDurableOutbox c (EventType e) \<and> \<not> isl (enc e)) evts
       \<and> recs = map (record_of (GetTopicForEvent c) enc now) evts)
    \<and> BuildRecords marshal clock opts \<noteq> Inl (NoDeliveryClass t)"
proof -
  have "BuildRecords marshal clock opts =
      build_records \<lparr>res_topic = GetTopicForEvent c, res_delivery = Some (GetDeliveryClass c)\<rparr> enc now evts []"
    using assms(2,3) by (simp add: BuildRecords_def catalog_resolver_def is_zero_time_def)
  then show ?thesis
    using catalog.build_Inr_iff [OF assms(1), of enc now evts "[]" recs]
      catalog.build_never_lacks_delivery [OF assms(1), of enc now evts "[]" t]
    by (simp add: IsDurableOutbox_def)
qed

theorem staging_validated_events_witness:
  "BuildRecords (\<lambda>_. Inl []) 0
     \<lparr>opt_Events = [\<lparr>EventID = ''1'', EventType = ''e'', OccurredAt = 0, AggregateType = ''a'', AggregateID = ''2'', Data = []\<rparr>],
      opt_Resolver = Some (catalog_resolver (Some (NewCatalog [''e''] (Some sample_config)))),
      opt_Encoder = Some (\<lambda>_. Inr ''{}''), opt_Now = 5\<rparr>
   = Inr [\<lparr>rec_EventID = ''1'', rec_EventType = ''e'', rec_AggregateType = ''a'', rec_AggregateID = ''2'',
      rec_TopicName = ''qs.t'', rec_PayloadJSON = ''{}'', rec_Status = ''pending'', rec_AttemptCount = 0,
      rec_NextAttemptAt = 5, rec_CreatedAt = 5, rec_UpdatedAt = 5\<rparr>]"
proof -
  have v: "validated (Some (NewCatalog [''e''] (Some sample_config)))"
    using sample_config_ok(1,2) by (auto simp: validated_def)
  show ?thesis
    by (subst staging_validated_events [OF v refl, THEN conjunct1])
      (simp_all add: record_of_def IsDurableOutbox_def NewCatalog_delivery NewCatalog_topic sample_config_ok
        config_GetDeliveryClass_def sample_event_def DeliveryClassDurableOutbox_def StatusPending_def)
qed

lemma known_status_iff: "known_status ks s \<longleftrightarrow> s \<in> set ks"
  by (induction ks s rule: known_status.induct) auto

lemma by_status_last:
  "by_status obs m s =
     (if isUnfinishedStatus s
      then (case find (\<lambda>ob. obs_Status ob = s) (rev obs) of Some ob \<Rightarrow> Some ob | None \<Rightarrow> m s)
      else m s)"
proof (induction obs arbitrary: m)
  case Nil
  show ?case by simp
next
  case (Cons ob rest)
  have find_snoc: "find P (xs @ [x]) = (case find P xs of Some y \<Rightarrow> Some y | None \<Rightarrow> if P x then Some x else None)"
    for P and x :: StatusObservation and xs
    by (induction xs) auto
  show ?case
    by (simp add: find_snoc Cons.IH split: option.split)
qed

text \<open>
  A status snapshot has exactly the three unfinished statuses as buckets, in the fixed
  order, whatever was observed; each holds the count of the last observation of its
  status (0 where there is none) and an age that is never negative.
\<close>
theorem snapshot_buckets:
  "map bucket_Status (snap_Buckets (BuildStatusSnapshot clock store now obs))
     = [''pending'', ''failed'', ''publishing'']
   \<and> list_all (\<lambda>b. bucket_OldestAge b \<ge> 0
        \<and> bucket_Count b = (case find (\<lambda>ob. obs_Status ob = bucket_Status b) (rev obs) of
             None \<Rightarrow> 0 | Some ob \<Rightarrow> obs_Count ob))
      (snap_Buckets (BuildStatusSnapshot clock store now obs))"
proof -
  have b: "bucket_OldestAge (status_bucket n m s) \<ge> 0 \<and> bucket_Status (status_bucket n m s) = s
      \<and> bucket_Count (status_bucket n m s) = (case m s of None \<Rightarrow> 0 | Some ob \<Rightarrow> obs_Count ob)" for n m s
    by (auto simp: status_bucket_def Let_def split: option.splits)
  have u: "isUnfinishedStatus s" if "s \<in> set unfinishedStatuses" for s
    using that by (simp add: isUnfinishedStatus_def known_status_iff)
  show ?thesis
    using b u
    by (auto simp: BuildStatusSnapshot_def Let_def unfinishedStatuses_def StatusPending_def StatusFailed_def
        StatusPublishing_def by_status_last split: option.splits)
qed

text \<open>
  A payload that cannot be decoded is scheduled again: the transition marks the record
  failed, counts one attempt, and the next attempt is ten seconds after the update.
\<close>
lemma decode_failure_is_retried:
  assumes "now \<noteq> 0 \<or> clock1 \<noteq> 0"
  shows "let t = NewDecodeFailureTransition clock1 clock2 err now in
    fail_Status t = ''failed'' \<and> fail_AttemptIncrement t = 1
    \<and> fail_UpdatedAt t = (if now = 0 then clock1 else now)
    \<and> fail_NextAttemptAt t = fail_UpdatedAt t + 10 * 1000000000"
  using assms
  by (auto simp: NewDecodeFailureTransition_def NewFailedTransition_def Let_def is_zero_time_def
      DefaultDecodeFailureRetryDelay_def DefaultFailedTransitionAttempts_def second_def StatusFailed_def)

end
