(* ===== verification/Grpc_Types.thy ===== *)
theory Grpc_Types
  imports Go_Prelude
begin

text \<open>
  \<open>pkg/grpc/interceptors/types.go\<close>: the values every interceptor works on (service
  identities, credentials, the request context) and the matcher of skipped methods.

  gRPC itself is not under \<open>src/\<close>. What the interceptors use of it is data here: a context
  is a record of the values they read and write in it (the incoming metadata as the
  function \<open>md.Get\<close>, the peer with its authentication info), a status error is its code
  and text, a handler is an argument. A handler may change a state of any type \<open>'s\<close>, which
  every interceptor threads through; so \<open>the handler is not run\<close> is a statement about
  results. What interceptors write to their loggers is the matter of \<open>Grpc_Observe\<close>.
\<close>

section \<open>Identities and credentials\<close>

record ServiceIdentity =
  ServiceName :: string
  ServiceNamespace :: string
  id_CommonName :: string
  id_OrganizationalUnits :: "string list"
  id_CertSerialNumber :: string
  id_DNSSANs :: "string list"
  id_URISANs :: "string list"
  id_NotBefore :: instant
  id_NotAfter :: instant

type_synonym CredentialType = string

definition CredentialTypeBearer :: CredentialType where "CredentialTypeBearer = ''bearer''"
definition CredentialTypeHMAC :: CredentialType where "CredentialTypeHMAC = ''hmac''"
definition CredentialTypeAPIKey :: CredentialType where "CredentialTypeAPIKey = ''api_key''"

record ServiceCredential =
  cred_Type :: CredentialType
  cred_Token :: string
  cred_TokenType :: string
  cred_AccessKey :: string
  cred_Signature :: string
  cred_Timestamp :: int
  cred_Nonce :: string
  cred_Subject :: string
  cred_Permissions :: "string list"
  cred_ExpiresAt :: instant
  cred_Claims :: "string \<rightharpoonup> string"

text \<open>The value of \<open>&ServiceCredential{Type: t}\<close>: every other field has its zero value.\<close>

definition credential_of_type :: "CredentialType \<Rightarrow> ServiceCredential" where
  "credential_of_type t = \<lparr>cred_Type = t, cred_Token = [], cred_TokenType = [], cred_AccessKey = [],
     cred_Signature = [], cred_Timestamp = 0, cred_Nonce = [], cred_Subject = [],
     cred_Permissions = [], cred_ExpiresAt = 0, cred_Claims = Map.empty\<rparr>"

section \<open>Contexts\<close>

text \<open>What \<open>crypto/x509\<close> has parsed of a certificate, as far as the code reads it.\<close>

record uri =
  uri_Scheme :: string
  uri_Path :: string
  uri_String :: string

record certificate =
  cert_CommonName :: string
  cert_OrganizationalUnit :: "string list"
  cert_SerialNumber :: string
  cert_DNSNames :: "string list"
  cert_URIs :: "uri list"
  cert_NotBefore :: instant
  cert_NotAfter :: instant
  cert_Organization :: "string list"
  cert_IPAddresses :: "string list"
  cert_IssuerCommonName :: string

text \<open>
  The authentication info of a peer: for TLS the certificates it presented and, where the
  handshake verified them, the verified chains.
\<close>

datatype auth_info =
    TLSInfo (PeerCertificates: "certificate list") (VerifiedChains: "certificate list list")
  | OtherAuthInfo

record rpc_context =
  ctx_metadata :: "(string \<Rightarrow> string list) option"
  ctx_peer :: "auth_info option"
  ctx_identity :: "ServiceIdentity option"
  ctx_credential :: "ServiceCredential option"
  ctx_request_id :: "string option"

definition ContextWithServiceIdentity :: "rpc_context \<Rightarrow> ServiceIdentity \<Rightarrow> rpc_context" where
  "ContextWithServiceIdentity ctx identity = ctx\<lparr>ctx_identity := Some identity\<rparr>"

definition ServiceIdentityFromContext :: "rpc_context \<Rightarrow> ServiceIdentity option" where
  "ServiceIdentityFromContext ctx = ctx_identity ctx"

definition ContextWithCredential :: "rpc_context \<Rightarrow> ServiceCredential \<Rightarrow> rpc_context" where
  "ContextWithCredential ctx cred = ctx\<lparr>ctx_credential := Some cred\<rparr>"

definition CredentialFromContext :: "rpc_context \<Rightarrow> ServiceCredential option" where
  "CredentialFromContext ctx = ctx_credential ctx"

lemmas context_defs =
  ContextWithServiceIdentity_def ServiceIdentityFromContext_def
  ContextWithCredential_def CredentialFromContext_def

lemma context_simps [simp]:
  "ServiceIdentityFromContext (ContextWithServiceIdentity ctx i) = Some i"
  "CredentialFromContext (ContextWithCredential ctx c) = Some c"
  "ServiceIdentityFromContext (ContextWithCredential ctx c) = ServiceIdentityFromContext ctx"
  "CredentialFromContext (ContextWithServiceIdentity ctx i) = CredentialFromContext ctx"
  by (simp_all add: context_defs)

section \<open>Handlers and streams\<close>

datatype grpc_code = OK | Canceled | Unknown | InvalidArgument | DeadlineExceeded | NotFound
  | AlreadyExists | PermissionDenied | ResourceExhausted | FailedPrecondition | Aborted
  | OutOfRange | Unimplemented | Internal | Unavailable | DataLoss | Unauthenticated

record status =
  st_Code :: grpc_code
  st_Message :: string

definition status_Error :: "grpc_code \<Rightarrow> string \<Rightarrow> status" where
  "status_Error c m = \<lparr>st_Code = c, st_Message = m\<rparr>"

type_synonym ('q, 'r, 's) handler = "rpc_context \<Rightarrow> 'q \<Rightarrow> 's \<Rightarrow> (status + 'r) \<times> 's"

text \<open>A server stream: its context, and the rest of it, which interceptors pass on.\<close>

record 'x server_stream =
  ss_Ctx :: rpc_context
  ss_rest :: 'x

type_synonym ('v, 'x, 'r, 's) stream_handler =
  "'v \<Rightarrow> 'x server_stream \<Rightarrow> 's \<Rightarrow> (status + 'r) \<times> 's"

definition stream_Context :: "'x server_stream \<Rightarrow> rpc_context" where
  "stream_Context ss = ss_Ctx ss"

definition WrappedServerStream :: "'x server_stream \<Rightarrow> rpc_context \<Rightarrow> 'x server_stream" where
  "WrappedServerStream ss ctx = ss\<lparr>ss_Ctx := ctx\<rparr>"

text \<open>
  A stream handler seen as a unary one: the request is the service and the stream, whose
  context is the one the interceptor hands over.
\<close>

definition as_unary :: "('v, 'x, 'r, 's) stream_handler \<Rightarrow> ('v \<times> 'x server_stream, 'r, 's) handler" where
  "as_unary h ctx q = (case q of (srv, ss) \<Rightarrow> h srv (WrappedServerStream ss ctx))"

lemma WrappedServerStream_same [simp]: "WrappedServerStream ss (stream_Context ss) = ss"
  by (simp add: WrappedServerStream_def stream_Context_def)

lemma as_unary_pair [simp]: "as_unary h ctx (srv, ss) = h srv (WrappedServerStream ss ctx)"
  by (simp add: as_unary_def)

lemma WrappedServerStream_Context [simp]: "stream_Context (WrappedServerStream ss ctx) = ctx"
  by (simp add: WrappedServerStream_def stream_Context_def)

section \<open>Skipped methods\<close>

type_synonym SkipMethodMatcher = "string list"

definition NewSkipMethodMatcher :: "string list \<Rightarrow> SkipMethodMatcher" where
  "NewSkipMethodMatcher methods = methods"

fun skip_Match :: "SkipMethodMatcher \<Rightarrow> string \<Rightarrow> bool" where
  "skip_Match [] meth = False"
| "skip_Match (skip # rest) meth = (if skip = meth then True else skip_Match rest meth)"

definition skip_Add :: "SkipMethodMatcher \<Rightarrow> string list \<Rightarrow> SkipMethodMatcher" where
  "skip_Add m methods = m @ methods"

definition DefaultSkipMethods :: "string list" where
  "DefaultSkipMethods =
     [''/grpc.health.v1.Health/Check'', ''/grpc.health.v1.Health/Watch'',
      ''/grpc.reflection.v1alpha.ServerReflection/ServerReflectionInfo'']"

lemma skip_Match_iff: "skip_Match m meth \<longleftrightarrow> meth \<in> set m"
  by (induction m) auto

lemma skip_Match_Add [simp]: "skip_Match (skip_Add m ms) meth \<longleftrightarrow> skip_Match m meth \<or> meth \<in> set ms"
  by (auto simp: skip_Match_iff skip_Add_def)

end
