(* ===== verification/Grpc_Acl.thy ===== *)
theory Grpc_Acl
  imports Grpc_Types
begin

text \<open>
  \<open>pkg/grpc/interceptors/acl.go\<close>: the access control list of services, the method patterns,
  the interceptors that ask it, and the checker of per-method permissions.

  The rules are kept by value: the interceptors only read them, and the operations below
  are the only ones of the package that write a \<open>ServicePermissions\<close>. The read-write
  lock makes every operation one step. The interface \<open>AccessChecker\<close> is a locale: the
  interceptors are verified against its law, which \<open>ServiceACL\<close> is then shown to keep.
\<close>

section \<open>The list\<close>

record ServicePermissions =
  perm_ServiceName :: string
  AllowedMethods :: "string list"
  DeniedMethods :: "string list"
  MethodPermissions :: "string \<rightharpoonup> string list"
  perm_Enabled :: bool
  perm_Description :: string

record ACLConfig =
  DefaultPolicy :: string
  Services :: "ServicePermissions list"

record ServiceACL =
  acl_rules :: "string \<rightharpoonup> ServicePermissions"
  acl_defaultPolicy :: string

fun enable_services :: "(string \<rightharpoonup> ServicePermissions) \<Rightarrow> ServicePermissions list \<Rightarrow> (string \<rightharpoonup> ServicePermissions)" where
  "enable_services rules [] = rules"
| "enable_services rules (svc # rest) =
     enable_services (if perm_Enabled svc then rules(perm_ServiceName svc \<mapsto> svc) else rules) rest"

definition NewServiceACL :: "ACLConfig \<Rightarrow> ServiceACL" where
  "NewServiceACL cfg =
     (let policy = (if DefaultPolicy cfg = [] then ''deny'' else DefaultPolicy cfg)
      in \<lparr>acl_rules = enable_services Map.empty (Services cfg), acl_defaultPolicy = policy\<rparr>)"

definition MatchMethod :: "string \<Rightarrow> string \<Rightarrow> bool" where
  "MatchMethod meth pattern =
     (if meth = pattern then True
      else if has_suffix pattern ''*'' \<and> has_prefix meth (trim_suffix pattern ''*'') then True
      else if has_suffix pattern ''/*'' then
        (let servicePrefix = trim_suffix pattern ''/*''; idx = last_index meth CHR ''/''
         in 0 < idx \<and> take (nat idx) meth = servicePrefix)
      else False)"

datatype acl_error =
    ServiceNotConfigured string
  | MethodDenied string string
  | MethodNotAllowed string string
  | ServiceNotFound string

fun acl_text :: "acl_error \<Rightarrow> string" where
  "acl_text (ServiceNotConfigured svc) = ''service '' @ quote svc @ '' not configured in ACL''"
| "acl_text (MethodDenied meth svc) = ''method '' @ quote meth @ '' is denied for service '' @ quote svc"
| "acl_text (MethodNotAllowed meth svc) = ''method '' @ quote meth @ '' not allowed for service '' @ quote svc"
| "acl_text (ServiceNotFound svc) = ''service '' @ quote svc @ '' not found''"

fun matches_any :: "string \<Rightarrow> string list \<Rightarrow> bool" where
  "matches_any meth [] = False"
| "matches_any meth (p # ps) = (if MatchMethod meth p then True else matches_any meth ps)"

definition CheckAccess :: "ServiceACL \<Rightarrow> string \<Rightarrow> string \<Rightarrow> acl_error option" where
  "CheckAccess a serviceName meth =
     (case acl_rules a serviceName of
        None \<Rightarrow> if acl_defaultPolicy a = ''allow'' then None else Some (ServiceNotConfigured serviceName)
      | Some perms \<Rightarrow>
          if matches_any meth (DeniedMethods perms) then Some (MethodDenied meth serviceName)
          else if matches_any meth (AllowedMethods perms) then None
          else Some (MethodNotAllowed meth serviceName))"

definition AddServicePermission :: "ServicePermissions \<Rightarrow> ServiceACL \<Rightarrow> ServiceACL" where
  "AddServicePermission perms a = a\<lparr>acl_rules := (acl_rules a)(perm_ServiceName perms \<mapsto> perms)\<rparr>"

definition RemoveServicePermission :: "string \<Rightarrow> ServiceACL \<Rightarrow> ServiceACL" where
  "RemoveServicePermission serviceName a = a\<lparr>acl_rules := (acl_rules a)(serviceName := None)\<rparr>"

definition UpdateServiceMethods :: "string \<Rightarrow> string list \<Rightarrow> ServiceACL \<Rightarrow> acl_error + ServiceACL" where
  "UpdateServiceMethods serviceName methods a =
     (case acl_rules a serviceName of
        None \<Rightarrow> Inl (ServiceNotFound serviceName)
      | Some perms \<Rightarrow>
          Inr (a\<lparr>acl_rules := (acl_rules a)(serviceName \<mapsto> perms\<lparr>AllowedMethods := methods\<rparr>)\<rparr>))"

definition ListServices :: "string list \<Rightarrow> ServiceACL \<Rightarrow> string list" where
  "ListServices order a = foldl (\<lambda>services svc. services @ [svc]) [] order"

definition GetServicePermissions :: "ServiceACL \<Rightarrow> string \<Rightarrow> ServicePermissions option" where
  "GetServicePermissions a serviceName = acl_rules a serviceName"

section \<open>Interceptors\<close>

record aclOptions =
  acl_skipMatcher :: SkipMethodMatcher
  useCredentialIdentity :: bool

type_synonym ACLOption = "aclOptions \<Rightarrow> aclOptions"

definition defaultACLOptions :: aclOptions where
  "defaultACLOptions =
     \<lparr>acl_skipMatcher = NewSkipMethodMatcher DefaultSkipMethods, useCredentialIdentity = True\<rparr>"

definition WithACLSkipMethods :: "string list \<Rightarrow> ACLOption" where
  "WithACLSkipMethods methods opts = opts\<lparr>acl_skipMatcher := skip_Add (acl_skipMatcher opts) methods\<rparr>"

definition WithoutCredentialIdentity :: ACLOption where
  "WithoutCredentialIdentity opts = opts\<lparr>useCredentialIdentity := False\<rparr>"

definition acl_options :: "ACLOption list \<Rightarrow> aclOptions" where
  "acl_options opts = fold (\<lambda>opt options. opt options) opts defaultACLOptions"

definition acl_service :: "aclOptions \<Rightarrow> rpc_context \<Rightarrow> string" where
  "acl_service options ctx =
     (let name = (case ServiceIdentityFromContext ctx of Some identity \<Rightarrow> ServiceName identity | None \<Rightarrow> [])
      in if name = [] \<and> useCredentialIdentity options then
           (case CredentialFromContext ctx of
              Some cred \<Rightarrow> if cred_Subject cred \<noteq> [] then cred_Subject cred else name
            | None \<Rightarrow> name)
         else name)"

definition ACLInterceptor ::
    "('s \<Rightarrow> string \<Rightarrow> string \<Rightarrow> acl_error option) \<Rightarrow> ACLOption list \<Rightarrow> string
     \<Rightarrow> ('q, 'r, 's) handler \<Rightarrow> ('q, 'r, 's) handler" where
  "ACLInterceptor check opts meth h ctx req s =
     (let options = acl_options opts in
      if skip_Match (acl_skipMatcher options) meth then h ctx req s
      else let serviceName = acl_service options ctx in
        if serviceName = [] then (Inl (status_Error Unauthenticated ''service identity required''), s)
        else case check s serviceName meth of
          Some err \<Rightarrow> (Inl (status_Error PermissionDenied (acl_text err)), s)
        | None \<Rightarrow> h ctx req s)"

definition ACLStreamInterceptor ::
    "('s \<Rightarrow> string \<Rightarrow> string \<Rightarrow> acl_error option) \<Rightarrow> ACLOption list \<Rightarrow> string
     \<Rightarrow> ('v, 'x, 'r, 's) stream_handler \<Rightarrow> ('v, 'x, 'r, 's) stream_handler" where
  "ACLStreamInterceptor check opts meth h srv ss s =
     (let options = acl_options opts in
      if skip_Match (acl_skipMatcher options) meth then h srv ss s
      else let serviceName = acl_service options (stream_Context ss) in
        if serviceName = [] then (Inl (status_Error Unauthenticated ''service identity required''), s)
        else case check s serviceName meth of
          Some err \<Rightarrow> (Inl (status_Error PermissionDenied (acl_text err)), s)
        | None \<Rightarrow> h srv ss s)"

section \<open>Method permissions\<close>

type_synonym MethodPermissionChecker = "string \<rightharpoonup> string list"

definition NewMethodPermissionChecker :: MethodPermissionChecker where
  "NewMethodPermissionChecker = Map.empty"

definition perm_Register :: "string \<Rightarrow> string list \<Rightarrow> MethodPermissionChecker \<Rightarrow> MethodPermissionChecker" where
  "perm_Register meth permissions c = c(meth \<mapsto> permissions)"

fun user_perm_set :: "string list \<Rightarrow> (string \<rightharpoonup> bool) \<Rightarrow> (string \<rightharpoonup> bool)" where
  "user_perm_set [] m = m"
| "user_perm_set (p # ps) m = user_perm_set ps (m(p \<mapsto> True))"

fun first_missing :: "(string \<rightharpoonup> bool) \<Rightarrow> string list \<Rightarrow> string option" where
  "first_missing have [] = None"
| "first_missing have (required # rest) =
     (if have required \<noteq> Some True then Some required else first_missing have rest)"

definition perm_Check :: "MethodPermissionChecker \<Rightarrow> string \<Rightarrow> string list \<Rightarrow> string option" where
  "perm_Check c meth userPermissions =
     (case c meth of
        None \<Rightarrow> None
      | Some requiredPerms \<Rightarrow> first_missing (user_perm_set userPermissions Map.empty) requiredPerms)"

definition PermissionInterceptor ::
    "('s \<Rightarrow> MethodPermissionChecker) \<Rightarrow> string \<Rightarrow> ('q, 'r, 's) handler \<Rightarrow> ('q, 'r, 's) handler" where
  "PermissionInterceptor checker meth h ctx req s =
     (let userPermissions = (case CredentialFromContext ctx of Some cred \<Rightarrow> cred_Permissions cred | None \<Rightarrow> [])
      in case perm_Check (checker s) meth userPermissions of
           Some required \<Rightarrow> (Inl (status_Error PermissionDenied (''missing permission: '' @ required)), s)
         | None \<Rightarrow> h ctx req s)"

section \<open>Patterns\<close>

definition pattern_covers :: "string \<Rightarrow> string \<Rightarrow> bool" where
  "pattern_covers pattern meth \<longleftrightarrow> meth = pattern \<or> (\<exists>p rest. pattern = p @ ''*'' \<and> meth = p @ rest)"

lemma service_wildcard_redundant:
  assumes "has_suffix pattern ''/*''" and "0 < last_index meth CHR ''/''"
    and "take (nat (last_index meth CHR ''/'')) meth = trim_suffix pattern ''/*''"
  shows "pattern_covers pattern meth"
proof -
  from assms(1) obtain q where q: "pattern = q @ ''/*''" by (auto simp: has_suffix_iff)
  have "trim_suffix pattern ''/*'' = q" unfolding q by (rule trim_suffix_append)
  with assms(2,3) last_index_in [of meth "CHR ''/''"] obtain r where "meth = q @ CHR ''/'' # r"
    by (metis less_imp_le)
  with q have "pattern = (q @ ''/'') @ ''*'' \<and> meth = (q @ ''/'') @ r" by simp
  then show ?thesis unfolding pattern_covers_def by blast
qed

lemma prefix_wildcard:
  "has_suffix pattern ''*'' \<and> has_prefix meth (trim_suffix pattern ''*'')
     \<longleftrightarrow> (\<exists>p rest. pattern = p @ ''*'' \<and> meth = p @ rest)"
  unfolding has_suffix_iff has_prefix_iff
  by (metis trim_suffix_append)

lemma MatchMethod_covers: "MatchMethod meth pattern \<longleftrightarrow> pattern_covers pattern meth"
proof
  assume "MatchMethod meth pattern"
  then consider "meth = pattern" | "has_suffix pattern ''*'' \<and> has_prefix meth (trim_suffix pattern ''*'')"
    | "has_suffix pattern ''/*''" "0 < last_index meth CHR ''/''"
      "take (nat (last_index meth CHR ''/'')) meth = trim_suffix pattern ''/*''"
    by (auto simp: MatchMethod_def Let_def split: if_splits)
  then show "pattern_covers pattern meth"
    using service_wildcard_redundant prefix_wildcard by cases (auto simp: pattern_covers_def)
next
  assume "pattern_covers pattern meth"
  then have "meth = pattern \<or> has_suffix pattern ''*'' \<and> has_prefix meth (trim_suffix pattern ''*'')"
    unfolding pattern_covers_def using prefix_wildcard by blast
  then show "MatchMethod meth pattern"
    unfolding MatchMethod_def by metis
qed

lemma matches_any_iff: "matches_any meth ps \<longleftrightarrow> (\<exists>p \<in> set ps. pattern_covers p meth)"
  by (induction ps) (auto simp: MatchMethod_covers)

section \<open>The interface of the interceptors\<close>

text \<open>
  What the interceptors rely on: \<open>CheckAccess\<close> returns no error just for the methods the
  policy grants to the service.
\<close>

locale access_checker =
  fixes check :: "'s \<Rightarrow> string \<Rightarrow> string \<Rightarrow> acl_error option"
    and granted :: "'s \<Rightarrow> string \<Rightarrow> string set"
  assumes check_granted: "check s svc meth = None \<longleftrightarrow> meth \<in> granted s svc"
begin

lemma interceptor_granted:
  assumes "acl_service (acl_options opts) ctx \<noteq> []"
    and "meth \<in> granted s (acl_service (acl_options opts) ctx)"
  shows "ACLInterceptor check opts meth h ctx req s = h ctx req s"
proof -
  from assms(2) have "check s (acl_service (acl_options opts) ctx) meth = None"
    by (simp add: check_granted)
  with assms(1) show ?thesis by (simp add: ACLInterceptor_def Let_def)
qed

lemma interceptor_refused:
  assumes "meth \<notin> set (acl_skipMatcher (acl_options opts))"
    and "meth \<notin> granted s (acl_service (acl_options opts) ctx)"
  shows "\<exists>st. ACLInterceptor check opts meth h ctx req s = (Inl st, s)
    \<and> st_Code st = (if acl_service (acl_options opts) ctx = [] then Unauthenticated else PermissionDenied)"
proof -
  from assms(2) obtain err where "check s (acl_service (acl_options opts) ctx) meth = Some err"
    using check_granted by (metis option.exhaust)
  with assms(1) show ?thesis
    by (simp add: ACLInterceptor_def skip_Match_iff Let_def status_Error_def)
qed

lemma interceptor_no_service:
  assumes "meth \<notin> set (acl_skipMatcher (acl_options opts))"
    and "acl_service (acl_options opts) ctx = []"
  shows "ACLInterceptor check opts meth h ctx req s
     = (Inl (status_Error Unauthenticated ''service identity required''), s)"
  using assms by (simp add: ACLInterceptor_def skip_Match_iff Let_def)

lemma interceptor_skipped:
  "meth \<in> set (acl_skipMatcher (acl_options opts)) \<Longrightarrow> ACLInterceptor check opts meth h ctx req s = h ctx req s"
  by (simp add: ACLInterceptor_def skip_Match_iff Let_def)

end

text \<open>The policy of a list: a denied pattern beats an allowed one, a rule beats the default.\<close>

definition policy_grants :: "ServiceACL \<Rightarrow> string \<Rightarrow> string set" where
  "policy_grants a svc = {meth.
     case acl_rules a svc of
       None \<Rightarrow> acl_defaultPolicy a = ''allow''
     | Some perms \<Rightarrow> (\<exists>p \<in> set (AllowedMethods perms). pattern_covers p meth)
         \<and> \<not> (\<exists>p \<in> set (DeniedMethods perms). pattern_covers p meth)}"

lemma CheckAccess_grants: "CheckAccess a svc meth = None \<longleftrightarrow> meth \<in> policy_grants a svc"
  by (auto simp: CheckAccess_def policy_grants_def matches_any_iff split: option.splits)

interpretation service_acl: access_checker CheckAccess policy_grants
  by unfold_locales (rule CheckAccess_grants)

section \<open>Permissions\<close>

lemma user_perm_set_iff: "user_perm_set ps m x = Some True \<longleftrightarrow> x \<in> set ps \<or> m x = Some True"
  by (induction ps arbitrary: m) auto

lemma first_missing_find: "first_missing have req = find (\<lambda>r. have r \<noteq> Some True) req"
  by (induction req) auto

lemma perm_Check_find:
  "perm_Check c meth user = (case c meth of None \<Rightarrow> None | Some req \<Rightarrow> find (\<lambda>r. r \<notin> set user) req)"
proof -
  have same: "(\<lambda>r. user_perm_set user Map.empty r \<noteq> Some True) = (\<lambda>r. r \<notin> set user)"
    by (auto simp: user_perm_set_iff fun_eq_iff)
  show ?thesis unfolding perm_Check_def first_missing_find same ..
qed

section \<open>Properties\<close>

text \<open>
  A method pattern matches itself and, where it ends in a star, every method that starts
  with the text before the star; the service wildcard branch accepts nothing more.
\<close>
theorem MatchMethod_is_prefix_match:
  "MatchMethod meth pattern \<longleftrightarrow>
     meth = pattern \<or> (\<exists>p rest. pattern = p @ ''*'' \<and> meth = p @ rest)"
  unfolding MatchMethod_covers pattern_covers_def ..

text \<open>
  C11: The ACL interceptor runs the handler just when the method is skipped or the policy of
  the list grants it to the caller's service; otherwise it answers \<open>Unauthenticated\<close> (no
  service known) or \<open>PermissionDenied\<close>, and nothing else happens.
\<close>
theorem ACL_guards_the_handler:
  "ACLInterceptor CheckAccess opts meth h ctx req a =
     (if meth \<in> set (acl_skipMatcher (acl_options opts)) then h ctx req a
      else if acl_service (acl_options opts) ctx = []
        then (Inl (status_Error Unauthenticated ''service identity required''), a)
      else if meth \<in> policy_grants a (acl_service (acl_options opts) ctx) then h ctx req a
      else (Inl (status_Error PermissionDenied
              (acl_text (the (CheckAccess a (acl_service (acl_options opts) ctx) meth)))), a))"
proof -
  let ?svc = "acl_service (acl_options opts) ctx"
  consider "meth \<in> set (acl_skipMatcher (acl_options opts))"
    | "meth \<notin> set (acl_skipMatcher (acl_options opts))" "?svc = []"
    | "?svc \<noteq> []" "meth \<in> policy_grants a ?svc"
    | e where "?svc \<noteq> []" "meth \<notin> policy_grants a ?svc" "CheckAccess a ?svc meth = Some e"
    using CheckAccess_grants [of a ?svc meth] by blast
  then show ?thesis
  proof cases
    case 1
    then show ?thesis by (simp add: service_acl.interceptor_skipped)
  next
    case 2
    then show ?thesis by (simp add: service_acl.interceptor_no_service)
  next
    case 3
    then show ?thesis by (simp add: service_acl.interceptor_granted)
  next
    case 4
    then show ?thesis by (simp add: ACLInterceptor_def skip_Match_iff Let_def)
  qed
qed

text \<open>
  The stream interceptor decides as the unary one does, on the context of the stream.
\<close>
lemma ACL_stream_same_decision:
  "ACLStreamInterceptor check opts meth h srv ss s
     = ACLInterceptor check opts meth (as_unary h) (stream_Context ss) (srv, ss) s"
  by (simp add: ACLStreamInterceptor_def ACLInterceptor_def Let_def split: option.splits)

text \<open>
  A rule changes the decisions on its own service only. A removed service falls back to
  the default policy; a disabled entry is left out when the list is built but comes into
  force when it is added later, because only \<open>NewServiceACL\<close> reads \<open>Enabled\<close>.
\<close>
theorem ACL_rule_changes:
  "policy_grants (RemoveServicePermission svc a) svc = (if acl_defaultPolicy a = ''allow'' then UNIV else {})
   \<and> policy_grants (NewServiceACL \<lparr>DefaultPolicy = ''allow'', Services = [p\<lparr>perm_Enabled := False\<rparr>]\<rparr>)
       (perm_ServiceName p) = UNIV
   \<and> policy_grants (AddServicePermission (p\<lparr>perm_Enabled := False, AllowedMethods := []\<rparr>) a)
       (perm_ServiceName p) = {}
   \<and> (svc' = svc \<or> policy_grants (RemoveServicePermission svc a) svc' = policy_grants a svc')
   \<and> (svc' = perm_ServiceName p \<or> policy_grants (AddServicePermission p a) svc' = policy_grants a svc')
   \<and> (case UpdateServiceMethods svc methods a of
        Inl e \<Rightarrow> acl_rules a svc = None
      | Inr a' \<Rightarrow> policy_grants a' svc \<subseteq> {m. \<exists>q \<in> set methods. pattern_covers q m}
          \<and> (svc' = svc \<or> policy_grants a' svc' = policy_grants a svc'))"
  by (auto simp: policy_grants_def RemoveServicePermission_def AddServicePermission_def NewServiceACL_def
      UpdateServiceMethods_def split: option.splits)

text \<open>
  The permission interceptor runs the handler just when the method has no requirement
  or the caller's credential carries every permission required; the refusal names the
  first one missing.
\<close>
lemma permissions_required:
  "PermissionInterceptor checker meth h ctx req s =
     (let have = (case CredentialFromContext ctx of Some cred \<Rightarrow> set (cred_Permissions cred) | None \<Rightarrow> {})
      in case checker s meth of
           None \<Rightarrow> h ctx req s
         | Some required \<Rightarrow>
             if set required \<subseteq> have then h ctx req s
             else (Inl (status_Error PermissionDenied (''missing permission: ''
                    @ hd (filter (\<lambda>r. r \<notin> have) required))), s))"
proof -
  have find: "find P xs = (if filter P xs = [] then None else Some (hd (filter P xs)))" for P and xs :: "string list"
    by (induction xs) auto
  show ?thesis
    by (auto simp: PermissionInterceptor_def perm_Check_find find Let_def filter_empty_conv
        split: option.splits)
qed

end
