(* ===== verification/Grpc_Credential.thy ===== *)
theory Grpc_Credential
  imports Grpc_Types
begin

text \<open>
  \<open>pkg/grpc/interceptors/credential.go\<close>: extraction of credentials from the metadata, the
  HMAC validator with its replay protection, API keys, the composite validator, the
  credential interceptors and the in-memory stores.

  A validator reads and changes a state \<open>'s\<close>, the stores it is built on. \<open>clock k\<close> is the
  \<open>k\<close>-th reading of \<open>time.Now\<close> in one call of a validator. \<open>mac key message\<close> stands for the
  hexadecimal HMAC-SHA256; nothing is assumed of it. Errors are their texts.
\<close>

section \<open>Extraction\<close>

record MetadataCredentialExtractor =
  AuthorizationHeader :: string
  APIKeyHeader :: string
  SignatureHeader :: string
  TimestampHeader :: string
  NonceHeader :: string

definition NewMetadataCredentialExtractor :: MetadataCredentialExtractor where
  "NewMetadataCredentialExtractor = \<lparr>AuthorizationHeader = ''authorization'', APIKeyHeader = ''x-api-key'',
     SignatureHeader = ''x-api-signature'', TimestampHeader = ''x-api-timestamp'', NonceHeader = ''x-api-nonce''\<rparr>"

definition extract_bearer :: "string list \<Rightarrow> ServiceCredential option" where
  "extract_bearer tokens =
     (case tokens of [] \<Rightarrow> None
      | token # _ \<Rightarrow>
          if has_prefix (to_lower token) ''bearer ''
          then Some ((credential_of_type CredentialTypeBearer)\<lparr>cred_Token := trim_space (drop 7 token)\<rparr>)
          else None)"

definition extract_hmac :: "MetadataCredentialExtractor \<Rightarrow> (string \<Rightarrow> string list) \<Rightarrow> string \<Rightarrow> ServiceCredential" where
  "extract_hmac e md signature =
     (let c0 = (credential_of_type CredentialTypeHMAC)\<lparr>cred_Signature := signature\<rparr>;
          c1 = (case md (APIKeyHeader e) of [] \<Rightarrow> c0 | k # _ \<Rightarrow> c0\<lparr>cred_AccessKey := k\<rparr>);
          c2 = (case md (TimestampHeader e) of [] \<Rightarrow> c1 | t # _ \<Rightarrow> c1\<lparr>cred_Timestamp := ParseInt10 t\<rparr>)
      in case md (NonceHeader e) of [] \<Rightarrow> c2 | n # _ \<Rightarrow> c2\<lparr>cred_Nonce := n\<rparr>)"

definition Extract :: "MetadataCredentialExtractor \<Rightarrow> rpc_context \<Rightarrow> string + ServiceCredential" where
  "Extract e ctx =
     (case ctx_metadata ctx of
        None \<Rightarrow> Inl ''missing metadata''
      | Some md \<Rightarrow>
          (case extract_bearer (md (AuthorizationHeader e)) of
             Some cred \<Rightarrow> Inr cred
           | None \<Rightarrow>
               (case md (SignatureHeader e) of
                  signature # _ \<Rightarrow> Inr (extract_hmac e md signature)
                | [] \<Rightarrow>
                    (case md (APIKeyHeader e) of
                       k # _ \<Rightarrow> Inr ((credential_of_type CredentialTypeAPIKey)\<lparr>cred_AccessKey := k\<rparr>)
                     | [] \<Rightarrow> Inl ''no credential found in metadata''))))"

section \<open>HMAC validator\<close>

type_synonym clock = "nat \<Rightarrow> instant"

type_synonym 's CredentialValidator =
  "clock \<Rightarrow> rpc_context \<Rightarrow> ServiceCredential \<Rightarrow> 's \<Rightarrow> (string + ServiceCredential) \<times> 's"

record 's NonceStore =
  ns_Exists :: "'s \<Rightarrow> string \<Rightarrow> string + bool"
  ns_Store :: "instant \<Rightarrow> string \<Rightarrow> duration \<Rightarrow> 's \<Rightarrow> string option \<times> 's"

record 's HMACValidator =
  GetSecretKey :: "'s \<Rightarrow> string \<Rightarrow> string + string"
  TimestampValidity :: duration
  NonceStore :: "'s NonceStore option"

definition NewHMACValidator :: "('s \<Rightarrow> string \<Rightarrow> string + string) \<Rightarrow> 's HMACValidator" where
  "NewHMACValidator getSecretKey =
     \<lparr>GetSecretKey = getSecretKey, TimestampValidity = 5 * minute, NonceStore = None\<rparr>"

definition hmac_message :: "string \<Rightarrow> int \<Rightarrow> string \<Rightarrow> string" where
  "hmac_message accessKey timestamp nonce = accessKey @ int_text timestamp @ nonce"

definition ComputeHMACSignature ::
    "(string \<Rightarrow> string \<Rightarrow> string) \<Rightarrow> string \<Rightarrow> string \<Rightarrow> int \<Rightarrow> string \<Rightarrow> string" where
  "ComputeHMACSignature mac accessKey secretKey timestamp nonce =
     mac secretKey (hmac_message accessKey timestamp nonce)"

definition uses_nonce :: "'s HMACValidator \<Rightarrow> ServiceCredential \<Rightarrow> 's NonceStore option" where
  "uses_nonce v cred = (if cred_Nonce cred \<noteq> [] then NonceStore v else None)"

definition HMAC_nonce_check :: "'s HMACValidator \<Rightarrow> ServiceCredential \<Rightarrow> 's \<Rightarrow> string option" where
  "HMAC_nonce_check v cred s =
     (case uses_nonce v cred of
        None \<Rightarrow> None
      | Some ns \<Rightarrow>
          (case ns_Exists ns s (cred_Nonce cred) of
             Inl err \<Rightarrow> Some (''failed to check nonce: '' @ err)
           | Inr ex \<Rightarrow> if ex then Some ''nonce already used (replay attack)'' else None))"

text \<open>\<open>Validate\<close> up to the verified signature: it only reads the stores.\<close>

definition HMAC_check ::
    "(string \<Rightarrow> string \<Rightarrow> string) \<Rightarrow> 's HMACValidator \<Rightarrow> clock \<Rightarrow> ServiceCredential \<Rightarrow> 's \<Rightarrow> string option" where
  "HMAC_check mac v clock cred s =
     (if cred_Type cred \<noteq> CredentialTypeHMAC
        then Some (''invalid credential type: expected hmac, got '' @ cred_Type cred)
      else let timestamp = unix_time (cred_Timestamp cred) in
        if time_sub (clock 0) timestamp > TimestampValidity v then Some ''timestamp expired''
        else if time_sub (clock 1) timestamp < wrap64 (- TimestampValidity v)
          then Some ''timestamp too far in future''
        else case HMAC_nonce_check v cred s of
          Some err \<Rightarrow> Some err
        | None \<Rightarrow>
            (case GetSecretKey v s (cred_AccessKey cred) of
               Inl err \<Rightarrow> Some (''invalid access key: '' @ err)
             | Inr secretKey \<Rightarrow>
                 if cred_Signature cred \<noteq>
                      ComputeHMACSignature mac (cred_AccessKey cred) secretKey (cred_Timestamp cred) (cred_Nonce cred)
                 then Some ''signature verification failed''
                 else None))"

text \<open>The rest of \<open>Validate\<close>: the nonce is stored, whatever the store answers.\<close>

definition HMAC_commit ::
    "'s HMACValidator \<Rightarrow> clock \<Rightarrow> ServiceCredential \<Rightarrow> 's \<Rightarrow> ServiceCredential \<times> 's" where
  "HMAC_commit v clock cred s =
     (let s' = (case uses_nonce v cred of
          None \<Rightarrow> s
        | Some ns \<Rightarrow> snd (ns_Store ns (clock 2) (cred_Nonce cred) (wrap64 (TimestampValidity v * 2)) s))
      in ((credential_of_type CredentialTypeHMAC)\<lparr>cred_AccessKey := cred_AccessKey cred,
            cred_Subject := cred_AccessKey cred, cred_ExpiresAt := clock 3 + TimestampValidity v\<rparr>, s'))"

definition HMAC_Validate ::
    "(string \<Rightarrow> string \<Rightarrow> string) \<Rightarrow> 's HMACValidator \<Rightarrow> 's CredentialValidator" where
  "HMAC_Validate mac v clock ctx cred s =
     (case HMAC_check mac v clock cred s of
        Some err \<Rightarrow> (Inl err, s)
      | None \<Rightarrow> map_prod Inr id (HMAC_commit v clock cred s))"

section \<open>API keys and the composite validator\<close>

record APIKeyInfo =
  info_ServiceName :: string
  info_Permissions :: "string list"
  info_ExpiresAt :: instant
  Revoked :: bool

definition APIKey_Validate :: "('s \<Rightarrow> string \<Rightarrow> string + APIKeyInfo) \<Rightarrow> 's CredentialValidator" where
  "APIKey_Validate get clock ctx cred s =
     (if cred_Type cred \<noteq> CredentialTypeAPIKey
        then (Inl (''invalid credential type: expected api_key, got '' @ cred_Type cred), s)
      else case get s (cred_AccessKey cred) of
        Inl err \<Rightarrow> (Inl (''invalid API key: '' @ err), s)
      | Inr info \<Rightarrow>
          if Revoked info then (Inl ''API key has been revoked'', s)
          else if \<not> is_zero_time (info_ExpiresAt info) \<and> info_ExpiresAt info < clock 0
            then (Inl ''API key has expired'', s)
          else (Inr ((credential_of_type CredentialTypeAPIKey)\<lparr>cred_AccessKey := cred_AccessKey cred,
                  cred_Subject := info_ServiceName info, cred_Permissions := info_Permissions info,
                  cred_ExpiresAt := info_ExpiresAt info\<rparr>), s))"

type_synonym 's CompositeValidator = "CredentialType \<rightharpoonup> 's CredentialValidator"

definition NewCompositeValidator :: "'s CompositeValidator" where
  "NewCompositeValidator = Map.empty"

definition Composite_Register ::
    "CredentialType \<Rightarrow> 's CredentialValidator \<Rightarrow> 's CompositeValidator \<Rightarrow> 's CompositeValidator" where
  "Composite_Register credType validator v = v(credType \<mapsto> validator)"

definition Composite_Validate :: "'s CompositeValidator \<Rightarrow> 's CredentialValidator" where
  "Composite_Validate v clock ctx cred s =
     (case v (cred_Type cred) of
        None \<Rightarrow> (Inl (''unsupported credential type: '' @ cred_Type cred), s)
      | Some validator \<Rightarrow> validator clock ctx cred s)"

section \<open>Interceptors\<close>

record credentialOptions =
  cred_skipMatcher :: SkipMethodMatcher
  cred_optional :: bool
  requireIdentityMatch :: bool

type_synonym CredentialOption = "credentialOptions \<Rightarrow> credentialOptions"

definition defaultCredentialOptions :: credentialOptions where
  "defaultCredentialOptions = \<lparr>cred_skipMatcher = NewSkipMethodMatcher DefaultSkipMethods,
     cred_optional = False, requireIdentityMatch = True\<rparr>"

definition WithCredentialSkipMethods :: "string list \<Rightarrow> CredentialOption" where
  "WithCredentialSkipMethods methods opts = opts\<lparr>cred_skipMatcher := skip_Add (cred_skipMatcher opts) methods\<rparr>"

definition WithOptionalCredential :: CredentialOption where
  "WithOptionalCredential opts = opts\<lparr>cred_optional := True\<rparr>"

definition WithoutIdentityMatch :: CredentialOption where
  "WithoutIdentityMatch opts = opts\<lparr>requireIdentityMatch := False\<rparr>"

definition credential_options :: "CredentialOption list \<Rightarrow> credentialOptions" where
  "credential_options opts = fold (\<lambda>opt options. opt options) opts defaultCredentialOptions"

definition validateIdentityMatch :: "rpc_context \<Rightarrow> ServiceCredential \<Rightarrow> string option" where
  "validateIdentityMatch ctx cred =
     (case ServiceIdentityFromContext ctx of
        None \<Rightarrow> None
      | Some identity \<Rightarrow>
          if cred_Subject cred = [] then None
          else if ServiceName identity \<noteq> cred_Subject cred
            then Some (''mTLS service '' @ quote (ServiceName identity)
                   @ '' does not match credential subject '' @ quote (cred_Subject cred))
          else None)"

definition CredentialInterceptor ::
    "(rpc_context \<Rightarrow> string + ServiceCredential) \<Rightarrow> 's CredentialValidator \<Rightarrow> CredentialOption list
     \<Rightarrow> clock \<Rightarrow> string \<Rightarrow> ('q, 'r, 's) handler \<Rightarrow> ('q, 'r, 's) handler" where
  "CredentialInterceptor extract validate opts clock meth h ctx req s =
     (let options = credential_options opts in
      if skip_Match (cred_skipMatcher options) meth then h ctx req s
      else case extract ctx of
        Inl err \<Rightarrow>
          if cred_optional options then h ctx req s
          else (Inl (status_Error Unauthenticated ''missing or invalid credentials''), s)
      | Inr cred \<Rightarrow>
          (case validate clock ctx cred s of
             (Inl err, s') \<Rightarrow> (Inl (status_Error Unauthenticated ''invalid credentials''), s')
           | (Inr validatedCred, s') \<Rightarrow>
               if requireIdentityMatch options \<and> validateIdentityMatch ctx validatedCred \<noteq> None
               then (Inl (status_Error Unauthenticated ''identity mismatch''), s')
               else h (ContextWithCredential ctx validatedCred) req s'))"

definition CredentialStreamInterceptor ::
    "(rpc_context \<Rightarrow> string + ServiceCredential) \<Rightarrow> 's CredentialValidator \<Rightarrow> CredentialOption list
     \<Rightarrow> clock \<Rightarrow> string \<Rightarrow> ('v, 'x, 'r, 's) stream_handler \<Rightarrow> ('v, 'x, 'r, 's) stream_handler" where
  "CredentialStreamInterceptor extract validate opts clock meth h srv ss s =
     (let options = credential_options opts in
      if skip_Match (cred_skipMatcher options) meth then h srv ss s
      else let ctx = stream_Context ss in
        case extract ctx of
          Inl err \<Rightarrow>
            if cred_optional options then h srv ss s
            else (Inl (status_Error Unauthenticated ''missing or invalid credentials''), s)
        | Inr cred \<Rightarrow>
            (case validate clock ctx cred s of
               (Inl err, s') \<Rightarrow> (Inl (status_Error Unauthenticated ''invalid credentials''), s')
             | (Inr validatedCred, s') \<Rightarrow>
                 if requireIdentityMatch options \<and> validateIdentityMatch ctx validatedCred \<noteq> None
                 then (Inl (status_Error Unauthenticated ''identity mismatch''), s')
                 else h srv (WrappedServerStream ss (ContextWithCredential ctx validatedCred)) s'))"

section \<open>In-memory stores\<close>

type_synonym InMemoryNonceStore = "string \<rightharpoonup> instant"

definition Nonce_Exists :: "InMemoryNonceStore \<Rightarrow> string \<Rightarrow> string + bool" where
  "Nonce_Exists nonces nonce = Inr (nonces nonce \<noteq> None)"

definition Nonce_Store :: "instant \<Rightarrow> string \<Rightarrow> duration \<Rightarrow> InMemoryNonceStore \<Rightarrow> string option \<times> InMemoryNonceStore" where
  "Nonce_Store now nonce ttl nonces = (None, nonces(nonce \<mapsto> now + ttl))"

text \<open>One tick of the cleanup goroutine: a tick holds the lock from the scan to the last deletion.\<close>

definition Nonce_cleanup :: "instant \<Rightarrow> InMemoryNonceStore \<Rightarrow> InMemoryNonceStore" where
  "Nonce_cleanup now nonces nonce =
     (case nonces nonce of None \<Rightarrow> None | Some expiry \<Rightarrow> if expiry < now then None else Some expiry)"

text \<open>
  The API key store holds pointers, and one \<open>APIKeyInfo\<close> may be registered under several
  keys: \<open>ak_keys\<close> maps a key to an address, \<open>ak_heap\<close> an address to its content.
\<close>

record InMemoryAPIKeyStore =
  ak_keys :: "string \<rightharpoonup> nat"
  ak_heap :: "nat \<Rightarrow> APIKeyInfo"

definition APIKey_Register :: "string \<Rightarrow> nat \<Rightarrow> InMemoryAPIKeyStore \<Rightarrow> InMemoryAPIKeyStore" where
  "APIKey_Register apiKey info st = st\<lparr>ak_keys := (ak_keys st)(apiKey \<mapsto> info)\<rparr>"

definition APIKey_Get :: "InMemoryAPIKeyStore \<Rightarrow> string \<Rightarrow> string + APIKeyInfo" where
  "APIKey_Get st apiKey =
     (case ak_keys st apiKey of None \<Rightarrow> Inl ''API key not found'' | Some info \<Rightarrow> Inr (ak_heap st info))"

definition APIKey_Revoke :: "string \<Rightarrow> InMemoryAPIKeyStore \<Rightarrow> string option \<times> InMemoryAPIKeyStore" where
  "APIKey_Revoke apiKey st =
     (case ak_keys st apiKey of
        Some info \<Rightarrow> (None, st\<lparr>ak_heap := (ak_heap st)(info := (ak_heap st info)\<lparr>Revoked := True\<rparr>)\<rparr>)
      | None \<Rightarrow> (Some ''API key not found'', st))"

type_synonym InMemorySecretStore = "string \<rightharpoonup> string"

definition Secret_Register :: "string \<Rightarrow> string \<Rightarrow> InMemorySecretStore \<Rightarrow> InMemorySecretStore" where
  "Secret_Register accessKey secretKey secrets = secrets(accessKey \<mapsto> secretKey)"

definition Secret_Get :: "InMemorySecretStore \<Rightarrow> string \<Rightarrow> string + string" where
  "Secret_Get secrets accessKey =
     (case secrets accessKey of None \<Rightarrow> Inl ''access key not found'' | Some secret \<Rightarrow> Inr secret)"

text \<open>The client's side: the headers of one request.\<close>

definition GenerateHMACCredentials ::
    "(string \<Rightarrow> string \<Rightarrow> string) \<Rightarrow> instant \<Rightarrow> string \<Rightarrow> string \<Rightarrow> string \<Rightarrow> (string \<rightharpoonup> string)" where
  "GenerateHMACCredentials mac now accessKey secretKey nonce =
     (let timestamp = to_unix now;
          signature = ComputeHMACSignature mac accessKey secretKey timestamp nonce
      in [''x-api-key'' \<mapsto> accessKey, ''x-api-signature'' \<mapsto> signature,
          ''x-api-timestamp'' \<mapsto> int_text timestamp, ''x-api-nonce'' \<mapsto> nonce])"


section \<open>The nonce store as an interface\<close>

text \<open>
  What replay protection needs of a nonce store: \<open>held s n t\<close> says that the nonce \<open>n\<close> stays
  stored through every cleanup up to the instant \<open>t\<close>.
\<close>

locale nonce_store =
  fixes ns :: "'s NonceStore"
    and cleanup :: "instant \<Rightarrow> 's \<Rightarrow> 's"
    and held :: "'s \<Rightarrow> string \<Rightarrow> instant \<Rightarrow> bool"
  assumes exists_held: "held s n t \<Longrightarrow> ns_Exists ns s n = Inr True"
    and store_held: "t \<le> now + ttl \<Longrightarrow> held (snd (ns_Store ns now n ttl s)) n t"
    and store_keeps: "held s n t \<Longrightarrow> m \<noteq> n \<Longrightarrow> held (snd (ns_Store ns now m ttl s)) n t"
    and cleanup_keeps: "held s n t \<Longrightarrow> now \<le> t \<Longrightarrow> held (cleanup now s) n t"

text \<open>What happens to the store between two requests: other requests, and cleanups.\<close>

datatype validator_event = Validated clock rpc_context ServiceCredential | CleanedUp instant

fun validator_run ::
    "(string \<Rightarrow> string \<Rightarrow> string) \<Rightarrow> 's HMACValidator \<Rightarrow> (instant \<Rightarrow> 's \<Rightarrow> 's) \<Rightarrow> validator_event list \<Rightarrow> 's \<Rightarrow> 's" where
  "validator_run mac v cleanup [] s = s"
| "validator_run mac v cleanup (Validated clock ctx cred # evs) s =
     validator_run mac v cleanup evs (snd (HMAC_Validate mac v clock ctx cred s))"
| "validator_run mac v cleanup (CleanedUp now # evs) s = validator_run mac v cleanup evs (cleanup now s)"

fun cleaned_by :: "instant \<Rightarrow> validator_event \<Rightarrow> bool" where
  "cleaned_by t (CleanedUp now) = (now \<le> t)"
| "cleaned_by t (Validated clock ctx cred) = True"

lemma HMAC_Validate_Inr:
  "fst (HMAC_Validate mac v clock ctx cred s) = Inr c \<longleftrightarrow>
     HMAC_check mac v clock cred s = None \<and> fst (HMAC_commit v clock cred s) = c"
  by (auto simp: HMAC_Validate_def split: option.splits)

lemma HMAC_Validate_state:
  "snd (HMAC_Validate mac v clock ctx cred s) =
     (if HMAC_check mac v clock cred s = None then snd (HMAC_commit v clock cred s) else s)"
  by (auto simp: HMAC_Validate_def split: option.splits)

lemma HMAC_check_None:
  "HMAC_check mac v clock cred s = None \<longleftrightarrow>
     cred_Type cred = CredentialTypeHMAC
     \<and> time_sub (clock 0) (unix_time (cred_Timestamp cred)) \<le> TimestampValidity v
     \<and> wrap64 (- TimestampValidity v) \<le> time_sub (clock 1) (unix_time (cred_Timestamp cred))
     \<and> HMAC_nonce_check v cred s = None
     \<and> (\<exists>secretKey. GetSecretKey v s (cred_AccessKey cred) = Inr secretKey
          \<and> cred_Signature cred =
              ComputeHMACSignature mac (cred_AccessKey cred) secretKey (cred_Timestamp cred) (cred_Nonce cred))"
  by (auto simp: HMAC_check_def Let_def split: option.splits sum.splits)

context nonce_store
begin

lemma held_refuses:
  assumes "NonceStore v = Some ns" and "cred_Nonce cred \<noteq> []" and "held s (cred_Nonce cred) t"
  shows "HMAC_nonce_check v cred s \<noteq> None"
  using assms exists_held [OF assms(3)] by (simp add: HMAC_nonce_check_def uses_nonce_def)

lemma Validate_keeps_held:
  assumes "NonceStore v = Some ns" and "held s n t"
  shows "held (snd (HMAC_Validate mac v clock ctx cred s)) n t"
proof (cases "HMAC_check mac v clock cred s = None \<and> cred_Nonce cred \<noteq> []")
  case True
  with assms held_refuses [of v cred s t] have "cred_Nonce cred \<noteq> n"
    by (auto simp: HMAC_check_None)
  with True assms show ?thesis
    by (simp add: HMAC_Validate_state HMAC_commit_def uses_nonce_def store_keeps)
next
  case False
  with assms show ?thesis
    by (auto simp: HMAC_Validate_state HMAC_commit_def uses_nonce_def)
qed

lemma run_keeps_held:
  assumes "NonceStore v = Some ns"
  shows "held s n t \<Longrightarrow> list_all (cleaned_by t) evs \<Longrightarrow> held (validator_run mac v cleanup evs s) n t"
proof (induction evs arbitrary: s)
  case (Cons e evs)
  then show ?case
    by (cases e) (auto simp: assms Validate_keeps_held cleanup_keeps)
qed simp

lemma no_replay:
  assumes store: "NonceStore v = Some ns" and nonce: "cred_Nonce cred \<noteq> []"
    and validity: "0 \<le> TimestampValidity v" "TimestampValidity v < 2 ^ 62"
    and first: "fst (HMAC_Validate mac v clock1 ctx1 cred s) = Inr c" "clock1 1 \<le> clock1 2"
    and evs: "list_all (cleaned_by (clock2 0)) evs"
  shows "isl (fst (HMAC_Validate mac v clock2 ctx2 cred
      (validator_run mac v cleanup evs (snd (HMAC_Validate mac v clock1 ctx1 cred s)))))"
    (is "isl (fst (HMAC_Validate mac v clock2 ctx2 cred ?s))")
proof (rule ccontr)
  let ?ts = "unix_time (cred_Timestamp cred)" and ?d = "TimestampValidity v"
  let ?t = "clock1 2 + 2 * ?d"
  assume "\<not> isl (fst (HMAC_Validate mac v clock2 ctx2 cred ?s))"
  then obtain c' where "fst (HMAC_Validate mac v clock2 ctx2 cred ?s) = Inr c'"
    by (metis isl_def sum.exhaust_sel)
  then have second: "time_sub (clock2 0) ?ts \<le> ?d" "HMAC_nonce_check v cred ?s = None"
    by (auto simp: HMAC_Validate_Inr HMAC_check_None)
  have wrap: "wrap64 (- ?d) = - ?d" "wrap64 (?d * 2) = 2 * ?d"
    using validity by (auto intro!: wrap64_id simp: mult.commute)
  have sound: "HMAC_check mac v clock1 cred s = None"
    using first(1) by (simp add: HMAC_Validate_Inr)
  then have "- ?d \<le> time_sub (clock1 1) ?ts" using wrap(1) by (simp add: HMAC_check_None)
  then have "?ts \<le> clock1 1 + ?d"
    using validity by (auto simp: time_sub_def min_duration_def max_duration_def min_def max_def split: if_splits)
  moreover have "clock2 0 \<le> ?ts + ?d"
    using second(1) validity
    by (auto simp: time_sub_def min_duration_def max_duration_def min_def max_def split: if_splits)
  ultimately have late: "clock2 0 \<le> ?t" using first(2) by linarith
  have "held (snd (HMAC_Validate mac v clock1 ctx1 cred s)) (cred_Nonce cred) ?t"
    using sound store nonce store_held [of ?t "clock1 2" "2 * ?d"]
    by (simp add: HMAC_Validate_state HMAC_commit_def uses_nonce_def wrap(2))
  moreover have "list_all (cleaned_by ?t) evs"
    using evs
  proof (rule list.pred_mono_strong)
    fix e assume "cleaned_by (clock2 0) e"
    with late show "cleaned_by ?t e" by (cases e) auto
  qed
  ultimately have "held ?s (cred_Nonce cred) ?t" by (rule run_keeps_held [OF store])
  with held_refuses [OF store nonce] second(2) show False by blast
qed

end

text \<open>The stores of one server, and the validator put together on them.\<close>

record security_stores =
  nonces :: InMemoryNonceStore
  api_keys :: InMemoryAPIKeyStore
  secrets :: InMemorySecretStore

definition in_memory_nonces :: "security_stores NonceStore" where
  "in_memory_nonces =
     \<lparr>ns_Exists = \<lambda>s. Nonce_Exists (nonces s),
      ns_Store = \<lambda>now nonce ttl s.
        map_prod id (\<lambda>ns. s\<lparr>nonces := ns\<rparr>) (Nonce_Store now nonce ttl (nonces s))\<rparr>"

definition cleanup_nonces :: "instant \<Rightarrow> security_stores \<Rightarrow> security_stores" where
  "cleanup_nonces now s = s\<lparr>nonces := Nonce_cleanup now (nonces s)\<rparr>"

definition nonce_held :: "security_stores \<Rightarrow> string \<Rightarrow> instant \<Rightarrow> bool" where
  "nonce_held s n t = (case nonces s n of None \<Rightarrow> False | Some expiry \<Rightarrow> t \<le> expiry)"

interpretation in_memory: nonce_store in_memory_nonces cleanup_nonces nonce_held
  by unfold_locales
    (auto simp: in_memory_nonces_def cleanup_nonces_def nonce_held_def Nonce_Exists_def Nonce_Store_def
      Nonce_cleanup_def split: option.splits)

definition server_hmac :: "security_stores HMACValidator" where
  "server_hmac = (NewHMACValidator (\<lambda>s. Secret_Get (secrets s)))\<lparr>NonceStore := Some in_memory_nonces\<rparr>"

definition server_validator :: "(string \<Rightarrow> string \<Rightarrow> string) \<Rightarrow> security_stores CompositeValidator" where
  "server_validator mac =
     Composite_Register CredentialTypeAPIKey (APIKey_Validate (\<lambda>s. APIKey_Get (api_keys s)))
       (Composite_Register CredentialTypeHMAC (HMAC_Validate mac server_hmac) NewCompositeValidator)"

section \<open>Validators as an interface\<close>

text \<open>
  What the interceptors need of a validator: a credential it returns names a subject that
  the presented credential proves, has the presented type, and a refusal changes nothing.
\<close>

locale credential_validator =
  fixes validate :: "'s CredentialValidator"
    and proves :: "'s \<Rightarrow> clock \<Rightarrow> ServiceCredential \<Rightarrow> string \<Rightarrow> bool"
  assumes valid: "validate clock ctx cred s = (Inr c, s') \<Longrightarrow>
      proves s clock cred (cred_Subject c) \<and> cred_Type c = cred_Type cred"
    and refused: "validate clock ctx cred s = (Inl e, s') \<Longrightarrow> s' = s"
begin

lemma interceptor_cases:
  obtains (passed) "CredentialInterceptor extract validate opts clock meth h ctx req s = h ctx req s"
      "meth \<in> set (cred_skipMatcher (credential_options opts))
       \<or> cred_optional (credential_options opts) \<and> isl (extract ctx)"
    | (admitted) cred c s' where "extract ctx = Inr cred" "proves s clock cred (cred_Subject c)"
      "cred_Type c = cred_Type cred"
      "requireIdentityMatch (credential_options opts) = False \<or> validateIdentityMatch ctx c = None"
      "CredentialInterceptor extract validate opts clock meth h ctx req s
         = h (ContextWithCredential ctx c) req s'"
    | (rejected) st s' where
      "CredentialInterceptor extract validate opts clock meth h ctx req s = (Inl st, s')"
      "st_Code st = Unauthenticated"
      "case extract ctx of Inl e \<Rightarrow> True
       | Inr cred \<Rightarrow> (case fst (validate clock ctx cred s) of Inl e \<Rightarrow> True
           | Inr c \<Rightarrow> validateIdentityMatch ctx c \<noteq> None)"
proof -
  let ?o = "credential_options opts"
  let ?i = "CredentialInterceptor extract validate opts clock meth h ctx req s"
  consider "meth \<in> set (cred_skipMatcher ?o)"
    | e where "meth \<notin> set (cred_skipMatcher ?o)" "extract ctx = Inl e"
    | cred where "meth \<notin> set (cred_skipMatcher ?o)" "extract ctx = Inr cred"
    by (cases "extract ctx") auto
  then show thesis
  proof cases
    case 1
    then have "?i = h ctx req s" by (simp add: CredentialInterceptor_def skip_Match_iff Let_def)
    with 1 passed show thesis by blast
  next
    case 2
    then have "?i = (if cred_optional ?o then h ctx req s
        else (Inl (status_Error Unauthenticated ''missing or invalid credentials''), s))"
      by (simp add: CredentialInterceptor_def skip_Match_iff Let_def)
    with 2 passed rejected show thesis
      by (cases "cred_optional ?o") (auto simp: status_Error_def)
  next
    case 3
    obtain r s' where v: "validate clock ctx cred s = (r, s')" by force
    show thesis
    proof (cases r)
      case (Inl e)
      with 3 v have "?i = (Inl (status_Error Unauthenticated ''invalid credentials''), s')"
        by (simp add: CredentialInterceptor_def skip_Match_iff Let_def)
      with rejected 3 v Inl show thesis by (simp add: status_Error_def)
    next
      case (Inr c)
      with 3 v have i: "?i = (if requireIdentityMatch ?o \<and> validateIdentityMatch ctx c \<noteq> None
          then (Inl (status_Error Unauthenticated ''identity mismatch''), s')
          else h (ContextWithCredential ctx c) req s')"
        by (simp add: CredentialInterceptor_def skip_Match_iff Let_def)
      show thesis
      proof (cases "requireIdentityMatch ?o \<and> validateIdentityMatch ctx c \<noteq> None")
        case True
        with i rejected 3 v Inr show thesis by (simp add: status_Error_def)
      next
        case False
        with i have "?i = h (ContextWithCredential ctx c) req s'" by (simp only: if_False)
        moreover from False
        have "requireIdentityMatch ?o = False \<or> validateIdentityMatch ctx c = None" by blast
        ultimately show thesis using admitted 3 valid [OF v [unfolded Inr]] by blast
      qed
    qed
  qed
qed

end

text \<open>A composite validator keeps the contract when each registered one does.\<close>

locale composite_validator =
  fixes validators :: "'s CompositeValidator"
    and proves_as :: "CredentialType \<Rightarrow> 's \<Rightarrow> clock \<Rightarrow> ServiceCredential \<Rightarrow> string \<Rightarrow> bool"
  assumes each: "validators t = Some v \<Longrightarrow> credential_validator v (proves_as t)"

sublocale composite_validator \<subseteq>
    composite: credential_validator "Composite_Validate validators" "\<lambda>s clock cred. proves_as (cred_Type cred) s clock cred"
proof
  fix clock ctx cred s c s'
  assume "Composite_Validate validators clock ctx cred s = (Inr c, s')"
  then obtain v where v: "validators (cred_Type cred) = Some v" "v clock ctx cred s = (Inr c, s')"
    by (auto simp: Composite_Validate_def split: option.splits)
  from credential_validator.valid [OF each [OF v(1)] v(2)]
  show "proves_as (cred_Type cred) s clock cred (cred_Subject c) \<and> cred_Type c = cred_Type cred" .
next
  fix clock ctx cred s e s'
  assume "Composite_Validate validators clock ctx cred s = (Inl e, s')"
  then show "s' = s"
    by (auto simp: Composite_Validate_def split: option.splits
        dest: credential_validator.refused [OF each])
qed

definition hmac_proves :: "(string \<Rightarrow> string \<Rightarrow> string) \<Rightarrow> 's HMACValidator \<Rightarrow> 's \<Rightarrow> clock \<Rightarrow> ServiceCredential \<Rightarrow> string \<Rightarrow> bool" where
  "hmac_proves mac v s clock cred subject \<longleftrightarrow>
     subject = cred_AccessKey cred
     \<and> (\<exists>secretKey. GetSecretKey v s subject = Inr secretKey
          \<and> cred_Signature cred = mac secretKey (subject @ int_text (cred_Timestamp cred) @ cred_Nonce cred))"

definition api_key_proves :: "('s \<Rightarrow> string \<Rightarrow> string + APIKeyInfo) \<Rightarrow> 's \<Rightarrow> clock \<Rightarrow> ServiceCredential \<Rightarrow> string \<Rightarrow> bool" where
  "api_key_proves get s clock cred subject \<longleftrightarrow>
     (\<exists>info. get s (cred_AccessKey cred) = Inr info \<and> info_ServiceName info = subject \<and> \<not> Revoked info
        \<and> (info_ExpiresAt info = 0 \<or> clock 0 \<le> info_ExpiresAt info))"

interpretation hmac: credential_validator "HMAC_Validate mac v" "hmac_proves mac v" for mac v
proof
  fix clock ctx cred s c s'
  assume "HMAC_Validate mac v clock ctx cred s = (Inr c, s')"
  then have "fst (HMAC_Validate mac v clock ctx cred s) = Inr c" by simp
  then have "HMAC_check mac v clock cred s = None" "fst (HMAC_commit v clock cred s) = c"
    by (simp_all add: HMAC_Validate_Inr)
  then show "hmac_proves mac v s clock cred (cred_Subject c) \<and> cred_Type c = cred_Type cred"
    by (auto simp: HMAC_check_None HMAC_commit_def hmac_proves_def ComputeHMACSignature_def
        hmac_message_def credential_of_type_def Let_def)
qed (auto simp: HMAC_Validate_def map_prod_def split: option.splits prod.splits)

interpretation api_key: credential_validator "APIKey_Validate get" "api_key_proves get" for get
  by unfold_locales
    (auto simp: APIKey_Validate_def api_key_proves_def credential_of_type_def is_zero_time_def
      split: if_splits sum.splits)

definition server_proves :: "(string \<Rightarrow> string \<Rightarrow> string) \<Rightarrow> CredentialType \<Rightarrow> security_stores \<Rightarrow> clock \<Rightarrow> ServiceCredential \<Rightarrow> string \<Rightarrow> bool" where
  "server_proves mac t =
     (if t = CredentialTypeHMAC then hmac_proves mac server_hmac
      else if t = CredentialTypeAPIKey then api_key_proves (\<lambda>s. APIKey_Get (api_keys s))
      else (\<lambda>_ _ _ _. False))"

interpretation server: composite_validator "server_validator mac" "server_proves mac" for mac
proof (rule composite_validator.intro)
  fix t v
  assume "server_validator mac t = Some v"
  then consider "t = CredentialTypeHMAC" "v = HMAC_Validate mac server_hmac"
    | "t = CredentialTypeAPIKey" "v = APIKey_Validate (\<lambda>s. APIKey_Get (api_keys s))"
    by (auto simp: server_validator_def Composite_Register_def NewCompositeValidator_def split: if_splits)
  then show "credential_validator v (server_proves mac t)"
    by cases
      (simp_all add: server_proves_def hmac.credential_validator_axioms api_key.credential_validator_axioms
        CredentialTypeHMAC_def CredentialTypeAPIKey_def)
qed

section \<open>Concurrent validation\<close>

text \<open>
  \<open>Exists\<close> and \<open>Store\<close> each take the lock of the store, \<open>Validate\<close> does not hold it between
  them: two requests interleave there.
\<close>

datatype phase = Waiting | Passed | Accepted ServiceCredential | Refused string

inductive validate_step ::
    "(string \<Rightarrow> string \<Rightarrow> string) \<Rightarrow> 's HMACValidator \<Rightarrow> (nat \<Rightarrow> clock) \<Rightarrow> (nat \<Rightarrow> ServiceCredential)
     \<Rightarrow> 's \<times> (nat \<Rightarrow> phase) \<Rightarrow> 's \<times> (nat \<Rightarrow> phase) \<Rightarrow> bool"
  for mac v clocks creds where
  check_passes: "ph i = Waiting \<Longrightarrow> HMAC_check mac v (clocks i) (creds i) s = None
    \<Longrightarrow> validate_step mac v clocks creds (s, ph) (s, ph(i := Passed))"
| check_fails: "ph i = Waiting \<Longrightarrow> HMAC_check mac v (clocks i) (creds i) s = Some e
    \<Longrightarrow> validate_step mac v clocks creds (s, ph) (s, ph(i := Refused e))"
| commits: "ph i = Passed \<Longrightarrow> HMAC_commit v (clocks i) (creds i) s = (c, s')
    \<Longrightarrow> validate_step mac v clocks creds (s, ph) (s', ph(i := Accepted c))"

inductive_simps validate_step_iff: "validate_step mac v clocks creds (s, ph) (s', ph')"

lemma atomic_validation:
  assumes "ph i = Waiting"
  shows "\<exists>ph'. (validate_step mac v clocks creds)\<^sup>*\<^sup>* (s, ph)
      (snd (HMAC_Validate mac v (clocks i) ctx (creds i) s), ph')
    \<and> (case fst (HMAC_Validate mac v (clocks i) ctx (creds i) s) of
         Inl e \<Rightarrow> ph' = ph(i := Refused e) | Inr c \<Rightarrow> ph' = ph(i := Accepted c))"
proof (cases "HMAC_check mac v (clocks i) (creds i) s")
  case None
  obtain c s' where c: "HMAC_commit v (clocks i) (creds i) s = (c, s')" by force
  from check_passes [of ph i mac v clocks creds s] commits [of "ph(i := Passed)" i v clocks creds s c s' mac]
    assms None c
  have "(validate_step mac v clocks creds)\<^sup>*\<^sup>* (s, ph) (s', ph(i := Accepted c))"
    by (simp add: converse_rtranclp_into_rtranclp)
  with None c show ?thesis by (simp add: HMAC_Validate_def)
next
  case (Some e)
  from check_fails [of ph i mac v clocks creds s e] assms Some show ?thesis
    by (auto simp: HMAC_Validate_def)
qed

section \<open>Headers a client sends\<close>

definition header_Get :: "(string \<rightharpoonup> string) \<Rightarrow> string \<Rightarrow> string list" where
  "header_Get md k = (case md k of None \<Rightarrow> [] | Some v \<Rightarrow> [v])"

definition generated_credential ::
    "(string \<Rightarrow> string \<Rightarrow> string) \<Rightarrow> instant \<Rightarrow> string \<Rightarrow> string \<Rightarrow> string \<Rightarrow> ServiceCredential" where
  "generated_credential mac now accessKey secretKey nonce = (credential_of_type CredentialTypeHMAC)\<lparr>
     cred_Signature := ComputeHMACSignature mac accessKey secretKey (to_unix now) nonce,
     cred_AccessKey := accessKey, cred_Timestamp := to_unix now, cred_Nonce := nonce\<rparr>"

lemma generated_credential_nonce [simp]: "cred_Nonce (generated_credential mac now accessKey secretKey nonce) = nonce"
  by (simp add: generated_credential_def)

lemma Extract_generated:
  assumes "ctx_metadata ctx = Some (header_Get (GenerateHMACCredentials mac now accessKey secretKey nonce))"
    and "0 \<le> now" and "now < 2 ^ 62"
  shows "Extract NewMetadataCredentialExtractor ctx = Inr (generated_credential mac now accessKey secretKey nonce)"
proof -
  have "ParseInt10 (int_text (to_unix now)) = to_unix now"
    using assms(2,3) by (intro ParseInt10_int_text) (auto simp: to_unix_def second_def)
  with assms(1) show ?thesis
    by (simp add: Extract_def NewMetadataCredentialExtractor_def header_Get_def GenerateHMACCredentials_def
        extract_bearer_def extract_hmac_def Let_def generated_credential_def)
qed

lemma unix_time_to_unix:
  assumes "0 \<le> now" and "now < 2 ^ 62"
  shows "unix_time (to_unix now) \<le> now \<and> now < unix_time (to_unix now) + second"
proof -
  have "wrap64 (now div second) = now div second"
    using assms by (intro wrap64_id) (auto simp: second_def)
  then have "unix_time (to_unix now) = now div second * second"
    by (simp add: unix_time_def to_unix_def)
  moreover have "now div second * second + now mod second = now" by (rule div_mult_mod_eq)
  moreover have "0 \<le> now mod second \<and> now mod second < second" by (simp add: second_def)
  ultimately show ?thesis by linarith
qed

lemma generated_credential_checks:
  assumes "secrets s accessKey = Some secretKey" and "nonces s nonce = None"
    and "0 \<le> now" and "now < 2 ^ 62"
    and "clock 0 - now \<le> 299 * second" and "now - clock 1 \<le> 300 * second"
  shows "HMAC_check mac server_hmac clock (generated_credential mac now accessKey secretKey nonce) s = None"
proof -
  let ?ts = "unix_time (to_unix now)"
  have ts: "?ts \<le> now" "now < ?ts + second" using unix_time_to_unix assms(3,4) by blast+
  have "time_sub (clock 0) ?ts \<le> 300 * second" "- (300 * second) \<le> time_sub (clock 1) ?ts"
    using ts assms(5,6) by (auto simp: time_sub_def second_def min_duration_def max_duration_def)
  then show ?thesis
    using assms(1,2)
    by (simp add: HMAC_check_None server_hmac_def NewHMACValidator_def credential_of_type_def minute_def
        generated_credential_def second_def HMAC_nonce_check_def uses_nonce_def in_memory_nonces_def
        Nonce_Exists_def Secret_Get_def wrap64_id)
qed

lemma server_validates_generated:
  "Composite_Validate (server_validator mac) clock ctx (generated_credential mac now accessKey secretKey nonce) s
    = HMAC_Validate mac server_hmac clock ctx (generated_credential mac now accessKey secretKey nonce) s"
  by (simp add: Composite_Validate_def server_validator_def Composite_Register_def CredentialTypeHMAC_def
      CredentialTypeAPIKey_def generated_credential_def credential_of_type_def)

section \<open>Properties\<close>

text \<open>
  C1: No replay. Once an HMAC credential with a nonce has been accepted, it is never accepted
  again, however late it is presented and whatever requests and cleanups of the nonce store
  come in between: the nonce outlives the time in which its timestamp is valid.
\<close>
theorem accepted_nonce_is_never_replayed:
  assumes "NonceStore v = Some in_memory_nonces" and "cred_Nonce cred \<noteq> []"
    and "0 \<le> TimestampValidity v" and "TimestampValidity v < 2 ^ 62"
    and "fst (HMAC_Validate mac v clock1 ctx1 cred s) = Inr c" and "clock1 1 \<le> clock1 2"
    and "list_all (cleaned_by (clock2 0)) evs"
  shows "isl (fst (HMAC_Validate mac v clock2 ctx2 cred
      (validator_run mac v cleanup_nonces evs (snd (HMAC_Validate mac v clock1 ctx1 cred s)))))"
  using assms by (rule in_memory.no_replay)

definition sample_stores :: security_stores where
  "sample_stores = \<lparr>nonces = Map.empty,
     api_keys = \<lparr>ak_keys = Map.empty,
       ak_heap = \<lambda>_. \<lparr>info_ServiceName = [], info_Permissions = [], info_ExpiresAt = 0, Revoked = False\<rparr>\<rparr>,
     secrets = [''svc'' \<mapsto> ''key'']\<rparr>"

definition sample_context :: rpc_context where
  "sample_context = \<lparr>ctx_metadata = None, ctx_peer = None, ctx_identity = None, ctx_credential = None,
     ctx_request_id = None\<rparr>"

definition sample_credential :: ServiceCredential where
  "sample_credential = (credential_of_type CredentialTypeHMAC)\<lparr>cred_AccessKey := ''svc'',
     cred_Signature := ''key'', cred_Nonce := ''n''\<rparr>"

lemma sample_accepted:
  "HMAC_check (\<lambda>k m. k) server_hmac (\<lambda>_. unix_time 0) sample_credential sample_stores = None"
  by (simp add: HMAC_check_None sample_credential_def sample_stores_def server_hmac_def NewHMACValidator_def
      credential_of_type_def minute_def HMAC_nonce_check_def uses_nonce_def in_memory_nonces_def
      Nonce_Exists_def Secret_Get_def ComputeHMACSignature_def wrap64_id)

theorem accepted_nonce_is_never_replayed_witness:
  "isl (fst (HMAC_Validate (\<lambda>k m. k) server_hmac (\<lambda>_. unix_time 0) sample_context sample_credential
      (validator_run (\<lambda>k m. k) server_hmac cleanup_nonces [CleanedUp (unix_time 0)]
         (snd (HMAC_Validate (\<lambda>k m. k) server_hmac (\<lambda>_. unix_time 0) sample_context sample_credential sample_stores)))))"
  by (rule accepted_nonce_is_never_replayed [where c = "fst (HMAC_commit server_hmac (\<lambda>_. unix_time 0) sample_credential sample_stores)"])
    (simp_all add: HMAC_Validate_Inr sample_accepted, simp_all add: server_hmac_def NewHMACValidator_def
      sample_credential_def credential_of_type_def minute_def)

text \<open>
  The protection is not atomic. Of one and the same credential presented in two concurrent
  requests, both are accepted when both check the nonce before either stores it.
\<close>
theorem concurrent_replay_is_accepted:
  assumes "HMAC_check mac v clock cred s = None"
  shows "\<exists>s' c1 c2. (validate_step mac v (\<lambda>_. clock) (\<lambda>_. cred))\<^sup>*\<^sup>* (s, \<lambda>_. Waiting)
      (s', (\<lambda>_. Waiting)(0 := Accepted c1, 1 := Accepted c2))"
proof -
  let ?step = "validate_step mac v (\<lambda>_. clock) (\<lambda>_. cred)" and ?w = "\<lambda>_. Waiting"
  obtain c1 s1 where 1: "HMAC_commit v clock cred s = (c1, s1)" by force
  obtain c2 s2 where 2: "HMAC_commit v clock cred s1 = (c2, s2)" by force
  let ?p0 = "?w(0 := Passed)" let ?p1 = "?p0(1 := Passed)" let ?p2 = "?p1(0 := Accepted c1)"
  have "?step (s, ?w) (s, ?p0)" by (rule check_passes) (simp_all add: assms)
  moreover have "?step (s, ?p0) (s, ?p1)" by (rule check_passes) (simp_all add: assms)
  moreover have "?step (s, ?p1) (s1, ?p2)" by (rule commits) (simp_all add: 1)
  moreover have "?step (s1, ?p2) (s2, ?p2(1 := Accepted c2))" by (rule commits) (simp_all add: 2)
  ultimately have "?step\<^sup>*\<^sup>* (s, ?w) (s2, ?p2(1 := Accepted c2))"
    by (meson converse_rtranclp_into_rtranclp rtranclp.rtrancl_refl)
  moreover have "?p2(1 := Accepted c2) = ?w(0 := Accepted c1, 1 := Accepted c2)" by auto
  ultimately show ?thesis by metis
qed

theorem concurrent_replay_is_accepted_witness:
  "\<exists>s' c1 c2. (validate_step (\<lambda>k m. k) server_hmac (\<lambda>_ _. unix_time 0) (\<lambda>_. sample_credential))\<^sup>*\<^sup>*
      (sample_stores, \<lambda>_. Waiting) (s', (\<lambda>_. Waiting)(0 := Accepted c1, 1 := Accepted c2))"
  by (rule concurrent_replay_is_accepted) (rule sample_accepted)

text \<open>
  C16: The credentials a client generates are accepted: their headers are extracted, the
  signature verifies and the subject is the access key, for a registered secret, a fresh
  nonce and clocks that differ by less than the validity of a timestamp.
\<close>
theorem generated_credentials_are_accepted:
  assumes "ctx_metadata ctx = Some (header_Get (GenerateHMACCredentials mac now accessKey secretKey nonce))"
    and "secrets s accessKey = Some secretKey" and "nonces s nonce = None"
    and "0 \<le> now" and "now < 2 ^ 62"
    and "clock 0 - now \<le> 299 * second" and "now - clock 1 \<le> 300 * second"
  shows "\<exists>cred c s'. Extract NewMetadataCredentialExtractor ctx = Inr cred
    \<and> Composite_Validate (server_validator mac) clock ctx cred s = (Inr c, s')
    \<and> cred_Subject c = accessKey"
proof -
  let ?cred = "generated_credential mac now accessKey secretKey nonce"
  have "HMAC_check mac server_hmac clock ?cred s = None"
    using assms(2-7) by (rule generated_credential_checks)
  then have "\<exists>c s'. Composite_Validate (server_validator mac) clock ctx ?cred s = (Inr c, s')
      \<and> cred_Subject c = accessKey"
    by (simp add: server_validates_generated HMAC_Validate_def HMAC_commit_def Let_def)
      (simp add: generated_credential_def)
  with Extract_generated [OF assms(1,4,5)] show ?thesis by blast
qed

theorem generated_credentials_are_accepted_witness:
  "\<exists>cred c s'. Extract NewMetadataCredentialExtractor
        \<lparr>ctx_metadata = Some (header_Get (GenerateHMACCredentials (\<lambda>k m. k @ m) (9 * second) ''svc'' ''key'' ''n'')),
         ctx_peer = None, ctx_identity = None, ctx_credential = None, ctx_request_id = None\<rparr> = Inr cred
    \<and> Composite_Validate (server_validator (\<lambda>k m. k @ m)) (\<lambda>_. 10 * second)
        \<lparr>ctx_metadata = Some (header_Get (GenerateHMACCredentials (\<lambda>k m. k @ m) (9 * second) ''svc'' ''key'' ''n'')),
         ctx_peer = None, ctx_identity = None, ctx_credential = None, ctx_request_id = None\<rparr> cred sample_stores
      = (Inr c, s')
    \<and> cred_Subject c = ''svc''"
  by (rule generated_credentials_are_accepted [where now = "9 * second" and secretKey = "''key''" and nonce = "''n''"])
    (simp_all add: sample_stores_def second_def)

text \<open>
  C5: Behind the credential interceptor the handler runs only for a skipped method, without
  a credential where it is optional, or with a context that carries a credential whose
  subject the request proves (by a verified signature or a live API key) and, unless
  switched off, agrees with the mTLS identity. A request is refused as \<open>Unauthenticated\<close> only
  for a failed extraction, a failed validation or a different mTLS identity.
\<close>
theorem interceptor_admits_proven_subjects:
  "let o' = credential_options opts;
       r = CredentialInterceptor extract (Composite_Validate (server_validator mac)) opts clock meth h ctx req s
   in r = h ctx req s \<and> (meth \<in> set (cred_skipMatcher o') \<or> cred_optional o' \<and> isl (extract ctx))
    \<or> (\<exists>cred c s'. extract ctx = Inr cred
        \<and> server_proves mac (cred_Type cred) s clock cred (cred_Subject c)
        \<and> (requireIdentityMatch o' = False \<or>
            (case ServiceIdentityFromContext ctx of None \<Rightarrow> True
             | Some i \<Rightarrow> cred_Subject c \<in> {[], ServiceName i}))
        \<and> r = h (ContextWithCredential ctx c) req s')
    \<or> (\<exists>st s'. r = (Inl st, s') \<and> st_Code st = Unauthenticated
        \<and> (case extract ctx of Inl e \<Rightarrow> True
            | Inr cred \<Rightarrow> (case fst (Composite_Validate (server_validator mac) clock ctx cred s) of Inl e \<Rightarrow> True
                | Inr c \<Rightarrow> validateIdentityMatch ctx c \<noteq> None)))"
proof (cases rule: server.composite.interceptor_cases [of "extract" mac opts clock meth h ctx req s])
  case (admitted cred c s')
  have "validateIdentityMatch ctx c = None \<Longrightarrow>
      case ServiceIdentityFromContext ctx of None \<Rightarrow> True | Some i \<Rightarrow> cred_Subject c \<in> {[], ServiceName i}"
    by (auto simp: validateIdentityMatch_def split: option.splits if_splits)
  with admitted show ?thesis unfolding Let_def by blast
qed (unfold Let_def, blast+)

text \<open>
  The stream interceptor treats a stream as the unary one treats a request with the
  stream's context, and hands the handler the stream with the new context.
\<close>
lemma credential_stream_same_decision:
  "CredentialStreamInterceptor extract validate opts clock meth h srv ss s
     = CredentialInterceptor extract validate opts clock meth (as_unary h) (stream_Context ss) (srv, ss) s"
  by (auto simp: CredentialStreamInterceptor_def CredentialInterceptor_def Let_def split: sum.split prod.split)

text \<open>
  Revoking an API key takes effect at once, on every key registered with the same
  information, and on no other; an unknown key is reported and changes nothing.
\<close>
theorem revocation:
  "case APIKey_Revoke k st of
     (Some err, st') \<Rightarrow> ak_keys st k = None \<and> st' = st
   | (None, st') \<Rightarrow> ak_keys st' = ak_keys st
       \<and> APIKey_Validate APIKey_Get clock ctx ((credential_of_type CredentialTypeAPIKey)\<lparr>cred_AccessKey := k'\<rparr>) st'
          = (if ak_keys st k' = ak_keys st k then (Inl ''API key has been revoked'', st')
             else map_prod id (\<lambda>_. st') (APIKey_Validate APIKey_Get clock ctx
                  ((credential_of_type CredentialTypeAPIKey)\<lparr>cred_AccessKey := k'\<rparr>) st))"
  by (auto simp: APIKey_Revoke_def APIKey_Validate_def APIKey_Get_def credential_of_type_def
      split: option.split)

end
