(* ===== verification/Grpc_Mtls.thy ===== *)
theory Grpc_Mtls
  imports Grpc_Types
begin

text \<open>
  \<open>pkg/grpc/interceptors/mtls.go\<close>: the identity of a service as its certificate states it,
  and the interceptors that put it into the context. The validator of identities is an
  interface, a locale, which the list of allowed services provides. Building
  \<open>tls.Config\<close> values from PEM text is \<open>crypto/tls\<close>'s and not modelled.
\<close>

section \<open>Identities\<close>

fun scan_path :: "string list \<Rightarrow> ServiceIdentity \<Rightarrow> ServiceIdentity" where
  "scan_path (p # q # rest) identity =
     (let i1 = (if p = ''ns'' then identity\<lparr>ServiceNamespace := q\<rparr> else identity);
          i2 = (if p = ''sa'' then i1\<lparr>ServiceName := q\<rparr> else i1)
      in scan_path (q # rest) i2)"
| "scan_path _ identity = identity"

fun scan_uris :: "uri list \<Rightarrow> ServiceIdentity \<Rightarrow> ServiceIdentity" where
  "scan_uris [] identity = identity"
| "scan_uris (u # us) identity =
     (let i1 = identity\<lparr>id_URISANs := id_URISANs identity @ [uri_String u]\<rparr>
      in scan_uris us
           (if uri_Scheme u = ''spiffe'' then scan_path (split_on CHR ''/'' (uri_Path u)) i1 else i1))"

definition extractServiceNameFromCN :: "string \<Rightarrow> string" where
  "extractServiceNameFromCN cn =
     (if cn = [] then []
      else if contains cn ''.svc.'' then
        (case split_on CHR ''.'' cn of p # _ \<Rightarrow> p | [] \<Rightarrow> cn)
      else cn)"

fun extractNamespaceFromOU :: "string list \<Rightarrow> string" where
  "extractNamespaceFromOU [] = []"
| "extractNamespaceFromOU (ou # ous) =
     (let lower = to_lower ou; parts = split_n2 CHR '':'' ou in
      if (has_prefix lower ''ns:'' \<or> has_prefix lower ''namespace:'') \<and> length parts = 2 then parts ! 1
      else if lower \<in> {''production'', ''staging'', ''development'', ''prod'', ''dev'', ''test''} then lower
      else extractNamespaceFromOU ous)"

definition ParseCertificateIdentity :: "certificate \<Rightarrow> ServiceIdentity" where
  "ParseCertificateIdentity cert =
     (let i0 = \<lparr>ServiceName = [], ServiceNamespace = [], id_CommonName = cert_CommonName cert,
            id_OrganizationalUnits = cert_OrganizationalUnit cert,
            id_CertSerialNumber = cert_SerialNumber cert, id_DNSSANs = cert_DNSNames cert,
            id_URISANs = [], id_NotBefore = cert_NotBefore cert, id_NotAfter = cert_NotAfter cert\<rparr>;
          i1 = scan_uris (cert_URIs cert) i0;
          i2 = (if ServiceName i1 = [] then i1\<lparr>ServiceName := extractServiceNameFromCN (cert_CommonName cert)\<rparr> else i1)
      in if ServiceNamespace i2 = []
         then i2\<lparr>ServiceNamespace := extractNamespaceFromOU (cert_OrganizationalUnit cert)\<rparr> else i2)"

definition ExtractServiceIdentityFromTLS :: "rpc_context \<Rightarrow> string + ServiceIdentity" where
  "ExtractServiceIdentityFromTLS ctx =
     (case ctx_peer ctx of
        None \<Rightarrow> Inl ''failed to get peer from context''
      | Some OtherAuthInfo \<Rightarrow> Inl ''peer auth info is not TLS''
      | Some (TLSInfo certs verified) \<Rightarrow>
          (case certs of
             [] \<Rightarrow> Inl ''no client certificate found''
           | cert # _ \<Rightarrow> Inr (ParseCertificateIdentity cert)))"

section \<open>Interceptors\<close>

type_synonym IdentityValidator = "ServiceIdentity \<Rightarrow> string option"

record mtlsOptions =
  mtls_skipMatcher :: SkipMethodMatcher
  mtls_validator :: "IdentityValidator option"

type_synonym MTLSOption = "mtlsOptions \<Rightarrow> mtlsOptions"

definition defaultMTLSOptions :: mtlsOptions where
  "defaultMTLSOptions = \<lparr>mtls_skipMatcher = NewSkipMethodMatcher DefaultSkipMethods, mtls_validator = None\<rparr>"

fun allowed_Validate :: "string list \<Rightarrow> IdentityValidator" where
  "allowed_Validate [] identity = Some (''service '' @ quote (ServiceName identity) @ '' not in allowed list'')"
| "allowed_Validate (s # services) identity =
     (if ServiceName identity = s then None else allowed_Validate services identity)"

definition WithMTLSSkipMethods :: "string list \<Rightarrow> MTLSOption" where
  "WithMTLSSkipMethods methods opts = opts\<lparr>mtls_skipMatcher := skip_Add (mtls_skipMatcher opts) methods\<rparr>"

definition WithMTLSValidator :: "IdentityValidator \<Rightarrow> MTLSOption" where
  "WithMTLSValidator validator opts = opts\<lparr>mtls_validator := Some validator\<rparr>"

definition WithAllowedServices :: "string list \<Rightarrow> MTLSOption" where
  "WithAllowedServices services opts = opts\<lparr>mtls_validator := Some (allowed_Validate services)\<rparr>"

definition mtls_options :: "MTLSOption list \<Rightarrow> mtlsOptions" where
  "mtls_options opts = fold (\<lambda>opt options. opt options) opts defaultMTLSOptions"

definition MTLSInterceptor :: "MTLSOption list \<Rightarrow> string \<Rightarrow> ('q, 'r, 's) handler \<Rightarrow> ('q, 'r, 's) handler" where
  "MTLSInterceptor opts meth h ctx req s =
     (let options = mtls_options opts in
      if skip_Match (mtls_skipMatcher options) meth then h ctx req s
      else case ExtractServiceIdentityFromTLS ctx of
        Inl err \<Rightarrow> (Inl (status_Error Unauthenticated ''client certificate required''), s)
      | Inr identity \<Rightarrow>
          (case (case mtls_validator options of None \<Rightarrow> None | Some validate \<Rightarrow> validate identity) of
             Some err \<Rightarrow> (Inl (status_Error Unauthenticated ''service not authorized''), s)
           | None \<Rightarrow> h (ContextWithServiceIdentity ctx identity) req s))"

definition MTLSStreamInterceptor ::
    "MTLSOption list \<Rightarrow> string \<Rightarrow> ('v, 'x, 'r, 's) stream_handler \<Rightarrow> ('v, 'x, 'r, 's) stream_handler" where
  "MTLSStreamInterceptor opts meth h srv ss s =
     (let options = mtls_options opts in
      if skip_Match (mtls_skipMatcher options) meth then h srv ss s
      else let ctx = stream_Context ss in
        case ExtractServiceIdentityFromTLS ctx of
          Inl err \<Rightarrow> (Inl (status_Error Unauthenticated ''client certificate required''), s)
        | Inr identity \<Rightarrow>
            (case (case mtls_validator options of None \<Rightarrow> None | Some validate \<Rightarrow> validate identity) of
               Some err \<Rightarrow> (Inl (status_Error Unauthenticated ''service not authorized''), s)
             | None \<Rightarrow> h srv (WrappedServerStream ss (ContextWithServiceIdentity ctx identity)) s))"

section \<open>The validator as an interface\<close>

locale identity_validator =
  fixes validate :: IdentityValidator
    and authorized :: "ServiceIdentity set"
  assumes validate_authorized: "validate identity = None \<longleftrightarrow> identity \<in> authorized"
begin

lemma interceptor_validates:
  assumes "mtls_validator (mtls_options opts) = Some validate"
    and "meth \<notin> set (mtls_skipMatcher (mtls_options opts))"
  shows "MTLSInterceptor opts meth h ctx req s =
    (case ExtractServiceIdentityFromTLS ctx of
       Inl err \<Rightarrow> (Inl (status_Error Unauthenticated ''client certificate required''), s)
     | Inr identity \<Rightarrow>
         if identity \<in> authorized then h (ContextWithServiceIdentity ctx identity) req s
         else (Inl (status_Error Unauthenticated ''service not authorized''), s))"
proof (cases "ExtractServiceIdentityFromTLS ctx")
  case (Inl e)
  with assms show ?thesis by (simp add: MTLSInterceptor_def skip_Match_iff Let_def)
next
  case (Inr i)
  with assms validate_authorized [of i] show ?thesis
    by (cases "validate i") (simp_all add: MTLSInterceptor_def skip_Match_iff Let_def)
qed

end

lemma allowed_Validate_iff: "allowed_Validate services identity = None \<longleftrightarrow> ServiceName identity \<in> set services"
  by (induction services) auto

interpretation allowed: identity_validator "allowed_Validate services"
    "{identity. ServiceName identity \<in> set services}" for services
  by unfold_locales (simp add: allowed_Validate_iff)

section \<open>Properties\<close>

lemma scan_path_short [simp]: "scan_path [p] identity = identity"
  by simp

lemma split_spiffe:
  assumes "CHR ''/'' \<notin> set ns" and "CHR ''/'' \<notin> set sa"
  shows "split_on CHR ''/'' (''/ns/'' @ ns @ ''/sa/'' @ sa) = [[], ''ns'', ns, ''sa'', sa]"
proof -
  have rest: "split_on CHR ''/'' (ns @ CHR ''/'' # ''sa'' @ CHR ''/'' # sa) = [ns, ''sa'', sa]"
    by (simp add: split_on_append [OF assms(1)] split_on_notin [OF assms(2)])
  have "split_on CHR ''/'' (''ns'' @ CHR ''/'' # ns @ CHR ''/'' # ''sa'' @ CHR ''/'' # sa) = ''ns'' # [ns, ''sa'', sa]"
    by (subst split_on_append) (simp, simp only: rest)
  then show ?thesis by simp
qed

text \<open>
  A certificate with the SPIFFE ID \<open>spiffe://<domain>/ns/<namespace>/sa/<service>\<close> gives
  that service and namespace, whatever its common name and units say, unless the namespace
  is itself called \<open>ns\<close>, which is taken for another namespace marker.
\<close>
theorem spiffe_identity:
  assumes "cert_URIs cert = [u]" and "uri_Scheme u = ''spiffe''"
    and "uri_Path u = ''/ns/'' @ ns @ ''/sa/'' @ sa"
    and "CHR ''/'' \<notin> set ns" and "CHR ''/'' \<notin> set sa" and "ns \<noteq> []" and "sa \<noteq> []"
  shows "ServiceName (ParseCertificateIdentity cert) = sa
    \<and> ServiceNamespace (ParseCertificateIdentity cert) = (if ns = ''ns'' then ''sa'' else ns)"
  using assms by (simp add: ParseCertificateIdentity_def split_spiffe [simplified] Let_def)

theorem spiffe_identity_witness:
  "ServiceName (ParseCertificateIdentity \<lparr>cert_CommonName = ''other'', cert_OrganizationalUnit = [],
     cert_SerialNumber = ''1'', cert_DNSNames = [], cert_URIs = [\<lparr>uri_Scheme = ''spiffe'',
       uri_Path = ''/ns/prod/sa/api'', uri_String = ''spiffe://td/ns/prod/sa/api''\<rparr>],
     cert_NotBefore = 0, cert_NotAfter = 0, cert_Organization = [], cert_IPAddresses = [],
     cert_IssuerCommonName = []\<rparr>) = ''api''"
  by (subst spiffe_identity [where u = "\<lparr>uri_Scheme = ''spiffe'',
       uri_Path = ''/ns/prod/sa/api'', uri_String = ''spiffe://td/ns/prod/sa/api''\<rparr>" and ns = "''prod''" and sa = "''api''", THEN conjunct1]) simp_all

text \<open>
  With a list of allowed services, a handler behind the mTLS interceptor runs on a method
  that is not skipped only for a peer whose certificate names an allowed service, with that
  identity in the context; every other peer is \<open>Unauthenticated\<close>.
\<close>
theorem only_allowed_services:
  "MTLSInterceptor [WithMTLSSkipMethods skips, WithAllowedServices services] meth h ctx req s =
     (if meth \<in> set DefaultSkipMethods \<union> set skips then h ctx req s
      else case ExtractServiceIdentityFromTLS ctx of
        Inl err \<Rightarrow> (Inl (status_Error Unauthenticated ''client certificate required''), s)
      | Inr identity \<Rightarrow>
          if ServiceName identity \<in> set services then h (ContextWithServiceIdentity ctx identity) req s
          else (Inl (status_Error Unauthenticated ''service not authorized''), s))"
proof -
  let ?opts = "[WithMTLSSkipMethods skips, WithAllowedServices services]"
  have v: "mtls_validator (mtls_options ?opts) = Some (allowed_Validate services)"
    by (simp add: mtls_options_def WithAllowedServices_def)
  have sk: "set (mtls_skipMatcher (mtls_options ?opts)) = set DefaultSkipMethods \<union> set skips"
    by (simp add: mtls_options_def WithAllowedServices_def WithMTLSSkipMethods_def defaultMTLSOptions_def
        NewSkipMethodMatcher_def skip_Add_def)
  show ?thesis
  proof (cases "meth \<in> set DefaultSkipMethods \<union> set skips")
    case True
    with sk show ?thesis by (simp add: MTLSInterceptor_def skip_Match_iff Let_def)
  next
    case False
    with sk allowed.interceptor_validates [OF v, of meth h ctx req s] show ?thesis
      by (simp split: sum.split)
  qed
qed

text \<open>
  The mTLS stream interceptor decides as the unary one on the context of the stream.
\<close>
lemma mtls_stream_same_decision:
  "MTLSStreamInterceptor opts meth h srv ss s
     = MTLSInterceptor opts meth (as_unary h) (stream_Context ss) (srv, ss) s"
  by (auto simp: MTLSStreamInterceptor_def MTLSInterceptor_def Let_def split: sum.split option.split)

end
