(* ===== verification/Mtls_Config.thy ===== *)
theory Mtls_Config
  imports Grpc_Mtls
begin

text \<open>
  \<open>pkg/grpc/mtls\<close>: the mTLS configuration, the builder that loads and reloads it, the policy
  on client certificates, and the package's own identities.

  Files and \<open>crypto/tls\<close> are outside \<open>src/\<close>; what the builder reads of them at one moment is
  the record \<open>files\<close>: the parsed key pair of two files, the text of a file, the entries of
  a directory, and the certificates \<open>AppendCertsFromPEM\<close> finds in a text. A pool is the
  list of its certificates.
\<close>

section \<open>Configuration\<close>

record mtls_config =
  CertFile :: string
  KeyFile :: string
  CAFile :: string
  CADir :: string
  RequireClientCert :: bool
  AllowedCNs :: "string list"
  AllowedOUs :: "string list"
  AllowedDNSSANs :: "string list"
  MinVersion :: nat
  MaxVersion :: nat
  EnableAutoReload :: bool
  ReloadInterval :: duration
  CertExpiryThreshold :: duration

definition VersionTLS12 :: nat where "VersionTLS12 = 771"
definition VersionTLS13 :: nat where "VersionTLS13 = 772"

definition mtls_DefaultConfig :: mtls_config where
  "mtls_DefaultConfig = \<lparr>CertFile = [], KeyFile = [], CAFile = [], CADir = [], RequireClientCert = True,
     AllowedCNs = [], AllowedOUs = [], AllowedDNSSANs = [], MinVersion = VersionTLS12,
     MaxVersion = VersionTLS13, EnableAutoReload = True, ReloadInterval = 5 * minute,
     CertExpiryThreshold = 7 * 24 * 60 * minute\<rparr>"

definition mtls_config_Validate :: "mtls_config \<Rightarrow> string option" where
  "mtls_config_Validate c =
     (if CertFile c = [] then Some ''cert_file is required''
      else if KeyFile c = [] then Some ''key_file is required''
      else if RequireClientCert c \<and> CAFile c = [] \<and> CADir c = []
        then Some ''ca_file or ca_dir is required when require_client_cert is true''
      else None)"

section \<open>Policy on client certificates\<close>

definition MatchDNSSAN :: "string \<Rightarrow> string \<Rightarrow> bool" where
  "MatchDNSSAN actual pattern =
     (if pattern = actual then True
      else if 2 < length pattern \<and> take 2 pattern = ''*.'' then
        (let suffix = drop 1 pattern in
         if length suffix < length actual
         then drop (length actual - length suffix) actual = suffix else False)
      else False)"

definition verifyPeerCertificate :: "mtls_config \<Rightarrow> certificate list list \<Rightarrow> string option" where
  "verifyPeerCertificate c verifiedChains =
     (case verifiedChains of
        (clientCert # _) # _ \<Rightarrow>
          if AllowedCNs c \<noteq> [] \<and> \<not> list_ex (\<lambda>cn. cert_CommonName clientCert = cn) (AllowedCNs c)
            then Some (''client certificate CN '' @ quote (cert_CommonName clientCert) @ '' not in allowed list'')
          else if AllowedOUs c \<noteq> [] \<and> \<not> list_ex (\<lambda>clientOU. list_ex (\<lambda>allowedOU. clientOU = allowedOU) (AllowedOUs c))
              (cert_OrganizationalUnit clientCert)
            then Some ''client certificate OU not in allowed list''
          else if AllowedDNSSANs c \<noteq> [] \<and> \<not> list_ex (\<lambda>clientSAN. list_ex (MatchDNSSAN clientSAN) (AllowedDNSSANs c))
              (cert_DNSNames clientCert)
            then Some ''client certificate DNS SAN not in allowed list''
          else None
      | _ \<Rightarrow> Some ''no verified certificate chain'')"

section \<open>The builder\<close>

record ('kp, 'ca) files =
  LoadX509KeyPair :: "string \<Rightarrow> string \<Rightarrow> string + 'kp"
  ReadFile :: "string \<Rightarrow> string + string"
  ReadDir :: "string \<Rightarrow> string + (string \<times> bool) list"
  path_Join :: "string \<Rightarrow> string \<Rightarrow> string"
  pem_certs :: "string \<Rightarrow> 'ca list"

datatype client_auth = NoClientCert | RequestClientCert | RequireAnyClientCert
  | VerifyClientCertIfGiven | RequireAndVerifyClientCert

record ('kp, 'ca) tls_config =
  tls_Certificates :: "'kp list"
  tls_ClientCAs :: "'ca list"
  tls_ClientAuth :: client_auth
  tls_MinVersion :: nat
  tls_MaxVersion :: nat
  tls_CipherSuites :: "string list"
  tls_VerifyPeerCertificate :: "certificate list list \<Rightarrow> string option"

definition AppendCertsFromPEM :: "('kp, 'ca) files \<Rightarrow> 'ca list \<Rightarrow> string \<Rightarrow> 'ca list \<times> bool" where
  "AppendCertsFromPEM fs pool pem = (pool @ pem_certs fs pem, pem_certs fs pem \<noteq> [])"

text \<open>\<open>filepath.Ext\<close> of the name of a directory entry, which has no slash.\<close>

definition file_Ext :: "string \<Rightarrow> string" where
  "file_Ext name = (let i = last_index name CHR ''.'' in if i < 0 then [] else drop (nat i) name)"

fun load_entries :: "('kp, 'ca) files \<Rightarrow> string \<Rightarrow> (string \<times> bool) list \<Rightarrow> 'ca list \<Rightarrow> string + 'ca list" where
  "load_entries fs dir [] pool = Inr pool"
| "load_entries fs dir ((name, isDir) # entries) pool =
     (if isDir \<or> (file_Ext name \<noteq> ''.pem'' \<and> file_Ext name \<noteq> ''.crt'') then load_entries fs dir entries pool
      else let caPath = path_Join fs dir name in
        case ReadFile fs caPath of
          Inl err \<Rightarrow> Inl (''failed to read CA file '' @ caPath @ '': '' @ err)
        | Inr caCert \<Rightarrow> load_entries fs dir entries (fst (AppendCertsFromPEM fs pool caCert)))"

definition load_ca_dir :: "('kp, 'ca) files \<Rightarrow> mtls_config \<Rightarrow> 'ca list \<Rightarrow> string + 'ca list" where
  "load_ca_dir fs c pool =
     (if CADir c = [] then Inr pool
      else case ReadDir fs (CADir c) of
        Inl err \<Rightarrow> Inl (''failed to read CA directory: '' @ err)
      | Inr entries \<Rightarrow> load_entries fs (CADir c) entries pool)"

definition loadCACertPool :: "('kp, 'ca) files \<Rightarrow> mtls_config \<Rightarrow> string + 'ca list" where
  "loadCACertPool fs c =
     (if CAFile c = [] then load_ca_dir fs c []
      else case ReadFile fs (CAFile c) of
        Inl err \<Rightarrow> Inl (''failed to read CA file: '' @ err)
      | Inr caCert \<Rightarrow>
          (case AppendCertsFromPEM fs [] caCert of
             (pool, ok) \<Rightarrow> if \<not> ok then Inl ''failed to parse CA certificate'' else load_ca_dir fs c pool))"

record ('kp, 'ca) TLSConfigBuilder =
  bld_config :: mtls_config
  bld_tlsConfig :: "('kp, 'ca) tls_config option"
  bld_stopped :: bool

definition cipher_suites :: "string list" where
  "cipher_suites =
     [''ECDHE_ECDSA_WITH_AES_256_GCM_SHA384'', ''ECDHE_RSA_WITH_AES_256_GCM_SHA384'',
      ''ECDHE_ECDSA_WITH_CHACHA20_POLY1305'', ''ECDHE_RSA_WITH_CHACHA20_POLY1305'',
      ''ECDHE_ECDSA_WITH_AES_128_GCM_SHA256'', ''ECDHE_RSA_WITH_AES_128_GCM_SHA256'']"

definition buildTLSConfig ::
    "('kp, 'ca) files \<Rightarrow> ('kp, 'ca) TLSConfigBuilder \<Rightarrow> string option \<times> ('kp, 'ca) TLSConfigBuilder" where
  "buildTLSConfig fs b =
     (let c = bld_config b in
      case LoadX509KeyPair fs (CertFile c) (KeyFile c) of
        Inl err \<Rightarrow> (Some (''failed to load server certificate: '' @ err), b)
      | Inr cert \<Rightarrow>
          (case loadCACertPool fs c of
             Inl err \<Rightarrow> (Some (''failed to load CA certificates: '' @ err), b)
           | Inr caPool \<Rightarrow>
               let clientAuth = (if RequireClientCert c then RequireAndVerifyClientCert else NoClientCert);
                   tlsConfig = \<lparr>tls_Certificates = [cert], tls_ClientCAs = caPool, tls_ClientAuth = clientAuth,
                     tls_MinVersion = MinVersion c, tls_MaxVersion = MaxVersion c,
                     tls_CipherSuites = cipher_suites, tls_VerifyPeerCertificate = verifyPeerCertificate c\<rparr>
               in (None, b\<lparr>bld_tlsConfig := Some tlsConfig\<rparr>)))"

definition NewTLSConfigBuilder ::
    "('kp, 'ca) files \<Rightarrow> mtls_config \<Rightarrow> string + ('kp, 'ca) TLSConfigBuilder" where
  "NewTLSConfigBuilder fs cfg =
     (case mtls_config_Validate cfg of
        Some err \<Rightarrow> Inl (''invalid mtls config: '' @ err)
      | None \<Rightarrow>
          (case buildTLSConfig fs \<lparr>bld_config = cfg, bld_tlsConfig = None, bld_stopped = False\<rparr> of
             (Some err, b) \<Rightarrow> Inl err
           | (None, b) \<Rightarrow> Inr b))"

definition GetTLSConfig :: "('kp, 'ca) TLSConfigBuilder \<Rightarrow> ('kp, 'ca) tls_config option" where
  "GetTLSConfig b = bld_tlsConfig b"

text \<open>
  \<open>StartAutoReload\<close> starts no goroutine when reloading is off; otherwise the goroutine's
  \<open>time.NewTicker\<close> panics for an interval that is not positive. A tick rebuilds from the
  files as they are then and only prints an error; \<open>Stop\<close> closes a channel, which panics
  when it is already closed.
\<close>

datatype reload_start = NotStarted | Ticking duration | TickerPanic

definition StartAutoReload :: "('kp, 'ca) TLSConfigBuilder \<Rightarrow> reload_start" where
  "StartAutoReload b =
     (if \<not> EnableAutoReload (bld_config b) then NotStarted
      else if ReloadInterval (bld_config b) \<le> 0 then TickerPanic
      else Ticking (ReloadInterval (bld_config b)))"

inductive reload_step :: "('kp, 'ca) TLSConfigBuilder \<Rightarrow> ('kp, 'ca) TLSConfigBuilder \<Rightarrow> bool" where
  tick: "StartAutoReload b = Ticking d \<Longrightarrow> \<not> bld_stopped b \<Longrightarrow> reload_step b (snd (buildTLSConfig fs b))"
| stop: "\<not> bld_stopped b \<Longrightarrow> reload_step b (b\<lparr>bld_stopped := True\<rparr>)"

definition CheckCertExpiry ::
    "('kp, 'ca) files \<Rightarrow> (string \<Rightarrow> string option) \<Rightarrow> (string \<Rightarrow> string + certificate) \<Rightarrow> instant
     \<Rightarrow> ('kp, 'ca) TLSConfigBuilder \<Rightarrow> string + duration" where
  "CheckCertExpiry fs pem_Decode ParseCertificate now b =
     (case ReadFile fs (CertFile (bld_config b)) of
        Inl err \<Rightarrow> Inl err
      | Inr certPEM \<Rightarrow>
          (case pem_Decode certPEM of
             None \<Rightarrow> Inl ''failed to decode certificate PEM''
           | Some bytes \<Rightarrow>
               (case ParseCertificate bytes of
                  Inl err \<Rightarrow> Inl err
                | Inr cert \<Rightarrow> Inr (time_sub (cert_NotAfter cert) now))))"

section \<open>Client credentials\<close>

record ClientCredentialsConfig =
  cli_CertFile :: string
  cli_KeyFile :: string
  cli_CAFile :: string
  cli_ServerName :: string
  cli_InsecureSkipVerify :: bool

definition client_Validate :: "ClientCredentialsConfig \<Rightarrow> string option" where
  "client_Validate c =
     (if cli_CertFile c = [] then Some ''cert_file is required for mTLS client''
      else if cli_KeyFile c = [] then Some ''key_file is required for mTLS client''
      else if cli_CAFile c = [] \<and> \<not> cli_InsecureSkipVerify c
        then Some ''ca_file is required when insecure_skip_verify is false''
      else None)"

record ('kp, 'ca) client_tls =
  ctls_Certificates :: "'kp list"
  ctls_RootCAs :: "'ca list option"
  ctls_ServerName :: string
  ctls_InsecureSkipVerify :: bool
  ctls_MinVersion :: nat

definition load_client_cas :: "('kp, 'ca) files \<Rightarrow> ClientCredentialsConfig \<Rightarrow> string + 'ca list option" where
  "load_client_cas fs cfg =
     (if cli_CAFile cfg = [] then Inr None
      else case ReadFile fs (cli_CAFile cfg) of
        Inl err \<Rightarrow> Inl (''failed to read CA file: '' @ err)
      | Inr caCert \<Rightarrow>
          (case AppendCertsFromPEM fs [] caCert of
             (pool, ok) \<Rightarrow> if ok then Inr (Some pool) else Inl ''failed to parse CA certificate''))"

definition NewClientCredentials ::
    "('kp, 'ca) files \<Rightarrow> ClientCredentialsConfig \<Rightarrow> string + ('kp, 'ca) client_tls" where
  "NewClientCredentials fs cfg =
     (case client_Validate cfg of
        Some err \<Rightarrow> Inl (''invalid client credentials config: '' @ err)
      | None \<Rightarrow>
          (case LoadX509KeyPair fs (cli_CertFile cfg) (cli_KeyFile cfg) of
             Inl err \<Rightarrow> Inl (''failed to load client certificate: '' @ err)
           | Inr cert \<Rightarrow>
               (case load_client_cas fs cfg of
                  Inl err \<Rightarrow> Inl err
                | Inr caPool \<Rightarrow>
                    Inr \<lparr>ctls_Certificates = [cert], ctls_RootCAs = caPool,
                      ctls_ServerName = cli_ServerName cfg,
                      ctls_InsecureSkipVerify = cli_InsecureSkipVerify cfg, ctls_MinVersion = VersionTLS12\<rparr>)))"

section \<open>Identities of this package\<close>

record mtls_identity =
  mi_CommonName :: string
  mi_OrganizationalUnits :: "string list"
  mi_Organization :: "string list"
  mi_DNSNames :: "string list"
  mi_IPAddresses :: "string list"
  mi_ServiceName :: string
  mi_ServiceNamespace :: string
  mi_Environment :: string
  mi_SerialNumber :: string
  mi_NotBefore :: string
  mi_NotAfter :: string
  mi_IssuerCommonName :: string

definition ParseServiceFromCN :: "string \<Rightarrow> string \<times> string" where
  "ParseServiceFromCN cn =
     (let parts = split_on CHR ''.'' cn in
      if 2 \<le> length parts \<and> last parts = ''svc'' then
        (if 3 \<le> length parts then (parts ! 0, parts ! 1) else (parts ! 0, ''default''))
      else (cn, ''default''))"

definition ParseServiceFromDNS :: "string \<Rightarrow> string \<times> string" where
  "ParseServiceFromDNS dns =
     (let parts = split_on CHR ''.'' dns in
      if 1 \<le> length parts then (parts ! 0, ''default'') else (dns, ''default''))"

definition IsEnvironment :: "string \<Rightarrow> bool" where
  "IsEnvironment s = list_ex (\<lambda>env. to_lower s = env)
     [''dev'', ''development'', ''staging'', ''stage'', ''prod'', ''production'', ''test'', ''qa'']"

definition mtls_ParseCertificateIdentity :: "(instant \<Rightarrow> string) \<Rightarrow> certificate \<Rightarrow> mtls_identity" where
  "mtls_ParseCertificateIdentity format_time cert =
     (let (s1, n1) = ParseServiceFromCN (cert_CommonName cert);
          (s2, n2) = (case cert_DNSNames cert of
              dns # _ \<Rightarrow> if s1 = [] then ParseServiceFromDNS dns else (s1, n1)
            | [] \<Rightarrow> (s1, n1));
          env = (case find IsEnvironment (cert_OrganizationalUnit cert) of Some ou \<Rightarrow> ou | None \<Rightarrow> [])
      in \<lparr>mi_CommonName = cert_CommonName cert, mi_OrganizationalUnits = cert_OrganizationalUnit cert,
          mi_Organization = cert_Organization cert, mi_DNSNames = cert_DNSNames cert,
          mi_IPAddresses = cert_IPAddresses cert, mi_ServiceName = s2, mi_ServiceNamespace = n2,
          mi_Environment = env, mi_SerialNumber = cert_SerialNumber cert,
          mi_NotBefore = format_time (cert_NotBefore cert), mi_NotAfter = format_time (cert_NotAfter cert),
          mi_IssuerCommonName = cert_IssuerCommonName cert\<rparr>)"

text \<open>The identity already in the context (under this package's own key) is the argument \<open>stored\<close>.\<close>

definition ExtractServiceIdentity ::
    "(instant \<Rightarrow> string) \<Rightarrow> mtls_identity option \<Rightarrow> rpc_context \<Rightarrow> string + mtls_identity" where
  "ExtractServiceIdentity format_time stored ctx =
     (case stored of
        Some identity \<Rightarrow> Inr identity
      | None \<Rightarrow>
          (case ctx_peer ctx of
             None \<Rightarrow> Inl ''failed to get peer from context''
           | Some OtherAuthInfo \<Rightarrow> Inl ''peer auth info is not TLS''
           | Some (TLSInfo certs ((clientCert # _) # _)) \<Rightarrow> Inr (mtls_ParseCertificateIdentity format_time clientCert)
           | Some (TLSInfo certs _) \<Rightarrow> Inl ''no verified certificate chains''))"

definition identity_String :: "mtls_identity \<Rightarrow> string" where
  "identity_String s =
     (if mi_ServiceNamespace s \<noteq> [] \<and> mi_ServiceNamespace s \<noteq> ''default''
      then mi_ServiceName s @ ''.'' @ mi_ServiceNamespace s else mi_ServiceName s)"

definition FullIdentifier :: "mtls_identity \<Rightarrow> string" where
  "FullIdentifier s =
     (let parts = [mi_ServiceName s]
            @ (if mi_ServiceNamespace s \<noteq> [] then [mi_ServiceNamespace s] else [])
            @ (if mi_Environment s \<noteq> [] then [mi_Environment s] else [])
      in strings_Join parts ''/'')"

section \<open>Properties\<close>

lemma star_pattern:
  "2 < length pattern \<and> take 2 pattern = ''*.'' \<longleftrightarrow> (\<exists>dom. dom \<noteq> [] \<and> pattern = ''*.'' @ dom)"
proof
  assume a: "2 < length pattern \<and> take 2 pattern = ''*.''"
  with append_take_drop_id [of 2 pattern] have "drop 2 pattern \<noteq> [] \<and> pattern = ''*.'' @ drop 2 pattern"
    by simp
  then show "\<exists>dom. dom \<noteq> [] \<and> pattern = ''*.'' @ dom" by blast
qed auto

lemma proper_suffix:
  "length suf < length actual \<and> drop (length actual - length suf) actual = suf
     \<longleftrightarrow> (\<exists>l. l \<noteq> [] \<and> actual = l @ suf)"
proof
  assume a: "length suf < length actual \<and> drop (length actual - length suf) actual = suf"
  with append_take_drop_id [of "length actual - length suf" actual]
  have "take (length actual - length suf) actual \<noteq> [] \<and> actual = take (length actual - length suf) actual @ suf"
    by auto
  then show "\<exists>l. l \<noteq> [] \<and> actual = l @ suf" by blast
qed auto

text \<open>
  A wildcard name \<open>*.<domain>\<close> matches exactly the names that end in the domain after at
  least one more label, and any other pattern only itself.
\<close>
theorem wildcard_names:
  "MatchDNSSAN actual pattern \<longleftrightarrow>
     pattern = actual \<or> (\<exists>dom l. dom \<noteq> [] \<and> l \<noteq> [] \<and> pattern = ''*.'' @ dom \<and> actual = l @ ''.'' @ dom)"
proof (cases "\<exists>dom. dom \<noteq> [] \<and> pattern = ''*.'' @ dom")
  case True
  then obtain dom where d: "dom \<noteq> []" "pattern = ''*.'' @ dom" by blast
  have "MatchDNSSAN actual pattern \<longleftrightarrow> pattern = actual \<or>
      length (''.'' @ dom) < length actual \<and> drop (length actual - length (''.'' @ dom)) actual = ''.'' @ dom"
    using d by (auto simp: MatchDNSSAN_def)
  also have "\<dots> \<longleftrightarrow> pattern = actual \<or> (\<exists>l. l \<noteq> [] \<and> actual = l @ ''.'' @ dom)"
    unfolding proper_suffix ..
  finally show ?thesis using d by auto
next
  case False
  then have "\<not> (2 < length pattern \<and> take 2 pattern = ''*.'')" by (simp only: star_pattern) simp
  with False show ?thesis by (auto simp: MatchDNSSAN_def)
qed

definition client_allowed :: "mtls_config \<Rightarrow> certificate \<Rightarrow> bool" where
  "client_allowed c cert \<longleftrightarrow>
     (AllowedCNs c = [] \<or> cert_CommonName cert \<in> set (AllowedCNs c))
     \<and> (AllowedOUs c = [] \<or> set (cert_OrganizationalUnit cert) \<inter> set (AllowedOUs c) \<noteq> {})
     \<and> (AllowedDNSSANs c = [] \<or> (\<exists>n \<in> set (cert_DNSNames cert). \<exists>p \<in> set (AllowedDNSSANs c). MatchDNSSAN n p))"

lemma verifyPeerCertificate_iff:
  "verifyPeerCertificate c chs = None \<longleftrightarrow>
     (\<exists>cert rest more. chs = (cert # rest) # more \<and> client_allowed c cert)"
  by (auto simp: verifyPeerCertificate_def client_allowed_def list_ex_iff split: list.split)

definition enforces :: "mtls_config \<Rightarrow> ('kp, 'ca) tls_config \<Rightarrow> bool" where
  "enforces c t \<longleftrightarrow>
     (tls_ClientAuth t = RequireAndVerifyClientCert \<longleftrightarrow> RequireClientCert c)
     \<and> (\<forall>chs. tls_VerifyPeerCertificate t chs = None \<longleftrightarrow>
          (\<exists>cert rest more. chs = (cert # rest) # more \<and> client_allowed c cert))
     \<and> tls_MinVersion t = MinVersion c \<and> tls_MaxVersion t = MaxVersion c
     \<and> length (tls_Certificates t) = 1"

definition builder_inv :: "mtls_config \<Rightarrow> ('kp, 'ca) TLSConfigBuilder \<Rightarrow> bool" where
  "builder_inv c b \<longleftrightarrow> bld_config b = c \<and> (\<exists>t. GetTLSConfig b = Some t \<and> enforces c t)"

lemma buildTLSConfig_result:
  "case buildTLSConfig fs b of
     (Some err, b') \<Rightarrow> b' = b
   | (None, b') \<Rightarrow> builder_inv (bld_config b) b'"
  by (auto simp: buildTLSConfig_def Let_def builder_inv_def GetTLSConfig_def enforces_def
      verifyPeerCertificate_iff split: sum.split)

lemma reload_step_inv [go_inv]:
  assumes "reload_step b b'" and "builder_inv c b"
  shows "builder_inv c b'"
  using assms
proof cases
  case (tick d fs)
  from assms(2) have c: "bld_config b = c" by (simp add: builder_inv_def)
  from buildTLSConfig_result [where fs = fs and b = b] tick assms(2) show ?thesis
    by (cases "fst (buildTLSConfig fs b)") (auto simp: c split: prod.splits)
qed (simp add: builder_inv_def GetTLSConfig_def)

text \<open>
  C14: However often the certificates are reloaded, and whether or not the files can be read
  then, a builder always offers a TLS configuration that enforces its settings: a verified
  client certificate where one is required, accepted just when its name, its units and its
  DNS names are allowed.
\<close>
theorem reloads_keep_enforcing:
  assumes "NewTLSConfigBuilder fs c = Inr b" and "reload_step\<^sup>*\<^sup>* b b'"
  shows "\<exists>t. GetTLSConfig b' = Some t \<and> enforces c t"
proof -
  from assms(1) have "buildTLSConfig fs \<lparr>bld_config = c, bld_tlsConfig = None, bld_stopped = False\<rparr> = (None, b)"
    by (auto simp: NewTLSConfigBuilder_def split: option.splits prod.splits)
  with buildTLSConfig_result [where fs = fs and b = "\<lparr>bld_config = c, bld_tlsConfig = None, bld_stopped = False\<rparr>"]
  have "builder_inv c b" by simp
  from assms(2) this have "builder_inv c b'"
    by (induction rule: rtranclp_induct) (auto intro: go_inv)
  then show ?thesis by (auto simp: builder_inv_def)
qed

definition sample_files :: "(string, string) files" where
  "sample_files = \<lparr>LoadX509KeyPair = \<lambda>c k. Inr c, ReadFile = \<lambda>f. Inr ''ca'', ReadDir = \<lambda>_. Inl ''no'',
     path_Join = \<lambda>a b. a @ b, pem_certs = \<lambda>t. [t]\<rparr>"

theorem reloads_keep_enforcing_witness:
  "\<exists>b t. NewTLSConfigBuilder sample_files
        (mtls_DefaultConfig\<lparr>CertFile := ''c'', KeyFile := ''k'', CAFile := ''a''\<rparr>) = Inr b
     \<and> GetTLSConfig b = Some t
     \<and> enforces (mtls_DefaultConfig\<lparr>CertFile := ''c'', KeyFile := ''k'', CAFile := ''a''\<rparr>) t"
proof -
  let ?c = "mtls_DefaultConfig\<lparr>CertFile := ''c'', KeyFile := ''k'', CAFile := ''a''\<rparr>"
  obtain b where b: "NewTLSConfigBuilder sample_files ?c = Inr b"
    by (simp add: NewTLSConfigBuilder_def mtls_config_Validate_def mtls_DefaultConfig_def buildTLSConfig_def
        sample_files_def loadCACertPool_def load_ca_dir_def AppendCertsFromPEM_def Let_def)
  with reloads_keep_enforcing [OF b, of b] show ?thesis by blast
qed

text \<open>
  \<open>Validate\<close> does not look at the reload interval: a configuration it accepts, with
  reloading on and no interval set, makes the reload goroutine panic.
\<close>
lemma zero_interval_panics:
  assumes "mtls_config_Validate (bld_config b) = None"
  shows "mtls_config_Validate ((bld_config b)\<lparr>EnableAutoReload := True, ReloadInterval := 0\<rparr>) = None
    \<and> StartAutoReload (b\<lparr>bld_config := (bld_config b)\<lparr>EnableAutoReload := True, ReloadInterval := 0\<rparr>\<rparr>) = TickerPanic"
  using assms by (simp add: mtls_config_Validate_def StartAutoReload_def split: if_splits)

text \<open>
  The package takes an identity only from a verified chain, the interceptors take it
  from any certificate the peer presented: of a peer without a verified chain the one
  reports an error and the other the identity the certificate claims.
\<close>
lemma unverified_certificate_identity:
  "ExtractServiceIdentity ft None (ctx\<lparr>ctx_peer := Some (TLSInfo (cert # certs) [])\<rparr>)
       = Inl ''no verified certificate chains''
   \<and> ExtractServiceIdentityFromTLS (ctx\<lparr>ctx_peer := Some (TLSInfo (cert # certs) [])\<rparr>)
       = Inr (ParseCertificateIdentity cert)"
  by (simp add: ExtractServiceIdentity_def ExtractServiceIdentityFromTLS_def)

text \<open>
  The text of an identity is read back by \<open>ParseServiceFromCN\<close>: with \<open>.svc\<close> appended it
  gives the service and the namespace, for names without dots.
\<close>
lemma identity_text_roundtrip:
  assumes "CHR ''.'' \<notin> set (mi_ServiceName i)" and "CHR ''.'' \<notin> set (mi_ServiceNamespace i)"
    and "mi_ServiceNamespace i \<noteq> []"
  shows "ParseServiceFromCN (identity_String i @ ''.svc'') = (mi_ServiceName i, mi_ServiceNamespace i)"
proof -
  have svc: "split_on CHR ''.'' ''svc'' = [''svc'']" by simp
  have two: "split_on CHR ''.'' (p @ CHR ''.'' # ''svc'') = [p, ''svc'']" if "CHR ''.'' \<notin> set p" for p
    using split_on_append [OF that, of "''svc''"] svc by simp
  have three: "split_on CHR ''.'' (p @ CHR ''.'' # q @ CHR ''.'' # ''svc'') = [p, q, ''svc'']"
    if "CHR ''.'' \<notin> set p" "CHR ''.'' \<notin> set q" for p q
    using split_on_append [OF that(1), of "q @ CHR ''.'' # ''svc''"] two [OF that(2)] by simp
  show ?thesis
    using assms two [OF assms(1)] three [OF assms(1,2)]
    by (simp add: identity_String_def ParseServiceFromCN_def Let_def)
qed

end
