(* ===== verification/Redis_Lease.thy ===== *)
theory Redis_Lease
  imports Go_Prelude
begin

text \<open>
  \<open>pkg/redis/lease\<close>: leases on keys of a Redis server, and \<open>pkg/locklease\<close> with its adapter,
  which maps named locks to them.

  The server and the client library are not under \<open>src/\<close>: the commands the code uses are the
  record \<open>redis\<close>, an argument of every operation, and \<open>redis_contract\<close> states what their
  documentation promises. The two Lua scripts are in the source and are definitions here; a
  script runs atomically. \<open>net\<close> is what happens to a call on the way: it is answered, or it
  fails with an error before or after the server has executed it. \<open>now\<close> is the server's
  clock at the call, \<open>clock\<close> the reading of \<open>time.Now\<close> afterwards, \<open>new_token\<close> the answer
  of the token source. Every operation also returns the events it hands to its observer.
\<close>

section \<open>The server\<close>

record 's redis =
  r_GET :: "instant \<Rightarrow> string \<Rightarrow> 's \<Rightarrow> string option"
  r_DEL :: "instant \<Rightarrow> string \<Rightarrow> 's \<Rightarrow> int \<times> 's"
  r_PEXPIRE :: "instant \<Rightarrow> string \<Rightarrow> int \<Rightarrow> 's \<Rightarrow> int \<times> 's"
  r_SETNX :: "instant \<Rightarrow> string \<Rightarrow> string \<Rightarrow> duration \<Rightarrow> 's \<Rightarrow> bool \<times> 's"

datatype redis_err = RedisNil | RedisError string

datatype outcome = Delivered | LostRequest redis_err | LostReply redis_err

definition call :: "outcome \<Rightarrow> 'a \<times> 's \<Rightarrow> 's \<Rightarrow> (redis_err + 'a) \<times> 's" where
  "call net res s =
     (case net of
        Delivered \<Rightarrow> (Inr (fst res), snd res)
      | LostRequest e \<Rightarrow> (Inl e, s)
      | LostReply e \<Rightarrow> (Inl e, snd res))"

fun redis_text :: "redis_err \<Rightarrow> string" where
  "redis_text RedisNil = ''redis: nil''"
| "redis_text (RedisError e) = e"

section \<open>Values\<close>

definition NewLeaseKey :: "string \<Rightarrow> string + string" where
  "NewLeaseKey key = (if key = [] then Inl ''lock key is empty'' else Inr key)"

definition NewLeaseToken :: "string \<Rightarrow> string + string" where
  "NewLeaseToken token = (if token = [] then Inl ''lease token is empty'' else Inr token)"

record LeaseOwner =
  owner_ID :: string
  owner_Label :: string

definition owner_Identity :: "LeaseOwner option \<Rightarrow> string" where
  "owner_Identity owner =
     (case owner of None \<Rightarrow> [] | Some o' \<Rightarrow> if owner_ID o' \<noteq> [] then owner_ID o' else owner_Label o')"

record Lease =
  lease_Key :: string
  lease_Token :: string
  lease_TTL :: duration
  lease_Owner :: "LeaseOwner option"
  lease_AcquiredAt :: instant

definition no_lease :: Lease where
  "no_lease = \<lparr>lease_Key = [], lease_Token = [], lease_TTL = 0, lease_Owner = None, lease_AcquiredAt = 0\<rparr>"

record LeaseAttempt =
  attempt_Lease :: Lease
  Acquired :: bool

record LeaseEvent =
  ev_Operation :: string
  ev_Key :: string
  ev_Token :: string
  ev_Owner :: string
  ev_TTL :: duration
  ev_Acquired :: bool
  ev_Owned :: bool
  ev_Err :: "string option"

section \<open>The service\<close>

definition releaseScript :: "'s redis \<Rightarrow> instant \<Rightarrow> string \<Rightarrow> string \<Rightarrow> 's \<Rightarrow> int \<times> 's" where
  "releaseScript ops now key token s =
     (if r_GET ops now key s = Some token then r_DEL ops now key s else (0, s))"

definition renewScript :: "'s redis \<Rightarrow> instant \<Rightarrow> string \<Rightarrow> string \<Rightarrow> int \<Rightarrow> 's \<Rightarrow> int \<times> 's" where
  "renewScript ops now key token ms s =
     (if r_GET ops now key s = Some token then r_PEXPIRE ops now key ms s else (0, s))"

text \<open>A service is nil, or has a client that is nil or talks to a server.\<close>

type_synonym 's Service = "'s redis option option"

definition lease_client :: "'s Service \<Rightarrow> 's redis option" where
  "lease_client svc = (case svc of None \<Rightarrow> None | Some client \<Rightarrow> client)"

definition Acquire ::
    "'s Service \<Rightarrow> instant \<Rightarrow> outcome \<Rightarrow> instant \<Rightarrow> (string + string) \<Rightarrow> string \<Rightarrow> duration \<Rightarrow> LeaseOwner option
     \<Rightarrow> 's \<Rightarrow> (string + LeaseAttempt) \<times> LeaseEvent list \<times> 's" where
  "Acquire svc now net clock new_token key ttl owner s =
     (case lease_client svc of
        None \<Rightarrow> (Inl ''redis client is nil'', [], s)
      | Some ops \<Rightarrow>
          if key = [] then (Inl ''lock key is empty'', [], s)
          else if ttl \<le> 0 then (Inl ''lock ttl must be positive'', [], s)
          else case new_token of
            Inl err \<Rightarrow> (Inl err, [\<lparr>ev_Operation = ''acquire'', ev_Key = key, ev_Token = [],
                ev_Owner = owner_Identity owner, ev_TTL = ttl, ev_Acquired = False, ev_Owned = False,
                ev_Err = Some err\<rparr>], s)
          | Inr token \<Rightarrow>
              (case call net (r_SETNX ops now key token ttl s) s of
                 (Inl err, s') \<Rightarrow> (Inl (redis_text err), [\<lparr>ev_Operation = ''acquire'', ev_Key = key,
                     ev_Token = token, ev_Owner = owner_Identity owner, ev_TTL = ttl, ev_Acquired = False,
                     ev_Owned = False, ev_Err = Some (redis_text err)\<rparr>], s')
               | (Inr ok, s') \<Rightarrow>
                   (Inr \<lparr>attempt_Lease =
                       (if ok then \<lparr>lease_Key = key, lease_Token = token, lease_TTL = ttl, lease_Owner = owner,
                          lease_AcquiredAt = clock\<rparr> else no_lease),
                      Acquired = ok\<rparr>,
                    [\<lparr>ev_Operation = ''acquire'', ev_Key = key, ev_Token = token,
                      ev_Owner = owner_Identity owner, ev_TTL = ttl, ev_Acquired = ok, ev_Owned = False,
                      ev_Err = None\<rparr>], s')))"

definition lease_event :: "string \<Rightarrow> Lease \<Rightarrow> duration \<Rightarrow> bool \<Rightarrow> string option \<Rightarrow> LeaseEvent" where
  "lease_event op lease ttl owned err = \<lparr>ev_Operation = op, ev_Key = lease_Key lease,
     ev_Token = lease_Token lease, ev_Owner = owner_Identity (lease_Owner lease), ev_TTL = ttl,
     ev_Acquired = False, ev_Owned = owned, ev_Err = err\<rparr>"

definition Renew ::
    "'s Service \<Rightarrow> instant \<Rightarrow> outcome \<Rightarrow> instant \<Rightarrow> Lease \<Rightarrow> duration \<Rightarrow> 's
     \<Rightarrow> (string + Lease \<times> bool) \<times> LeaseEvent list \<times> 's" where
  "Renew svc now net clock lease ttl s =
     (case lease_client svc of
        None \<Rightarrow> (Inl ''redis client is nil'', [], s)
      | Some ops \<Rightarrow>
          if lease_Key lease = [] \<or> lease_Token lease = [] then (Inl ''lease key/token is empty'', [], s)
          else if ttl \<le> 0 then (Inl ''lock ttl must be positive'', [], s)
          else case call net (renewScript ops now (lease_Key lease) (lease_Token lease)
                  (trunc_div ttl millisecond) s) s of
            (Inl RedisNil, s') \<Rightarrow> (Inr (no_lease, False), [lease_event ''renew'' lease ttl False None], s')
          | (Inl (RedisError err), s') \<Rightarrow> (Inl err, [lease_event ''renew'' lease ttl False (Some err)], s')
          | (Inr result, s') \<Rightarrow>
              if result = 0 then (Inr (no_lease, False), [lease_event ''renew'' lease ttl False None], s')
              else (Inr (lease\<lparr>lease_TTL := ttl, lease_AcquiredAt := clock\<rparr>, True),
                    [lease_event ''renew'' lease ttl True None], s'))"

definition Release ::
    "'s Service \<Rightarrow> instant \<Rightarrow> outcome \<Rightarrow> Lease \<Rightarrow> 's \<Rightarrow> string option \<times> LeaseEvent list \<times> 's" where
  "Release svc now net lease s =
     (case lease_client svc of
        None \<Rightarrow> (Some ''redis client is nil'', [], s)
      | Some ops \<Rightarrow>
          if lease_Key lease = [] \<or> lease_Token lease = [] then (None, [], s)
          else case call net (releaseScript ops now (lease_Key lease) (lease_Token lease) s) s of
            (Inl RedisNil, s') \<Rightarrow> (None, [lease_event ''release'' lease 0 False None], s')
          | (Inl (RedisError err), s') \<Rightarrow> (Some err, [lease_event ''release'' lease 0 False (Some err)], s')
          | (Inr result, s') \<Rightarrow> (None, [lease_event ''release'' lease 0 True None], s'))"

definition CheckOwnership ::
    "'s Service \<Rightarrow> instant \<Rightarrow> outcome \<Rightarrow> Lease \<Rightarrow> 's \<Rightarrow> (string + bool) \<times> LeaseEvent list" where
  "CheckOwnership svc now net lease s =
     (case lease_client svc of
        None \<Rightarrow> (Inl ''redis client is nil'', [])
      | Some ops \<Rightarrow>
          if lease_Key lease = [] \<or> lease_Token lease = [] then (Inl ''lease key/token is empty'', [])
          else case fst (call net (r_GET ops now (lease_Key lease) s, s) s) of
            Inl (RedisError err) \<Rightarrow> (Inl err, [lease_event ''check'' lease 0 False (Some err)])
          | Inl RedisNil \<Rightarrow> (Inr False, [lease_event ''check'' lease 0 False None])
          | Inr None \<Rightarrow> (Inr False, [lease_event ''check'' lease 0 False None])
          | Inr (Some result) \<Rightarrow>
              (let owned = (result = lease_Token lease)
               in (Inr owned, [lease_event ''check'' lease 0 owned None])))"

section \<open>Named locks\<close>

record lock_Spec =
  spec_Name :: string
  spec_DefaultTTL :: duration

record lock_Identity =
  ident_Name :: string
  ident_Key :: string

record lock_Lease =
  lk_Key :: string
  lk_Token :: string

definition spec_Identity :: "lock_Spec \<Rightarrow> string \<Rightarrow> lock_Identity" where
  "spec_Identity spec key = \<lparr>ident_Name = spec_Name spec, ident_Key = key\<rparr>"

record 's Manager =
  m_service :: "'s Service"
  m_keyFunc :: "(string \<Rightarrow> string) option"

definition NewManager :: "'s redis option \<Rightarrow> (string \<Rightarrow> string) option \<Rightarrow> 's Manager" where
  "NewManager client keyFunc = \<lparr>m_service = Some client, m_keyFunc = keyFunc\<rparr>"

definition redisKey :: "'s Manager option \<Rightarrow> lock_Identity \<Rightarrow> string" where
  "redisKey m identity =
     (let key = (if ident_Key identity \<noteq> [] then ident_Key identity else ident_Name identity)
      in case m of None \<Rightarrow> key
         | Some mgr \<Rightarrow> (case m_keyFunc mgr of None \<Rightarrow> key | Some f \<Rightarrow> f key))"

definition lock_Acquire ::
    "'s Manager option \<Rightarrow> instant \<Rightarrow> outcome \<Rightarrow> instant \<Rightarrow> (string + string) \<Rightarrow> lock_Identity \<Rightarrow> duration \<Rightarrow> 's
     \<Rightarrow> (string + lock_Lease option) \<times> 's" where
  "lock_Acquire m now net clock new_token identity ttl s =
     (if ident_Name identity = [] then (Inl ''lock identity name is empty'', s)
      else if ttl \<le> 0 then (Inl ''lock ttl must be greater than 0'', s)
      else case m of
        None \<Rightarrow> (Inl ''lock manager is unavailable'', s)
      | Some mgr \<Rightarrow>
          (case m_service mgr of
             None \<Rightarrow> (Inl ''lock manager is unavailable'', s)
           | Some _ \<Rightarrow>
               (case NewLeaseKey (redisKey m identity) of
                  Inl err \<Rightarrow> (Inl err, s)
                | Inr key \<Rightarrow>
                    (case Acquire (m_service mgr) now net clock new_token key ttl
                        (Some \<lparr>owner_ID = [], owner_Label = ident_Name identity\<rparr>) s of
                       (Inl err, _, s') \<Rightarrow> (Inl err, s')
                     | (Inr attempt, _, s') \<Rightarrow>
                         if \<not> Acquired attempt then (Inr None, s')
                         else (Inr (Some \<lparr>lk_Key = lease_Key (attempt_Lease attempt),
                                lk_Token = lease_Token (attempt_Lease attempt)\<rparr>), s')))))"

definition AcquireSpec ::
    "'s Manager option \<Rightarrow> instant \<Rightarrow> outcome \<Rightarrow> instant \<Rightarrow> (string + string) \<Rightarrow> lock_Spec \<Rightarrow> string \<Rightarrow> duration list \<Rightarrow> 's
     \<Rightarrow> (string + lock_Lease option) \<times> 's" where
  "AcquireSpec m now net clock new_token spec key ttlOverride s =
     (let ttl = (case ttlOverride of o1 # _ \<Rightarrow> if 0 < o1 then o1 else spec_DefaultTTL spec
                 | [] \<Rightarrow> spec_DefaultTTL spec)
      in if spec_Name spec = [] then (Inl ''lock spec name is empty'', s)
         else if ttl \<le> 0 then (Inl ''lock spec ttl must be greater than 0'', s)
         else lock_Acquire m now net clock new_token (spec_Identity spec key) ttl s)"

definition lock_Release ::
    "'s Manager option \<Rightarrow> instant \<Rightarrow> outcome \<Rightarrow> lock_Identity \<Rightarrow> lock_Lease option \<Rightarrow> 's \<Rightarrow> string option \<times> 's" where
  "lock_Release m now net identity lease s =
     (case (m, lease) of
        (Some mgr, Some l) \<Rightarrow>
          if lk_Key l = [] \<or> lk_Token l = [] then (None, s)
          else (case NewLeaseKey (lk_Key l) of
              Inl err \<Rightarrow> (Some err, s)
            | Inr key \<Rightarrow>
                (case NewLeaseToken (lk_Token l) of
                   Inl err \<Rightarrow> (Some err, s)
                 | Inr token \<Rightarrow>
                     (case Release (m_service mgr) now net \<lparr>lease_Key = key, lease_Token = token, lease_TTL = 0,
                         lease_Owner = Some \<lparr>owner_ID = [], owner_Label = ident_Name identity\<rparr>,
                         lease_AcquiredAt = 0\<rparr> s of
                        (err, _, s') \<Rightarrow> (err, s'))))
      | _ \<Rightarrow> (None, s))"

definition ReleaseSpec ::
    "'s Manager option \<Rightarrow> instant \<Rightarrow> outcome \<Rightarrow> lock_Spec \<Rightarrow> string \<Rightarrow> lock_Lease option \<Rightarrow> 's \<Rightarrow> string option \<times> 's" where
  "ReleaseSpec m now net spec key lease s =
     (if spec_Name spec = [] then (Some ''lock spec name is empty'', s)
      else lock_Release m now net (spec_Identity spec key) lease s)"


section \<open>What the server promises\<close>

text \<open>
  \<open>live s t k\<close> is the value a read of \<open>k\<close> at the instant \<open>t\<close> would find, in the state \<open>s\<close>, if
  no command came before. A time to live is granted in whole milliseconds, at least one; zero
  means that the value stays. Nothing is promised for a negative one.
\<close>

definition granted :: "duration \<Rightarrow> duration" where
  "granted d = max millisecond (d div millisecond * millisecond)"

definition lasts :: "instant \<Rightarrow> duration \<Rightarrow> instant \<Rightarrow> bool" where
  "lasts now d t = (d = 0 \<or> t < now + granted d)"

type_synonym 's live = "'s \<Rightarrow> instant \<Rightarrow> string \<Rightarrow> string option"

definition changes_only :: "'s live \<Rightarrow> instant \<Rightarrow> string \<Rightarrow> (instant \<Rightarrow> string option) \<Rightarrow> 's \<Rightarrow> 's \<Rightarrow> bool" where
  "changes_only live now k v s s' \<longleftrightarrow>
     (\<forall>t \<ge> now. \<forall>k'. live s' t k' = (if k' = k then v t else live s t k'))"

definition redis_contract :: "'s redis \<Rightarrow> 's live \<Rightarrow> bool" where
  "redis_contract ops live \<longleftrightarrow>
     (\<forall>now k s. r_GET ops now k s = live s now k)
     \<and> (\<forall>now k s. fst (r_DEL ops now k s) = (if live s now k = None then 0 else 1)
          \<and> changes_only live now k (\<lambda>_. None) s (snd (r_DEL ops now k s)))
     \<and> (\<forall>now k ms s. fst (r_PEXPIRE ops now k ms s) = (if live s now k = None then 0 else 1)
          \<and> changes_only live now k
              (\<lambda>t. if live s now k \<noteq> None \<and> t < now + ms * millisecond then live s now k else None)
              s (snd (r_PEXPIRE ops now k ms s)))
     \<and> (\<forall>now k v d s. (fst (r_SETNX ops now k v d s) \<longleftrightarrow> live s now k = None)
          \<and> (0 \<le> d \<longrightarrow> changes_only live now k
              (\<lambda>t. if live s now k = None then (if lasts now d t then Some v else None) else live s t k)
              s (snd (r_SETNX ops now k v d s))))"

lemma contract_GET: "redis_contract ops live \<Longrightarrow> r_GET ops now k s = live s now k"
  by (simp add: redis_contract_def)

lemma contract_DEL:
  "redis_contract ops live \<Longrightarrow> now \<le> t \<Longrightarrow>
     live (snd (r_DEL ops now k s)) t k' = (if k' = k then None else live s t k')"
  by (simp add: redis_contract_def changes_only_def)

lemma contract_PEXPIRE:
  "redis_contract ops live \<Longrightarrow> now \<le> t \<Longrightarrow>
     live (snd (r_PEXPIRE ops now k ms s)) t k' =
       (if k' = k then (if live s now k \<noteq> None \<and> t < now + ms * millisecond then live s now k else None)
        else live s t k')"
  by (simp add: redis_contract_def changes_only_def)

lemma contract_PEXPIRE_reply:
  "redis_contract ops live \<Longrightarrow> fst (r_PEXPIRE ops now k ms s) = (if live s now k = None then 0 else 1)"
  by (simp add: redis_contract_def)

lemma contract_SETNX:
  "redis_contract ops live \<Longrightarrow> now \<le> t \<Longrightarrow> 0 \<le> d \<Longrightarrow>
     live (snd (r_SETNX ops now k v d s)) t k' =
       (if k' = k \<and> live s now k = None then (if lasts now d t then Some v else None) else live s t k')"
  by (simp add: redis_contract_def changes_only_def)

lemma contract_SETNX_reply:
  "redis_contract ops live \<Longrightarrow> fst (r_SETNX ops now k v d s) \<longleftrightarrow> live s now k = None"
  by (simp add: redis_contract_def)

lemmas contract_effects = contract_GET contract_DEL contract_PEXPIRE contract_SETNX

section \<open>A lease is exclusive\<close>

text \<open>What other clients do on the server.\<close>

datatype lease_op =
    OpAcquire instant "string + string" string duration "LeaseOwner option"
  | OpRenew instant Lease duration
  | OpRelease Lease
  | OpCheck Lease

record lease_call =
  at :: instant
  net_of :: outcome
  op_of :: lease_op

definition lease_exec :: "'s Service \<Rightarrow> lease_call \<Rightarrow> 's \<Rightarrow> 's" where
  "lease_exec svc c s =
     (case op_of c of
        OpAcquire clock tok key ttl owner \<Rightarrow> snd (snd (Acquire svc (at c) (net_of c) clock tok key ttl owner s))
      | OpRenew clock lease ttl \<Rightarrow> snd (snd (Renew svc (at c) (net_of c) clock lease ttl s))
      | OpRelease lease \<Rightarrow> snd (snd (Release svc (at c) (net_of c) lease s))
      | OpCheck lease \<Rightarrow> s)"

definition lease_run :: "'s Service \<Rightarrow> lease_call list \<Rightarrow> 's \<Rightarrow> 's" where
  "lease_run svc cs s = fold (lease_exec svc) cs s"

text \<open>A call that does not present the token of the lease on its key.\<close>

fun without_token :: "string \<Rightarrow> string \<Rightarrow> lease_op \<Rightarrow> bool" where
  "without_token key token (OpRenew clock lease ttl) = (lease_Key lease = key \<longrightarrow> lease_Token lease \<noteq> token)"
| "without_token key token (OpRelease lease) = (lease_Key lease = key \<longrightarrow> lease_Token lease \<noteq> token)"
| "without_token key token _ = True"

fun calls_between :: "instant \<Rightarrow> instant \<Rightarrow> lease_call list \<Rightarrow> bool" where
  "calls_between since until [] = (since \<le> until)"
| "calls_between since until (c # cs) = (since \<le> at c \<and> calls_between (at c) until cs)"

definition held_until :: "'s live \<Rightarrow> 's \<Rightarrow> instant \<Rightarrow> instant \<Rightarrow> string \<Rightarrow> string \<Rightarrow> bool" where
  "held_until live s since until key token \<longleftrightarrow> (\<forall>t. since \<le> t \<and> t < until \<longrightarrow> live s t key = Some token)"

lemma call_state: "snd (call net res s) \<in> {s, snd res}"
  by (cases net) (auto simp: call_def)

lemma lease_exec_state:
  "lease_exec (Some (Some ops)) c s = s
   \<or> (\<exists>key token ttl. 0 < ttl \<and> lease_exec (Some (Some ops)) c s = snd (r_SETNX ops (at c) key token ttl s))
   \<or> (\<exists>clock lease ttl. op_of c = OpRenew clock lease ttl
        \<and> r_GET ops (at c) (lease_Key lease) s = Some (lease_Token lease)
        \<and> lease_exec (Some (Some ops)) c s
            = snd (r_PEXPIRE ops (at c) (lease_Key lease) (trunc_div ttl millisecond) s))
   \<or> (\<exists>lease. op_of c = OpRelease lease
        \<and> r_GET ops (at c) (lease_Key lease) s = Some (lease_Token lease)
        \<and> lease_exec (Some (Some ops)) c s = snd (r_DEL ops (at c) (lease_Key lease) s))"
proof (cases "op_of c")
  case (OpAcquire clock tok key ttl owner)
  then show ?thesis
    by (cases "net_of c") (auto simp: lease_exec_def Acquire_def lease_client_def call_def not_le split: sum.splits)
next
  case (OpRenew clock lease ttl)
  then show ?thesis
    by (cases "net_of c")
      (auto simp: lease_exec_def Renew_def lease_client_def call_def renewScript_def split: redis_err.splits)
next
  case (OpRelease lease)
  then show ?thesis
    by (cases "net_of c")
      (auto simp: lease_exec_def Release_def lease_client_def call_def releaseScript_def split: redis_err.splits)
qed (simp add: lease_exec_def)

lemma held_until_later: "held_until live s since until key token \<Longrightarrow> since \<le> since' \<Longrightarrow> held_until live s since' until key token"
  by (simp add: held_until_def)

lemma lease_exec_keeps [go_inv]:
  assumes "redis_contract ops live" and "held_until live s (at c) until key token" and "at c < until"
    and "without_token key token (op_of c)"
  shows "held_until live (lease_exec (Some (Some ops)) c s) (at c) until key token"
proof -
  from assms(2,3) have now: "live s (at c) key = Some token" by (simp add: held_until_def)
  consider "lease_exec (Some (Some ops)) c s = s"
    | k v d where "0 < d" "lease_exec (Some (Some ops)) c s = snd (r_SETNX ops (at c) k v d s)"
    | k where "k \<noteq> key" "lease_exec (Some (Some ops)) c s = snd (r_DEL ops (at c) k s)"
    | k ms where "k \<noteq> key" "lease_exec (Some (Some ops)) c s = snd (r_PEXPIRE ops (at c) k ms s)"
    using lease_exec_state [of ops c s] assms(4) now contract_GET [OF assms(1)]
    by (metis option.inject without_token.simps(1,2))
  then show ?thesis
    using assms(2) now
    by cases (auto simp: held_until_def contract_effects [OF assms(1)])
qed

lemma lease_run_keeps:
  assumes "redis_contract ops live"
  shows "held_until live s since until key token \<Longrightarrow> calls_between since now cs \<Longrightarrow> now < until
    \<Longrightarrow> list_all (\<lambda>c. without_token key token (op_of c)) cs
    \<Longrightarrow> held_until live (lease_run (Some (Some ops)) cs s) now until key token"
proof (induction cs arbitrary: s since)
  case Nil
  then show ?case by (auto simp: lease_run_def held_until_later)
next
  case (Cons c cs)
  have le: "calls_between f n cs' \<Longrightarrow> f \<le> n" for f n cs'
    by (induction cs' arbitrary: f) force+
  from Cons.prems have c: "since \<le> at c" "calls_between (at c) now cs" by auto
  from c(2) le have "at c \<le> now" by blast
  with Cons.prems c have "held_until live (lease_exec (Some (Some ops)) c s) (at c) until key token"
    by (intro lease_exec_keeps [OF assms]) (auto intro: held_until_later)
  with Cons c show ?case by (auto simp: lease_run_def)
qed

lemma Acquire_held:
  assumes "redis_contract ops live"
    and "Acquire (Some (Some ops)) now net clock (Inr token) key ttl owner s = (Inr a, evs, s')" and "Acquired a"
  shows "held_until live s' now (now + granted ttl) key token
    \<and> lease_Key (attempt_Lease a) = key \<and> lease_Token (attempt_Lease a) = token \<and> key \<noteq> []"
proof -
  from assms(2,3) have "key \<noteq> []" "s' = snd (r_SETNX ops now key token ttl s)"
      "fst (r_SETNX ops now key token ttl s)" "0 < ttl"
      "attempt_Lease a = \<lparr>lease_Key = key, lease_Token = token, lease_TTL = ttl, lease_Owner = owner, lease_AcquiredAt = clock\<rparr>"
    by (cases net; auto simp: Acquire_def lease_client_def call_def split: if_splits)+
  then show ?thesis
    using contract_SETNX_reply [OF assms(1)] by (simp add: held_until_def lasts_def contract_SETNX [OF assms(1)])
qed

section \<open>Properties\<close>

text \<open>
  C2: A lease is exclusive. From its acquisition until its time to live has passed, whatever
  other clients call on the server without its token, with whatever network failures, the
  holder still owns the key and nobody else acquires it.
\<close>
theorem lease_is_exclusive:
  assumes "redis_contract ops live"
    and "Acquire (Some (Some ops)) t0 net0 clock0 (Inr token) key ttl owner s0 = (Inr a, evs, s)"
    and "Acquired a" and "token \<noteq> []"
    and "calls_between t0 now cs" and "now < t0 + granted ttl"
    and "list_all (\<lambda>c. without_token key token (op_of c)) cs"
  shows "fst (CheckOwnership (Some (Some ops)) now Delivered (attempt_Lease a)
             (lease_run (Some (Some ops)) cs s)) = Inr True
    \<and> (case fst (Acquire (Some (Some ops)) now net clock tok key ttl' owner'
             (lease_run (Some (Some ops)) cs s)) of
         Inl err \<Rightarrow> True | Inr a' \<Rightarrow> \<not> Acquired a')"
proof -
  let ?s = "lease_run (Some (Some ops)) cs s"
  from Acquire_held [OF assms(1-3)]
  have lease: "lease_Key (attempt_Lease a) = key" "lease_Token (attempt_Lease a) = token" "key \<noteq> []"
    and held: "held_until live s t0 (t0 + granted ttl) key token" by auto
  have "held_until live ?s now (t0 + granted ttl) key token"
    using lease_run_keeps [OF assms(1) held assms(5,6,7)] by blast
  with assms(6) have live: "live ?s now key = Some token" by (simp add: held_until_def)
  have "fst (CheckOwnership (Some (Some ops)) now Delivered (attempt_Lease a) ?s) = Inr True"
    using lease live assms(4)
    by (simp add: CheckOwnership_def lease_client_def call_def contract_GET [OF assms(1)])
  moreover have "\<not> fst (r_SETNX ops now key t d ?s)" for t d
    using contract_SETNX_reply [OF assms(1)] live by simp
  then have "case fst (Acquire (Some (Some ops)) now net clock tok key ttl' owner' ?s) of
      Inl err \<Rightarrow> True | Inr a' \<Rightarrow> \<not> Acquired a'"
    by (cases net; cases tok) (auto simp: Acquire_def lease_client_def call_def)
  ultimately show ?thesis by blast
qed

text \<open>A server that keeps the contract: a map from keys to values with their expiry.\<close>

definition sample_live :: "(string \<rightharpoonup> string \<times> instant option) live" where
  "sample_live s t k = (case s k of None \<Rightarrow> None | Some (v, None) \<Rightarrow> Some v
     | Some (v, Some e) \<Rightarrow> if t < e then Some v else None)"

definition sample_redis :: "(string \<rightharpoonup> string \<times> instant option) redis" where
  "sample_redis = \<lparr>r_GET = \<lambda>now k s. sample_live s now k,
     r_DEL = \<lambda>now k s. (if sample_live s now k = None then 0 else 1, s(k := None)),
     r_PEXPIRE = \<lambda>now k ms s. (case sample_live s now k of
         None \<Rightarrow> (0, s(k := None)) | Some v \<Rightarrow> (1, s(k \<mapsto> (v, Some (now + ms * millisecond))))),
     r_SETNX = \<lambda>now k v d s. (case sample_live s now k of
         None \<Rightarrow> (True, s(k \<mapsto> (v, if d = 0 then None else Some (now + granted d)))) | Some _ \<Rightarrow> (False, s))\<rparr>"

lemma sample_contract: "redis_contract sample_redis sample_live"
  by (auto simp: redis_contract_def changes_only_def sample_redis_def sample_live_def lasts_def split: option.splits)

theorem lease_is_exclusive_witness:
  "fst (CheckOwnership (Some (Some sample_redis)) 5 Delivered
      (attempt_Lease \<lparr>attempt_Lease = \<lparr>lease_Key = ''k'', lease_Token = ''t'', lease_TTL = second,
         lease_Owner = None, lease_AcquiredAt = 0\<rparr>, Acquired = True\<rparr>)
      (lease_run (Some (Some sample_redis))
        [\<lparr>at = 3, net_of = Delivered, op_of = OpAcquire 3 (Inr ''u'') ''k'' second None\<rparr>]
        [''k'' \<mapsto> (''t'', Some (0 + granted second))])) = Inr True"
  by (rule lease_is_exclusive [OF sample_contract, where ?s0.0 = Map.empty and ?t0.0 = 0 and ?net0.0 = Delivered
        and ?clock0.0 = 0 and ttl = second and owner = None and key = "''k''" and token = "''t''", THEN conjunct1])
    (simp_all add: Acquire_def lease_client_def call_def sample_redis_def sample_live_def granted_def
      second_def millisecond_def)

text \<open>
  Releasing frees one's own lock only. With the token of the key the lock is gone and can
  be acquired at once; with another token nothing changes on the server, although the event
  handed to the observer says the lock was owned.
\<close>
theorem release_frees_own_lock:
  assumes "redis_contract ops live" and "lease_Key lease \<noteq> []" and "lease_Token lease \<noteq> []" and "0 < ttl"
  shows "case Release (Some (Some ops)) now Delivered lease s of (err, evs, s') \<Rightarrow>
    err = None \<and> map ev_Owned evs = [True]
    \<and> (if live s now (lease_Key lease) = Some (lease_Token lease)
       then (case fst (Acquire (Some (Some ops)) now Delivered clock (Inr tok) (lease_Key lease) ttl owner s') of
               Inl e \<Rightarrow> False | Inr a \<Rightarrow> Acquired a)
       else s' = s)"
proof -
  have "live (snd (r_DEL ops now (lease_Key lease) s)) now (lease_Key lease) = None"
    by (simp add: contract_DEL [OF assms(1)])
  then have "fst (r_SETNX ops now (lease_Key lease) tok ttl (snd (r_DEL ops now (lease_Key lease) s)))"
    using contract_SETNX_reply [OF assms(1)] by blast
  with assms(2-4) show ?thesis
    by (auto simp: Release_def Acquire_def lease_client_def call_def releaseScript_def lease_event_def
        contract_GET [OF assms(1)])
qed

theorem release_frees_own_lock_witness:
  "Release (Some (Some sample_redis)) 5 Delivered \<lparr>lease_Key = ''k'', lease_Token = ''u'', lease_TTL = 0,
      lease_Owner = None, lease_AcquiredAt = 0\<rparr> [''k'' \<mapsto> (''t'', Some 9)]
   = (None, [lease_event ''release'' \<lparr>lease_Key = ''k'', lease_Token = ''u'', lease_TTL = 0,
      lease_Owner = None, lease_AcquiredAt = 0\<rparr> 0 True None], [''k'' \<mapsto> (''t'', Some 9)])"
  using release_frees_own_lock [OF sample_contract, where lease = "\<lparr>lease_Key = ''k'', lease_Token = ''u'',
      lease_TTL = 0, lease_Owner = None, lease_AcquiredAt = 0\<rparr>" and ttl = 1 and now = 5
      and s = "[''k'' \<mapsto> (''t'', Some 9)]"]
  by (simp add: Release_def lease_client_def call_def releaseScript_def lease_event_def sample_redis_def sample_live_def)

text \<open>
  Renewing an owned lease for less than a millisecond reports success and deletes the
  lock: the time to live is truncated to 0 milliseconds.
\<close>
theorem short_renewal_loses_the_lease:
  assumes "redis_contract ops live" and "live s now (lease_Key lease) = Some (lease_Token lease)"
    and "lease_Key lease \<noteq> []" and "lease_Token lease \<noteq> []" and "0 < ttl" and "ttl < millisecond"
  shows "case Renew (Some (Some ops)) now Delivered clock lease ttl s of (r, evs, s') \<Rightarrow>
    (case r of Inl e \<Rightarrow> False | Inr (l, owned) \<Rightarrow> owned)
    \<and> live s' now (lease_Key lease) = None"
proof -
  have "trunc_div ttl millisecond = 0"
    using assms(5,6) by (simp add: trunc_div_nonneg millisecond_def)
  with assms show ?thesis
    by (simp add: Renew_def lease_client_def call_def renewScript_def contract_effects [OF assms(1)]
        contract_PEXPIRE_reply [OF assms(1)])
qed

theorem short_renewal_loses_the_lease_witness:
  "sample_live (snd (snd (Renew (Some (Some sample_redis)) 5 Delivered 6 \<lparr>lease_Key = ''k'', lease_Token = ''t'',
      lease_TTL = 0, lease_Owner = None, lease_AcquiredAt = 0\<rparr> 500 [''k'' \<mapsto> (''t'', Some 9)]))) 5 ''k'' = None"
  using short_renewal_loses_the_lease [OF sample_contract, where s = "[''k'' \<mapsto> (''t'', Some 9)]" and now = 5 and ttl = 500 and clock = 6 and lease = "\<lparr>lease_Key = ''k'',
      lease_Token = ''t'', lease_TTL = 0, lease_Owner = None, lease_AcquiredAt = 0\<rparr>"]
  by (simp add: sample_live_def millisecond_def case_prod_beta)

end
