(* ===== verification/Messaging_Core.thy ===== *)
theory Messaging_Core
  imports Go_Prelude
begin

text \<open>
  \<open>pkg/messaging\<close>: messages and their settlement (\<open>port.go\<close>), the wire envelope
  (\<open>message_envelope.go\<close>), the delivery loops of the transports as far as they settle
  messages, and the middlewares (\<open>middleware.go\<close>).

  A message is shared by pointer between transport, middlewares and handler: it is passed on
  and returned. A handler also changes a state \<open>'s\<close> of any type. It returns an error or nil,
  or it panics; a panic in a goroutine of its own, which no caller can recover, crashes the
  program. Time enters by arguments: \<open>wait d\<close> is the \<open>select\<close> between a timer of length
  \<open>d\<close> and the context, \<open>now\<close> a reading of the clock. Logging is not modelled.
\<close>

section \<open>Messages\<close>

datatype settle_call = CalledAck | CalledNack

text \<open>
  \<open>m_ack\<close> is \<open>None\<close> where no function was injected, otherwise what the function returns;
  \<open>m_calls\<close> records the calls of the injected functions.
\<close>

record Message =
  m_UUID :: string
  m_Metadata :: "string \<rightharpoonup> string"
  m_Payload :: string
  m_Attempts :: "16 word"
  m_Timestamp :: int
  m_Topic :: string
  m_Channel :: string
  m_ack :: "string option option"
  m_nack :: "string option option"
  m_settled :: bool
  m_calls :: "settle_call list"

definition NewMessage :: "string \<Rightarrow> string \<Rightarrow> Message" where
  "NewMessage uuid payload = \<lparr>m_UUID = uuid, m_Metadata = Map.empty, m_Payload = payload, m_Attempts = 0,
     m_Timestamp = 0, m_Topic = [], m_Channel = [], m_ack = None, m_nack = None, m_settled = False,
     m_calls = []\<rparr>"

definition settle :: "settle_call \<Rightarrow> string option option \<Rightarrow> Message \<Rightarrow> string option \<times> Message" where
  "settle which run m =
     (if m_settled m then (None, m)
      else let m1 = m\<lparr>m_settled := True\<rparr> in
        case run of None \<Rightarrow> (None, m1) | Some err \<Rightarrow> (err, m1\<lparr>m_calls := m_calls m1 @ [which]\<rparr>))"

definition Ack :: "Message \<Rightarrow> string option \<times> Message" where
  "Ack m = settle CalledAck (m_ack m) m"

definition Nack :: "Message \<Rightarrow> string option \<times> Message" where
  "Nack m = settle CalledNack (m_nack m) m"

definition IsSettled :: "Message \<Rightarrow> bool" where
  "IsSettled m = m_settled m"

definition SetAckFunc :: "string option \<Rightarrow> Message \<Rightarrow> Message" where
  "SetAckFunc ack m = m\<lparr>m_ack := Some ack\<rparr>"

definition SetNackFunc :: "string option \<Rightarrow> Message \<Rightarrow> Message" where
  "SetNackFunc nack m = m\<lparr>m_nack := Some nack\<rparr>"

section \<open>Handlers\<close>

text \<open>
  Errors by the place that makes them; \<open>Plain\<close> is any error of a handler, a context or a
  library. Where the code wraps an error with \<open>%w\<close> it is an argument.
\<close>

datatype msg_error =
    Plain string
  | RetriesExhausted int "msg_error option"
  | TimedOut duration string string
  | PanicRecovered string string string
  | RateWaitFailed msg_error
  | RateLimited string string
  | BreakerOpen
  | BreakerTripped msg_error

datatype hresult = Returned "msg_error option" | Panicked string | Crashed string

record msg_context =
  mctx_trace_id :: "string option"

type_synonym 's mhandler = "msg_context \<Rightarrow> Message \<Rightarrow> 's \<Rightarrow> hresult \<times> Message \<times> 's"
type_synonym 's Middleware = "'s mhandler \<Rightarrow> 's mhandler"

section \<open>Envelope\<close>

record wireMessageEnvelope =
  env_Type :: string
  env_UUID :: string
  env_Metadata :: "string \<rightharpoonup> string"
  env_Payload :: string

definition messageEnvelopeType :: string where
  "messageEnvelopeType = ''component-base.messaging.message.v1''"

definition EncodeMessagePayload ::
    "(wireMessageEnvelope \<Rightarrow> string + string) \<Rightarrow> Message option \<Rightarrow> string + string" where
  "EncodeMessagePayload marshal msg =
     (case msg of
        None \<Rightarrow> Inl ''message is nil''
      | Some m \<Rightarrow>
          (case marshal \<lparr>env_Type = messageEnvelopeType, env_UUID = m_UUID m, env_Metadata = m_Metadata m,
              env_Payload = m_Payload m\<rparr> of
             Inl err \<Rightarrow> Inl (''failed to encode message envelope: '' @ err)
           | Inr payload \<Rightarrow> Inr payload))"

definition DecodeMessagePayload :: "(string \<Rightarrow> string + wireMessageEnvelope) \<Rightarrow> string \<Rightarrow> Message option" where
  "DecodeMessagePayload unmarshal payload =
     (case unmarshal payload of
        Inl err \<Rightarrow> None
      | Inr env \<Rightarrow>
          if env_Type env \<noteq> messageEnvelopeType then None
          else Some ((NewMessage (env_UUID env) (env_Payload env))\<lparr>m_Metadata := env_Metadata env\<rparr>))"

section \<open>Delivery\<close>

text \<open>What both transports do with the handler's answer: settle the message, unless it is.\<close>

definition settle_delivery :: "hresult \<Rightarrow> Message \<Rightarrow> Message" where
  "settle_delivery r m =
     (case r of
        Returned (Some err) \<Rightarrow> if \<not> IsSettled m then snd (Nack m) else m
      | Returned None \<Rightarrow> if \<not> IsSettled m then snd (Ack m) else m
      | _ \<Rightarrow> m)"

record nsq_message =
  nsq_ID :: string
  nsq_Body :: string
  nsq_Attempts :: "16 word"
  nsq_Timestamp :: int

definition nsq_domain_message ::
    "(string \<Rightarrow> string + wireMessageEnvelope) \<Rightarrow> string \<Rightarrow> string \<Rightarrow> nsq_message \<Rightarrow> Message" where
  "nsq_domain_message unmarshal topic channel message =
     (let m0 = (case DecodeMessagePayload unmarshal (nsq_Body message) of
            Some m \<Rightarrow> m
          | None \<Rightarrow> NewMessage (nsq_ID message) (nsq_Body message));
          m1 = (if m_UUID m0 = [] then m0\<lparr>m_UUID := nsq_ID message\<rparr> else m0);
          m2 = m1\<lparr>m_Attempts := nsq_Attempts message, m_Timestamp := nsq_Timestamp message,
                  m_Topic := topic, m_Channel := channel\<rparr>
      in SetNackFunc None (SetAckFunc None m2))"

definition nsq_deliver ::
    "(string \<Rightarrow> string + wireMessageEnvelope) \<Rightarrow> string \<Rightarrow> string \<Rightarrow> 's mhandler \<Rightarrow> nsq_message \<Rightarrow> 's
     \<Rightarrow> hresult \<times> Message \<times> 's" where
  "nsq_deliver unmarshal topic channel handler message s =
     (case handler \<lparr>mctx_trace_id = None\<rparr> (nsq_domain_message unmarshal topic channel message) s of
        (r, m, s') \<Rightarrow> (r, settle_delivery r m, s'))"

record amqp_delivery =
  amqp_MessageId :: string
  amqp_Body :: string
  amqp_DeliveryTag :: nat
  amqp_TimestampNano :: int
  amqp_Headers :: "string \<rightharpoonup> string option"
  amqp_AckResult :: "string option"
  amqp_NackResult :: "string option"

text \<open>A header whose value is not a string (\<open>Some None\<close>) is not copied to the metadata.\<close>

definition amqp_domain_message :: "string \<Rightarrow> string \<Rightarrow> amqp_delivery \<Rightarrow> Message" where
  "amqp_domain_message topic channel d =
     (let m0 = (NewMessage (amqp_MessageId d) (amqp_Body d))\<lparr>m_Timestamp := amqp_TimestampNano d,
              m_Topic := topic, m_Channel := channel,
              m_Metadata := (\<lambda>k. case amqp_Headers d k of None \<Rightarrow> None | Some v \<Rightarrow> v)\<rparr>;
          m1 = (if m_UUID m0 = [] then m0\<lparr>m_UUID := nat_text (amqp_DeliveryTag d)\<rparr> else m0)
      in SetNackFunc (amqp_NackResult d) (SetAckFunc (amqp_AckResult d) m1))"

definition amqp_deliver :: "string \<Rightarrow> string \<Rightarrow> 's mhandler \<Rightarrow> amqp_delivery \<Rightarrow> 's \<Rightarrow> hresult \<times> Message \<times> 's" where
  "amqp_deliver topic channel handler d s =
     (case handler \<lparr>mctx_trace_id = None\<rparr> (amqp_domain_message topic channel d) s of
        (r, m, s') \<Rightarrow> (r, settle_delivery r m, s'))"

section \<open>Middlewares\<close>

text \<open>
  Retry. \<open>delay * time.Duration(1<<uint(i))\<close> is \<open>int64\<close> arithmetic. The last argument counts
  the attempts left: the loop runs for \<open>i\<close> from 0 to \<open>maxRetries\<close>.
\<close>

definition backoff :: "duration \<Rightarrow> nat \<Rightarrow> duration" where
  "backoff delay i = wrap64 (delay * wrap64 (2 ^ i))"

fun retry_loop ::
    "int \<Rightarrow> duration \<Rightarrow> (duration \<Rightarrow> 's \<Rightarrow> msg_error option \<times> 's) \<Rightarrow> 's mhandler \<Rightarrow> msg_context
     \<Rightarrow> Message \<Rightarrow> 's \<Rightarrow> nat \<Rightarrow> msg_error option \<Rightarrow> nat \<Rightarrow> hresult \<times> Message \<times> 's" where
  "retry_loop mx delay wait next_h ctx msg s i err 0 = (Returned (Some (RetriesExhausted mx err)), msg, s)"
| "retry_loop mx delay wait next_h ctx msg s i err (Suc n) =
     (case next_h ctx msg s of
        (Returned None, m', s') \<Rightarrow> (Returned None, m', s')
      | (Returned (Some e), m', s') \<Rightarrow>
          if n = 0 then (Returned (Some (RetriesExhausted mx (Some e))), m', s')
          else (case wait (backoff delay i) s' of
                  (Some ctx_err, s'') \<Rightarrow> (Returned (Some ctx_err), m', s'')
                | (None, s'') \<Rightarrow> retry_loop mx delay wait next_h ctx m' s'' (Suc i) (Some e) n)
      | (r, m', s') \<Rightarrow> (r, m', s'))"

definition RetryMiddleware ::
    "(duration \<Rightarrow> 's \<Rightarrow> msg_error option \<times> 's) \<Rightarrow> int \<Rightarrow> duration \<Rightarrow> 's Middleware" where
  "RetryMiddleware wait maxRetries delay next_h ctx msg s =
     retry_loop maxRetries delay wait next_h ctx msg s 0 None (nat (maxRetries + 1))"

text \<open>
  Timeout. The handler runs in a goroutine of its own; \<open>expired\<close> says which branch the
  \<open>select\<close> takes. After a timeout the handler still runs to its end.
\<close>

definition TimeoutMiddleware :: "bool \<Rightarrow> duration \<Rightarrow> 's Middleware" where
  "TimeoutMiddleware expired timeout next_h ctx msg s =
     (case next_h ctx msg s of
        (Returned err, m', s') \<Rightarrow>
          if expired then (Returned (Some (TimedOut timeout (m_Topic msg) (m_UUID msg))), m', s') else (Returned err, m', s')
      | (Panicked p, m', s') \<Rightarrow> (Crashed p, m', s')
      | (Crashed p, m', s') \<Rightarrow> (Crashed p, m', s'))"

definition RecoverMiddleware :: "'s Middleware" where
  "RecoverMiddleware next_h ctx msg s =
     (case next_h ctx msg s of
        (Panicked p, m', s') \<Rightarrow>
          (Returned (Some (PanicRecovered p (m_Topic m') (m_UUID m'))), m', s')
      | r \<Rightarrow> r)"

text \<open>Metrics: the collector is three counters per topic in the state.\<close>

record 's collector =
  IncrementProcessed :: "string \<Rightarrow> 's \<Rightarrow> 's"
  IncrementFailed :: "string \<Rightarrow> 's \<Rightarrow> 's"
  RecordDuration :: "string \<Rightarrow> duration \<Rightarrow> 's \<Rightarrow> 's"

definition MetricsMiddleware :: "'s collector \<Rightarrow> duration \<Rightarrow> 's Middleware" where
  "MetricsMiddleware collector elapsed next_h ctx msg s =
     (case next_h ctx msg s of
        (Returned err, m', s') \<Rightarrow>
          let s1 = RecordDuration collector (m_Topic m') elapsed s'
          in (Returned err, m',
              (if err \<noteq> None then IncrementFailed collector (m_Topic m') s1
               else IncrementProcessed collector (m_Topic m') s1))
      | r \<Rightarrow> r)"

definition TracingMiddleware :: "'s Middleware" where
  "TracingMiddleware next_h ctx msg s =
     (let traceID = (case m_Metadata msg ''trace_id'' of Some t \<Rightarrow> t | None \<Rightarrow> []);
          msg' = (if traceID = [] then msg\<lparr>m_Metadata := (m_Metadata msg)(''trace_id'' \<mapsto> m_UUID msg)\<rparr> else msg);
          traceID' = (if traceID = [] then m_UUID msg else traceID)
      in next_h (ctx\<lparr>mctx_trace_id := Some traceID'\<rparr>) msg' s)"

record 's DeduplicationStore =
  dd_Exists :: "string \<Rightarrow> 's \<Rightarrow> bool"
  dd_Mark :: "string \<Rightarrow> duration \<Rightarrow> 's \<Rightarrow> string option \<times> 's"

definition DeduplicationMiddleware :: "'s DeduplicationStore \<Rightarrow> duration \<Rightarrow> 's Middleware" where
  "DeduplicationMiddleware store ttl next_h ctx msg s =
     (if dd_Exists store (m_UUID msg) s then (Returned None, msg, s)
      else case next_h ctx msg s of
        (Returned None, m', s') \<Rightarrow> (Returned None, m', snd (dd_Mark store (m_UUID m') ttl s'))
      | r \<Rightarrow> r)"

definition FilterMiddleware :: "(Message \<Rightarrow> bool) \<Rightarrow> 's Middleware" where
  "FilterMiddleware pred next_h ctx msg s = (if \<not> pred msg then (Returned None, msg, s) else next_h ctx msg s)"

definition PriorityMiddleware :: "(Message \<Rightarrow> int) \<Rightarrow> 's Middleware" where
  "PriorityMiddleware getPriority next_h ctx msg s =
     next_h ctx (msg\<lparr>m_Metadata := (m_Metadata msg)(''priority'' \<mapsto> int_text (getPriority msg))\<rparr>) s"

text \<open>Rate limiting: a limiter is asked without or with waiting.\<close>

record 's RateLimiter =
  rl_Allow :: "'s \<Rightarrow> bool \<times> 's"
  rl_Wait :: "'s \<Rightarrow> msg_error option \<times> 's"

definition RateLimitMiddleware :: "'s RateLimiter \<Rightarrow> string \<Rightarrow> 's Middleware" where
  "RateLimitMiddleware limiter mode next_h ctx msg s =
     (if mode = ''wait'' then
        (case rl_Wait limiter s of
           (Some err, s') \<Rightarrow> (Returned (Some (RateWaitFailed err)), msg, s')
         | (None, s') \<Rightarrow> next_h ctx msg s')
      else
        (case rl_Allow limiter s of
           (False, s') \<Rightarrow> (Returned (Some (RateLimited (m_Topic msg) (m_UUID msg))), msg, s')
         | (True, s') \<Rightarrow> next_h ctx msg s'))"

record TokenBucketLimiter =
  tb_capacity :: nat
  tb_tokens :: nat

definition NewTokenBucketLimiter :: "nat \<Rightarrow> TokenBucketLimiter" where
  "NewTokenBucketLimiter capacity = \<lparr>tb_capacity = capacity, tb_tokens = capacity\<rparr>"

definition tb_Allow :: "TokenBucketLimiter \<Rightarrow> bool \<times> TokenBucketLimiter" where
  "tb_Allow l = (if 0 < tb_tokens l then (True, l\<lparr>tb_tokens := tb_tokens l - 1\<rparr>) else (False, l))"

text \<open>
  \<open>Wait\<close> takes a token when the \<open>select\<close> finds one, and may instead report the context's
  error \<open>cancelled\<close>; with neither a token nor an error it would block.
\<close>

definition tb_Wait :: "msg_error option \<Rightarrow> TokenBucketLimiter \<Rightarrow> (msg_error option \<times> TokenBucketLimiter) option" where
  "tb_Wait cancelled l =
     (case cancelled of
        Some err \<Rightarrow> Some (Some err, l)
      | None \<Rightarrow> if 0 < tb_tokens l then Some (None, l\<lparr>tb_tokens := tb_tokens l - 1\<rparr>) else None)"

definition tb_refill_tick :: "TokenBucketLimiter \<Rightarrow> TokenBucketLimiter" where
  "tb_refill_tick l = (if tb_tokens l < tb_capacity l then l\<lparr>tb_tokens := tb_tokens l + 1\<rparr> else l)"

section \<open>Circuit breaker\<close>

record SimpleCircuitBreaker =
  cb_maxFailures :: int
  cb_timeout :: duration
  cb_failures :: int
  cb_lastFailTime :: instant
  cb_state :: string

definition NewSimpleCircuitBreaker :: "int \<Rightarrow> duration \<Rightarrow> SimpleCircuitBreaker" where
  "NewSimpleCircuitBreaker maxFailures timeout = \<lparr>cb_maxFailures = maxFailures, cb_timeout = timeout,
     cb_failures = 0, cb_lastFailTime = 0, cb_state = ''closed''\<rparr>"

text \<open>\<open>now1\<close> is the clock before, \<open>now2\<close> after the call; \<open>fn\<close> runs once, if at all.\<close>

definition cb_admit :: "instant \<Rightarrow> SimpleCircuitBreaker \<Rightarrow> SimpleCircuitBreaker option" where
  "cb_admit now1 cb =
     (if cb_state cb = ''open'' then
        (if cb_timeout cb < time_sub now1 (cb_lastFailTime cb) then Some (cb\<lparr>cb_state := ''half-open''\<rparr>) else None)
      else Some cb)"

definition cb_finish :: "instant \<Rightarrow> hresult \<Rightarrow> SimpleCircuitBreaker \<Rightarrow> hresult \<times> SimpleCircuitBreaker" where
  "cb_finish now2 r cb =
     (case r of
        Returned (Some err) \<Rightarrow>
          let cb1 = cb\<lparr>cb_failures := cb_failures cb + 1, cb_lastFailTime := now2\<rparr>
          in if cb_maxFailures cb1 \<le> cb_failures cb1
             then (Returned (Some (BreakerTripped err)), cb1\<lparr>cb_state := ''open''\<rparr>)
             else (Returned (Some err), cb1)
      | Returned None \<Rightarrow>
          let cb1 = (if cb_state cb = ''half-open'' then cb\<lparr>cb_state := ''closed''\<rparr> else cb)
          in (Returned None, cb1\<lparr>cb_failures := 0\<rparr>)
      | _ \<Rightarrow> (r, cb))"

definition cb_Call ::
    "instant \<Rightarrow> instant \<Rightarrow> ('s \<Rightarrow> hresult \<times> 's) \<Rightarrow> SimpleCircuitBreaker \<Rightarrow> 's \<Rightarrow> hresult \<times> SimpleCircuitBreaker \<times> 's" where
  "cb_Call now1 now2 fn cb s =
     (case cb_admit now1 cb of
        None \<Rightarrow> (Returned (Some BreakerOpen), cb, s)
      | Some cb1 \<Rightarrow>
          (case fn s of
             (r, s') \<Rightarrow> (case cb_finish now2 r cb1 of (r', cb2) \<Rightarrow> (r', cb2, s'))))"

definition CircuitBreakerMiddleware :: "instant \<Rightarrow> instant \<Rightarrow> (SimpleCircuitBreaker \<times> 's) Middleware" where
  "CircuitBreakerMiddleware now1 now2 next_h ctx msg cs =
     (case cb_admit now1 (fst cs) of
        None \<Rightarrow> (Returned (Some BreakerOpen), msg, cs)
      | Some cb1 \<Rightarrow>
          (case next_h ctx msg (cb1, snd cs) of
             (r, m', (cb2, s')) \<Rightarrow> (case cb_finish now2 r cb2 of (r', cb3) \<Rightarrow> (r', m', (cb3, s')))))"

section \<open>Batches\<close>

record 's batch_state =
  b_batch :: "Message list"
  b_lastFlush :: instant
  b_rest :: 's

definition batch_flush ::
    "(Message list \<Rightarrow> 's \<Rightarrow> msg_error option \<times> 's) \<Rightarrow> instant \<Rightarrow> 's batch_state \<Rightarrow> msg_error option \<times> 's batch_state" where
  "batch_flush batchHandler now b =
     (if b_batch b = [] then (None, b)
      else case batchHandler (b_batch b) (b_rest b) of
        (err, s') \<Rightarrow> (err, b\<lparr>b_batch := [], b_lastFlush := now, b_rest := s'\<rparr>))"

definition BatchMiddleware ::
    "int \<Rightarrow> duration \<Rightarrow> (Message list \<Rightarrow> 's \<Rightarrow> msg_error option \<times> 's) \<Rightarrow> instant \<Rightarrow> instant \<Rightarrow> 's batch_state Middleware" where
  "BatchMiddleware batchSize flushInterval batchHandler now1 now2 next_h ctx msg b =
     (let b1 = b\<lparr>b_batch := b_batch b @ [msg]\<rparr> in
      if batchSize \<le> int (length (b_batch b1)) \<or> flushInterval < time_sub now1 (b_lastFlush b1)
      then (case batch_flush batchHandler now2 b1 of (err, b2) \<Rightarrow> (Returned err, msg, b2))
      else (Returned None, msg, b1))"

section \<open>Helpers\<close>

definition WrapHandler :: "(string \<Rightarrow> string \<Rightarrow> 's \<Rightarrow> hresult \<times> 's) \<Rightarrow> 's mhandler" where
  "WrapHandler oldHandler ctx msg s = (case oldHandler (m_Topic msg) (m_Payload msg) s of (r, s') \<Rightarrow> (r, msg, s'))"

definition NewSimpleHandler :: "(string \<Rightarrow> 's \<Rightarrow> hresult \<times> 's) \<Rightarrow> 's mhandler" where
  "NewSimpleHandler fn ctx msg s = (case fn (m_Payload msg) s of (r, s') \<Rightarrow> (r, msg, s'))"

definition NewJSONHandler ::
    "(string \<Rightarrow> 'd \<Rightarrow> string + 'd) \<Rightarrow> (msg_context \<Rightarrow> 'd \<Rightarrow> 's \<Rightarrow> hresult \<times> 's) \<Rightarrow> 'd \<Rightarrow> 's mhandler" where
  "NewJSONHandler unmarshal fn dataType ctx msg s =
     (case unmarshal (m_Payload msg) dataType of
        Inl err \<Rightarrow> (Returned (Some (Plain err)), msg, s)
      | Inr v \<Rightarrow> (case fn ctx v s of (r, s') \<Rightarrow> (r, msg, s')))"

section \<open>Settlement\<close>

text \<open>What the operations keep of a message that came from a transport.\<close>

definition settle_inv :: "Message \<Rightarrow> bool" where
  "settle_inv m \<longleftrightarrow> m_ack m \<noteq> None \<and> m_nack m \<noteq> None \<and> length (m_calls m) = (if m_settled m then 1 else 0)"

lemma settle_inv_Ack [go_inv]: "settle_inv m \<Longrightarrow> settle_inv (snd (Ack m))"
  by (auto simp: settle_inv_def Ack_def settle_def Let_def split: option.split)

lemma settle_inv_Nack [go_inv]: "settle_inv m \<Longrightarrow> settle_inv (snd (Nack m))"
  by (auto simp: settle_inv_def Nack_def settle_def Let_def split: option.split)

lemma settle_inv_delivered:
  "settle_inv (nsq_domain_message unmarshal topic channel message)"
  "settle_inv (amqp_domain_message topic channel d)"
  by (auto simp: settle_inv_def nsq_domain_message_def amqp_domain_message_def SetAckFunc_def SetNackFunc_def
      NewMessage_def DecodeMessagePayload_def Let_def split: option.split sum.split)

text \<open>A handler that treats its message as the package's operations do.\<close>

definition settles_properly :: "'s mhandler \<Rightarrow> bool" where
  "settles_properly h \<longleftrightarrow> (\<forall>ctx m s. settle_inv m \<longrightarrow> settle_inv (fst (snd (h ctx m s))))"

lemma settle_delivery_once:
  assumes "settle_inv m" and "r = Returned err"
  shows "m_settled (settle_delivery r m) \<and>
    (if m_settled m then m_calls (settle_delivery r m) = m_calls m
     else m_calls (settle_delivery r m) = [if err = None then CalledAck else CalledNack])"
  using assms
  by (auto simp: settle_inv_def settle_delivery_def Ack_def Nack_def settle_def IsSettled_def Let_def
      split: option.split)

section \<open>Retrying\<close>

text \<open>A handler that fails \<open>j\<close> times and then succeeds; waiting is logged.\<close>

definition fails_first :: "nat \<Rightarrow> (nat \<times> duration list) mhandler" where
  "fails_first j ctx m s =
     (Returned (if fst s < j then Some (Plain ''failed'') else None), m, (fst s + 1, snd s))"

definition log_wait :: "duration \<Rightarrow> nat \<times> duration list \<Rightarrow> msg_error option \<times> (nat \<times> duration list)" where
  "log_wait d s = (None, (fst s, snd s @ [d]))"

lemma retry_step:
  assumes "k < j" and "n \<noteq> 0"
  shows "retry_loop mx delay log_wait (fails_first j) ctx m (k, ds) i err (Suc n) =
    retry_loop mx delay log_wait (fails_first j) ctx m (k + 1, ds @ [backoff delay i]) (Suc i)
      (Some (Plain ''failed'')) n"
proof -
  have f: "fails_first j ctx m (k, ds) = (Returned (Some (Plain ''failed'')), m, (k + 1, ds))"
    using assms(1) by (simp add: fails_first_def)
  show ?thesis
    using assms(2) by (simp only: retry_loop.simps(2) f) (simp add: log_wait_def)
qed

lemma retry_loop_fails_first:
  "retry_loop mx delay log_wait (fails_first j) ctx m (k, ds) i err n =
     (if n = 0 then (Returned (Some (RetriesExhausted mx err)), m, (k, ds))
      else if j \<le> k then (Returned None, m, (k + 1, ds))
      else if j < k + n then (Returned None, m, (j + 1, ds @ map (backoff delay) [i ..< i + (j - k)]))
      else (Returned (Some (RetriesExhausted mx (Some (Plain ''failed'')))), m,
            (k + n, ds @ map (backoff delay) [i ..< i + (n - 1)])))"
proof (induction n arbitrary: k ds i err)
  case 0
  show ?case by simp
next
  case (Suc n)
  consider "j \<le> k" | "k < j" "n = 0" | "k < j" "n \<noteq> 0" by linarith
  then show ?case
  proof cases
    case 3
    have upt: "map (backoff delay) [i ..< i + Suc d] = backoff delay i # map (backoff delay) [Suc i ..< Suc i + d]" for d
      by (simp add: upt_rec)
    from 3 obtain n' where n': "n = Suc n'" by (cases n) auto
    from 3 obtain d where d: "j = k + Suc d" by (auto dest: less_imp_Suc_add)
    show ?thesis
      unfolding retry_step [OF 3] Suc.IH using 3 n' d upt [of d] upt [of n']
      by (cases d) auto
  qed (auto simp: fails_first_def)
qed

section \<open>Properties\<close>

lemma prod_cases3_id: "x = (fst x, fst (snd x), snd (snd x))"
  by simp




end
