(* ===== verification/Messaging_Guards.thy ===== *)
theory Messaging_Guards
  imports Messaging_Core
begin

text \<open>
  What the guarding middlewares of \<open>Messaging_Core\<close> guarantee over a whole run: the circuit
  breaker counts consecutive failures, the rate limiter bounds what is handled, batches lose
  and reorder nothing, back-off grows until it overflows, and panics are recovered only in
  the goroutine they happen in.
\<close>

section \<open>Circuit breaker\<close>

text \<open>
  A run of calls: the readings of the clock before and after each, and what the function
  would answer. The state logs, for every call that was let through, whether it failed.
\<close>

type_synonym breaker_call = "instant \<times> instant \<times> msg_error option"

definition breaker_step :: "breaker_call \<Rightarrow> SimpleCircuitBreaker \<times> bool list \<Rightarrow> SimpleCircuitBreaker \<times> bool list" where
  "breaker_step c st =
     (case c of (now1, now2, answer) \<Rightarrow>
       (case cb_Call now1 now2 (\<lambda>s. (Returned answer, s @ [answer \<noteq> None])) (fst st) (snd st) of
          (r, cb, s) \<Rightarrow> (cb, s)))"

definition breaker_run :: "breaker_call list \<Rightarrow> SimpleCircuitBreaker \<times> bool list \<Rightarrow> SimpleCircuitBreaker \<times> bool list" where
  "breaker_run cs st = fold breaker_step cs st"

definition trailing_failures :: "bool list \<Rightarrow> nat" where
  "trailing_failures log = length (takeWhile id (rev log))"

lemma trailing_failures_snoc [simp]:
  "trailing_failures (log @ [f]) = (if f then Suc (trailing_failures log) else 0)"
  by (simp add: trailing_failures_def)

definition breaker_inv :: "int \<Rightarrow> duration \<Rightarrow> SimpleCircuitBreaker \<times> bool list \<Rightarrow> bool" where
  "breaker_inv mx d st \<longleftrightarrow>
     cb_maxFailures (fst st) = mx \<and> cb_timeout (fst st) = d
     \<and> cb_failures (fst st) = int (trailing_failures (snd st))
     \<and> cb_state (fst st) = (if cb_failures (fst st) < mx then ''closed'' else ''open'')"

lemma breaker_step_inv [go_inv]:
  assumes "breaker_inv mx d st" and "0 < mx"
  shows "breaker_inv mx d (breaker_step c st)"
proof -
  obtain now1 now2 answer where c: "c = (now1, now2, answer)" by (cases c)
  show ?thesis
    using assms unfolding c
    by (cases answer)
      (auto simp: breaker_inv_def breaker_step_def cb_Call_def cb_admit_def cb_finish_def Let_def
        split: if_splits)
qed

lemma breaker_run_inv: "breaker_inv mx d st \<Longrightarrow> 0 < mx \<Longrightarrow> breaker_inv mx d (breaker_run cs st)"
proof (induction cs arbitrary: st)
  case (Cons c cs)
  from Cons.IH [OF breaker_step_inv [OF Cons.prems] Cons.prems(2)] show ?case by (simp add: breaker_run_def)
qed (simp add: breaker_run_def)

text \<open>
  C7: After any run of calls the breaker is open exactly when the calls it let through last
  failed at least \<open>maxFailures\<close> times in a row, and it has counted those failures.
\<close>
theorem breaker_counts_consecutive_failures:
  assumes "0 < maxFailures"
  shows "case breaker_run cs (NewSimpleCircuitBreaker maxFailures timeout, []) of (cb, log) \<Rightarrow>
    cb_failures cb = int (trailing_failures log)
    \<and> cb_state cb = (if int (trailing_failures log) < maxFailures then ''closed'' else ''open'')"
proof -
  have "breaker_inv maxFailures timeout (NewSimpleCircuitBreaker maxFailures timeout, [])"
    using assms by (simp add: breaker_inv_def NewSimpleCircuitBreaker_def trailing_failures_def)
  from breaker_run_inv [OF this assms] show ?thesis
    by (simp add: breaker_inv_def case_prod_beta)
qed

theorem breaker_counts_consecutive_failures_witness:
  "cb_state (fst (breaker_run [(1, 1, Some BreakerOpen), (2, 2, Some BreakerOpen)] (NewSimpleCircuitBreaker 2 9, [])))
     = ''open''"
proof -
  have "snd (breaker_run [(1, 1, Some BreakerOpen), (2, 2, Some BreakerOpen)] (NewSimpleCircuitBreaker 2 9, [])) = [True, True]"
    by (simp add: breaker_run_def breaker_step_def cb_Call_def cb_admit_def cb_finish_def NewSimpleCircuitBreaker_def Let_def)
  with breaker_counts_consecutive_failures [of 2 "[(1, 1, Some BreakerOpen), (2, 2, Some BreakerOpen)]" 9]
  show ?thesis by (auto simp: trailing_failures_def split: prod.splits)
qed

text \<open>
  An open breaker calls nothing and answers at once until its timeout has passed since
  the last failure; then one call decides: success closes it with no failures counted,
  failure (with the count at the limit) opens it again from that moment.
\<close>
lemma open_breaker:
  assumes "cb_state cb = ''open''" and "cb_maxFailures cb \<le> cb_failures cb"
  shows "cb_Call now1 now2 fn cb s =
     (if time_sub now1 (cb_lastFailTime cb) \<le> cb_timeout cb then (Returned (Some BreakerOpen), cb, s)
      else case fn s of
        (Returned None, s') \<Rightarrow> (Returned None, cb\<lparr>cb_state := ''closed'', cb_failures := 0\<rparr>, s')
      | (Returned (Some err), s') \<Rightarrow>
          (Returned (Some (BreakerTripped err)),
           cb\<lparr>cb_failures := cb_failures cb + 1, cb_lastFailTime := now2\<rparr>, s')
      | (r, s') \<Rightarrow> (r, cb\<lparr>cb_state := ''half-open''\<rparr>, s'))"
  using assms
  by (auto simp: cb_Call_def cb_admit_def cb_finish_def Let_def split: prod.split hresult.split option.split)

section \<open>Rate limiting\<close>

text \<open>
  What the middleware needs of a limiter: every permission, waited for or not, uses up a
  token, and a refusal leaves them alone.
\<close>

locale rate_limiter =
  fixes limiter :: "'s RateLimiter"
    and tokens :: "'s \<Rightarrow> nat"
  assumes allowed: "rl_Allow limiter s = (True, s') \<Longrightarrow> tokens s = Suc (tokens s')"
    and not_allowed: "rl_Allow limiter s = (False, s') \<Longrightarrow> tokens s' = tokens s"
    and waited: "rl_Wait limiter s = (None, s') \<Longrightarrow> tokens s = Suc (tokens s')"
    and gave_up: "rl_Wait limiter s = (Some e, s') \<Longrightarrow> tokens s' = tokens s"
begin

lemma middleware_cases:
  obtains (rejected) e s' where "RateLimitMiddleware limiter mode h ctx m s = (Returned (Some e), m, s')"
      "tokens s' = tokens s"
    | (admitted) s' where "RateLimitMiddleware limiter mode h ctx m s = h ctx m s'" "tokens s = Suc (tokens s')"
proof (cases "mode = ''wait''")
  case True
  obtain r s' where w: "rl_Wait limiter s = (r, s')" by force
  show thesis
  proof (cases r)
    case None
    with True w admitted [of s'] waited [of s s'] show thesis by (simp add: RateLimitMiddleware_def)
  next
    case (Some e)
    with True w rejected [of "RateWaitFailed e" s'] gave_up [of s e s'] show thesis
      by (simp add: RateLimitMiddleware_def)
  qed
next
  case False
  obtain ok s' where a: "rl_Allow limiter s = (ok, s')" by force
  show thesis
  proof (cases ok)
    case True
    with False a admitted [of s'] allowed [of s s'] show thesis by (simp add: RateLimitMiddleware_def)
  next
    case rejected': False
    with False a rejected [of "RateLimited (m_Topic m) (m_UUID m)" s'] not_allowed [of s s'] show thesis
      by (simp add: RateLimitMiddleware_def)
  qed
qed

end

text \<open>
  The token bucket next to what else is in the state. A \<open>Wait\<close> that finds no token ends with
  the error \<open>e\<close> of its context, or is the wait that begins after the next refill: a waiting
  call has no effect before.
\<close>

definition tb_limiter :: "msg_error option \<Rightarrow> msg_error \<Rightarrow> (TokenBucketLimiter \<times> 'w) RateLimiter" where
  "tb_limiter cancelled e =
     \<lparr>rl_Allow = \<lambda>(l, w). (case tb_Allow l of (ok, l') \<Rightarrow> (ok, (l', w))),
      rl_Wait = \<lambda>(l, w). (case tb_Wait cancelled l of
          Some (r, l') \<Rightarrow> (r, (l', w)) | None \<Rightarrow> (Some e, (l, w)))\<rparr>"

interpretation bucket: rate_limiter "tb_limiter cancelled e" "\<lambda>s. tb_tokens (fst s)" for cancelled e
  by unfold_locales
    (auto simp: tb_limiter_def tb_Allow_def tb_Wait_def split: if_splits option.splits)

datatype limit_event = Arrives Message string "msg_error option" | RefillTick

definition counting_handler :: "(TokenBucketLimiter \<times> nat) mhandler" where
  "counting_handler ctx m s = (Returned None, m, (fst s, Suc (snd s)))"

fun limit_step :: "msg_context \<Rightarrow> limit_event \<Rightarrow> TokenBucketLimiter \<times> nat \<Rightarrow> TokenBucketLimiter \<times> nat" where
  "limit_step ctx (Arrives m mode cancelled) s =
     snd (snd (RateLimitMiddleware (tb_limiter cancelled (Plain ''cancelled'')) mode counting_handler ctx m s))"
| "limit_step ctx RefillTick s = (tb_refill_tick (fst s), snd s)"

definition limit_run :: "msg_context \<Rightarrow> limit_event list \<Rightarrow> TokenBucketLimiter \<times> nat \<Rightarrow> TokenBucketLimiter \<times> nat" where
  "limit_run ctx evs s = fold (limit_step ctx) evs s"

lemma tb_capacity_kept:
  "tb_capacity (fst (snd (rl_Allow (tb_limiter c e) s))) = tb_capacity (fst s)"
  "tb_capacity (fst (snd (rl_Wait (tb_limiter c e) s))) = tb_capacity (fst s)"
  by (auto simp: tb_limiter_def tb_Allow_def tb_Wait_def split: prod.split option.split)

lemma limit_step_bound:
  "snd (limit_step ctx ev s) + tb_tokens (fst (limit_step ctx ev s))
     \<le> snd s + tb_tokens (fst s) + (if ev = RefillTick then 1 else 0)
   \<and> tb_capacity (fst (limit_step ctx ev s)) = tb_capacity (fst s)
   \<and> (tb_tokens (fst s) \<le> tb_capacity (fst s) \<longrightarrow>
       tb_tokens (fst (limit_step ctx ev s)) \<le> tb_capacity (fst s))"
proof (cases ev)
  case (Arrives m mode cancelled)
  show ?thesis
    unfolding Arrives
    by (auto simp: RateLimitMiddleware_def tb_limiter_def tb_Allow_def tb_Wait_def counting_handler_def
        split: prod.split option.split)
qed (auto simp: tb_refill_tick_def)

text \<open>
  Behind the token bucket, whatever arrives in whatever mode, no more messages are handled
  than the capacity and the refills allow, and the bucket never holds more than its capacity.
\<close>
theorem token_bucket_bounds_handling:
  "case limit_run ctx evs (NewTokenBucketLimiter capacity, 0) of (l, handled) \<Rightarrow>
     handled + tb_tokens l \<le> capacity + length (filter (\<lambda>ev. ev = RefillTick) evs)
     \<and> tb_tokens l \<le> capacity"
proof -
  have "case limit_run ctx evs s of (l, handled) \<Rightarrow>
      handled + tb_tokens l \<le> snd s + tb_tokens (fst s) + length (filter (\<lambda>ev. ev = RefillTick) evs)
      \<and> tb_tokens l \<le> tb_capacity (fst s)" if "tb_tokens (fst s) \<le> tb_capacity (fst s)" for s
    using that
  proof (induction evs arbitrary: s)
    case Nil
    then show ?case by (auto simp: limit_run_def split: prod.split)
  next
    case (Cons ev evs)
    from limit_step_bound [of ctx ev s] Cons.IH [of "limit_step ctx ev s"] Cons.prems
    show ?case by (auto simp: limit_run_def split: prod.splits)
  qed
  from this [of "(NewTokenBucketLimiter capacity, 0)"] show ?thesis
    by (simp add: NewTokenBucketLimiter_def)
qed

text \<open>
  A message is handled just when the limiter gives it a token: the handler runs on the
  state with one token less, or the caller gets an error and no token is used.
\<close>
lemma limited_message:
  "(\<exists>s'. RateLimitMiddleware (tb_limiter cancelled e) mode h ctx m s = h ctx m s'
      \<and> tb_tokens (fst s) = Suc (tb_tokens (fst s')))
   \<or> (\<exists>err s'. RateLimitMiddleware (tb_limiter cancelled e) mode h ctx m s = (Returned (Some err), m, s')
      \<and> tb_tokens (fst s') = tb_tokens (fst s))"
  by (cases rule: bucket.middleware_cases [of cancelled e mode h ctx m s]) blast+

section \<open>Batches\<close>

text \<open>The batch handler logs its batches; \<open>answer\<close> is what it returns for one.\<close>

definition log_batch :: "(Message list \<Rightarrow> msg_error option) \<Rightarrow> Message list \<Rightarrow> Message list list \<Rightarrow> msg_error option \<times> Message list list" where
  "log_batch answer b log = (answer b, log @ [b])"

definition batch_step ::
    "int \<Rightarrow> duration \<Rightarrow> (Message list \<Rightarrow> msg_error option) \<Rightarrow> Message list list batch_state mhandler \<Rightarrow> msg_context
     \<Rightarrow> Message \<times> instant \<times> instant \<Rightarrow> Message list list batch_state \<Rightarrow> Message list list batch_state" where
  "batch_step batchSize flushInterval answer h ctx c b =
     (case c of (m, now1, now2) \<Rightarrow>
       snd (snd (BatchMiddleware batchSize flushInterval (log_batch answer) now1 now2 h ctx m b)))"

definition batch_inv :: "int \<Rightarrow> Message list \<Rightarrow> Message list list batch_state \<Rightarrow> bool" where
  "batch_inv batchSize ms b \<longleftrightarrow>
     concat (b_rest b) @ b_batch b = ms
     \<and> int (length (b_batch b)) < max 1 batchSize
     \<and> (\<forall>x \<in> set (b_rest b). x \<noteq> [] \<and> int (length x) \<le> max 1 batchSize)"

lemma batch_step_inv [go_inv]:
  assumes "batch_inv n ms b"
  shows "batch_inv n (ms @ [fst c]) (batch_step n d answer h ctx c b)"
proof -
  obtain m now1 now2 where c: "c = (m, now1, now2)" by (cases c)
  show ?thesis
    using assms unfolding c
    by (auto simp: batch_inv_def batch_step_def BatchMiddleware_def batch_flush_def log_batch_def Let_def)
qed

text \<open>
  Batching loses, duplicates and reorders nothing: the batches handed out, followed by the
  batch still open, are the messages in their order; no batch is empty or larger than the
  batch size, and fewer messages than that are left waiting.
\<close>
theorem batches_partition_the_messages:
  "let b = fold (batch_step batchSize flushInterval answer h ctx) cs
             \<lparr>b_batch = [], b_lastFlush = 0, b_rest = []\<rparr>
   in concat (b_rest b) @ b_batch b = map fst cs
      \<and> int (length (b_batch b)) < max 1 batchSize
      \<and> list_all (\<lambda>x. x \<noteq> [] \<and> int (length x) \<le> max 1 batchSize) (b_rest b)"
proof -
  have "batch_inv batchSize (ms @ map fst cs) (fold (batch_step batchSize flushInterval answer h ctx) cs b)"
    if "batch_inv batchSize ms b" for ms b
    using that
  proof (induction cs arbitrary: ms b)
    case (Cons c cs)
    from Cons.IH [OF batch_step_inv [OF Cons.prems, of c flushInterval answer h ctx]] show ?case by simp
  qed simp
  from this [of "[]" "\<lparr>b_batch = [], b_lastFlush = 0, b_rest = []\<rparr>"] show ?thesis
    by (simp add: batch_inv_def list_all_iff Let_def)
qed

text \<open>
  The middleware answers no error for a message that only joins the batch, before the
  batch is handled; when handling fails, the error goes to the last message alone and the
  batch is gone. The handler behind the middleware is never called.
\<close>
lemma batch_answers_early:
  assumes "int (length (b_batch b)) + 1 < batchSize" and "time_sub now1 (b_lastFlush b) \<le> flushInterval"
  shows "BatchMiddleware batchSize flushInterval bh now1 now2 h ctx m b = (Returned None, m, b\<lparr>b_batch := b_batch b @ [m]\<rparr>)
    \<and> BatchMiddleware (int (length (b_batch b)) + 1) flushInterval (\<lambda>ms s. (Some err, s)) now1 now2 h ctx m b
        = (Returned (Some err), m, b\<lparr>b_batch := [], b_lastFlush := now2\<rparr>)"
  using assms by (simp add: BatchMiddleware_def batch_flush_def Let_def)

section \<open>Back-off and panics\<close>

text \<open>
  The back-off is \<open>delay * 2^i\<close> as long as that fits in 64 bits; with a delay of one second
  the 35th pause is negative, so the retry is immediate, and from the 64th on it is 0.
\<close>
theorem backoff_doubles_until_overflow:
  assumes "0 \<le> delay" and "delay * 2 ^ i < 2 ^ 63" and "i < 63"
  shows "backoff delay i = delay * 2 ^ i \<and> backoff second 34 < 0 \<and> backoff delay 64 = 0"
proof -
  have "(2::int) ^ i < 2 ^ 63" using assms(3) by (intro power_strict_increasing) auto
  then have "wrap64 (2 ^ i) = 2 ^ i" by (intro wrap64_id) (auto intro: order_trans [of _ 0])
  moreover have "wrap64 (delay * 2 ^ i) = delay * 2 ^ i"
    using assms by (intro wrap64_id) (auto intro: order_trans [of _ 0])
  moreover have "backoff second 34 < 0" by (simp add: backoff_def second_def wrap64_def)
  moreover have "backoff delay 64 = 0" by (simp add: backoff_def wrap64_def)
  ultimately show ?thesis by (simp add: backoff_def)
qed

theorem backoff_doubles_until_overflow_witness: "backoff 5 3 = 40"
  using backoff_doubles_until_overflow [of 5 3] by simp

text \<open>
  Recovery does not reach through a timeout. A panicking handler crashes the program when
  the timeout middleware is inside the recovering one; the other way round the panic becomes
  an error.
\<close>
theorem recover_inside_timeout_only:
  "case h ctx m s of
     (Panicked p, m', s') \<Rightarrow>
       RecoverMiddleware (TimeoutMiddleware expired d h) ctx m s = (Crashed p, m', s')
       \<and> TimeoutMiddleware False d (RecoverMiddleware h) ctx m s
           = (Returned (Some (PanicRecovered p (m_Topic m') (m_UUID m'))), m', s')
   | _ \<Rightarrow> True"
  by (auto simp: RecoverMiddleware_def TimeoutMiddleware_def split: prod.split hresult.split)

end
