(* ===== verification/Messaging_Router.thy ===== *)
theory Messaging_Router
  imports Messaging_Core
begin

text \<open>
  \<open>pkg/messaging/router.go\<close>: handlers registered under topic and channel, global and local
  middlewares, and the life cycle of a router (\<open>Run\<close>, \<open>Stop\<close>).

  The subscriber is an interface: \<open>subscribe\<close> and \<open>stop_sub\<close> are arguments that change a
  state \<open>'u\<close>. \<open>Run\<close> visits the handler map in any order, the argument \<open>order\<close>. Its lock is
  held for one step at a time, so the life cycle is the sequence of the steps below.
\<close>

section \<open>Registration\<close>

record 's handlerConfig =
  hc_topic :: string
  hc_channel :: string
  hc_handler :: "'s mhandler"
  hc_middlewares :: "'s Middleware list"

record 's Router =
  rt_handlers :: "string \<rightharpoonup> 's handlerConfig"
  rt_middlewares :: "'s Middleware list"
  rt_running :: bool
  rt_stopClosed :: bool

definition NewRouter :: "'s Router" where
  "NewRouter = \<lparr>rt_handlers = Map.empty, rt_middlewares = [], rt_running = False, rt_stopClosed = False\<rparr>"

definition handler_key :: "string \<Rightarrow> string \<Rightarrow> string" where
  "handler_key topic channel = topic @ '':'' @ channel"

definition AddHandlerWithMiddleware ::
    "string \<Rightarrow> string \<Rightarrow> 's mhandler \<Rightarrow> 's Middleware list \<Rightarrow> 's Router \<Rightarrow> 's Router" where
  "AddHandlerWithMiddleware topic channel handler middlewares r =
     r\<lparr>rt_handlers := (rt_handlers r)(handler_key topic channel \<mapsto>
        \<lparr>hc_topic = topic, hc_channel = channel, hc_handler = handler, hc_middlewares = middlewares\<rparr>)\<rparr>"

definition AddHandler :: "string \<Rightarrow> string \<Rightarrow> 's mhandler \<Rightarrow> 's Router \<Rightarrow> 's Router" where
  "AddHandler topic channel handler r =
     r\<lparr>rt_handlers := (rt_handlers r)(handler_key topic channel \<mapsto>
        \<lparr>hc_topic = topic, hc_channel = channel, hc_handler = handler, hc_middlewares = []\<rparr>)\<rparr>"

definition AddMiddleware :: "'s Middleware \<Rightarrow> 's Router \<Rightarrow> 's Router" where
  "AddMiddleware mw r = r\<lparr>rt_middlewares := rt_middlewares r @ [mw]\<rparr>"

text \<open>The loop of \<open>decorateHandler\<close> walks the middlewares from the last to the first.\<close>

fun wrap_all :: "'s Middleware list \<Rightarrow> 's mhandler \<Rightarrow> 's mhandler" where
  "wrap_all [] result = result"
| "wrap_all (mw # rest) result = wrap_all rest (mw result)"

definition decorateHandler :: "'s Router \<Rightarrow> 's mhandler \<Rightarrow> 's Middleware list \<Rightarrow> 's mhandler" where
  "decorateHandler r handler localMiddlewares =
     (let allMiddlewares = rt_middlewares r @ localMiddlewares in wrap_all (rev allMiddlewares) handler)"

section \<open>Life cycle\<close>

type_synonym ('s, 'u) subscribe = "string \<Rightarrow> string \<Rightarrow> 's mhandler \<Rightarrow> 'u \<Rightarrow> string option \<times> 'u"

datatype router_error = AlreadyRunning | SubscribeFailed string string string

fun subscribe_all ::
    "('s, 'u) subscribe \<Rightarrow> 's Router \<Rightarrow> string list \<Rightarrow> 'u \<Rightarrow> router_error option \<times> 'u" where
  "subscribe_all subscribe r [] u = (None, u)"
| "subscribe_all subscribe r (key # order) u =
     (case rt_handlers r key of
        None \<Rightarrow> subscribe_all subscribe r order u
      | Some cfg \<Rightarrow>
          (case subscribe (hc_topic cfg) (hc_channel cfg) (decorateHandler r (hc_handler cfg) (hc_middlewares cfg)) u of
             (Some err, u') \<Rightarrow> (Some (SubscribeFailed (hc_topic cfg) (hc_channel cfg) err), u')
           | (None, u') \<Rightarrow> subscribe_all subscribe r order u'))"

text \<open>\<open>Run\<close> up to its final wait: it returns an error, or waits in the state returned.\<close>

definition Run_start ::
    "('s, 'u) subscribe \<Rightarrow> string list \<Rightarrow> 's Router \<Rightarrow> 'u \<Rightarrow> router_error option \<times> 's Router \<times> 'u" where
  "Run_start subscribe order r u =
     (if rt_running r then (Some AlreadyRunning, r, u)
      else let r1 = r\<lparr>rt_running := True\<rparr> in
        case subscribe_all subscribe r1 order u of (err, u') \<Rightarrow> (err, r1, u'))"

text \<open>
  The wait of \<open>Run\<close>: \<open>None\<close> while it blocks, otherwise what it returns. \<open>done\<close> is the error
  of a cancelled context; when both branches are ready either may be taken.
\<close>

definition Run_returns :: "'s Router \<Rightarrow> string option \<Rightarrow> string option \<Rightarrow> bool" where
  "Run_returns r ctx_done result \<longleftrightarrow>
     (case result of Some err \<Rightarrow> ctx_done = Some err | None \<Rightarrow> rt_stopClosed r)"

datatype stop_result = Stopped | ClosePanic

definition Stop :: "('u \<Rightarrow> 'u) \<Rightarrow> 's Router \<Rightarrow> 'u \<Rightarrow> stop_result \<times> 's Router \<times> 'u" where
  "Stop stop_sub r u =
     (if \<not> rt_running r then (Stopped, r, u)
      else let r1 = r\<lparr>rt_running := False\<rparr> in
        if rt_stopClosed r1 then (ClosePanic, r1, u)
        else (Stopped, r1\<lparr>rt_stopClosed := True\<rparr>, stop_sub u))"

section \<open>Lemmas\<close>

lemma wrap_all_append: "wrap_all (xs @ ys) h = wrap_all ys (wrap_all xs h)"
  by (induction xs arbitrary: h) auto

lemma wrap_all_rev: "wrap_all (rev mws) h = foldr (\<lambda>mw. mw) mws h"
  by (induction mws) (auto simp: wrap_all_append)

lemma subscribe_all_succeeds:
  assumes "set order \<subseteq> dom (rt_handlers r)"
  shows "subscribe_all (\<lambda>t c h u. (None, u @ [(t, c, h)])) r order log =
    (None, log @ map (\<lambda>key. let cfg = the (rt_handlers r key) in
       (hc_topic cfg, hc_channel cfg, decorateHandler r (hc_handler cfg) (hc_middlewares cfg))) order)"
  using assms by (induction order arbitrary: log) (auto simp: Let_def)

section \<open>Properties\<close>

text \<open>
  C31: Running a router that is not running subscribes every registered handler exactly once,
  under its topic and channel, wrapped in the global middlewares and, inside them, its own,
  the first of each outermost.
\<close>
theorem Run_subscribes_every_handler:
  assumes "\<not> rt_running r" and "enumerates order (rt_handlers r)"
  shows "case Run_start (\<lambda>t c h u. (None, u @ [(t, c, h)])) order r [] of (err, r', log) \<Rightarrow>
    err = None \<and> rt_running r' \<and> length log = card (dom (rt_handlers r))
    \<and> set log = {(hc_topic cfg, hc_channel cfg,
          foldr (\<lambda>mw. mw) (rt_middlewares r) (foldr (\<lambda>mw. mw) (hc_middlewares cfg) (hc_handler cfg)))
        | key cfg. rt_handlers r key = Some cfg}"
proof -
  let ?r = "r\<lparr>rt_running := True\<rparr>"
  let ?f = "\<lambda>cfg. (hc_topic cfg, hc_channel cfg,
    foldr (\<lambda>mw. mw) (rt_middlewares r) (foldr (\<lambda>mw. mw) (hc_middlewares cfg) (hc_handler cfg)))"
  have dec: "decorateHandler ?r h ms = foldr (\<lambda>mw. mw) (rt_middlewares r) (foldr (\<lambda>mw. mw) ms h)" for h ms
    unfolding decorateHandler_def Let_def wrap_all_rev by simp
  from assms(2) have "set order \<subseteq> dom (rt_handlers ?r)" by (simp add: enumerates_def)
  from subscribe_all_succeeds [OF this, of "[]"]
  have run: "Run_start (\<lambda>t c h u. (None, u @ [(t, c, h)])) order r [] =
      (None, ?r, map (\<lambda>key. ?f (the (rt_handlers r key))) order)"
    using assms(1) by (simp add: Run_start_def Let_def dec)
  have "(\<lambda>key. ?f (the (rt_handlers r key))) ` dom (rt_handlers r) = {?f cfg | key cfg. rt_handlers r key = Some cfg}"
    by force
  then show ?thesis
    unfolding run using assms(2) by (simp add: enumerates_length enumerates_set)
qed

theorem Run_subscribes_every_handler_witness:
  "length (snd (snd (Run_start (\<lambda>t c h u. (None, u @ [(t, c, h)])) [''t:c'']
     (AddHandler ''t'' ''c'' (\<lambda>ctx m (s::unit). (Returned None, m, s)) NewRouter) []))) = 1"
  using Run_subscribes_every_handler [of "AddHandler ''t'' ''c'' (\<lambda>ctx m (s::unit). (Returned None, m, s)) NewRouter" "[''t:c'']"]
  by (simp add: AddHandler_def NewRouter_def handler_key_def case_prod_beta)

text \<open>
  The key of a handler joins topic and channel by a colon, so two different registrations
  can share it: the later one silently replaces the earlier.
\<close>
lemma handler_keys_collide:
  "rt_handlers (AddHandler ''a'' ''b:c'' h2 (AddHandler ''a:b'' ''c'' h1 r))
     = rt_handlers (AddHandler ''a'' ''b:c'' h2 r)"
  by (simp add: AddHandler_def handler_key_def)

text \<open>
  A router cannot be used again. After \<open>Run\<close> and \<open>Stop\<close>, a second \<open>Run\<close> subscribes the
  handlers again but returns at once, and the \<open>Stop\<close> that follows closes a closed channel
  and panics; a \<open>Run\<close> that failed to subscribe leaves the router running.
\<close>
theorem router_runs_once:
  assumes "\<not> rt_running r" and "\<not> rt_stopClosed r"
    and "Run_start sub order r u = (err, r1, u1)" and "Stop st r1 u1 = (res, r2, u2)"
    and "Run_start sub order' r2 u2 = (err', r3, u3)"
  shows "res = Stopped \<and> Run_returns r3 None None \<and> fst (Stop st r3 u3) = ClosePanic
    \<and> fst (Run_start sub order r1 u1) = Some AlreadyRunning"
  using assms
  by (auto simp: Run_start_def Stop_def Run_returns_def Let_def split: prod.splits)

theorem router_runs_once_witness:
  "fst (Stop id \<lparr>rt_handlers = Map.empty, rt_middlewares = [], rt_running = True, rt_stopClosed = True\<rparr> ()) = ClosePanic"
  using router_runs_once [of NewRouter "\<lambda>_ _ _ u. (None, u)" "[]" "()" None
      "\<lparr>rt_handlers = Map.empty, rt_middlewares = [], rt_running = True, rt_stopClosed = False\<rparr>" "()" id Stopped
      "\<lparr>rt_handlers = Map.empty, rt_middlewares = [], rt_running = False, rt_stopClosed = True\<rparr>" "()" "[]" None
      "\<lparr>rt_handlers = Map.empty, rt_middlewares = [], rt_running = True, rt_stopClosed = True\<rparr>" "()"]
  by (simp add: NewRouter_def Run_start_def Stop_def)

end
