(* ===== verification/Redis_Keys.thy ===== *)
theory Redis_Keys
  imports Complex_Main Redis_Lease
begin

text \<open>
  \<open>pkg/redis/keyspace\<close>: prefixing keys with nested namespaces, and \<open>pkg/redis/ops\<close>: scanning
  and deleting by pattern, consuming a key once, jitter of a time to live.

  The commands on the server are the record \<open>scan_redis\<close>; a call answers or fails. A scan ends
  when the server returns the cursor 0; nothing in the code bounds it, so the loops are partial
  functions, and the theorems that they return rely on the pages the server serves.
\<close>

section \<open>Key spaces\<close>

definition NormalizeNamespace :: "string \<Rightarrow> string" where
  "NormalizeNamespace ns = trim_chars {CHR '':''} ns"

definition NewNamespace :: "string \<Rightarrow> string" where
  "NewNamespace ns = NormalizeNamespace ns"

record Keyspace =
  ks_namespace :: string

definition ks_New :: "string \<Rightarrow> Keyspace" where
  "ks_New namespace = \<lparr>ks_namespace = NewNamespace namespace\<rparr>"

definition NewFromNamespace :: "string \<Rightarrow> Keyspace" where
  "NewFromNamespace namespace = \<lparr>ks_namespace = NewNamespace namespace\<rparr>"

definition Child :: "Keyspace \<Rightarrow> string \<Rightarrow> Keyspace" where
  "Child k child =
     (let childNamespace = NewNamespace child
      in if ks_namespace k = [] then NewFromNamespace childNamespace
         else if childNamespace = [] then NewFromNamespace (ks_namespace k)
         else ks_New (ks_namespace k @ '':'' @ childNamespace))"

definition Prefix :: "Keyspace \<Rightarrow> string \<Rightarrow> string" where
  "Prefix k key =
     (if ks_namespace k = [] then key
      else if key = [] then ks_namespace k
      else ks_namespace k @ '':'' @ key)"

definition NewKeyPattern :: "string \<Rightarrow> string" where
  "NewKeyPattern pattern = pattern"

definition Pattern :: "Keyspace \<Rightarrow> string \<Rightarrow> string" where
  "Pattern k pattern = NewKeyPattern (Prefix k pattern)"

section \<open>Commands and scripts\<close>

record 's scan_redis =
  s_SCAN :: "nat \<Rightarrow> string \<Rightarrow> int \<Rightarrow> 's \<Rightarrow> (redis_err + string list \<times> nat) \<times> 's"
  s_UNLINK :: "duration option \<Rightarrow> string list \<Rightarrow> 's \<Rightarrow> (redis_err + int) \<times> 's"
  s_DEL :: "duration option \<Rightarrow> string list \<Rightarrow> 's \<Rightarrow> (redis_err + int) \<times> 's"

text \<open>The client library answers a script with its integer; \<open>ops\<close> is the server of \<open>Redis_Lease\<close>.\<close>

definition consumeIfExistsScript :: "'s redis \<Rightarrow> instant \<Rightarrow> string \<Rightarrow> 's \<Rightarrow> int \<times> 's" where
  "consumeIfExistsScript ops now key s =
     (if r_GET ops now key s \<noteq> None then (1, snd (r_DEL ops now key s)) else (0, s))"

definition ConsumeIfExists :: "'s redis option \<Rightarrow> instant \<Rightarrow> outcome \<Rightarrow> string \<Rightarrow> 's \<Rightarrow> (string + bool) \<times> 's" where
  "ConsumeIfExists client now net key s =
     (case client of
        None \<Rightarrow> (Inl ''redis client is nil'', s)
      | Some ops \<Rightarrow>
          if key = [] then (Inl ''consume key is empty'', s)
          else
            (case call net (consumeIfExistsScript ops now key s) s of
               (Inl RedisNil, s') \<Rightarrow> (Inr False, s')
             | (Inl (RedisError err), s') \<Rightarrow> (Inl err, s')
             | (Inr result, s') \<Rightarrow> (Inr (result = 1), s')))"

section \<open>Scanning\<close>

definition defaultScanCount :: int where "defaultScanCount = 100"
definition defaultDeleteBatchSize :: int where "defaultDeleteBatchSize = 500"

partial_function (option) scan_loop ::
    "'s scan_redis \<Rightarrow> string \<Rightarrow> int \<Rightarrow> nat \<Rightarrow> string list \<Rightarrow> 's \<Rightarrow> ((string + string list) \<times> 's) option" where
  "scan_loop ops pattern count cursor keys s =
     (case s_SCAN ops cursor pattern count s of
        (Inl err, s') \<Rightarrow> Some (Inl (redis_text err), s')
      | (Inr (batch, nextCursor), s') \<Rightarrow>
          if nextCursor = 0 then Some (Inr (keys @ batch), s')
          else scan_loop ops pattern count nextCursor (keys @ batch) s')"

definition ScanKeys ::
    "'s scan_redis option \<Rightarrow> string \<Rightarrow> int \<Rightarrow> 's \<Rightarrow> ((string + string list) \<times> 's) option" where
  "ScanKeys client pattern count s =
     (case client of
        None \<Rightarrow> Some (Inl ''redis client is nil'', s)
      | Some ops \<Rightarrow> scan_loop ops pattern (if count \<le> 0 then defaultScanCount else count) 0 [] s)"

section \<open>Deleting by pattern\<close>

record DeleteBatch =
  batch_Pattern :: string
  batch_Keys :: "string list"
  batch_Matched :: nat
  batch_Deleted :: int
  batch_DryRun :: bool

text \<open>\<open>OnBatch\<close> is kept as whether there is one; what it is given is part of the result.\<close>

record DeleteByPatternOptions =
  ScanCount :: int
  BatchSize :: int
  UseUnlink :: bool
  DeleteTimeout :: duration
  DryRun :: bool
  OnBatch :: bool

definition DefaultDeleteByPatternOptions :: DeleteByPatternOptions where
  "DefaultDeleteByPatternOptions = \<lparr>ScanCount = defaultScanCount, BatchSize = defaultDeleteBatchSize,
     UseUnlink = True, DeleteTimeout = 0, DryRun = False, OnBatch = False\<rparr>"

definition normalizeDeleteByPatternOptions :: "DeleteByPatternOptions \<Rightarrow> DeleteByPatternOptions" where
  "normalizeDeleteByPatternOptions opts =
     (let opts1 = (if ScanCount opts \<le> 0 then opts\<lparr>ScanCount := defaultScanCount\<rparr> else opts)
      in if BatchSize opts1 \<le> 0 then opts1\<lparr>BatchSize := defaultDeleteBatchSize\<rparr> else opts1)"

definition deleteBatch ::
    "'s scan_redis \<Rightarrow> string list \<Rightarrow> DeleteByPatternOptions \<Rightarrow> 's \<Rightarrow> (string + int) \<times> 's" where
  "deleteBatch ops batch opts s =
     (if DryRun opts then (Inr (int (length batch)), s)
      else
        let timeout = (if DeleteTimeout opts > 0 then Some (DeleteTimeout opts) else None)
        in case (if UseUnlink opts then s_UNLINK ops timeout batch s else s_DEL ops timeout batch s) of
             (Inl err, s') \<Rightarrow> (Inl (redis_text err), s')
           | (Inr count, s') \<Rightarrow> (Inr count, s'))"

text \<open>
  The loop over the batches of a page: \<open>keys\<close> are those from \<open>start\<close> on. It returns an error
  if there was one, the count, and the batches reported.
\<close>

function delete_page ::
    "'s scan_redis \<Rightarrow> string \<Rightarrow> DeleteByPatternOptions \<Rightarrow> string list \<Rightarrow> int \<Rightarrow> DeleteBatch list \<Rightarrow> 's
     \<Rightarrow> (string option \<times> int \<times> DeleteBatch list) \<times> 's" where
  "delete_page ops pattern opts keys deleted reported s =
     (if keys = [] \<or> BatchSize opts \<le> 0 then ((None, deleted, reported), s)
      else
        let batch = take (nat (BatchSize opts)) keys; rest = drop (nat (BatchSize opts)) keys
        in case deleteBatch ops batch opts s of
             (Inl err, s') \<Rightarrow> ((Some err, deleted, reported), s')
           | (Inr batchDeleted, s') \<Rightarrow>
               delete_page ops pattern opts rest (deleted + batchDeleted)
                 (if OnBatch opts then reported @ [\<lparr>batch_Pattern = pattern, batch_Keys = batch,
                    batch_Matched = length batch, batch_Deleted = batchDeleted, batch_DryRun = DryRun opts\<rparr>]
                  else reported) s')"
  by pat_completeness auto
termination
  by (relation "measure (\<lambda>(_, _, _, keys, _). length keys)") auto

declare delete_page.simps [simp del]

partial_function (option) delete_loop ::
    "'s scan_redis \<Rightarrow> string \<Rightarrow> DeleteByPatternOptions \<Rightarrow> nat \<Rightarrow> int \<Rightarrow> DeleteBatch list \<Rightarrow> 's
     \<Rightarrow> ((string option \<times> int \<times> DeleteBatch list) \<times> 's) option" where
  "delete_loop ops pattern opts cursor deleted reported s =
     (case s_SCAN ops cursor pattern (ScanCount opts) s of
        (Inl err, s') \<Rightarrow> Some ((Some (redis_text err), deleted, reported), s')
      | (Inr (keys, nextCursor), s') \<Rightarrow>
          (case delete_page ops pattern opts keys deleted reported s' of
             ((Some err, deleted', reported'), s'') \<Rightarrow> Some ((Some err, deleted', reported'), s'')
           | ((None, deleted', reported'), s'') \<Rightarrow>
               if nextCursor = 0 then Some ((None, deleted', reported'), s'')
               else delete_loop ops pattern opts nextCursor deleted' reported' s''))"

definition DeleteByPattern ::
    "'s scan_redis option \<Rightarrow> string \<Rightarrow> DeleteByPatternOptions \<Rightarrow> 's
     \<Rightarrow> ((string option \<times> int \<times> DeleteBatch list) \<times> 's) option" where
  "DeleteByPattern client pattern opts s =
     (case client of
        None \<Rightarrow> Some ((Some ''redis client is nil'', 0, []), s)
      | Some ops \<Rightarrow> delete_loop ops pattern (normalizeDeleteByPatternOptions opts) 0 0 [] s)"

section \<open>Jitter\<close>

text \<open>
  \<open>rnd n\<close> is what \<open>Int63n\<close> draws from 0 up to \<open>n\<close>; it panics (\<open>None\<close>) for an \<open>n\<close> that is not
  positive. Ratios are exact rationals.
\<close>

definition JitterTTL :: "(int \<Rightarrow> int) \<Rightarrow> duration \<Rightarrow> rat \<Rightarrow> duration option" where
  "JitterTTL rnd ttl ratio0 =
     (if ttl \<le> 0 \<or> ratio0 \<le> 0 then Some ttl
      else
        let ratio = (if ratio0 > 1 then 1 else ratio0);
            maxJitter = \<lfloor>of_int ttl * ratio\<rfloor>
        in if maxJitter \<le> 0 then Some ttl
           else
             let n = wrap64 (wrap64 (maxJitter * 2) + 1)
             in if n \<le> 0 then None
                else
                  let result = wrap64 (ttl + (rnd n - maxJitter))
                  in if result \<le> 0 then Some second else Some result)"

section \<open>Lemmas on key spaces\<close>

definition clean_ends :: "char set \<Rightarrow> string \<Rightarrow> bool" where
  "clean_ends cs s \<longleftrightarrow> s = [] \<or> hd s \<notin> cs \<and> last s \<notin> cs"

lemma dropWhile_id: "xs = [] \<or> \<not> P (hd xs) \<Longrightarrow> dropWhile P xs = xs"
  by (cases xs) auto

lemma rev_dropWhile_split: "xs = rev (dropWhile P (rev xs)) @ rev (takeWhile P (rev xs))"
proof -
  have "rev (takeWhile P (rev xs) @ dropWhile P (rev xs)) = xs" by (simp only: takeWhile_dropWhile_id rev_rev_ident)
  then show ?thesis by (simp only: rev_append)
qed

lemma trim_chars_clean: "clean_ends cs s \<Longrightarrow> trim_chars cs s = s"
  by (auto simp: clean_ends_def trim_chars_def dropWhile_id hd_rev)

lemma clean_ends_trim: "clean_ends cs (trim_chars cs s)"
proof (cases "trim_chars cs s = []")
  case False
  let ?P = "\<lambda>c. c \<in> cs"
  let ?d = "dropWhile ?P s"
  have t: "trim_chars cs s = rev (dropWhile ?P (rev ?d))" by (simp add: trim_chars_def)
  obtain zs where d: "?d = trim_chars cs s @ zs" unfolding t using rev_dropWhile_split by blast
  then have "hd ?d = hd (trim_chars cs s)" using False by (simp add: hd_append)
  moreover have "?d \<noteq> []" using d False by simp
  ultimately have "hd (trim_chars cs s) \<notin> cs" using dropWhile_stops [of ?P s] by metis
  moreover have "last (trim_chars cs s) \<notin> cs"
    using dropWhile_stops [of ?P "rev ?d"] False unfolding t by (simp add: last_rev del: dropWhile_eq_Nil_conv)
  ultimately show ?thesis by (simp add: clean_ends_def)
qed (simp add: clean_ends_def)

lemma NewNamespace_clean: "clean_ends {CHR '':''} (NewNamespace ns)"
  by (simp add: NewNamespace_def NormalizeNamespace_def clean_ends_trim)

lemma NewNamespace_id: "clean_ends {CHR '':''} ns \<Longrightarrow> NewNamespace ns = ns"
  by (simp add: NewNamespace_def NormalizeNamespace_def trim_chars_clean)

text \<open>A key space made by the constructors.\<close>

definition ks_inv :: "Keyspace \<Rightarrow> bool" where
  "ks_inv k \<longleftrightarrow> clean_ends {CHR '':''} (ks_namespace k)"

lemma ks_New_inv [go_inv]: "ks_inv (ks_New ns)"
  by (simp add: ks_inv_def ks_New_def NewNamespace_clean)

lemma Child_namespace:
  "ks_inv k \<Longrightarrow> ks_namespace (Child k c) =
     (let n = NewNamespace c in
      if ks_namespace k = [] then n else if n = [] then ks_namespace k else ks_namespace k @ '':'' @ n)"
  using NewNamespace_clean [of c]
  by (auto simp: ks_inv_def Child_def NewFromNamespace_def ks_New_def Let_def clean_ends_def intro!: NewNamespace_id)

lemma Child_inv [go_inv]: "ks_inv k \<Longrightarrow> ks_inv (Child k c)"
  using NewNamespace_clean [of c] by (auto simp: ks_inv_def Child_namespace Let_def clean_ends_def)

section \<open>Lemmas on scans\<close>

text \<open>The pages the server serves, from a cursor and a state on; \<open>s'\<close> is its last state.\<close>

inductive serves :: "'s scan_redis \<Rightarrow> string \<Rightarrow> int \<Rightarrow> nat \<Rightarrow> 's \<Rightarrow> string list list \<Rightarrow> 's \<Rightarrow> bool"
  for ops pattern count where
  last_page: "s_SCAN ops cursor pattern count s = (Inr (page, 0), s')
    \<Longrightarrow> serves ops pattern count cursor s [page] s'"
| next_page: "s_SCAN ops cursor pattern count s = (Inr (page, nxt), s') \<Longrightarrow> nxt \<noteq> 0
    \<Longrightarrow> serves ops pattern count nxt s' pages s'' \<Longrightarrow> serves ops pattern count cursor s (page # pages) s''"

lemma scan_loop_serves:
  "serves ops pattern count cursor s pages s' \<Longrightarrow> scan_loop ops pattern count cursor keys s = Some (Inr (keys @ concat pages), s')"
  by (induction arbitrary: keys rule: serves.induct) (subst scan_loop.simps, simp)+

text \<open>
  What a page does to a server whose deletions answer. \<open>drops batch\<close> is what the server makes of
  a batch, \<open>hits\<close> what it counts.
\<close>

definition deletes_with :: "'s scan_redis \<Rightarrow> ('s \<Rightarrow> string set) \<Rightarrow> bool" where
  "deletes_with ops live \<longleftrightarrow>
     (\<forall>timeout batch s. \<exists>s'. s_UNLINK ops timeout batch s = (Inr (int (card (set batch \<inter> live s))), s')
        \<and> live s' = live s - set batch)
     \<and> (\<forall>timeout batch s. \<exists>s'. s_DEL ops timeout batch s = (Inr (int (card (set batch \<inter> live s))), s')
        \<and> live s' = live s - set batch)"

text \<open>
  A full iteration of \<open>SCAN\<close>, whatever is deleted while it runs: the cursors are visited in
  order, every key that is still there is on the page of its slot, and a page has only keys
  that are there and match.
\<close>

definition iterates ::
    "'s scan_redis \<Rightarrow> ('s \<Rightarrow> string set) \<Rightarrow> string \<Rightarrow> int \<Rightarrow> (string \<Rightarrow> bool) \<Rightarrow> (nat \<Rightarrow> nat) \<Rightarrow> nat \<Rightarrow> (string \<Rightarrow> nat) \<Rightarrow> bool" where
  "iterates ops live pattern count matches cur n slot \<longleftrightarrow>
     cur 0 = 0 \<and> cur n = 0 \<and> (\<forall>i. 0 < i \<longrightarrow> i < n \<longrightarrow> cur i \<noteq> 0) \<and> (\<forall>k. slot k < n)
     \<and> (\<forall>i < n. \<forall>s. \<exists>page. s_SCAN ops (cur i) pattern count s = (Inr (page, cur (Suc i)), s)
          \<and> {k \<in> live s. matches k \<and> slot k = i} \<subseteq> set page \<and> set page \<subseteq> {k \<in> live s. matches k})"

lemma deleteBatch_deletes:
  assumes "deletes_with ops live" and "\<not> DryRun opts"
  shows "\<exists>s'. deleteBatch ops batch opts s = (Inr (int (card (set batch \<inter> live s))), s') \<and> live s' = live s - set batch"
proof -
  let ?t = "if DeleteTimeout opts > 0 then Some (DeleteTimeout opts) else None"
  from assms(1) obtain s1 s2 where
    "s_UNLINK ops ?t batch s = (Inr (int (card (set batch \<inter> live s))), s1)" "live s1 = live s - set batch"
    "s_DEL ops ?t batch s = (Inr (int (card (set batch \<inter> live s))), s2)" "live s2 = live s - set batch"
    unfolding deletes_with_def by meson
  with assms(2) show ?thesis by (cases "UseUnlink opts") (simp_all add: deleteBatch_def Let_def)
qed

lemma card_take_drop:
  assumes "finite L"
  shows "card (set (take n xs) \<inter> L) + card (set (drop n xs) \<inter> (L - set (take n xs))) = card (set xs \<inter> L)"
proof -
  have "set xs = set (take n xs) \<union> set (drop n xs)" by (metis append_take_drop_id set_append)
  then have "set xs \<inter> L = (set (take n xs) \<inter> L) \<union> (set (drop n xs) \<inter> (L - set (take n xs)))" by blast
  then show ?thesis using assms by (simp add: card_Un_disjoint disjoint_iff)
qed

lemma chunk_induct:
  assumes "0 < n" and "P []" and step: "\<And>xs. xs \<noteq> [] \<Longrightarrow> P (drop n xs) \<Longrightarrow> P xs"
  shows "P xs"
proof (induction xs rule: length_induct)
  case (1 xs)
  show ?case
  proof (cases "xs = []")
    case False
    with 1 assms(1) have "P (drop n xs)" by simp
    with False show ?thesis by (rule step)
  qed (simp add: assms(2))
qed

lemma delete_page_deletes:
  assumes "deletes_with ops live" and "\<not> DryRun opts" and "0 < BatchSize opts"
  shows "finite (live s) \<Longrightarrow> \<exists>reported' s'. delete_page ops pattern opts keys deleted reported s =
      ((None, deleted + int (card (set keys \<inter> live s)), reported'), s') \<and> live s' = live s - set keys"
proof (induction keys arbitrary: deleted reported s rule: chunk_induct [of "nat (BatchSize opts)"])
  case 2
  show ?case by (simp add: delete_page.simps)
next
  case (3 keys)
  let ?n = "nat (BatchSize opts)"
  let ?batch = "take ?n keys"
  from deleteBatch_deletes [OF assms(1,2), of ?batch s] obtain s1 where
    s1: "deleteBatch ops ?batch opts s = (Inr (int (card (set ?batch \<inter> live s))), s1)" "live s1 = live s - set ?batch"
    by blast
  have "finite (live s1)" using 3(3) s1(2) by simp
  from 3(2) [OF this] obtain reported' s' where
    IH: "delete_page ops pattern opts (drop ?n keys) (deleted + int (card (set ?batch \<inter> live s)))
        (if OnBatch opts then reported @ [\<lparr>batch_Pattern = pattern, batch_Keys = ?batch,
        batch_Matched = length ?batch, batch_Deleted = int (card (set ?batch \<inter> live s)), batch_DryRun = DryRun opts\<rparr>]
         else reported) s1 =
      ((None, deleted + int (card (set ?batch \<inter> live s)) + int (card (set (drop ?n keys) \<inter> live s1)), reported'), s')"
    and live: "live s' = live s1 - set (drop ?n keys)" by blast
  have "set keys = set ?batch \<union> set (drop ?n keys)" by (metis append_take_drop_id set_append)
  then have "live s' = live s - set keys" using live s1(2) by blast
  moreover have "delete_page ops pattern opts keys deleted reported s =
      ((None, deleted + int (card (set ?batch \<inter> live s)) + int (card (set (drop ?n keys) \<inter> live s1)), reported'), s')"
    using IH s1(1) 3(1) assms(3) by (subst delete_page.simps) (simp add: Let_def)
  moreover have "int (card (set ?batch \<inter> live s)) + int (card (set (drop ?n keys) \<inter> live s1)) = int (card (set keys \<inter> live s))"
    using card_take_drop [OF 3(3), of ?n keys] s1(2) by (simp flip: of_nat_add)
  ultimately show ?case by (simp add: add.assoc)
qed (use assms(3) in simp)

lemma delete_loop_deletes:
  assumes "deletes_with ops live" and "\<not> DryRun opts" and "0 < BatchSize opts"
    and it: "iterates ops live pattern (ScanCount opts) matches cur n slot"
  shows "i < n \<Longrightarrow> finite (live s) \<Longrightarrow> (\<And>k. k \<in> live s \<Longrightarrow> matches k \<Longrightarrow> i \<le> slot k) \<Longrightarrow>
    \<exists>reported' s'. delete_loop ops pattern opts (cur i) deleted reported s =
      Some ((None, deleted + int (card {k \<in> live s. matches k}), reported'), s')
    \<and> live s' = {k \<in> live s. \<not> matches k}"
proof (induction "n - Suc i" arbitrary: i deleted reported s)
  case (0 i)
  then have last: "Suc i = n" by simp
  from it 0(2) obtain page where page: "s_SCAN ops (cur i) pattern (ScanCount opts) s = (Inr (page, cur (Suc i)), s)"
    "{k \<in> live s. matches k \<and> slot k = i} \<subseteq> set page" "set page \<subseteq> {k \<in> live s. matches k}"
    unfolding iterates_def by blast
  have "k \<in> set page" if "k \<in> live s" "matches k" for k
  proof -
    from it last have "slot k \<le> i" unfolding iterates_def by (metis less_Suc_eq_le)
    with that 0(4) page(2) show ?thesis by (metis (mono_tags, lifting) le_antisym mem_Collect_eq subsetD)
  qed
  with page(3) have set: "set page = {k \<in> live s. matches k}" by blast
  from delete_page_deletes [OF assms(1-3) 0(3), of pattern page deleted reported] obtain reported' s' where
    "delete_page ops pattern opts page deleted reported s =
      ((None, deleted + int (card (set page \<inter> live s)), reported'), s')" "live s' = live s - set page" by blast
  moreover have "cur (Suc i) = 0" using it last by (simp add: iterates_def)
  moreover have "set page \<inter> live s = {k \<in> live s. matches k}" "live s - set page = {k \<in> live s. \<not> matches k}"
    using set by auto
  ultimately show ?case using page(1) by (subst delete_loop.simps) simp
next
  case (Suc m i)
  from it Suc(3) obtain page where page: "s_SCAN ops (cur i) pattern (ScanCount opts) s = (Inr (page, cur (Suc i)), s)"
    "{k \<in> live s. matches k \<and> slot k = i} \<subseteq> set page" "set page \<subseteq> {k \<in> live s. matches k}"
    unfolding iterates_def by blast
  from delete_page_deletes [OF assms(1-3) Suc(4), of pattern page deleted reported] obtain reported1 s1 where
    del: "delete_page ops pattern opts page deleted reported s =
      ((None, deleted + int (card (set page \<inter> live s)), reported1), s1)" and s1: "live s1 = live s - set page" by blast
  have next_cur: "Suc i < n" "cur (Suc i) \<noteq> 0" using it Suc(2) by (auto simp: iterates_def)
  have later: "Suc i \<le> slot k" if "k \<in> live s1" "matches k" for k
  proof -
    from that s1 have "k \<in> live s" "k \<notin> set page" by auto
    with Suc(5) [of k] page(2) that(2) show ?thesis by (metis (mono_tags, lifting) mem_Collect_eq not_less_eq_eq le_antisym subsetD)
  qed
  have "finite (live s1)" using Suc(4) s1 by simp
  moreover have "m = n - Suc (Suc i)" using Suc(2) by simp
  ultimately obtain reported' s' where
    loop: "delete_loop ops pattern opts (cur (Suc i)) (deleted + int (card (set page \<inter> live s))) reported1 s1 =
      Some ((None, deleted + int (card (set page \<inter> live s)) + int (card {k \<in> live s1. matches k}), reported'), s')"
    and live: "live s' = {k \<in> live s1. \<not> matches k}"
    using Suc(1) [OF _ next_cur(1) _ later, where deleted = "deleted + int (card (set page \<inter> live s))"
        and reported = reported1] by blast
  have "{k \<in> live s. matches k} = (set page \<inter> live s) \<union> {k \<in> live s1. matches k}"
    "(set page \<inter> live s) \<inter> {k \<in> live s1. matches k} = {}"
    using page(3) s1 by auto
  then have "card {k \<in> live s. matches k} = card (set page \<inter> live s) + card {k \<in> live s1. matches k}"
    using Suc(4) s1 by (simp add: card_Un_disjoint)
  moreover have "live s' = {k \<in> live s. \<not> matches k}" using live s1 page(3) by auto
  ultimately show ?case using page(1) del loop next_cur(2) by (subst delete_loop.simps) simp
qed

text \<open>Clients that consume a key one after the other, each at its time and with its fate.\<close>

fun consume_all :: "'s redis \<Rightarrow> string \<Rightarrow> (instant \<times> outcome) list \<Rightarrow> 's \<Rightarrow> (string + bool) list" where
  "consume_all ops key [] s = []"
| "consume_all ops key ((now, net) # calls) s =
     (case ConsumeIfExists (Some ops) now net key s of (r, s') \<Rightarrow> r # consume_all ops key calls s')"

lemma consume_gone:
  assumes "redis_contract ops live"
  shows "sorted (map fst calls) \<Longrightarrow> (\<And>t. t \<in> fst ` set calls \<Longrightarrow> live s t key = None) \<Longrightarrow>
    filter (\<lambda>r. r = Inr True) (consume_all ops key calls s) = []"
proof (induction calls arbitrary: s)
  case (Cons c calls)
  obtain now net where c: "c = (now, net)" by force
  have "r_GET ops now key s = None" using Cons.prems(2) [of now] assms c by (simp add: contract_GET)
  then have "ConsumeIfExists (Some ops) now net key s = (r, s) \<and> r \<noteq> Inr True"
    if "ConsumeIfExists (Some ops) now net key s = (r, s')" for r s'
    using that by (auto simp: ConsumeIfExists_def call_def consumeIfExistsScript_def
        split: outcome.splits redis_err.splits if_splits)
  then obtain r where "ConsumeIfExists (Some ops) now net key s = (r, s)" "r \<noteq> Inr True"
    by (metis prod.exhaust)
  with Cons c show ?case by simp
qed simp

text \<open>A dry run: every key of a page is in one batch, none is touched.\<close>

lemma delete_page_dry:
  assumes "DryRun opts" and "OnBatch opts" and "0 < BatchSize opts"
  shows "\<exists>batches. delete_page ops pattern opts keys deleted reported s =
      ((None, deleted + int (length keys), reported @ batches), s)
    \<and> concat (map batch_Keys batches) = keys
    \<and> list_all (\<lambda>b. 0 < batch_Deleted b \<and> batch_Deleted b \<le> BatchSize opts \<and> batch_Deleted b = int (length (batch_Keys b))) batches"
proof (induction keys arbitrary: deleted reported rule: chunk_induct [of "nat (BatchSize opts)"])
  case 2
  show ?case by (simp add: delete_page.simps)
next
  case (3 keys)
  let ?n = "nat (BatchSize opts)"
  let ?b = "\<lparr>batch_Pattern = pattern, batch_Keys = take ?n keys, batch_Matched = length (take ?n keys),
      batch_Deleted = int (length (take ?n keys)), batch_DryRun = DryRun opts\<rparr>"
  from 3(2) [of "deleted + int (length (take ?n keys))" "reported @ [?b]"] obtain batches where
    IH: "delete_page ops pattern opts (drop ?n keys) (deleted + int (length (take ?n keys))) (reported @ [?b]) s =
      ((None, deleted + int (length (take ?n keys)) + int (length (drop ?n keys)), (reported @ [?b]) @ batches), s)"
      "concat (map batch_Keys batches) = drop ?n keys"
      "list_all (\<lambda>b. 0 < batch_Deleted b \<and> batch_Deleted b \<le> BatchSize opts \<and> batch_Deleted b = int (length (batch_Keys b))) batches"
    by blast
  have "int (length (take ?n keys)) + int (length (drop ?n keys)) = int (length keys)" by simp
  with IH(1) have "delete_page ops pattern opts keys deleted reported s =
      ((None, deleted + int (length keys), reported @ ?b # batches), s)"
    using 3(1) assms by (subst delete_page.simps) (simp add: deleteBatch_def Let_def add.assoc)
  moreover have "concat (map batch_Keys (?b # batches)) = keys" using IH(2) by simp
  ultimately show ?case using IH(3) 3(1) assms(3) by (intro exI [of _ "?b # batches"]) auto
qed (use assms(3) in simp)

lemma delete_loop_dry:
  assumes "DryRun opts" and "OnBatch opts" and "0 < BatchSize opts"
  shows "serves ops pattern (ScanCount opts) cursor s pages s' \<Longrightarrow>
    \<exists>batches. delete_loop ops pattern opts cursor deleted reported s =
      Some ((None, deleted + int (length (concat pages)), reported @ batches), s')
    \<and> concat (map batch_Keys batches) = concat pages
    \<and> list_all (\<lambda>b. 0 < batch_Deleted b \<and> batch_Deleted b \<le> BatchSize opts \<and> batch_Deleted b = int (length (batch_Keys b))) batches"
proof (induction arbitrary: deleted reported rule: serves.induct)
  case (last_page cursor s page s')
  from delete_page_dry [OF assms, of ops pattern page deleted reported s'] last_page show ?case
    by (subst delete_loop.simps) auto
next
  case (next_page cursor s page nxt s' pages s'')
  from delete_page_dry [OF assms, of ops pattern page deleted reported s'] obtain b1 where
    b1: "delete_page ops pattern opts page deleted reported s' = ((None, deleted + int (length page), reported @ b1), s')"
      "concat (map batch_Keys b1) = page"
      "list_all (\<lambda>b. 0 < batch_Deleted b \<and> batch_Deleted b \<le> BatchSize opts \<and> batch_Deleted b = int (length (batch_Keys b))) b1"
    by blast
  from next_page.IH [of "deleted + int (length page)" "reported @ b1"] obtain b2 where
    b2: "delete_loop ops pattern opts nxt (deleted + int (length page)) (reported @ b1) s' =
        Some ((None, deleted + int (length page) + int (length (concat pages)), (reported @ b1) @ b2), s'')"
      "concat (map batch_Keys b2) = concat pages"
      "list_all (\<lambda>b. 0 < batch_Deleted b \<and> batch_Deleted b \<le> BatchSize opts \<and> batch_Deleted b = int (length (batch_Keys b))) b2"
    by blast
  from next_page.hyps b1 b2 show ?case
    by (subst delete_loop.simps) (auto intro!: exI [of _ "b1 @ b2"] simp: add.assoc)
qed

section \<open>Properties\<close>

text \<open>
  A child key space prefixes a key as the parent prefixes what the child alone makes of it,
  and different keys stay different under a prefix.
\<close>
theorem child_prefixes_compose:
  assumes "ks_inv k"
  shows "Prefix (Child k c) key = Prefix k (Prefix (ks_New c) key)
    \<and> Prefix (Child (Child k c) d) key = Prefix k (Prefix (Child (ks_New c) d) key)
    \<and> inj (Prefix k)"
proof -
  have one: "Prefix (Child j c) x = Prefix j (Prefix (ks_New c) x)" if "ks_inv j" for j c x
    using that by (simp add: Prefix_def Child_namespace ks_New_def Let_def)
  have "Prefix (Child (Child k c) d) key = Prefix k (Prefix (Child (ks_New c) d) key)"
    by (simp add: one assms Child_inv ks_New_inv)
  moreover have "inj (Prefix k)" by (auto simp: inj_def Prefix_def)
  ultimately show ?thesis using one [OF assms] by blast
qed

theorem child_prefixes_compose_witness:
  "Prefix (Child (ks_New '':app:'') ''cache:'') ''k'' = ''app:cache:k''"
  using child_prefixes_compose [OF ks_New_inv, of "'':app:''" "''cache:''" "''k''"]
  by (simp add: Prefix_def ks_New_def NewNamespace_def NormalizeNamespace_def trim_chars_def)

text \<open>
  C18: Deleting by pattern ends without an error once the server has iterated over its keys; it
  removes exactly the keys that match and returns how many there were.
\<close>
theorem DeleteByPattern_removes_matches:
  assumes "deletes_with ops live" and "\<not> DryRun opts" and "finite (live s)"
    and "iterates ops live pattern (ScanCount (normalizeDeleteByPatternOptions opts)) matches cur n slot"
  shows "\<exists>reported s'. DeleteByPattern (Some ops) pattern opts s =
      Some ((None, int (card {k \<in> live s. matches k}), reported), s')
    \<and> live s' = {k \<in> live s. \<not> matches k}"
proof -
  let ?opts = "normalizeDeleteByPatternOptions opts"
  have opts: "\<not> DryRun ?opts" "0 < BatchSize ?opts"
    using assms(2) by (auto simp: normalizeDeleteByPatternOptions_def defaultDeleteBatchSize_def Let_def)
  from assms(4) have "0 < n" "cur 0 = 0" by (auto simp: iterates_def intro: le_less_trans)
  with delete_loop_deletes [OF assms(1) opts assms(4), of 0 s 0 "[]"] assms(3) show ?thesis
    by (simp add: DeleteByPattern_def)
qed

definition sample_scan :: "string set scan_redis" where
  "sample_scan = \<lparr>
     s_SCAN = \<lambda>cursor pattern count s. (Inr (if ''k'' \<in> s then [''k''] else [], 0), s),
     s_UNLINK = \<lambda>timeout batch s. (Inr (int (card (set batch \<inter> s))), s - set batch),
     s_DEL = \<lambda>timeout batch s. (Inr (int (card (set batch \<inter> s))), s - set batch)\<rparr>"

theorem DeleteByPattern_removes_matches_witness:
  "\<exists>reported. DeleteByPattern (Some sample_scan) ''k'' DefaultDeleteByPatternOptions {''k'', ''l''}
    = Some ((None, 1, reported), {''l''})"
proof -
  have "{k \<in> {''k'', ''l''}. k = ''k''} = {''k''}" "{k \<in> {''k'', ''l''}. k \<noteq> ''k''} = {''l''}" by auto
  moreover have "iterates sample_scan id ''k'' c (\<lambda>k. k = ''k'') (\<lambda>_. 0) 1 (\<lambda>_. 0)" for c
    by (auto simp: iterates_def sample_scan_def)
  moreover have "deletes_with sample_scan id" by (auto simp: deletes_with_def sample_scan_def)
  ultimately show ?thesis
    using DeleteByPattern_removes_matches [of sample_scan id DefaultDeleteByPatternOptions "{''k'', ''l''}" "''k''"
        "\<lambda>k. k = ''k''" "\<lambda>_. 0" 1 "\<lambda>_. 0"]
    by (simp add: DefaultDeleteByPatternOptions_def)
qed

text \<open>
  A dry run deletes nothing. It ends when the server's cursor comes back to 0, counts every
  key scanned, and reports them in order, in batches of the configured size.
\<close>
theorem dry_run_only_scans:
  assumes "DryRun opts" and "OnBatch opts"
    and "serves ops pattern (ScanCount (normalizeDeleteByPatternOptions opts)) 0 s pages s'"
  shows "\<exists>batches. DeleteByPattern (Some ops) pattern opts s = Some ((None, int (length (concat pages)), batches), s')
    \<and> concat (map batch_Keys batches) = concat pages
    \<and> list_all (\<lambda>b. int (length (batch_Keys b)) \<le> BatchSize (normalizeDeleteByPatternOptions opts)) batches"
proof -
  let ?opts = "normalizeDeleteByPatternOptions opts"
  have "DryRun ?opts" "OnBatch ?opts" "0 < BatchSize ?opts"
    using assms(1,2) by (auto simp: normalizeDeleteByPatternOptions_def defaultDeleteBatchSize_def Let_def)
  from delete_loop_dry [OF this assms(3), of 0 "[]"] obtain batches where
    run: "delete_loop ops pattern ?opts 0 0 [] s = Some ((None, int (length (concat pages)), batches), s')"
      "concat (map batch_Keys batches) = concat pages"
    and sizes: "\<forall>b \<in> set batches. batch_Deleted b \<le> BatchSize ?opts \<and> batch_Deleted b = int (length (batch_Keys b))"
    by (auto simp: list_all_iff)
  from sizes have "list_all (\<lambda>b. int (length (batch_Keys b)) \<le> BatchSize ?opts) batches"
    unfolding list_all_iff by metis
  with run show ?thesis by (simp add: DeleteByPattern_def)
qed

theorem dry_run_only_scans_witness:
  "\<exists>batches. DeleteByPattern (Some sample_scan) ''k''
      (DefaultDeleteByPatternOptions\<lparr>DryRun := True, OnBatch := True\<rparr>) {''k'', ''l''} = Some ((None, 1, batches), {''k'', ''l''})"
proof -
  have "serves sample_scan ''k'' c 0 {''k'', ''l''} [[''k'']] {''k'', ''l''}" for c
    by (rule last_page) (simp add: sample_scan_def)
  from dry_run_only_scans [OF _ _ this, of "DefaultDeleteByPatternOptions\<lparr>DryRun := True, OnBatch := True\<rparr>"]
  show ?thesis by auto
qed

text \<open>
  A jittered time to live is positive, and it is a second or within the ratio of the one
  given, for every time to live under 146 years.
\<close>
theorem JitterTTL_bounds:
  assumes "0 < ttl" and "ttl < 2 ^ 62" and "0 < ratio"
    and "\<forall>n > 0. 0 \<le> rnd n \<and> rnd n < n"
  shows "\<exists>r. JitterTTL rnd ttl ratio = Some r \<and> 0 < r
    \<and> (r = second \<or> \<bar>of_int (r - ttl)\<bar> \<le> of_int ttl * min 1 ratio)"
proof -
  define q where "q = (if ratio > 1 then 1 else ratio)"
  define mj where "mj = \<lfloor>of_int ttl * q\<rfloor>"
  have unfolded: "JitterTTL rnd ttl ratio =
      (if mj \<le> 0 then Some ttl
       else if wrap64 (wrap64 (mj * 2) + 1) \<le> 0 then None
       else let result = wrap64 (ttl + (rnd (wrap64 (wrap64 (mj * 2) + 1)) - mj)) in
         if result \<le> 0 then Some second else Some result)"
    using assms(1,3) by (simp add: JitterTTL_def Let_def mj_def q_def)
  have q: "0 < q" "q \<le> 1" "q = min 1 ratio" using assms(3) by (auto simp: q_def)
  have mj_le: "of_int mj \<le> of_int ttl * q" unfolding mj_def by (rule of_int_floor_le)
  also have "\<dots> \<le> of_int ttl * 1" using q assms(1) by (intro mult_left_mono) simp_all
  finally have "mj \<le> ttl" by simp
  show ?thesis
  proof (cases "mj \<le> 0")
    case True
    with assms(1,3) show ?thesis by (simp add: unfolded)
  next
    case False
    have "wrap64 (mj * 2) = mj * 2" using False \<open>mj \<le> ttl\<close> assms(2) by (intro wrap64_id) auto
    moreover have "wrap64 (mj * 2 + 1) = mj * 2 + 1" using False \<open>mj \<le> ttl\<close> assms(2) by (intro wrap64_id) auto
    ultimately have "wrap64 (wrap64 (mj * 2) + 1) = mj * 2 + 1" by simp
    moreover have r: "0 \<le> rnd (mj * 2 + 1)" "rnd (mj * 2 + 1) < mj * 2 + 1"
      using assms(4) [rule_format, of "mj * 2 + 1"] False by auto
    moreover have "wrap64 (ttl + (rnd (mj * 2 + 1) - mj)) = ttl + (rnd (mj * 2 + 1) - mj)"
      using r False \<open>mj \<le> ttl\<close> assms(1,2) by (intro wrap64_id) auto
    ultimately have run: "JitterTTL rnd ttl ratio =
        Some (if ttl + (rnd (mj * 2 + 1) - mj) \<le> 0 then second else ttl + (rnd (mj * 2 + 1) - mj))"
      using False by (simp add: unfolded Let_def)
    have "\<bar>rnd (mj * 2 + 1) - mj\<bar> \<le> mj" using r by linarith
    then have "(of_int \<bar>rnd (mj * 2 + 1) - mj\<bar> :: rat) \<le> of_int mj" by (simp only: of_int_le_iff)
    with mj_le have "\<bar>of_int (rnd (mj * 2 + 1) - mj)\<bar> \<le> of_int ttl * min 1 ratio" using q(3) by simp
    with run show ?thesis by (auto simp: second_def)
  qed
qed

theorem JitterTTL_bounds_witness:
  "\<exists>r. JitterTTL (\<lambda>n. n - 1) (10 * second) (1 / 2) = Some r \<and> 0 < r
    \<and> (r = second \<or> \<bar>of_int (r - 10 * second)\<bar> \<le> of_int (10 * second) * min 1 (1 / 2 :: rat))"
  by (rule JitterTTL_bounds) (simp_all add: second_def)

text \<open>
  Of any number of clients that consume a key nobody writes, at most one is told that it
  was there, over whatever failures.
\<close>
theorem consumed_at_most_once:
  assumes "redis_contract ops live" and "sorted (map fst calls)"
  shows "length (filter (\<lambda>r. r = Inr True) (consume_all ops key calls s)) \<le> 1"
  using assms(2)
proof (induction calls arbitrary: s)
  case (Cons c calls)
  obtain now net where c: "c = (now, net)" by force
  obtain r s' where r: "ConsumeIfExists (Some ops) now net key s = (r, s')" by force
  show ?case
  proof (cases "r = Inr True")
    case True
    with r have "s' = snd (r_DEL ops now key s)"
      by (auto simp: ConsumeIfExists_def call_def consumeIfExistsScript_def
          split: outcome.splits redis_err.splits if_splits)
    with Cons.prems c assms(1) have "live s' t key = None" if "t \<in> fst ` set calls" for t
      using that by (auto simp: contract_DEL)
    with consume_gone [OF assms(1)] Cons.prems r c show ?thesis by simp
  next
    case False
    with Cons r c show ?thesis by simp
  qed
qed simp

theorem consumed_at_most_once_witness:
  "length (filter (\<lambda>r. r = Inr True)
      (consume_all sample_redis ''k'' [(1, LostRequest RedisNil), (2, Delivered), (3, Delivered)] [''k'' \<mapsto> (''v'', Some 9)])) \<le> 1"
  by (rule consumed_at_most_once [OF sample_contract]) simp

end
