(* ===== verification/Redis_Runtime.thy ===== *)
theory Redis_Runtime
  imports Go_Prelude
begin

text \<open>
  \<open>pkg/redis/runtime\<close>: named Redis profiles, each with a handle on a connection, how a name is
  resolved to a handle, and how profiles that fail are tried again later.

  Making, pinging and closing a client is the library's: the record \<open>dialer\<close>, an argument, on
  a world \<open>'w\<close>. Ranging over the profiles takes the visiting order, with the two readings of
  the clock a visit may take. Every operation also returns the events for the observer.
\<close>

section \<open>Configurations\<close>

record Config =
  Host :: string
  Port :: int
  Addrs :: "string list"
  Username :: string
  Password :: string
  Database :: int
  MaxIdle :: int
  MaxActive :: int
  Timeout :: int
  MinIdleConns :: int
  PoolTimeout :: int
  DialTimeout :: int
  ReadTimeout :: int
  WriteTimeout :: int
  EnableCluster :: bool
  UseSSL :: bool
  SSLInsecureSkipVerify :: bool

text \<open>Values are copied anyway.\<close>

definition CloneConfig :: "Config option \<Rightarrow> Config option" where
  "CloneConfig cfg = cfg"

definition pick_text :: "'a list \<Rightarrow> 'a list \<Rightarrow> 'a list" where
  "pick_text override base = (if override \<noteq> [] then override else base)"

definition pick_int :: "int \<Rightarrow> int \<Rightarrow> int" where
  "pick_int override base = (if override \<noteq> 0 then override else base)"

definition pick_flag :: "bool \<Rightarrow> bool \<Rightarrow> bool" where
  "pick_flag override base = (if override then True else base)"

definition merge_both :: "Config \<Rightarrow> Config \<Rightarrow> Config" where
  "merge_both base override = \<lparr>
     Host = pick_text (Host override) (Host base),
     Port = pick_int (Port override) (Port base),
     Addrs = pick_text (Addrs override) (Addrs base),
     Username = pick_text (Username override) (Username base),
     Password = pick_text (Password override) (Password base),
     Database = Database override,
     MaxIdle = pick_int (MaxIdle override) (MaxIdle base),
     MaxActive = pick_int (MaxActive override) (MaxActive base),
     Timeout = pick_int (Timeout override) (Timeout base),
     MinIdleConns = pick_int (MinIdleConns override) (MinIdleConns base),
     PoolTimeout = pick_int (PoolTimeout override) (PoolTimeout base),
     DialTimeout = pick_int (DialTimeout override) (DialTimeout base),
     ReadTimeout = pick_int (ReadTimeout override) (ReadTimeout base),
     WriteTimeout = pick_int (WriteTimeout override) (WriteTimeout base),
     EnableCluster = pick_flag (EnableCluster override) (EnableCluster base),
     UseSSL = pick_flag (UseSSL override) (UseSSL base),
     SSLInsecureSkipVerify = pick_flag (SSLInsecureSkipVerify override) (SSLInsecureSkipVerify base)\<rparr>"

definition MergeConfig :: "Config option \<Rightarrow> Config option \<Rightarrow> Config option" where
  "MergeConfig base override =
     (case override of
        None \<Rightarrow> CloneConfig base
      | Some ov \<Rightarrow> (case base of None \<Rightarrow> CloneConfig override | Some b \<Rightarrow> Some (merge_both b ov)))"

definition secondsToDuration :: "int \<Rightarrow> duration" where
  "secondsToDuration seconds = (if seconds \<le> 0 then 0 else wrap64 (seconds * second))"

section \<open>Handles\<close>

record 'c Handle =
  h_profile :: string
  h_config :: "Config option"
  h_client :: "'c option"

definition NewHandle :: "string \<Rightarrow> Config option \<Rightarrow> 'c Handle" where
  "NewHandle profile config = \<lparr>h_profile = profile, h_config = CloneConfig config, h_client = None\<rparr>"

definition handle_Profile :: "'c Handle option \<Rightarrow> string" where
  "handle_Profile h = (case h of None \<Rightarrow> [] | Some x \<Rightarrow> h_profile x)"

definition handle_Config :: "'c Handle option \<Rightarrow> Config option" where
  "handle_Config h = (case h of None \<Rightarrow> None | Some x \<Rightarrow> CloneConfig (h_config x))"

definition handle_Client :: "'c Handle option \<Rightarrow> 'c option" where
  "handle_Client h = (case h of None \<Rightarrow> None | Some x \<Rightarrow> h_client x)"

definition addresses :: "'c Handle option \<Rightarrow> string list" where
  "addresses h =
     (case h of
        None \<Rightarrow> []
      | Some x \<Rightarrow>
          (case h_config x of
             None \<Rightarrow> []
           | Some cfg \<Rightarrow> if Addrs cfg \<noteq> [] then Addrs cfg else [Host cfg @ '':'' @ int_text (Port cfg)]))"

text \<open>The options of a client: of a cluster, or of one server, which has a database number.\<close>

record client_options =
  o_Addrs :: "string list"
  o_Username :: string
  o_Password :: string
  o_DB :: "int option"
  o_PoolSize :: int
  o_MaxIdleConns :: int
  o_MinIdleConns :: int
  o_PoolTimeout :: duration
  o_DialTimeout :: duration
  o_ReadTimeout :: duration
  o_WriteTimeout :: duration
  o_ConnMaxIdleTime :: duration
  o_MaxActiveConns :: int
  o_TLS :: "bool option"

definition client_options_of :: "Config \<Rightarrow> string list \<Rightarrow> client_options" where
  "client_options_of cfg addrs = \<lparr>
     o_Addrs = (if EnableCluster cfg then addrs else [addrs ! 0]),
     o_Username = Username cfg, o_Password = Password cfg,
     o_DB = (if EnableCluster cfg then None else Some (Database cfg)),
     o_PoolSize = MaxActive cfg,
     o_MaxIdleConns = MaxIdle cfg,
     o_MinIdleConns = MinIdleConns cfg,
     o_PoolTimeout = secondsToDuration (PoolTimeout cfg),
     o_DialTimeout = secondsToDuration (DialTimeout cfg),
     o_ReadTimeout = secondsToDuration (ReadTimeout cfg),
     o_WriteTimeout = secondsToDuration (WriteTimeout cfg),
     o_ConnMaxIdleTime = secondsToDuration (Timeout cfg),
     o_MaxActiveConns = MaxActive cfg,
     o_TLS = (if UseSSL cfg then Some (SSLInsecureSkipVerify cfg) else None)\<rparr>"

record ('c, 'w) dialer =
  d_new :: "bool \<Rightarrow> client_options \<Rightarrow> 'w \<Rightarrow> 'c \<times> 'w"
  d_ping :: "'c \<Rightarrow> 'w \<Rightarrow> string option \<times> 'w"
  d_close :: "'c \<Rightarrow> 'w \<Rightarrow> string option \<times> 'w"

definition h_Connect ::
    "('c, 'w) dialer \<Rightarrow> 'c Handle option \<Rightarrow> 'w \<Rightarrow> (string option \<times> 'c Handle option) \<times> 'w" where
  "h_Connect net h w =
     (case h of
        None \<Rightarrow> ((Some ''redis handle is nil'', None), w)
      | Some x \<Rightarrow>
          (case h_config x of
             None \<Rightarrow> ((Some ''redis config is nil'', h), w)
           | Some cfg \<Rightarrow>
               (case d_new net (EnableCluster cfg) (client_options_of cfg (addresses h)) w of
                  (client, w1) \<Rightarrow>
                    (case d_ping net client w1 of
                       (Some err, w2) \<Rightarrow> ((Some (''failed to connect to Redis: '' @ err), h), w2)
                     | (None, w2) \<Rightarrow> ((None, Some (x\<lparr>h_client := Some client\<rparr>)), w2)))))"

definition h_Close :: "('c, 'w) dialer \<Rightarrow> 'c Handle option \<Rightarrow> 'w \<Rightarrow> string option \<times> 'w" where
  "h_Close net h w = (case handle_Client h of None \<Rightarrow> (None, w) | Some client \<Rightarrow> d_close net client w)"

definition h_HealthCheck :: "('c, 'w) dialer \<Rightarrow> 'c Handle option \<Rightarrow> 'w \<Rightarrow> string option \<times> 'w" where
  "h_HealthCheck net h w =
     (case h of
        None \<Rightarrow> (Some ''redis handle is nil'', w)
      | Some x \<Rightarrow>
          (case h_client x of
             None \<Rightarrow> (Some ''redis client is nil'', w)
           | Some client \<Rightarrow>
               (case d_ping net client w of
                  (Some err, w') \<Rightarrow> (Some (''failed to ping Redis: '' @ err), w')
                | (None, w') \<Rightarrow> (None, w'))))"

section \<open>Profiles\<close>

datatype ProfileState = ProfileMissing | ProfileAvailable | ProfileUnavailable

record ProfileStatus =
  st_Name :: string
  st_State :: ProfileState
  st_Err :: "string option"
  st_NextRetryAt :: instant

record RedisProfile =
  rp_Name :: string
  rp_Config :: Config
  rp_Status :: ProfileStatus

record ProfileEvent =
  pe_Profile :: string
  pe_State :: ProfileState
  pe_Err :: "string option"
  pe_NextRetryAt :: instant

record 'c namedProfile =
  np_handle :: "'c Handle"
  np_lastErr :: "string option"
  np_nextRetryAt :: instant
  np_retryDelay :: duration

definition profileInitialRetryDelay :: duration where "profileInitialRetryDelay = 30 * second"
definition profileMaxRetryDelay :: duration where "profileMaxRetryDelay = 5 * minute"

definition markAvailable :: "'c namedProfile \<Rightarrow> 'c namedProfile \<times> ProfileEvent" where
  "markAvailable p =
     (p\<lparr>np_lastErr := None, np_nextRetryAt := 0, np_retryDelay := 0\<rparr>,
      \<lparr>pe_Profile = h_profile (np_handle p), pe_State = ProfileAvailable, pe_Err = None, pe_NextRetryAt = 0\<rparr>)"

definition markUnavailable :: "instant \<Rightarrow> string \<Rightarrow> 'c namedProfile \<Rightarrow> 'c namedProfile \<times> ProfileEvent" where
  "markUnavailable now err p =
     (let delay = (if np_retryDelay p \<le> 0 then profileInitialRetryDelay
                   else let d = np_retryDelay p * 2
                        in if d > profileMaxRetryDelay then profileMaxRetryDelay else d);
          next_at = now + delay
      in (p\<lparr>np_lastErr := Some err, np_nextRetryAt := next_at, np_retryDelay := delay\<rparr>,
          \<lparr>pe_Profile = h_profile (np_handle p), pe_State = ProfileUnavailable, pe_Err = Some err,
           pe_NextRetryAt = next_at\<rparr>))"

definition retryDue :: "instant \<Rightarrow> 'c namedProfile \<Rightarrow> bool" where
  "retryDue now p =
     (if np_lastErr p = None then False
      else if is_zero_time (np_nextRetryAt p) then True
      else \<not> now < np_nextRetryAt p)"

definition reconnect :: "('c, 'w) dialer \<Rightarrow> 'c namedProfile \<Rightarrow> 'w \<Rightarrow> (string option \<times> 'c namedProfile) \<times> 'w" where
  "reconnect net p w =
     (case h_Close net (Some (np_handle p)) w of
        (_, w1) \<Rightarrow>
          (case h_Connect net (Some (np_handle p)) w1 of
             ((err, h), w2) \<Rightarrow> ((err, p\<lparr>np_handle := the h\<rparr>), w2)))"

section \<open>The registry\<close>

record 'c Registry =
  r_default :: "'c Handle option"
  r_profiles :: "string \<rightharpoonup> 'c namedProfile"
  r_fallbackOnMissing :: bool

definition new_profile :: "Config option \<Rightarrow> string \<Rightarrow> Config \<Rightarrow> 'c namedProfile" where
  "new_profile defaultConfig name cfg = \<lparr>np_handle = NewHandle name (MergeConfig defaultConfig (Some cfg)),
     np_lastErr = None, np_nextRetryAt = 0, np_retryDelay = 0\<rparr>"

definition rt_New :: "Config option \<Rightarrow> (string \<rightharpoonup> Config option) \<Rightarrow> bool \<Rightarrow> 'c Registry" where
  "rt_New defaultConfig profiles fallback = \<lparr>
     r_default = (case defaultConfig of None \<Rightarrow> None | Some cfg \<Rightarrow> Some (NewHandle [] (Some cfg))),
     r_profiles = (\<lambda>name. case profiles name of
         Some (Some cfg) \<Rightarrow> if name = [] then None else Some (new_profile defaultConfig name cfg)
       | _ \<Rightarrow> None),
     r_fallbackOnMissing = fallback\<rparr>"

text \<open>\<open>names\<close> lists the configured profiles.\<close>

definition HasConnections :: "string list \<Rightarrow> 'c Registry option \<Rightarrow> bool" where
  "HasConnections names r = (case r of None \<Rightarrow> False | Some x \<Rightarrow> r_default x \<noteq> None \<or> 0 < length names)"

text \<open>A loop over the profiles: each visit may change the profile it is at.\<close>

fun visit_profiles ::
    "(string \<Rightarrow> 'a \<Rightarrow> 'c namedProfile \<Rightarrow> 'w \<Rightarrow> 'c namedProfile \<times> ProfileEvent list \<times> 'w)
     \<Rightarrow> (string \<times> 'a) list \<Rightarrow> 'c Registry \<Rightarrow> 'w \<Rightarrow> 'c Registry \<times> ProfileEvent list \<times> 'w" where
  "visit_profiles visit [] r w = (r, [], w)"
| "visit_profiles visit ((name, x) # visits) r w =
     (case r_profiles r name of
        None \<Rightarrow> visit_profiles visit visits r w
      | Some p \<Rightarrow>
          (case visit name x p w of
             (p', evs, w1) \<Rightarrow>
               (case visit_profiles visit visits (r\<lparr>r_profiles := (r_profiles r)(name \<mapsto> p')\<rparr>) w1 of
                  (r', evs', w') \<Rightarrow> (r', evs @ evs', w'))))"

definition connect_profile ::
    "('c, 'w) dialer \<Rightarrow> string \<Rightarrow> instant \<Rightarrow> 'c namedProfile \<Rightarrow> 'w \<Rightarrow> 'c namedProfile \<times> ProfileEvent list \<times> 'w" where
  "connect_profile net name now p w =
     (case h_Connect net (Some (np_handle p)) w of
        ((Some err, h), w1) \<Rightarrow>
          (case markUnavailable now (''connect redis profile '' @ quote name @ '': '' @ err) (p\<lparr>np_handle := the h\<rparr>) of
             (p', ev) \<Rightarrow> (p', [ev], w1))
      | ((None, h), w1) \<Rightarrow> (case markAvailable (p\<lparr>np_handle := the h\<rparr>) of (p', ev) \<Rightarrow> (p', [ev], w1)))"

definition rt_Connect ::
    "('c, 'w) dialer \<Rightarrow> (string \<times> instant) list \<Rightarrow> 'c Registry option \<Rightarrow> 'w
     \<Rightarrow> (string option \<times> 'c Registry option \<times> ProfileEvent list) \<times> 'w" where
  "rt_Connect net visits reg w =
     (case reg of
        None \<Rightarrow> ((None, None, []), w)
      | Some r \<Rightarrow>
          (case r_default r of
             None \<Rightarrow> (case visit_profiles (connect_profile net) visits r w of (r', evs, w') \<Rightarrow> ((None, Some r', evs), w'))
           | Some h \<Rightarrow>
               (case h_Connect net (Some h) w of
                  ((Some err, h'), w1) \<Rightarrow> ((Some (''connect default redis: '' @ err), Some (r\<lparr>r_default := h'\<rparr>), []), w1)
                | ((None, h'), w1) \<Rightarrow>
                    (case visit_profiles (connect_profile net) visits (r\<lparr>r_default := h'\<rparr>) w1 of
                       (r', evs, w') \<Rightarrow> ((None, Some r', evs), w')))))"

fun close_profiles ::
    "('c, 'w) dialer \<Rightarrow> string list \<Rightarrow> 'c Registry \<Rightarrow> string option \<Rightarrow> 'w \<Rightarrow> string option \<times> 'w" where
  "close_profiles net [] r lastErr w = (lastErr, w)"
| "close_profiles net (name # names) r lastErr w =
     (case r_profiles r name of
        None \<Rightarrow> close_profiles net names r lastErr w
      | Some p \<Rightarrow>
          (case h_Close net (Some (np_handle p)) w of
             (Some err, w') \<Rightarrow> close_profiles net names r (Some (''close redis profile '' @ quote name @ '': '' @ err)) w'
           | (None, w') \<Rightarrow> close_profiles net names r lastErr w'))"

definition rt_Close :: "('c, 'w) dialer \<Rightarrow> string list \<Rightarrow> 'c Registry option \<Rightarrow> 'w \<Rightarrow> string option \<times> 'w" where
  "rt_Close net names reg w =
     (case reg of
        None \<Rightarrow> (None, w)
      | Some r \<Rightarrow>
          (case (case r_default r of None \<Rightarrow> (None, w) | Some h \<Rightarrow> h_Close net (Some h) w) of
             (err, w1) \<Rightarrow> close_profiles net names r (map_option (\<lambda>e. ''close default redis: '' @ e) err) w1))"

text \<open>What a health check does with one profile; the second clock is that of \<open>markUnavailable\<close>.\<close>

definition check_profile ::
    "('c, 'w) dialer \<Rightarrow> string \<Rightarrow> instant \<times> instant \<Rightarrow> 'c namedProfile \<Rightarrow> 'w
     \<Rightarrow> 'c namedProfile \<times> ProfileEvent list \<times> 'w" where
  "check_profile net name clocks p w =
     (case clocks of (now, now') \<Rightarrow>
      if np_lastErr p \<noteq> None then
        if \<not> retryDue now p then (p, [], w)
        else
          (case reconnect net p w of
             ((Some err, p1), w1) \<Rightarrow>
               (case markUnavailable now' (''reconnect redis profile '' @ quote name @ '': '' @ err) p1 of
                  (p2, ev) \<Rightarrow> (p2, [ev], w1))
           | ((None, p1), w1) \<Rightarrow> (case markAvailable p1 of (p2, ev) \<Rightarrow> (p2, [ev], w1)))
      else
        (case h_HealthCheck net (Some (np_handle p)) w of
           (Some err, w1) \<Rightarrow>
             (case markUnavailable now' (''health check redis profile '' @ quote name @ '': '' @ err) p of
                (p2, ev) \<Rightarrow> (p2, [ev], w1))
         | (None, w1) \<Rightarrow> (p, [], w1)))"

definition rt_HealthCheck ::
    "('c, 'w) dialer \<Rightarrow> (string \<times> instant \<times> instant) list \<Rightarrow> 'c Registry option \<Rightarrow> 'w
     \<Rightarrow> (string option \<times> 'c Registry option \<times> ProfileEvent list) \<times> 'w" where
  "rt_HealthCheck net visits reg w =
     (case reg of
        None \<Rightarrow> ((None, None, []), w)
      | Some r \<Rightarrow>
          (case (case r_default r of None \<Rightarrow> (None, w) | Some h \<Rightarrow> h_HealthCheck net (Some h) w) of
             (Some err, w1) \<Rightarrow> ((Some (''health check default redis: '' @ err), reg, []), w1)
           | (None, w1) \<Rightarrow>
               (case visit_profiles (check_profile net) visits r w1 of (r', evs, w') \<Rightarrow> ((None, Some r', evs), w'))))"

section \<open>Resolving names\<close>

definition Default :: "'c Registry option \<Rightarrow> string + 'c Handle" where
  "Default reg =
     (case reg of
        None \<Rightarrow> Inl ''redis runtime is nil''
      | Some r \<Rightarrow> (case r_default r of None \<Rightarrow> Inl ''default redis profile is not configured'' | Some h \<Rightarrow> Inr h))"

definition ByProfile :: "'c Registry option \<Rightarrow> string \<Rightarrow> string + 'c Handle" where
  "ByProfile reg name =
     (case reg of
        None \<Rightarrow> Inl ''redis runtime is nil''
      | Some r \<Rightarrow>
          if name = [] then Default reg
          else
            (case r_profiles r name of
               None \<Rightarrow> Inl (''redis profile '' @ quote name @ '' not found'')
             | Some p \<Rightarrow>
                 (case np_lastErr p of
                    Some err \<Rightarrow> Inl (''redis profile '' @ quote name @ '' is unavailable: '' @ err)
                  | None \<Rightarrow> Inr (np_handle p))))"

definition rt_Status :: "'c Registry option \<Rightarrow> string \<Rightarrow> ProfileStatus" where
  "rt_Status reg name =
     (let missing = \<lparr>st_Name = name, st_State = ProfileMissing, st_Err = None, st_NextRetryAt = 0\<rparr>
      in case reg of
           None \<Rightarrow> missing
         | Some r \<Rightarrow>
             if name = [] then missing
             else
               (case r_profiles r name of
                  None \<Rightarrow> missing
                | Some p \<Rightarrow>
                    (case np_lastErr p of
                       Some err \<Rightarrow> \<lparr>st_Name = name, st_State = ProfileUnavailable, st_Err = Some err,
                           st_NextRetryAt = np_nextRetryAt p\<rparr>
                     | None \<Rightarrow> \<lparr>st_Name = name, st_State = ProfileAvailable, st_Err = None, st_NextRetryAt = 0\<rparr>)))"

definition Bind :: "'c Registry option \<Rightarrow> string \<Rightarrow> string + 'c Handle" where
  "Bind reg name =
     (case reg of
        None \<Rightarrow> Inl ''redis runtime is nil''
      | Some r \<Rightarrow>
          if name = [] then Default reg
          else
            (case ByProfile reg name of
               Inr h \<Rightarrow> Inr h
             | Inl err \<Rightarrow>
                 if st_State (rt_Status reg name) = ProfileMissing \<and> r_fallbackOnMissing r then Default reg
                 else Inl err))"

definition Client :: "'c Registry option \<Rightarrow> string \<Rightarrow> string + 'c" where
  "Client reg name =
     (case Bind reg name of
        Inl err \<Rightarrow> Inl err
      | Inr h \<Rightarrow>
          (case h_client h of
             None \<Rightarrow> Inl (''redis client for profile '' @ quote name @ '' is unavailable'')
           | Some c \<Rightarrow> Inr c))"

definition Statuses :: "'c Registry option \<Rightarrow> string list \<Rightarrow> (string \<rightharpoonup> ProfileStatus) option" where
  "Statuses reg names =
     (case reg of None \<Rightarrow> None | Some r \<Rightarrow> Some (map_of (map (\<lambda>name. (name, rt_Status reg name)) names)))"

definition Profiles :: "'c Registry option \<Rightarrow> string list \<Rightarrow> RedisProfile list" where
  "Profiles reg names =
     (case reg of
        None \<Rightarrow> []
      | Some r \<Rightarrow>
          concat (map (\<lambda>name. case r_profiles r name of
              None \<Rightarrow> []
            | Some p \<Rightarrow>
                [\<lparr>rp_Name = name, rp_Config = the (handle_Config (Some (np_handle p))),
                  rp_Status = (case np_lastErr p of
                      None \<Rightarrow> \<lparr>st_Name = name, st_State = ProfileAvailable, st_Err = None, st_NextRetryAt = 0\<rparr>
                    | Some err \<Rightarrow> \<lparr>st_Name = name, st_State = ProfileUnavailable, st_Err = Some err,
                        st_NextRetryAt = np_nextRetryAt p\<rparr>)\<rparr>]) names))"

section \<open>Lemmas\<close>

text \<open>A profile is either well, or waits between half a minute and five for its next try.\<close>

definition profile_inv :: "'c namedProfile \<Rightarrow> bool" where
  "profile_inv p \<longleftrightarrow> h_config (np_handle p) \<noteq> None \<and>
     (case np_lastErr p of
        None \<Rightarrow> np_nextRetryAt p = 0 \<and> np_retryDelay p = 0
      | Some err \<Rightarrow> profileInitialRetryDelay \<le> np_retryDelay p \<and> np_retryDelay p \<le> profileMaxRetryDelay)"

definition registry_inv :: "'c Registry \<Rightarrow> bool" where
  "registry_inv r \<longleftrightarrow>
     (\<forall>name p. r_profiles r name = Some p \<longrightarrow> name \<noteq> [] \<and> profile_inv p \<and> h_profile (np_handle p) = name)"

lemmas delay_defs = profileInitialRetryDelay_def profileMaxRetryDelay_def second_def minute_def

lemma registry_invD: "registry_inv r \<Longrightarrow> r_profiles r name = Some p \<Longrightarrow> profile_inv p \<and> h_profile (np_handle p) = name \<and> name \<noteq> []"
  by (simp add: registry_inv_def)

lemma registry_inv_put [go_inv]:
  "registry_inv r \<Longrightarrow> name \<noteq> [] \<Longrightarrow> profile_inv p \<Longrightarrow> h_profile (np_handle p) = name
     \<Longrightarrow> registry_inv (r\<lparr>r_profiles := (r_profiles r)(name \<mapsto> p)\<rparr>)"
  by (simp add: registry_inv_def)

lemma h_Connect_handle:
  "h_Connect net (Some x) w = ((err, h), w') \<Longrightarrow>
     \<exists>y. h = Some y \<and> h_profile y = h_profile x \<and> h_config y = h_config x \<and> (err = None \<longrightarrow> h_client y \<noteq> None)
       \<and> (err \<noteq> None \<longrightarrow> y = x)"
  by (auto simp: h_Connect_def split: option.splits prod.splits)

lemma mark_inv:
  "h_config (np_handle p) \<noteq> None \<Longrightarrow> profile_inv (fst (markAvailable p))"
  "h_config (np_handle p) \<noteq> None \<Longrightarrow> np_retryDelay p \<le> profileMaxRetryDelay \<Longrightarrow>
     np_retryDelay p \<le> 0 \<or> profileInitialRetryDelay \<le> np_retryDelay p \<Longrightarrow> profile_inv (fst (markUnavailable now err p))"
  by (auto simp: profile_inv_def markAvailable_def markUnavailable_def delay_defs Let_def)

lemma mark_handle [simp]:
  "np_handle (fst (markAvailable p)) = np_handle p" "np_handle (fst (markUnavailable now err p)) = np_handle p"
  by (simp_all add: markAvailable_def markUnavailable_def Let_def)

lemma profile_inv_delay: "profile_inv p \<Longrightarrow> np_retryDelay p \<le> profileMaxRetryDelay \<and>
    (np_retryDelay p \<le> 0 \<or> profileInitialRetryDelay \<le> np_retryDelay p)"
  by (auto simp: profile_inv_def delay_defs split: option.splits)

lemma settle_inv:
  assumes "profile_inv p" and "h_config h = h_config (np_handle p)"
  shows "profile_inv (fst (markAvailable (p\<lparr>np_handle := h\<rparr>)))"
    and "profile_inv (fst (markUnavailable now err (p\<lparr>np_handle := h\<rparr>)))"
proof -
  have "h_config h \<noteq> None" using assms by (simp add: profile_inv_def)
  with mark_inv [of "p\<lparr>np_handle := h\<rparr>"] profile_inv_delay [OF assms(1)]
  show "profile_inv (fst (markAvailable (p\<lparr>np_handle := h\<rparr>)))"
    "profile_inv (fst (markUnavailable now err (p\<lparr>np_handle := h\<rparr>)))" by simp_all
qed

text \<open>What holds of every profile and is kept by each visit, holds afterwards; a visit's own effect too.\<close>

lemma visit_profiles_all:
  assumes step: "\<And>name x p w p' evs w'. P name p \<Longrightarrow> visit name x p w = (p', evs, w') \<Longrightarrow> P name p' \<and> Q name p'"
  shows "(\<And>name p. r_profiles r name = Some p \<Longrightarrow> P name p) \<Longrightarrow> visit_profiles visit visits r w = (r', evs, w') \<Longrightarrow>
    r_default r' = r_default r \<and> dom (r_profiles r') = dom (r_profiles r)
    \<and> (\<forall>name p. r_profiles r' name = Some p \<longrightarrow> P name p
         \<and> (Q name p \<or> name \<notin> fst ` set visits \<and> r_profiles r name = Some p))"
proof (induction visits arbitrary: r w evs)
  case (Cons v visits)
  obtain name x where v: "v = (name, x)" by force
  show ?case
  proof (cases "r_profiles r name")
    case None
    then have rest: "visit_profiles visit visits r w = (r', evs, w')" using Cons.prems(2) v by simp
    from Cons.IH [OF Cons.prems(1) rest] v None show ?thesis by auto
  next
    case (Some p)
    obtain p' evs1 w1 where visit: "visit name x p w = (p', evs1, w1)" by (metis prod.exhaust)
    let ?r = "r\<lparr>r_profiles := (r_profiles r)(name \<mapsto> p')\<rparr>"
    obtain evs2 where rest: "visit_profiles visit visits ?r w1 = (r', evs2, w')"
      using Cons.prems(2) v Some visit by (auto split: prod.splits)
    from step [OF Cons.prems(1) [OF Some] visit] have PQ: "P name p'" "Q name p'" by auto
    with Cons.prems(1) have "P n q" if "r_profiles ?r n = Some q" for n q
      using that by (auto split: if_splits)
    from Cons.IH [OF this rest] Some PQ v show ?thesis by (auto split: if_splits)
  qed
qed auto

definition named_inv :: "string \<Rightarrow> 'c namedProfile \<Rightarrow> bool" where
  "named_inv name p \<longleftrightarrow> name \<noteq> [] \<and> profile_inv p \<and> h_profile (np_handle p) = name"

lemma registry_inv_iff: "registry_inv r \<longleftrightarrow> (\<forall>name p. r_profiles r name = Some p \<longrightarrow> named_inv name p)"
  by (auto simp: registry_inv_def named_inv_def)

lemma connect_profile_step:
  assumes "named_inv name p" and "connect_profile net name now p w = (p', evs, w')"
  shows "named_inv name p' \<and> (np_lastErr p' = None \<longrightarrow> h_client (np_handle p') \<noteq> None)"
proof -
  obtain err h w1 where h: "h_Connect net (Some (np_handle p)) w = ((err, h), w1)" by (metis prod.exhaust)
  from h_Connect_handle [OF h] obtain y where y: "h = Some y" "h_profile y = h_profile (np_handle p)"
    "h_config y = h_config (np_handle p)" "err = None \<Longrightarrow> h_client y \<noteq> None" by blast
  from assms(1) have inv: "profile_inv p" by (simp add: named_inv_def)
  show ?thesis
  proof (cases err)
    case None
    with assms(2) h y have "p' = fst (markAvailable (p\<lparr>np_handle := y\<rparr>))"
      by (auto simp: connect_profile_def split: prod.splits)
    with assms(1) settle_inv(1) [OF inv y(3)] y None show ?thesis by (simp add: named_inv_def)
  next
    case (Some e)
    with assms(2) h y obtain msg where "p' = fst (markUnavailable now msg (p\<lparr>np_handle := y\<rparr>))"
      by (auto simp: connect_profile_def split: prod.splits) (metis fst_conv)
    with assms(1) settle_inv(2) [OF inv y(3)] y Some show ?thesis
      by (simp add: named_inv_def) (simp add: markUnavailable_def Let_def)
  qed
qed

lemma check_profile_step:
  assumes "named_inv name p" and "check_profile net name clocks p w = (p', evs, w')"
  shows "named_inv name p' \<and> (h_client (np_handle p) \<noteq> None \<or> np_lastErr p \<noteq> None \<longrightarrow>
      np_lastErr p' = None \<longrightarrow> h_client (np_handle p') \<noteq> None)"
proof -
  obtain now now' where c: "clocks = (now, now')" by force
  obtain err1 w1 where close: "h_Close net (Some (np_handle p)) w = (err1, w1)" by force
  obtain err h w2 where connect: "h_Connect net (Some (np_handle p)) w1 = ((err, h), w2)" by (metis prod.exhaust)
  from h_Connect_handle [OF connect] obtain y where y: "h = Some y" "h_profile y = h_profile (np_handle p)"
    "h_config y = h_config (np_handle p)" "err = None \<Longrightarrow> h_client y \<noteq> None" by blast
  have rec: "reconnect net p w = ((err, p\<lparr>np_handle := y\<rparr>), w2)"
    by (simp add: reconnect_def close connect y)
  from assms(1) have inv: "profile_inv p" by (simp add: named_inv_def)
  note settle = settle_inv [OF inv y(3)] settle_inv(2) [OF inv refl]
  from assms(2) consider "p' = p"
    | n e where "p' = fst (markUnavailable n e (p\<lparr>np_handle := y\<rparr>))"
    | "p' = fst (markAvailable (p\<lparr>np_handle := y\<rparr>))" "err = None"
    | n e where "p' = fst (markUnavailable n e (p\<lparr>np_handle := np_handle p\<rparr>))"
    unfolding check_profile_def c rec
    by (auto split: if_splits option.splits prod.splits) (metis fst_conv)+
  then show ?thesis
  proof cases
    case 1
    with assms(1) show ?thesis by (auto dest: sym)
  next
    case 2
    with assms(1) settle y show ?thesis by (simp add: named_inv_def) (simp add: markUnavailable_def Let_def)
  next
    case 3
    with assms(1) settle y show ?thesis by (simp add: named_inv_def)
  next
    case 4
    with assms(1) settle y show ?thesis by (simp add: named_inv_def) (simp add: markUnavailable_def Let_def)
  qed
qed

section \<open>Properties\<close>

lemma pick_assoc:
  "pick_text c (pick_text b a) = pick_text (pick_text c b) a"
  "pick_int j (pick_int i h) = pick_int (pick_int j i) h"
  "pick_flag r (pick_flag q p) = pick_flag (pick_flag r q) p"
  by (simp_all add: pick_text_def pick_int_def pick_flag_def)

lemma merge_both_assoc: "merge_both (merge_both a b) c = merge_both a (merge_both b c)"
  by (simp add: merge_both_def pick_assoc)

text \<open>
  Merging configurations is associative, so a chain of overrides can be folded either way;
  an override decides the database and can only switch flags on.
\<close>
theorem MergeConfig_associative:
  "MergeConfig (MergeConfig a b) c = MergeConfig a (MergeConfig b c)
   \<and> Database (merge_both x y) = Database y
   \<and> UseSSL (merge_both x y) = (UseSSL x \<or> UseSSL y)"
  by (cases a; cases b; cases c)
    (simp_all add: MergeConfig_def CloneConfig_def merge_both_assoc, simp_all add: merge_both_def pick_flag_def)

text \<open>
  A host of its own does not move a named profile, when the default profile lists addresses:
  the merged configuration still has them, and they win.
\<close>
theorem default_addresses_win:
  assumes "Addrs base \<noteq> []" and "Addrs override = []"
  shows "addresses (Some (NewHandle name (MergeConfig (Some base) (Some override)))) = Addrs base"
  using assms by (simp add: addresses_def NewHandle_def MergeConfig_def CloneConfig_def merge_both_def pick_text_def)

definition sample_config :: Config where
  "sample_config = \<lparr>Host = [], Port = 0, Addrs = [], Username = [], Password = [], Database = 0, MaxIdle = 0,
     MaxActive = 0, Timeout = 0, MinIdleConns = 0, PoolTimeout = 0, DialTimeout = 0, ReadTimeout = 0,
     WriteTimeout = 0, EnableCluster = False, UseSSL = False, SSLInsecureSkipVerify = False\<rparr>"

theorem default_addresses_win_witness:
  "addresses (Some (NewHandle ''queue'' (MergeConfig (Some (sample_config\<lparr>Addrs := [''a:1'']\<rparr>))
      (Some (sample_config\<lparr>Host := ''b'', Port := 2\<rparr>))))) = [''a:1'']"
  using default_addresses_win [of "sample_config\<lparr>Addrs := [''a:1'']\<rparr>" "sample_config\<lparr>Host := ''b'', Port := 2\<rparr>" "''queue''"]
  by (simp add: sample_config_def)

text \<open>What callers do with a registry; closing it changes no profile.\<close>

inductive rt_reach :: "('c, 'w) dialer \<Rightarrow> 'c Registry \<Rightarrow> 'c Registry \<Rightarrow> bool" for net r0 where
  start: "rt_reach net r0 r0"
| connects: "rt_reach net r0 r \<Longrightarrow> rt_Connect net visits (Some r) w = ((err, Some r', evs), w') \<Longrightarrow> rt_reach net r0 r'"
| checks: "rt_reach net r0 r \<Longrightarrow> rt_HealthCheck net hvisits (Some r) w = ((err, Some r', evs), w') \<Longrightarrow> rt_reach net r0 r'"

lemma Connect_cases:
  assumes "rt_Connect net visits (Some r) w = ((err, Some r', evs), w')"
  shows "r_profiles r' = r_profiles r \<and> err \<noteq> None
    \<or> (\<exists>r1 w1. r_profiles r1 = r_profiles r \<and> visit_profiles (connect_profile net) visits r1 w1 = (r', evs, w') \<and> err = None)"
  using assms
  by (auto simp: rt_Connect_def split: option.splits prod.splits) (metis Registry.select_convs(2) Registry.surjective Registry.update_convs(1))+

lemma HealthCheck_cases:
  assumes "rt_HealthCheck net hvisits (Some r) w = ((err, Some r', evs), w')"
  shows "r' = r \<or> (\<exists>w1. visit_profiles (check_profile net) hvisits r w1 = (r', evs, w'))"
  using assms by (auto simp: rt_HealthCheck_def split: option.splits prod.splits)

lemma rt_New_inv: "registry_inv (rt_New defaultConfig profiles fallback)"
  by (auto simp: registry_inv_def rt_New_def new_profile_def profile_inv_def NewHandle_def CloneConfig_def
      MergeConfig_def split: option.splits if_splits)

lemma connect_keeps:
  assumes "registry_inv r" and "visit_profiles (connect_profile net) visits r w = (r', evs, w')"
  shows "registry_inv r' \<and> dom (r_profiles r') = dom (r_profiles r)
    \<and> (\<forall>name p. r_profiles r' name = Some p \<longrightarrow> name \<in> fst ` set visits \<longrightarrow> np_lastErr p = None \<longrightarrow> h_client (np_handle p) \<noteq> None)"
proof -
  let ?Q = "\<lambda>name p. np_lastErr p = None \<longrightarrow> h_client (np_handle p) \<noteq> None"
  have "r_default r' = r_default r \<and> dom (r_profiles r') = dom (r_profiles r)
    \<and> (\<forall>name p. r_profiles r' name = Some p \<longrightarrow> named_inv name p
         \<and> (?Q name p \<or> name \<notin> fst ` set visits \<and> r_profiles r name = Some p))"
  proof (rule visit_profiles_all [where P = named_inv and visit = "connect_profile net"])
    show "named_inv name p' \<and> ?Q name p'" if "named_inv name p" "connect_profile net name x p w = (p', evs, w')"
      for name x p w p' evs w'
      using that by (rule connect_profile_step)
    show "named_inv name p" if "r_profiles r name = Some p" for name p
      using that assms(1) by (simp add: registry_inv_iff)
  qed (rule assms(2))
  then show ?thesis unfolding registry_inv_iff by blast
qed

lemma check_keeps:
  assumes "registry_inv r" and "visit_profiles (check_profile net) visits r w = (r', evs, w')"
  shows "registry_inv r' \<and> dom (r_profiles r') = dom (r_profiles r)"
proof -
  have "r_default r' = r_default r \<and> dom (r_profiles r') = dom (r_profiles r)
    \<and> (\<forall>name p. r_profiles r' name = Some p \<longrightarrow> named_inv name p
         \<and> (True \<or> name \<notin> fst ` set visits \<and> r_profiles r name = Some p))"
  proof (rule visit_profiles_all [where P = named_inv and visit = "check_profile net"])
    show "named_inv name p' \<and> True" if "named_inv name p" "check_profile net name x p w = (p', evs, w')"
      for name x p w p' evs w'
      using check_profile_step [OF that] by blast
    show "named_inv name p" if "r_profiles r name = Some p" for name p
      using that assms(1) by (simp add: registry_inv_iff)
  qed (rule assms(2))
  then show ?thesis unfolding registry_inv_iff by blast
qed


text \<open>A network on which nothing can be reached.\<close>

definition dead_net :: "(unit, nat) dialer" where
  "dead_net = \<lparr>d_new = \<lambda>_ _ w. ((), w), d_ping = \<lambda>_ w. (Some ''refused'', Suc w), d_close = \<lambda>_ w. (None, w)\<rparr>"

definition queue_registry :: "unit Registry" where
  "queue_registry = rt_New (Some sample_config) [''queue'' \<mapsto> Some sample_config] True"


text \<open>
  After a Connect without an error that visits every profile, a name resolves to a live
  client or to an error: no profile that is reported available lacks its client.
\<close>
theorem connected_profiles_have_clients:
  assumes "registry_inv r" and "rt_Connect net visits (Some r) w = ((None, Some r', evs), w')"
    and "dom (r_profiles r) \<subseteq> fst ` set visits" and "st_State (rt_Status (Some r') name) = ProfileAvailable"
  shows "\<exists>h c. ByProfile (Some r') name = Inr h \<and> h_client h = Some c \<and> Client (Some r') name = Inr c"
proof -
  from Connect_cases [OF assms(2)] obtain r1 w1 where r1: "r_profiles r1 = r_profiles r"
    "visit_profiles (connect_profile net) visits r1 w1 = (r', evs, w')" by blast
  with assms(1) have "registry_inv r1" by (simp add: registry_inv_def)
  note keeps = connect_keeps [OF this r1(2)]
  from assms(4) obtain p where p: "name \<noteq> []" "r_profiles r' name = Some p" "np_lastErr p = None"
    by (auto simp: rt_Status_def Let_def split: option.splits if_splits)
  have "dom (r_profiles r') = dom (r_profiles r)" using keeps r1(1) by simp
  moreover have "name \<in> dom (r_profiles r')" using p(2) by (rule domI)
  ultimately have "name \<in> fst ` set visits" using assms(3) by (simp only: subsetD)
  from keeps [THEN conjunct2, THEN conjunct2, rule_format, OF p(2) this p(3)]
  obtain c where "h_client (np_handle p) = Some c" by blast
  with p show ?thesis by (simp add: ByProfile_def Client_def Bind_def)
qed

definition live_net :: "(nat, nat) dialer" where
  "live_net = \<lparr>d_new = \<lambda>_ _ w. (w, Suc w), d_ping = \<lambda>_ w. (None, w), d_close = \<lambda>_ w. (None, w)\<rparr>"

theorem connected_profiles_have_clients_witness:
  "\<exists>c. Client (fst (snd (fst (rt_Connect live_net [(''queue'', 7)]
      (Some (rt_New None [''queue'' \<mapsto> Some sample_config] True)) 0)))) ''queue'' = Inr c"
proof -
  let ?r = "rt_New None [''queue'' \<mapsto> Some sample_config] True :: nat Registry"
  obtain r' evs w' where run: "rt_Connect live_net [(''queue'', 7)] (Some ?r) 0 = ((None, Some r', evs), w')"
    and status: "st_State (rt_Status (Some r') ''queue'') = ProfileAvailable"
    by (simp add: rt_Connect_def rt_New_def NewHandle_def CloneConfig_def MergeConfig_def new_profile_def h_Connect_def
        live_net_def connect_profile_def markAvailable_def rt_Status_def)
  have "dom (r_profiles ?r) \<subseteq> fst ` set [(''queue'', 7 :: instant)]" by (auto simp: rt_New_def split: if_splits)
  from connected_profiles_have_clients [OF rt_New_inv run this status] run show ?thesis by auto
qed

text \<open>
  When the default profile cannot be reached, Connect gives up before it looks at the named
  ones; they are then reported available and resolve to a handle, but have no client.
\<close>
theorem unconnected_profile_is_available:
  "\<exists>err r' evs w' h. rt_Connect dead_net [(''queue'', 7)] (Some queue_registry) 0 = ((Some err, Some r', evs), w')
     \<and> st_State (rt_Status (Some r') ''queue'') = ProfileAvailable
     \<and> ByProfile (Some r') ''queue'' = Inr h \<and> h_client h = None"
  by (simp add: rt_Connect_def queue_registry_def rt_New_def NewHandle_def CloneConfig_def MergeConfig_def
      new_profile_def h_Connect_def dead_net_def ByProfile_def rt_Status_def)

text \<open>
  A configured profile never falls back to the default one: a name resolves to its own
  handle, to the error of its profile, or, when no profile has it, to the default if allowed.
\<close>
theorem Bind_resolves:
  "Bind (Some r) name =
     (if name = [] then Default (Some r)
      else case r_profiles r name of
        Some p \<Rightarrow> (case np_lastErr p of
            None \<Rightarrow> Inr (np_handle p)
          | Some err \<Rightarrow> Inl (''redis profile '' @ quote name @ '' is unavailable: '' @ err))
      | None \<Rightarrow> if r_fallbackOnMissing r then Default (Some r)
          else Inl (''redis profile '' @ quote name @ '' not found''))"
  by (auto simp: Bind_def ByProfile_def rt_Status_def Let_def split: option.splits)

text \<open>Marking a profile unavailable again and again.\<close>

fun fail_times :: "(instant \<times> string) list \<Rightarrow> 'c namedProfile \<Rightarrow> 'c namedProfile" where
  "fail_times [] p = p"
| "fail_times ((now, err) # fs) p = fail_times fs (fst (markUnavailable now err p))"

lemma fail_times_snoc: "fail_times (fs @ [(now, err)]) p = fst (markUnavailable now err (fail_times fs p))"
  by (induction fs p rule: fail_times.induct) auto

text \<open>
  The pause after the n-th failure in a row is half a minute doubled n - 1 times, at most
  five minutes, counted from that failure.
\<close>
theorem retries_back_off:
  assumes "np_lastErr p = None" and "profile_inv p"
  shows "let p' = fail_times (fs @ [(now, err)]) p in
    np_retryDelay p' = min (5 * minute) (30 * second * 2 ^ length fs)
    \<and> np_nextRetryAt p' = now + np_retryDelay p' \<and> np_lastErr p' = Some err"
proof (induction fs arbitrary: now err rule: rev_induct)
  case Nil
  show ?case using assms
    by (simp add: markUnavailable_def Let_def profile_inv_def delay_defs)
next
  case (snoc f fs)
  obtain n e where f: "f = (n, e)" by force
  let ?q = "fail_times (fs @ [f]) p"
  have q: "np_retryDelay ?q = min (5 * minute) (30 * second * 2 ^ length fs)"
    using snoc [of n e] by (simp add: f Let_def)
  have pos: "(0 :: int) < 30 * second * 2 ^ length fs" by (simp add: second_def)
  have "\<not> min (5 * minute) (30 * second * 2 ^ length fs) \<le> 0" using pos by (simp add: minute_def)
  moreover have "(if min (5 * minute) x * 2 > 5 * minute then 5 * minute else min (5 * minute) x * 2) = min (5 * minute) (x * 2)"
    if "0 < x" for x :: int using that by (auto simp: min_def minute_def)
  ultimately show ?case
    unfolding fail_times_snoc using q pos
    by (simp add: markUnavailable_def Let_def profileMaxRetryDelay_def mult.assoc mult.commute [of 2])
qed

theorem retries_back_off_witness:
  "np_retryDelay (fail_times ([(1, ''e''), (2, ''e''), (3, ''e''), (4, ''e'')] @ [(5, ''e'')])
      (new_profile None ''queue'' sample_config :: unit namedProfile)) = 5 * minute"
proof -
  have "np_lastErr (new_profile None ''queue'' sample_config :: unit namedProfile) = None"
    "profile_inv (new_profile None ''queue'' sample_config :: unit namedProfile)"
    by (simp_all add: new_profile_def profile_inv_def NewHandle_def CloneConfig_def MergeConfig_def)
  from retries_back_off [OF this, of "[(1, ''e''), (2, ''e''), (3, ''e''), (4, ''e'')]" 5 "''e''"]
  show ?thesis by (simp add: Let_def minute_def second_def)
qed

end
