(* ===== verification/Rate_Limit.thy ===== *)
theory Rate_Limit
  imports Complex_Main Redis_Lease
begin

text \<open>
  \<open>pkg/ratelimit\<close>: rate limiting decisions, in one process (\<open>local.go\<close>) or over a shared
  backend (\<open>distributed.go\<close>), and \<open>ratelimit/redisadapter\<close>, a backend on Redis.

  A \<open>float64\<close> is an exact rational here: rounding is not modelled. \<open>golang.org/x/time/rate\<close>
  is the record \<open>rate_lib\<close>, the commands on Redis hashes are the record \<open>hash_redis\<close>, both
  arguments; the token bucket script is in the source and is a definition.
\<close>

section \<open>Policies and decisions\<close>

definition OutcomeAllowed :: string where "OutcomeAllowed = ''allowed''"
definition OutcomeRateLimited :: string where "OutcomeRateLimited = ''rate_limited''"
definition OutcomeDegradedOpen :: string where "OutcomeDegradedOpen = ''degraded_open''"

record Policy =
  pol_Component :: string
  pol_Scope :: string
  pol_Resource :: string
  pol_Strategy :: string
  RatePerSecond :: rat
  Burst :: int

definition policy_Valid :: "Policy \<Rightarrow> bool" where
  "policy_Valid p \<longleftrightarrow> 0 < RatePerSecond p \<and> 0 < Burst p"

definition zero_policy :: Policy where
  "zero_policy = \<lparr>pol_Component = [], pol_Scope = [], pol_Resource = [], pol_Strategy = [],
     RatePerSecond = 0, Burst = 0\<rparr>"

record Decision =
  dec_Allowed :: bool
  RetryAfter :: duration
  RetryAfterSeconds :: int
  dec_Policy :: Policy
  dec_Outcome :: string

definition allowedDecision :: "Policy \<Rightarrow> string \<Rightarrow> Decision" where
  "allowedDecision policy outcome = \<lparr>dec_Allowed = True, RetryAfter = 0, RetryAfterSeconds = 0,
     dec_Policy = policy, dec_Outcome = outcome\<rparr>"

definition limitedDecision :: "Policy \<Rightarrow> duration \<Rightarrow> int \<Rightarrow> Decision" where
  "limitedDecision policy retryAfter retryAfterSeconds = \<lparr>dec_Allowed = False, RetryAfter = retryAfter,
     RetryAfterSeconds = (if retryAfterSeconds < 1 then 1 else retryAfterSeconds),
     dec_Policy = policy, dec_Outcome = OutcomeRateLimited\<rparr>"

section \<open>The limiter of one process\<close>

text \<open>
  The rate package: a limiter of type \<open>'r\<close>, a reservation of type \<open>'v\<close>. The time is what the
  package reads from the clock.
\<close>

record ('r, 'v) rate_lib =
  lib_NewLimiter :: "rat \<Rightarrow> int \<Rightarrow> 'r"
  lib_Allow :: "instant \<Rightarrow> 'r \<Rightarrow> bool \<times> 'r"
  lib_Reserve :: "instant \<Rightarrow> 'r \<Rightarrow> 'v \<times> 'r"
  lib_OK :: "'v \<Rightarrow> bool"
  lib_Delay :: "instant \<Rightarrow> 'v \<Rightarrow> duration"
  lib_CancelAt :: "instant \<Rightarrow> 'v \<Rightarrow> 'r \<Rightarrow> 'r"

definition keyedLimiterTTL :: duration where "keyedLimiterTTL = 10 * minute"
definition keyedCleanupInterval :: duration where "keyedCleanupInterval = 1 * minute"
definition keyedMaxEntries :: nat where "keyedMaxEntries = 10000"

record 'r keyedEntry =
  e_limiter :: 'r
  e_lastSeen :: instant

record 'r LocalLimiter =
  ll_policy :: Policy
  ll_keyed :: bool
  ll_global :: "'r option"
  ll_entries :: "string \<rightharpoonup> 'r keyedEntry"
  ll_lastCleanup :: instant

definition newRateLimiter :: "('r, 'v) rate_lib \<Rightarrow> Policy \<Rightarrow> 'r" where
  "newRateLimiter lib policy =
     (if \<not> policy_Valid policy then lib_NewLimiter lib 0 0
      else lib_NewLimiter lib (RatePerSecond policy) (Burst policy))"

definition NewLocalLimiter :: "('r, 'v) rate_lib \<Rightarrow> Policy \<Rightarrow> 'r LocalLimiter" where
  "NewLocalLimiter lib policy = \<lparr>ll_policy = policy, ll_keyed = False,
     ll_global = Some (newRateLimiter lib policy), ll_entries = Map.empty, ll_lastCleanup = 0\<rparr>"

definition NewKeyedLocalLimiter :: "Policy \<Rightarrow> 'r LocalLimiter" where
  "NewKeyedLocalLimiter policy = \<lparr>ll_policy = policy, ll_keyed = True, ll_global = None,
     ll_entries = Map.empty, ll_lastCleanup = 0\<rparr>"

text \<open>
  The clean-up: \<open>ks\<close> is the order in which the first loop ranges over the entries, \<open>ks'\<close> that
  of the second loop over what is left.
\<close>

fun drop_idle :: "instant \<Rightarrow> string list \<Rightarrow> (string \<rightharpoonup> 'r keyedEntry) \<Rightarrow> (string \<rightharpoonup> 'r keyedEntry)" where
  "drop_idle now [] m = m"
| "drop_idle now (k # ks) m =
     drop_idle now ks
       (case m k of
          Some entry \<Rightarrow> if time_sub now (e_lastSeen entry) > keyedLimiterTTL then m(k := None) else m
        | None \<Rightarrow> m)"

fun evict :: "nat \<Rightarrow> string list \<Rightarrow> (string \<rightharpoonup> 'r keyedEntry) \<Rightarrow> (string \<rightharpoonup> 'r keyedEntry)" where
  "evict len [] m = m"
| "evict len (k # ks) m =
     (if len - 1 \<le> keyedMaxEntries then m(k := None) else evict (len - 1) ks (m(k := None)))"

definition clean_entries :: "instant \<Rightarrow> string list \<Rightarrow> string list \<Rightarrow> 'r LocalLimiter \<Rightarrow> 'r LocalLimiter" where
  "clean_entries now ks ks' l =
     (if time_sub now (ll_lastCleanup l) \<ge> keyedCleanupInterval then
        let m = drop_idle now ks (ll_entries l);
            m' = (if length ks' > keyedMaxEntries then evict (length ks') ks' m else m)
        in l\<lparr>ll_entries := m', ll_lastCleanup := now\<rparr>
      else l)"

definition key_or_anonymous :: "string \<Rightarrow> string" where
  "key_or_anonymous key = (if key = [] then ''anonymous'' else key)"

definition limiterForKey ::
    "('r, 'v) rate_lib \<Rightarrow> instant \<Rightarrow> string list \<Rightarrow> string list \<Rightarrow> string \<Rightarrow> 'r LocalLimiter \<Rightarrow> 'r \<times> 'r LocalLimiter" where
  "limiterForKey lib now ks ks' key0 l =
     (let key = key_or_anonymous key0;
          l1 = clean_entries now ks ks' l;
          limiter = (case ll_entries l1 key of Some entry \<Rightarrow> e_limiter entry | None \<Rightarrow> newRateLimiter lib (ll_policy l1))
      in (limiter, l1\<lparr>ll_entries := (ll_entries l1)(key \<mapsto> \<lparr>e_limiter = limiter, e_lastSeen = now\<rparr>)\<rparr>))"

text \<open>\<open>delay.Seconds()\<close> rounded up.\<close>

definition ceil_seconds :: "duration \<Rightarrow> int" where
  "ceil_seconds d = - ((- d) div second)"

definition retryAfterForLimiter :: "('r, 'v) rate_lib \<Rightarrow> instant \<Rightarrow> 'r option \<Rightarrow> (duration \<times> int) \<times> 'r option" where
  "retryAfterForLimiter lib now limiter =
     (case limiter of
        None \<Rightarrow> ((second, 1), None)
      | Some r \<Rightarrow>
          (case lib_Reserve lib now r of
             (reservation, r1) \<Rightarrow>
               if \<not> lib_OK lib reservation then ((second, 1), Some r1)
               else
                 let delay = lib_Delay lib now reservation;
                     r2 = lib_CancelAt lib now reservation r1;
                     seconds = ceil_seconds delay
                 in ((delay, if seconds < 1 then 1 else seconds), Some r2)))"

text \<open>A decision about one request, with the limiter it used written back where it lives.\<close>

definition put_limiter :: "string \<Rightarrow> 'r \<Rightarrow> 'r LocalLimiter \<Rightarrow> 'r LocalLimiter" where
  "put_limiter key r l =
     (if ll_keyed l then
        l\<lparr>ll_entries := (ll_entries l)(key_or_anonymous key :=
            map_option (\<lambda>e. e\<lparr>e_limiter := r\<rparr>) (ll_entries l (key_or_anonymous key)))\<rparr>
      else l\<lparr>ll_global := Some r\<rparr>)"

definition Local_Decide ::
    "('r, 'v) rate_lib \<Rightarrow> instant \<Rightarrow> string list \<Rightarrow> string list \<Rightarrow> string \<Rightarrow> 'r LocalLimiter option
     \<Rightarrow> Decision \<times> 'r LocalLimiter option" where
  "Local_Decide lib now ks ks' key ll =
     (case ll of
        None \<Rightarrow> (limitedDecision zero_policy second 1, None)
      | Some l \<Rightarrow>
          if \<not> policy_Valid (ll_policy l) then (limitedDecision (ll_policy l) second 1, Some l)
          else
            let (limiter, l1) = (if ll_keyed l then limiterForKey lib now ks ks' key l else (the (ll_global l), l));
                (ok, limiter1) = lib_Allow lib now limiter
            in if ok then (allowedDecision (ll_policy l) OutcomeAllowed, Some (put_limiter key limiter1 l1))
               else
                 (case retryAfterForLimiter lib now (Some limiter1) of
                    ((retryAfter, seconds), limiter2) \<Rightarrow>
                      (limitedDecision (ll_policy l) retryAfter seconds,
                       Some (put_limiter key (the limiter2) l1))))"

section \<open>The limiter over a shared backend\<close>

type_synonym 's Backend = "string \<Rightarrow> rat \<Rightarrow> int \<Rightarrow> 's \<Rightarrow> (string + bool \<times> duration) \<times> 's"

record 's DistributedLimiter =
  dl_backend :: "'s Backend option"
  dl_policy :: Policy

definition NewDistributedLimiter :: "'s Backend option \<Rightarrow> Policy \<Rightarrow> 's DistributedLimiter" where
  "NewDistributedLimiter backend policy = \<lparr>dl_backend = backend, dl_policy = policy\<rparr>"

text \<open>\<open>None\<close> is a panic: the degraded decision reads the policy of a nil limiter.\<close>

definition Distributed_Decide :: "'s DistributedLimiter option \<Rightarrow> string \<Rightarrow> 's \<Rightarrow> (Decision \<times> 's) option" where
  "Distributed_Decide dl key s =
     (case dl of
        None \<Rightarrow> None
      | Some l \<Rightarrow>
          (case dl_backend l of
             None \<Rightarrow> Some (allowedDecision (dl_policy l) OutcomeDegradedOpen, s)
           | Some backend \<Rightarrow>
               if key = [] \<or> \<not> policy_Valid (dl_policy l)
               then Some (allowedDecision (dl_policy l) OutcomeDegradedOpen, s)
               else
                 (case backend key (RatePerSecond (dl_policy l)) (Burst (dl_policy l)) s of
                    (Inl err, s') \<Rightarrow> Some (allowedDecision (dl_policy l) OutcomeDegradedOpen, s')
                  | (Inr (allowed, retryAfter), s') \<Rightarrow>
                      if allowed then Some (allowedDecision (dl_policy l) OutcomeAllowed, s')
                      else
                        let seconds = trunc_div retryAfter second + 1
                        in Some (limitedDecision (dl_policy l) retryAfter (if seconds < 1 then 1 else seconds), s'))))"

section \<open>The backend on Redis\<close>

text \<open>
  Hashes of the server: a field that was never written, or expired with its key, is nil. The
  first argument is the server's clock.
\<close>

record 's hash_redis =
  h_HMGET :: "instant \<Rightarrow> string \<Rightarrow> 's \<Rightarrow> rat option \<times> int option"
  h_HSET :: "instant \<Rightarrow> string \<Rightarrow> rat \<Rightarrow> int \<Rightarrow> 's \<Rightarrow> 's"
  h_PEXPIRE :: "instant \<Rightarrow> string \<Rightarrow> int \<Rightarrow> 's \<Rightarrow> 's"

datatype reply_value = Int64 int | IntVal int | Str string | OtherVal string

definition redisTokenBucketScript ::
    "'s hash_redis \<Rightarrow> instant \<Rightarrow> string \<Rightarrow> int \<Rightarrow> rat \<Rightarrow> int \<Rightarrow> int \<Rightarrow> int \<Rightarrow> 's \<Rightarrow> (int \<times> int) \<times> 's" where
  "redisTokenBucketScript ops srv key now rate burst requested ttl s =
     (if rate \<le> 0 \<or> burst \<le> 0 \<or> requested \<le> 0 then ((0, 1000), s)
      else
        let state = h_HMGET ops srv key s;
            tokens0 = (case fst state of None \<Rightarrow> of_int burst | Some tk \<Rightarrow> tk);
            ts = (case snd state of None \<Rightarrow> now | Some t \<Rightarrow> t);
            delta = of_int (max 0 (now - ts)) / 1000;
            tokens1 = min (of_int burst) (tokens0 + delta * rate);
            allowed = (of_int requested \<le> tokens1);
            tokens = (if allowed then tokens1 - of_int requested else tokens1);
            retry_after_ms = (if allowed then 0 else \<lceil>(of_int requested - tokens1) / rate * 1000\<rceil>);
            s1 = h_HSET ops srv key tokens now s;
            s2 = h_PEXPIRE ops srv key ttl s1
        in ((if allowed then 1 else 0, retry_after_ms), s2))"

definition redisLimiterInt64 :: "reply_value \<Rightarrow> string + int" where
  "redisLimiterInt64 v =
     (case v of
        Int64 i \<Rightarrow> Inr i
      | IntVal i \<Rightarrow> Inr i
      | Str x \<Rightarrow> Inl (''unexpected string limiter result '' @ quote x)
      | OtherVal ty \<Rightarrow> Inl (''unexpected limiter result type '' @ ty))"

definition unix_milli :: "instant \<Rightarrow> int" where
  "unix_milli t = t div millisecond - 62135596800000"

text \<open>\<open>to_int\<close> is the conversion of a \<open>float64\<close> to an \<open>int64\<close>.\<close>

definition bucket_ttl :: "(rat \<Rightarrow> int) \<Rightarrow> rat \<Rightarrow> int \<Rightarrow> duration" where
  "bucket_ttl to_int ratePerSecond burst =
     (let ttl = wrap64 (to_int (of_int second * of_int burst / ratePerSecond) + 5 * second)
      in if ttl < 5 * second then 5 * second else ttl)"

record 's redisBackend =
  rb_client :: "'s hash_redis option"
  rb_keyFunc :: "(string \<Rightarrow> string) option"

definition rb_redisKey :: "'s redisBackend \<Rightarrow> string \<Rightarrow> string" where
  "rb_redisKey b key = (case rb_keyFunc b of None \<Rightarrow> key | Some f \<Rightarrow> f key)"

text \<open>
  What the client makes of the reply of the script, an array of two integers. A reply is an
  array or, on the left, a value of another type.
\<close>

definition script_reply :: "int \<times> int \<Rightarrow> string + reply_value list" where
  "script_reply r = Inr [Int64 (fst r), Int64 (snd r)]"

definition read_reply :: "string + reply_value list \<Rightarrow> string + bool \<times> duration" where
  "read_reply result =
     (case result of
        Inr (v0 # v1 # _) \<Rightarrow>
          (case redisLimiterInt64 v0 of
             Inl err \<Rightarrow> Inl err
           | Inr allowed \<Rightarrow>
               (case redisLimiterInt64 v1 of
                  Inl err \<Rightarrow> Inl err
                | Inr retryAfterMS \<Rightarrow> Inr (allowed = 1, wrap64 (retryAfterMS * millisecond))))
      | Inr _ \<Rightarrow> Inl ''unexpected limiter result type []interface {}''
      | Inl ty \<Rightarrow> Inl (''unexpected limiter result type '' @ ty))"

definition Backend_Allow ::
    "(rat \<Rightarrow> int) \<Rightarrow> outcome \<Rightarrow> instant \<Rightarrow> instant \<Rightarrow> 's redisBackend option \<Rightarrow> 's Backend" where
  "Backend_Allow to_int net srv clock backend key ratePerSecond burst s =
     (case backend of
        None \<Rightarrow> (Inl ''redis limiter is unavailable'', s)
      | Some b \<Rightarrow>
          (case rb_client b of
             None \<Rightarrow> (Inl ''redis limiter is unavailable'', s)
           | Some ops \<Rightarrow>
               if key = [] then (Inl ''rate limit key is empty'', s)
               else if ratePerSecond \<le> 0 \<or> burst \<le> 0 then (Inl ''rate and burst must be positive'', s)
               else
                 (case call net (map_prod script_reply id (redisTokenBucketScript ops srv (rb_redisKey b key)
                       (unix_milli clock) ratePerSecond burst 1
                       (trunc_div (bucket_ttl to_int ratePerSecond burst) millisecond) s)) s of
                    (Inl err, s') \<Rightarrow> (Inl (redis_text err), s')
                  | (Inr result, s') \<Rightarrow> (read_reply result, s'))))"

section \<open>Limiters as their users see them\<close>

text \<open>
  The interface \<open>Limiter\<close>: a refusal names a wait of at least a second that covers
  \<open>RetryAfter\<close>; what is let through is allowed or degraded.
\<close>

locale limiter =
  fixes decide :: "string \<Rightarrow> 's \<Rightarrow> (Decision \<times> 's) option"
    and pol_of :: "'s \<Rightarrow> Policy"
  assumes refusal: "decide key s = Some (d, s') \<Longrightarrow> \<not> dec_Allowed d \<Longrightarrow>
      dec_Outcome d = OutcomeRateLimited \<and> 1 \<le> RetryAfterSeconds d \<and> RetryAfter d \<le> RetryAfterSeconds d * second"
    and passage: "decide key s = Some (d, s') \<Longrightarrow> dec_Allowed d \<Longrightarrow>
      dec_Outcome d = OutcomeAllowed \<or> dec_Outcome d = OutcomeDegradedOpen"
    and policy: "decide key s = Some (d, s') \<Longrightarrow> dec_Policy d = pol_of s \<and> pol_of s' = pol_of s"
begin

lemma outcome_decides: "decide key s = Some (d, s') \<Longrightarrow> dec_Allowed d \<longleftrightarrow> dec_Outcome d \<noteq> OutcomeRateLimited"
  using refusal passage
  by (fastforce simp: OutcomeAllowed_def OutcomeDegradedOpen_def OutcomeRateLimited_def)

lemma told_to_wait_long_enough:
  "decide key s = Some (d, s') \<Longrightarrow> \<not> dec_Allowed d \<Longrightarrow> t + RetryAfter d \<le> t + RetryAfterSeconds d * second"
  using refusal by simp

end

lemma ceil_seconds_covers: "d \<le> ceil_seconds d * second"
  by (simp add: ceil_seconds_def second_def)

lemma below_next_multiple:
  fixes d :: int
  assumes "0 < n"
  shows "d \<le> (d div n + 1) * n"
proof -
  have "d = d div n * n + d mod n" by (rule div_mult_mod_eq [symmetric])
  moreover have "d mod n < n" using assms by (rule pos_mod_bound)
  ultimately have "d \<le> d div n * n + n" by linarith
  then show ?thesis by (simp only: distrib_right mult_1)
qed

lemma trunc_seconds_covers: "d \<le> (if trunc_div d second + 1 < 1 then 1 else trunc_div d second + 1) * second"
proof (cases "0 \<le> d")
  case True
  then have t: "trunc_div d 1000000000 = d div 1000000000" by (simp add: trunc_div_nonneg)
  have "d \<le> (d div 1000000000 + 1) * 1000000000" by (rule below_next_multiple) simp
  moreover have "0 \<le> d div 1000000000" using True by (simp add: pos_imp_zdiv_nonneg_iff)
  ultimately show ?thesis unfolding second_def t by simp
next
  case False
  then show ?thesis by (auto simp: trunc_div_def second_def Let_def)
qed

lemmas decision_defs = allowedDecision_def limitedDecision_def OutcomeAllowed_def OutcomeDegradedOpen_def
  OutcomeRateLimited_def

definition local_decide ::
    "('r, 'v) rate_lib \<Rightarrow> string \<Rightarrow> instant \<times> string list \<times> string list \<times> 'r LocalLimiter
     \<Rightarrow> (Decision \<times> instant \<times> string list \<times> string list \<times> 'r LocalLimiter) option" where
  "local_decide lib key st =
     (case st of (now, ks, ks', l) \<Rightarrow>
       (case Local_Decide lib now ks ks' key (Some l) of
          (d, l') \<Rightarrow> Some (d, now, ks, ks', the l')))"

lemma clean_entries_policy [simp]: "ll_policy (clean_entries now ks ks' l) = ll_policy l"
  by (simp add: clean_entries_def Let_def)

lemma limiterForKey_policy [simp]: "ll_policy (snd (limiterForKey lib now ks ks' key l)) = ll_policy l"
  by (simp add: limiterForKey_def Let_def)

lemma put_limiter_policy [simp]: "ll_policy (put_limiter key r l) = ll_policy l"
  by (simp add: put_limiter_def)

lemma Local_Decide_cases:
  assumes "Local_Decide lib now ks ks' key (Some l) = (d, ll)"
  shows "(\<exists>l'. ll = Some l' \<and> ll_policy l' = ll_policy l)
    \<and> (d = allowedDecision (ll_policy l) OutcomeAllowed
        \<or> (\<exists>w n. d = limitedDecision (ll_policy l) w n \<and> w \<le> n * second))"
proof (cases "policy_Valid (ll_policy l)")
  case False
  with assms show ?thesis by (force simp: Local_Decide_def)
next
  case True
  obtain limiter l1 where l1: "(if ll_keyed l then limiterForKey lib now ks ks' key l else (the (ll_global l), l)) = (limiter, l1)"
    by force
  then have pol: "ll_policy l1 = ll_policy l"
    by (metis limiterForKey_policy snd_conv)
  obtain ok limiter1 where allow: "lib_Allow lib now limiter = (ok, limiter1)" by force
  obtain w n limiter2 where retry: "retryAfterForLimiter lib now (Some limiter1) = ((w, n), limiter2)"
    by (metis prod.exhaust)
  then have "w \<le> n * second"
    by (auto simp: retryAfterForLimiter_def Let_def second_def
        intro: ceil_seconds_covers [unfolded second_def] order_trans [OF ceil_seconds_covers [unfolded second_def]]
        split: prod.splits if_splits)
  with assms True l1 allow retry pol show ?thesis
    by (cases ok) (force simp: Local_Decide_def)+
qed

interpretation local_limiter: limiter "local_decide lib" "\<lambda>(_, _, _, l). ll_policy l"
proof
  fix key st d st'
  assume dec: "local_decide lib key st = Some (d, st')"
  obtain now ks ks' l where st: "st = (now, ks, ks', l)" by (cases st) auto
  obtain ll where ll: "Local_Decide lib now ks ks' key (Some l) = (d, ll)" "st' = (now, ks, ks', the ll)"
    using dec st by (auto simp: local_decide_def split: prod.splits)
  note cases = Local_Decide_cases [OF ll(1)]
  then show "dec_Policy d = (case st of (_, _, _, l) \<Rightarrow> ll_policy l) \<and>
      (case st' of (_, _, _, l) \<Rightarrow> ll_policy l) = (case st of (_, _, _, l) \<Rightarrow> ll_policy l)"
    by (auto simp: st ll decision_defs)
  from cases show "dec_Allowed d \<Longrightarrow> dec_Outcome d = OutcomeAllowed \<or> dec_Outcome d = OutcomeDegradedOpen"
    by (auto simp: decision_defs)
  from cases show "\<not> dec_Allowed d \<Longrightarrow> dec_Outcome d = OutcomeRateLimited \<and> 1 \<le> RetryAfterSeconds d
      \<and> RetryAfter d \<le> RetryAfterSeconds d * second"
    by (auto simp: decision_defs second_def)
qed

lemma Distributed_Decide_cases:
  assumes "Distributed_Decide (Some (NewDistributedLimiter backend policy)) key s = Some (d, s')"
  shows "d = allowedDecision policy OutcomeAllowed \<or> d = allowedDecision policy OutcomeDegradedOpen
    \<or> (\<exists>w n. d = limitedDecision policy w n \<and> w \<le> n * second)"
  using assms trunc_seconds_covers
  by (fastforce simp: Distributed_Decide_def NewDistributedLimiter_def Let_def
      split: prod.splits if_splits option.splits sum.splits)

interpretation distributed_limiter:
  limiter "Distributed_Decide (Some (NewDistributedLimiter backend policy))" "\<lambda>_. policy"
proof
  fix key s d s'
  assume "Distributed_Decide (Some (NewDistributedLimiter backend policy)) key s = Some (d, s')"
  note cases = Distributed_Decide_cases [OF this]
  then show "dec_Policy d = policy \<and> policy = policy" by (auto simp: decision_defs)
  from cases show "dec_Allowed d \<Longrightarrow> dec_Outcome d = OutcomeAllowed \<or> dec_Outcome d = OutcomeDegradedOpen"
    by (auto simp: decision_defs)
  from cases show "\<not> dec_Allowed d \<Longrightarrow> dec_Outcome d = OutcomeRateLimited \<and> 1 \<le> RetryAfterSeconds d
      \<and> RetryAfter d \<le> RetryAfterSeconds d * second"
    by (auto simp: decision_defs second_def)
qed

section \<open>The entries of a keyed limiter\<close>

definition idle :: "instant \<Rightarrow> 'r keyedEntry \<Rightarrow> bool" where
  "idle now e \<longleftrightarrow> keyedLimiterTTL < time_sub now (e_lastSeen e)"

lemma drop_idle_entry:
  "drop_idle now ks m k = (case m k of Some e \<Rightarrow> if k \<in> set ks \<and> idle now e then None else Some e | None \<Rightarrow> None)"
  by (induction ks arbitrary: m) (auto simp: idle_def split: option.splits)

lemma evict_size: "enumerates ks m \<Longrightarrow> length ks > keyedMaxEntries \<Longrightarrow> card (dom (evict (length ks) ks m)) = keyedMaxEntries"
proof (induction ks arbitrary: m)
  case (Cons k ks)
  then have rest: "enumerates ks (m(k := None))" by (auto simp: enumerates_def)
  with Cons show ?case by (auto dest: enumerates_length)
qed simp

lemma evict_sub: "evict n ks m k = Some e \<Longrightarrow> m k = Some e"
  by (induction n ks m rule: evict.induct) (auto split: if_splits)

text \<open>
  A clean-up leaves at most \<open>keyedMaxEntries\<close> keys, none of them idle, and takes away no key
  that is in use unless there are too many; with the key of the request there is one more.
\<close>
theorem cleanup_bounds_entries:
  assumes "enumerates ks (ll_entries l)" and "enumerates ks' (drop_idle now ks (ll_entries l))"
    and "keyedCleanupInterval \<le> time_sub now (ll_lastCleanup l)"
  defines "l' \<equiv> clean_entries now ks ks' l"
  shows "card (dom (ll_entries l')) \<le> keyedMaxEntries
    \<and> card (dom (ll_entries (snd (limiterForKey lib now ks ks' key l)))) \<le> keyedMaxEntries + 1
    \<and> list_all (\<lambda>k. case ll_entries l' k of Some e \<Rightarrow> ll_entries l k = Some e \<and> \<not> idle now e
         | None \<Rightarrow> keyedMaxEntries < length ks' \<or> (\<exists>e. ll_entries l k = Some e \<and> idle now e)) ks"
proof (intro conjI)
  let ?m = "drop_idle now ks (ll_entries l)"
  have l': "ll_entries l' = (if keyedMaxEntries < length ks' then evict (length ks') ks' ?m else ?m)"
    using assms(3) by (simp add: l'_def clean_entries_def Let_def)
  show size: "card (dom (ll_entries l')) \<le> keyedMaxEntries"
    using evict_size [OF assms(2)] enumerates_length [OF assms(2)] by (auto simp: l')
  have "finite (dom ?m)" using assms(2) by (metis List.finite_set enumerates_set)
  then have "finite (dom (ll_entries l'))"
    unfolding l' by (auto intro: finite_subset [rotated] dest: evict_sub)
  with size show "card (dom (ll_entries (snd (limiterForKey lib now ks ks' key l)))) \<le> keyedMaxEntries + 1"
    by (simp add: limiterForKey_def Let_def l'_def card_insert_if)
  have entry: "k \<in> set ks \<Longrightarrow> \<exists>e. ll_entries l k = Some e" for k
    using enumerates_Some [OF assms(1)] by simp
  show "list_all (\<lambda>k. case ll_entries l' k of Some e \<Rightarrow> ll_entries l k = Some e \<and> \<not> idle now e
         | None \<Rightarrow> keyedMaxEntries < length ks' \<or> (\<exists>e. ll_entries l k = Some e \<and> idle now e)) ks"
    unfolding list_all_iff
  proof (intro ballI)
    fix k
    assume k: "k \<in> set ks"
    from entry [OF k] obtain e where e: "ll_entries l k = Some e" by blast
    have m: "?m k = (if idle now e then None else Some e)" by (simp add: drop_idle_entry e k)
    show "case ll_entries l' k of Some e \<Rightarrow> ll_entries l k = Some e \<and> \<not> idle now e
         | None \<Rightarrow> keyedMaxEntries < length ks' \<or> (\<exists>e. ll_entries l k = Some e \<and> idle now e)"
      using m e by (auto simp: l' split: option.splits if_splits dest: evict_sub)
  qed
qed

theorem cleanup_bounds_entries_witness:
  "card (dom (ll_entries (clean_entries (700 * second) [''a'', ''b''] [''b'']
     \<lparr>ll_policy = zero_policy, ll_keyed = True, ll_global = None,
       ll_entries = [''a'' \<mapsto> \<lparr>e_limiter = (), e_lastSeen = 0\<rparr>, ''b'' \<mapsto> \<lparr>e_limiter = (), e_lastSeen = 600 * second\<rparr>],
       ll_lastCleanup = 0\<rparr>))) \<le> keyedMaxEntries"
proof -
  let ?m = "[''a'' \<mapsto> \<lparr>e_limiter = (), e_lastSeen = 0\<rparr>, ''b'' \<mapsto> \<lparr>e_limiter = (), e_lastSeen = 600 * second\<rparr>]"
  have "drop_idle (700 * second) [''a'', ''b''] ?m = [''b'' \<mapsto> \<lparr>e_limiter = (), e_lastSeen = 600 * second\<rparr>]"
    by (auto simp: time_sub_def min_duration_def max_duration_def keyedLimiterTTL_def minute_def second_def)
  then have "enumerates [''b''] (drop_idle (700 * second) [''a'', ''b''] ?m)" by (simp only: enumerates_single)
  moreover have "enumerates [''a'', ''b''] ?m" by (rule enumerates_pair) simp
  moreover have "keyedCleanupInterval \<le> time_sub (700 * second) 0"
    by (simp add: time_sub_def min_duration_def max_duration_def keyedCleanupInterval_def minute_def second_def)
  ultimately show ?thesis
    by (intro cleanup_bounds_entries [THEN conjunct1])
      simp_all
qed

end
