(* ===== verification/Rate_Bucket.thy ===== *)
theory Rate_Bucket
  imports Rate_Limit
begin

text \<open>
  What the token bucket on Redis guarantees: how many requests it admits, and what the wait
  that comes with a refusal is worth.

  Requests come from many clients, each with a clock of its own. Redis keeps the time to live
  by its own clock; the slack of five seconds in it covers clients that are up to two seconds
  off. What the clocks do bear on is the refill, which the script computes from the clock of
  the request.
\<close>

section \<open>The server's promise\<close>

text \<open>
  \<open>view s t key\<close> is the bucket a reader finds at time \<open>t\<close> if nothing more is written: a hash
  written and given a time to live at \<open>t\<close> is there until then.
\<close>

type_synonym 's bucket_view = "'s \<Rightarrow> instant \<Rightarrow> string \<Rightarrow> (rat \<times> int) option"

definition hash_contract :: "'s hash_redis \<Rightarrow> 's bucket_view \<Rightarrow> bool" where
  "hash_contract ops view \<longleftrightarrow>
     (\<forall>s t key. h_HMGET ops t key s = (map_option fst (view s t key), map_option snd (view s t key)))
     \<and> (\<forall>s t key tokens ts ms t' key'. 0 < ms \<longrightarrow> t \<le> t' \<longrightarrow>
          view (h_PEXPIRE ops t key ms (h_HSET ops t key tokens ts s)) t' key' =
            (if key' = key then if t' < t + ms * millisecond then Some (tokens, ts) else None
             else view s t' key'))"

definition int_conversion :: "(rat \<Rightarrow> int) \<Rightarrow> bool" where
  "int_conversion to_int \<longleftrightarrow> (\<forall>x. 0 \<le> x \<longrightarrow> x < 2 ^ 63 \<longrightarrow> to_int x = \<lfloor>x\<rfloor>)"

text \<open>The policy is valid and the time to fill its bucket fits into a duration.\<close>

definition sound_policy :: "rat \<Rightarrow> int \<Rightarrow> bool" where
  "sound_policy rate burst \<longleftrightarrow> 0 < rate \<and> 0 < burst \<and> of_int second * of_int burst / rate < 2 ^ 62"

definition bucket_ms :: "(rat \<Rightarrow> int) \<Rightarrow> rat \<Rightarrow> int \<Rightarrow> int" where
  "bucket_ms to_int rate burst = trunc_div (bucket_ttl to_int rate burst) millisecond"

lemma bucket_ms_covers_refill:
  assumes "int_conversion to_int" and "sound_policy rate burst"
  shows "of_int burst * 1000 \<le> rate * of_int (bucket_ms to_int rate burst - 4000)"
    and "0 < bucket_ms to_int rate burst"
proof -
  let ?f = "of_int second * of_int burst / rate"
  have pos: "0 < rate" "0 < burst" and fits: "?f < 2 ^ 62" using assms(2) by (auto simp: sound_policy_def)
  then have f0: "0 \<le> ?f" by (simp add: second_def)
  have conv: "to_int ?f = \<lfloor>?f\<rfloor>"
    using assms(1) f0 fits by (auto simp: int_conversion_def)
  have fl: "0 \<le> \<lfloor>?f\<rfloor>" "\<lfloor>?f\<rfloor> < 2 ^ 62" using f0 fits by (simp_all add: floor_less_iff)
  then have "wrap64 (\<lfloor>?f\<rfloor> + 5 * second) = \<lfloor>?f\<rfloor> + 5 * second"
    by (intro wrap64_id) (simp_all add: second_def)
  then have ttl: "bucket_ttl to_int rate burst = \<lfloor>?f\<rfloor> + 5 * second"
    using fl by (simp add: bucket_ttl_def conv Let_def)
  have ms: "bucket_ms to_int rate burst = (\<lfloor>?f\<rfloor> + 5 * second) div millisecond"
    unfolding bucket_ms_def ttl using fl by (intro trunc_div_nonneg) (simp_all add: second_def millisecond_def)
  have split: "(\<lfloor>?f\<rfloor> + 5 * second) div millisecond = \<lfloor>?f\<rfloor> div millisecond + 5000"
    by (simp add: second_def millisecond_def)
  show "0 < bucket_ms to_int rate burst"
    using fl unfolding ms split by (simp add: millisecond_def pos_imp_zdiv_nonneg_iff add_nonneg_pos)
  have "\<lfloor>?f\<rfloor> \<le> (\<lfloor>?f\<rfloor> div millisecond + 1) * millisecond"
    by (rule below_next_multiple) (simp add: millisecond_def)
  then have "of_int \<lfloor>?f\<rfloor> \<le> (of_int ((\<lfloor>?f\<rfloor> div millisecond + 1) * millisecond) :: rat)"
    by (simp only: of_int_le_iff)
  moreover have "?f < of_int \<lfloor>?f\<rfloor> + 1" by linarith
  ultimately have "?f \<le> of_int (\<lfloor>?f\<rfloor> div millisecond + 2) * of_int millisecond"
    by (simp add: millisecond_def)
  then have "of_int burst * 1000 / rate \<le> of_int (\<lfloor>?f\<rfloor> div millisecond + 2)"
    by (simp add: second_def millisecond_def)
  also have "\<dots> \<le> of_int (bucket_ms to_int rate burst - 4000)"
    unfolding ms split by simp
  finally show "of_int burst * 1000 \<le> rate * of_int (bucket_ms to_int rate burst - 4000)"
    using pos by (simp add: divide_le_eq mult.commute)
qed

section \<open>One request\<close>

text \<open>
  The bucket of a key holds \<open>tk\<close> tokens, counted at the client time \<open>c\<close>; when it is not there,
  it would be full by now.
\<close>

definition near :: "instant \<Rightarrow> int \<Rightarrow> bool" where
  "near srv c \<longleftrightarrow> \<bar>c - unix_milli srv\<bar> \<le> 2000"

definition refilled :: "rat \<Rightarrow> int \<Rightarrow> rat \<Rightarrow> int \<Rightarrow> int \<Rightarrow> rat" where
  "refilled rate burst tk c c' = min (of_int burst) (tk + of_int (max 0 (c' - c)) / 1000 * rate)"

definition bucket_at ::
    "'s bucket_view \<Rightarrow> rat \<Rightarrow> int \<Rightarrow> 's \<Rightarrow> instant \<Rightarrow> string \<Rightarrow> rat \<Rightarrow> int \<Rightarrow> bool" where
  "bucket_at view rate burst s t key tk c \<longleftrightarrow>
     0 \<le> tk \<and> tk \<le> of_int burst
     \<and> (\<exists>e. (\<forall>t' \<ge> t. view s t' key = (if t' < e then Some (tk, c) else None))
          \<and> (\<forall>t' c'. e \<le> t' \<longrightarrow> near t' c' \<longrightarrow> refilled rate burst tk c c' = of_int burst))"

lemma bucket_later: "bucket_at view rate burst s t key tk c \<Longrightarrow> t \<le> t' \<Longrightarrow> bucket_at view rate burst s t' key tk c"
  unfolding bucket_at_def by (meson order_trans)

lemma unix_milli_add: "unix_milli (t + n * millisecond) = unix_milli t + n"
  by (simp add: unix_milli_def millisecond_def)

lemma unix_milli_mono: "t \<le> t' \<Longrightarrow> unix_milli t \<le> unix_milli t'"
  by (simp add: unix_milli_def millisecond_def zdiv_mono1)

lemma full_after_ttl:
  assumes "int_conversion to_int" and "sound_policy rate burst" and "0 \<le> tk" and "near srv c"
    and "srv + bucket_ms to_int rate burst * millisecond \<le> t'" and "near t' c'"
  shows "refilled rate burst tk c c' = of_int burst"
proof -
  let ?ms = "bucket_ms to_int rate burst"
  have "unix_milli srv + ?ms \<le> unix_milli t'"
    using unix_milli_mono [OF assms(5)] by (simp add: unix_milli_add)
  with assms(4,6) have "?ms - 4000 \<le> c' - c" unfolding near_def by linarith
  then have "?ms - 4000 \<le> max 0 (c' - c)" by simp
  then have "rate * of_int (?ms - 4000) \<le> rate * of_int (max 0 (c' - c))"
    using assms(2) by (simp only: mult_le_cancel_left sound_policy_def of_int_le_iff) simp
  with bucket_ms_covers_refill(1) [OF assms(1,2)]
  have "of_int burst \<le> of_int (max 0 (c' - c)) / 1000 * rate" by (simp add: mult.commute)
  with assms(3) show ?thesis by (simp add: refilled_def min_def)
qed

lemma script_step:
  assumes "hash_contract ops view" and "int_conversion to_int" and "sound_policy rate burst"
    and bucket: "bucket_at view rate burst s t key tk c" and "t \<le> srv" and "near srv c'"
  defines "tk1 \<equiv> refilled rate burst tk c c'"
  shows "\<exists>s'. redisTokenBucketScript ops srv key c' rate burst 1 (bucket_ms to_int rate burst) s =
      (if 1 \<le> tk1 then (1, 0) else (0, \<lceil>(1 - tk1) / rate * 1000\<rceil>), s')
    \<and> bucket_at view rate burst s' srv key (if 1 \<le> tk1 then tk1 - 1 else tk1) c'
    \<and> (\<forall>t' \<ge> srv. \<forall>key'. key' \<noteq> key \<longrightarrow> view s' t' key' = view s t' key')"
proof -
  from bucket obtain e where tk: "0 \<le> tk" "tk \<le> of_int burst"
    and v: "\<And>t'. t \<le> t' \<Longrightarrow> view s t' key = (if t' < e then Some (tk, c) else None)"
    and full: "\<And>t' c'. e \<le> t' \<Longrightarrow> near t' c' \<Longrightarrow> refilled rate burst tk c c' = of_int burst"
    unfolding bucket_at_def by blast
  have pol: "0 < rate" "0 < burst" using assms(3) by (auto simp: sound_policy_def)
  have get: "h_HMGET ops srv key s = (if srv < e then (Some tk, Some c) else (None, None))"
    using assms(1) v [OF assms(5)] by (simp add: hash_contract_def)
  have tk1: "min (of_int burst) ((case fst (h_HMGET ops srv key s) of None \<Rightarrow> of_int burst | Some tk \<Rightarrow> tk)
      + of_int (max 0 (c' - (case snd (h_HMGET ops srv key s) of None \<Rightarrow> c' | Some t \<Rightarrow> t))) / 1000 * rate) = tk1"
    using full [of srv c'] assms(6) unfolding get tk1_def by (simp add: refilled_def)
  have range: "0 \<le> tk1" "tk1 \<le> of_int burst"
    using tk pol unfolding tk1_def refilled_def by (auto simp: min_def intro!: add_nonneg_nonneg mult_nonneg_nonneg)
  let ?tk2 = "if 1 \<le> tk1 then tk1 - 1 else tk1"
  let ?s' = "h_PEXPIRE ops srv key (bucket_ms to_int rate burst) (h_HSET ops srv key ?tk2 c' s)"
  have put: "view ?s' t' key' = (if key' = key then if t' < srv + bucket_ms to_int rate burst * millisecond
      then Some (?tk2, c') else None else view s t' key')" if "srv \<le> t'" for t' key'
    using assms(1) that bucket_ms_covers_refill(2) [OF assms(2,3)] unfolding hash_contract_def by blast
  have "bucket_at view rate burst ?s' srv key ?tk2 c'"
    unfolding bucket_at_def
    using range put full_after_ttl [OF assms(2,3) _ assms(6)]
    by (intro conjI exI [of _ "srv + bucket_ms to_int rate burst * millisecond"]) auto
  moreover have "redisTokenBucketScript ops srv key c' rate burst 1 (bucket_ms to_int rate burst) s =
      (if 1 \<le> tk1 then (1, 0) else (0, \<lceil>(1 - tk1) / rate * 1000\<rceil>), ?s')"
    using pol unfolding redisTokenBucketScript_def Let_def tk1 by simp
  ultimately show ?thesis using put by auto
qed

section \<open>Many requests\<close>

text \<open>A request: its key, its fate, the server's time and the client's clock.\<close>

record bucket_request =
  rq_key :: string
  rq_net :: outcome
  rq_srv :: instant
  rq_clock :: instant

fun decide_all ::
    "(rat \<Rightarrow> int) \<Rightarrow> 's redisBackend \<Rightarrow> Policy \<Rightarrow> bucket_request list \<Rightarrow> 's \<Rightarrow> Decision list" where
  "decide_all to_int b policy [] s = []"
| "decide_all to_int b policy (rq # rqs) s =
     (case Distributed_Decide (Some (NewDistributedLimiter
            (Some (Backend_Allow to_int (rq_net rq) (rq_srv rq) (rq_clock rq) (Some b))) policy)) (rq_key rq) s of
        Some (d, s') \<Rightarrow> d # decide_all to_int b policy rqs s'
      | None \<Rightarrow> [])"

definition admitted :: "(string \<Rightarrow> string) \<Rightarrow> string \<Rightarrow> bucket_request list \<Rightarrow> Decision list \<Rightarrow> nat" where
  "admitted f key rqs ds =
     length (filter (\<lambda>(rq, d). f (rq_key rq) = key \<and> dec_Outcome d = OutcomeAllowed) (zip rqs ds))"

text \<open>By how much a sequence of clock readings moves forward, setbacks not counted.\<close>

fun forward_ms :: "int list \<Rightarrow> int" where
  "forward_ms (c # c' # cs) = max 0 (c' - c) + forward_ms (c' # cs)"
| "forward_ms cs = 0"

definition clocks_of :: "(string \<Rightarrow> string) \<Rightarrow> string \<Rightarrow> bucket_request list \<Rightarrow> int list" where
  "clocks_of f key rqs = map (\<lambda>rq. unix_milli (rq_clock rq)) (filter (\<lambda>rq. f (rq_key rq) = key) rqs)"

lemma forward_ms_nonneg: "0 \<le> forward_ms cs"
  by (induction cs rule: forward_ms.induct) auto

lemma forward_ms_skip: "forward_ms (c # cs) \<le> forward_ms (c # c' # cs)"
  by (cases cs) (auto simp: max_def)

lemma forward_ms_sorted: "sorted (c # cs) \<Longrightarrow> forward_ms (c # cs) = last (c # cs) - c"
  by (induction "c # cs" arbitrary: c cs rule: forward_ms.induct) auto

lemma refilled_le: "refilled rate burst tk c c' \<le> tk + rate * of_int (max 0 (c' - c)) / 1000"
  by (simp add: refilled_def mult.commute)

text \<open>One request: what it answers and what is left in the bucket.\<close>

definition ends_with :: "'s bucket_view \<Rightarrow> rat \<Rightarrow> int \<Rightarrow> string \<Rightarrow> 's \<Rightarrow> instant \<Rightarrow> rat \<Rightarrow> int \<Rightarrow> int \<Rightarrow> nat \<Rightarrow> bool" where
  "ends_with view rate burst key s srv tk c c' a \<longleftrightarrow>
     (\<exists>tk' c''. bucket_at view rate burst s srv key tk' c''
        \<and> (\<forall>cs. of_nat a + (tk' + rate * of_int (forward_ms (c'' # cs)) / 1000)
              \<le> tk + rate * of_int (forward_ms (c # c' # cs)) / 1000))"

lemma ends_with_same: "bucket_at view rate burst s srv key tk c \<Longrightarrow> 0 \<le> rate
    \<Longrightarrow> ends_with view rate burst key s srv tk c c' 0"
  unfolding ends_with_def
  by (intro exI [of _ tk] exI [of _ c])
    (auto intro!: divide_right_mono mult_left_mono forward_ms_skip simp: of_int_le_iff simp del: forward_ms.simps)

lemma ends_with_script:
  assumes "bucket_at view rate burst s srv key (if 1 \<le> toks then toks - 1 else toks) c'"
    and "toks = refilled rate burst tk c c'" and "a \<le> 1" and "a = 1 \<Longrightarrow> 1 \<le> toks"
  shows "ends_with view rate burst key s srv tk c c' a"
  unfolding ends_with_def
proof (intro exI conjI allI)
  show "bucket_at view rate burst s srv key (if 1 \<le> toks then toks - 1 else toks) c'" by (rule assms(1))
  fix cs
  have "of_nat a + (if 1 \<le> toks then toks - 1 else toks) \<le> toks" using assms(3,4) by (cases "a = 1") auto
  also have "\<dots> \<le> tk + rate * of_int (max 0 (c' - c)) / 1000" unfolding assms(2) by (rule refilled_le)
  finally show "of_nat a + ((if 1 \<le> toks then toks - 1 else toks) + rate * of_int (forward_ms (c' # cs)) / 1000)
      \<le> tk + rate * of_int (forward_ms (c # c' # cs)) / 1000"
    by (simp add: distrib_left add_divide_distrib)
qed

lemma script_frame:
  assumes "hash_contract ops view" and "int_conversion to_int" and "sound_policy rate burst"
    and "redisTokenBucketScript ops srv key c' rate burst 1 (bucket_ms to_int rate burst) s = (r, s')"
    and "key' \<noteq> key" and "srv \<le> t'"
  shows "view s' t' key' = view s t' key'"
proof -
  from assms(3,4) obtain tokens where "s' = h_PEXPIRE ops srv key (bucket_ms to_int rate burst) (h_HSET ops srv key tokens c' s)"
    by (auto simp: redisTokenBucketScript_def sound_policy_def Let_def)
  with assms(1,5,6) bucket_ms_covers_refill(2) [OF assms(2,3)] show ?thesis by (simp add: hash_contract_def)
qed

lemma bucket_frame:
  "bucket_at view rate burst s t key tk c \<Longrightarrow> t \<le> srv \<Longrightarrow> (\<And>t'. srv \<le> t' \<Longrightarrow> view s' t' key = view s t' key)
    \<Longrightarrow> bucket_at view rate burst s' srv key tk c"
  unfolding bucket_at_def by (metis (no_types, lifting) order_trans)

text \<open>How a call ends once it has reached the script.\<close>

definition delivered_decision :: "Policy \<Rightarrow> int \<Rightarrow> int \<Rightarrow> Decision" where
  "delivered_decision policy a w =
     (if a = 1 then allowedDecision policy OutcomeAllowed
      else let wait = wrap64 (w * millisecond); secs = trunc_div wait second + 1
           in limitedDecision policy wait (if secs < 1 then 1 else secs))"

lemma delivered_outcome: "dec_Outcome (delivered_decision policy a w) = OutcomeAllowed \<longleftrightarrow> a = 1"
  by (auto simp: delivered_decision_def limitedDecision_def allowedDecision_def Let_def
      OutcomeAllowed_def OutcomeRateLimited_def)

lemma decide_cases:
  assumes "sound_policy (RatePerSecond policy) (Burst policy)" and "rb_client b = Some ops"
    and "redisTokenBucketScript ops srv (rb_redisKey b key) (unix_milli clock) (RatePerSecond policy) (Burst policy) 1
        (bucket_ms to_int (RatePerSecond policy) (Burst policy)) s = ((a, w), s1)"
  shows "Distributed_Decide (Some (NewDistributedLimiter (Some (Backend_Allow to_int net srv clock (Some b))) policy)) key s =
    (if key = [] then Some (allowedDecision policy OutcomeDegradedOpen, s)
     else case net of
       Delivered \<Rightarrow> Some (delivered_decision policy a w, s1)
     | LostRequest e \<Rightarrow> Some (allowedDecision policy OutcomeDegradedOpen, s)
     | LostReply e \<Rightarrow> Some (allowedDecision policy OutcomeDegradedOpen, s1))"
  using assms by (auto simp: Distributed_Decide_def NewDistributedLimiter_def Backend_Allow_def call_def
      read_reply_def script_reply_def redisLimiterInt64_def policy_Valid_def sound_policy_def bucket_ms_def
      delivered_decision_def Let_def split: outcome.splits)

lemma decide_step:
  assumes contract: "hash_contract ops view" "int_conversion to_int"
    and policy: "sound_policy (RatePerSecond policy) (Burst policy)"
    and client: "rb_client b = Some ops"
    and bucket: "bucket_at view (RatePerSecond policy) (Burst policy) s t key tk c"
    and time: "t \<le> rq_srv rq" "near (rq_srv rq) (unix_milli (rq_clock rq))"
  obtains d s' where "Distributed_Decide (Some (NewDistributedLimiter
        (Some (Backend_Allow to_int (rq_net rq) (rq_srv rq) (rq_clock rq) (Some b))) policy)) (rq_key rq) s = Some (d, s')"
    and "rb_redisKey b (rq_key rq) \<noteq> key \<Longrightarrow> bucket_at view (RatePerSecond policy) (Burst policy) s' (rq_srv rq) key tk c"
    and "rb_redisKey b (rq_key rq) = key \<Longrightarrow> ends_with view (RatePerSecond policy) (Burst policy) key s' (rq_srv rq) tk c
        (unix_milli (rq_clock rq)) (if dec_Outcome d = OutcomeAllowed then 1 else 0)"
proof -
  let ?R = "RatePerSecond policy" and ?B = "Burst policy" and ?c = "unix_milli (rq_clock rq)"
  have rate: "0 \<le> ?R" using policy by (simp add: sound_policy_def)
  obtain a w s1 where script: "redisTokenBucketScript ops (rq_srv rq) (rb_redisKey b (rq_key rq)) ?c ?R ?B 1
      (bucket_ms to_int ?R ?B) s = ((a, w), s1)" by (metis prod.exhaust)
  note dec = decide_cases [OF policy client script]
  have same: "bucket_at view ?R ?B s (rq_srv rq) key tk c" by (rule bucket_later [OF bucket time(1)])
  have other: "bucket_at view ?R ?B s1 (rq_srv rq) key tk c" if "rb_redisKey b (rq_key rq) \<noteq> key"
    using script_frame [OF contract policy script] that by (intro bucket_frame [OF bucket time(1)]) auto
  have hit: "ends_with view ?R ?B key s1 (rq_srv rq) tk c ?c n" if "rb_redisKey b (rq_key rq) = key"
      and "n = 0 \<or> n = 1 \<and> a = 1" for n
  proof -
    let ?toks = "refilled ?R ?B tk c ?c"
    from script_step [OF contract policy bucket time] obtain s' where
      run: "redisTokenBucketScript ops (rq_srv rq) key ?c ?R ?B 1 (bucket_ms to_int ?R ?B) s =
        (if 1 \<le> ?toks then (1, 0) else (0, \<lceil>(1 - ?toks) / ?R * 1000\<rceil>), s')"
      and at: "bucket_at view ?R ?B s' (rq_srv rq) key (if 1 \<le> ?toks then ?toks - 1 else ?toks) ?c" by blast
    from run script that(1) have s': "s' = s1" by simp
    from run script that(1) have "a = 1 \<Longrightarrow> 1 \<le> ?toks" by (simp split: if_splits)
    with that(2) show ?thesis by (intro ends_with_script [OF at [unfolded s'] refl]) auto
  qed
  have degraded: "OutcomeDegradedOpen \<noteq> OutcomeAllowed" "OutcomeRateLimited \<noteq> OutcomeAllowed"
    by (simp_all add: OutcomeDegradedOpen_def OutcomeAllowed_def OutcomeRateLimited_def)
  show thesis
  proof (cases "rq_key rq = [] \<or> (\<exists>e. rq_net rq = LostRequest e)")
    case True
    then have "Distributed_Decide (Some (NewDistributedLimiter
        (Some (Backend_Allow to_int (rq_net rq) (rq_srv rq) (rq_clock rq) (Some b))) policy)) (rq_key rq) s
        = Some (allowedDecision policy OutcomeDegradedOpen, s)" using dec by auto
    then show thesis by (rule that) (simp_all add: same allowedDecision_def degraded ends_with_same rate)
  next
    case False
    then obtain d where d: "Distributed_Decide (Some (NewDistributedLimiter
        (Some (Backend_Allow to_int (rq_net rq) (rq_srv rq) (rq_clock rq) (Some b))) policy)) (rq_key rq) s
        = Some (d, s1)"
      and one: "dec_Outcome d = OutcomeAllowed \<Longrightarrow> a = 1"
      using dec degraded
      by (cases "rq_net rq") (auto simp: delivered_outcome allowedDecision_def)
    from d show thesis by (rule that) (use one other hit in auto)
  qed
qed

lemma admitted_bound:
  assumes contract: "hash_contract ops view" "int_conversion to_int"
    and policy: "sound_policy (RatePerSecond policy) (Burst policy)"
    and client: "rb_client b = Some ops"
  shows "bucket_at view (RatePerSecond policy) (Burst policy) s t key tk c
    \<Longrightarrow> sorted (t # map rq_srv rqs) \<Longrightarrow> list_all (\<lambda>rq. near (rq_srv rq) (unix_milli (rq_clock rq))) rqs
    \<Longrightarrow> of_nat (admitted (rb_redisKey b) key rqs (decide_all to_int b policy rqs s))
        \<le> tk + RatePerSecond policy * of_int (forward_ms (c # clocks_of (rb_redisKey b) key rqs)) / 1000"
proof (induction rqs arbitrary: s t tk c)
  case Nil
  then show ?case by (simp add: admitted_def clocks_of_def bucket_at_def)
next
  case (Cons rq rqs)
  let ?n = "\<lambda>rqs ds. of_nat (admitted (rb_redisKey b) key rqs ds) :: rat"
  from Cons.prems have time: "t \<le> rq_srv rq" "near (rq_srv rq) (unix_milli (rq_clock rq))"
    and rest: "sorted (rq_srv rq # map rq_srv rqs)" "list_all (\<lambda>rq. near (rq_srv rq) (unix_milli (rq_clock rq))) rqs"
    by auto
  obtain d s' where d: "Distributed_Decide (Some (NewDistributedLimiter
        (Some (Backend_Allow to_int (rq_net rq) (rq_srv rq) (rq_clock rq) (Some b))) policy)) (rq_key rq) s = Some (d, s')"
    and other: "rb_redisKey b (rq_key rq) \<noteq> key \<Longrightarrow>
        bucket_at view (RatePerSecond policy) (Burst policy) s' (rq_srv rq) key tk c"
    and hit: "rb_redisKey b (rq_key rq) = key \<Longrightarrow> ends_with view (RatePerSecond policy) (Burst policy) key s' (rq_srv rq) tk c
        (unix_milli (rq_clock rq)) (if dec_Outcome d = OutcomeAllowed then 1 else 0)"
    by (rule decide_step [OF contract policy client Cons.prems(1) time]) blast
  note IH = Cons.IH [OF _ rest]
  show ?case
  proof (cases "rb_redisKey b (rq_key rq) = key")
    case False
    with IH [OF other] d show ?thesis by (simp add: admitted_def clocks_of_def)
  next
    case True
    let ?a = "if dec_Outcome d = OutcomeAllowed then 1 else 0 :: nat"
    from hit [OF True] obtain tk' c'' where at: "bucket_at view (RatePerSecond policy) (Burst policy) s' (rq_srv rq) key tk' c''"
      and pay: "\<And>cs. of_nat ?a + (tk' + RatePerSecond policy * of_int (forward_ms (c'' # cs)) / 1000)
          \<le> tk + RatePerSecond policy * of_int (forward_ms (c # unix_milli (rq_clock rq) # cs)) / 1000"
      unfolding ends_with_def by blast
    have "?n (rq # rqs) (decide_all to_int b policy (rq # rqs) s) = of_nat ?a + ?n rqs (decide_all to_int b policy rqs s')"
      using True d by (simp add: admitted_def)
    also have "\<dots> \<le> of_nat ?a + (tk' + RatePerSecond policy * of_int (forward_ms (c'' # clocks_of (rb_redisKey b) key rqs)) / 1000)"
      using IH [OF at] by simp
    also note pay
    finally show ?thesis using True by (simp add: clocks_of_def)
  qed
qed

section \<open>A server\<close>

type_synonym sample_hash = "string \<rightharpoonup> (rat \<times> int) \<times> instant"

definition sample_view :: "sample_hash bucket_view" where
  "sample_view s t key = (case s key of Some (v, e) \<Rightarrow> if t < e then Some v else None | None \<Rightarrow> None)"

text \<open>A hash without a time to live does not occur: \<open>HSET\<close> gives it none that has passed.\<close>

definition sample_hash_redis :: "sample_hash hash_redis" where
  "sample_hash_redis = \<lparr>
     h_HMGET = \<lambda>t key s. (map_option fst (sample_view s t key), map_option snd (sample_view s t key)),
     h_HSET = \<lambda>t key tokens ts s. s(key \<mapsto> ((tokens, ts), t)),
     h_PEXPIRE = \<lambda>t key ms s. (case s key of Some (v, e) \<Rightarrow> s(key \<mapsto> (v, t + ms * millisecond)) | None \<Rightarrow> s)\<rparr>"

lemma sample_hash_contract: "hash_contract sample_hash_redis sample_view"
  by (auto simp: hash_contract_def sample_hash_redis_def sample_view_def)

lemma floor_conversion: "int_conversion floor"
  by (simp add: int_conversion_def)

section \<open>Properties\<close>

text \<open>
  C3: However many clients ask, over whatever failures, and however their clocks run within two
  seconds of the server's, the limiter admits no more requests on a key than the burst and what
  is refilled while their clocks move forward.
\<close>
theorem bucket_bounds_admission:
  assumes "hash_contract ops view" and "int_conversion to_int"
    and "sound_policy (RatePerSecond policy) (Burst policy)"
    and "rb_client b = Some ops"
    and "sorted (map rq_srv rqs)" and "list_all (\<lambda>rq. near (rq_srv rq) (unix_milli (rq_clock rq))) rqs"
    and "\<forall>t. view s t key = None"
  shows "of_nat (admitted (rb_redisKey b) key rqs (decide_all to_int b policy rqs s))
    \<le> of_int (Burst policy) + RatePerSecond policy * of_int (forward_ms (clocks_of (rb_redisKey b) key rqs)) / 1000"
proof (cases "clocks_of (rb_redisKey b) key rqs")
  case Nil
  have "admitted (rb_redisKey b) key rqs ds = 0" for ds
    using Nil unfolding admitted_def clocks_of_def
    by (auto simp: filter_empty_conv dest: set_zip_leftD)
  with Nil assms(3) show ?thesis by (simp add: sound_policy_def)
next
  case (Cons c cs)
  let ?t = "if rqs = [] then 0 else rq_srv (hd rqs)"
  have "sorted (?t # map rq_srv rqs)" using assms(5) by (cases rqs) auto
  moreover have "bucket_at view (RatePerSecond policy) (Burst policy) s ?t key (of_int (Burst policy)) c"
    using assms(3,7) unfolding bucket_at_def
    by (intro conjI exI [of _ ?t]) (auto simp: refilled_def sound_policy_def min_def not_le add_less_same_cancel1)
  ultimately show ?thesis
    using admitted_bound [OF assms(1-4), where rqs = rqs and c = c] assms(6) Cons by fastforce
qed

definition sample_backend :: "sample_hash redisBackend" where
  "sample_backend = \<lparr>rb_client = Some sample_hash_redis, rb_keyFunc = None\<rparr>"

definition sample_policy :: "int \<Rightarrow> Policy" where
  "sample_policy burst = zero_policy\<lparr>RatePerSecond := 1, Burst := burst\<rparr>"

definition sample_request :: "instant \<Rightarrow> bucket_request" where
  "sample_request clock = \<lparr>rq_key = ''k'', rq_net = Delivered, rq_srv = 0, rq_clock = clock\<rparr>"

lemma sample_sound: "0 < burst \<Longrightarrow> burst < 2 ^ 30 \<Longrightarrow> sound_policy (RatePerSecond (sample_policy burst)) (Burst (sample_policy burst))"
proof -
  assume "0 < burst" "burst < 2 ^ 30"
  then have "(of_int burst :: rat) < of_int (2 ^ 30)" by (simp only: of_int_less_iff)
  with \<open>0 < burst\<close> show ?thesis by (simp add: sound_policy_def sample_policy_def second_def)
qed

theorem bucket_bounds_admission_witness:
  "of_nat (admitted (rb_redisKey sample_backend) ''k'' [sample_request 0, sample_request 0, sample_request 0, sample_request second]
      (decide_all floor sample_backend (sample_policy 2) [sample_request 0, sample_request 0, sample_request 0, sample_request second]
        Map.empty)) \<le> (3 :: rat)"
  using bucket_bounds_admission [OF sample_hash_contract floor_conversion sample_sound [of 2], where b = sample_backend
      and rqs = "[sample_request 0, sample_request 0, sample_request 0, sample_request second]" and s = Map.empty
      and key = "''k''"]
  by (simp add: sample_backend_def sample_request_def near_def unix_milli_def second_def millisecond_def
      sample_view_def clocks_of_def rb_redisKey_def sample_policy_def)

text \<open>One request of a client at \<open>clock\<close>, when the bucket was last counted at \<open>c\<close> and was empty.\<close>

lemma sample_step:
  assumes "sample_view s 0 ''k'' = (if fresh then None else Some (0, c))" and "near 0 (unix_milli clock)"
    and "fresh \<or> unix_milli clock \<le> c \<or> c + 1000 \<le> unix_milli clock"
  shows "\<exists>d s'. Distributed_Decide (Some (NewDistributedLimiter
      (Some (Backend_Allow floor Delivered 0 clock (Some sample_backend))) (sample_policy 1))) ''k'' s = Some (d, s')
    \<and> (dec_Outcome d = OutcomeAllowed \<longleftrightarrow> fresh \<or> c + 1000 \<le> unix_milli clock)
    \<and> sample_view s' 0 ''k'' = Some (0, unix_milli clock)"
proof -
  let ?a = "if fresh \<or> c + 1000 \<le> unix_milli clock then 1 else 0 :: int"
  let ?p = "sample_policy 1"
  have sound: "sound_policy (RatePerSecond ?p) (Burst ?p)" by (rule sample_sound) simp_all
  have later: "of_int (unix_milli clock - c) / 1000 \<ge> (1 :: rat)" if "c + 1000 \<le> unix_milli clock"
  proof -
    from that have "of_int 1000 \<le> (of_int (unix_milli clock - c) :: rat)" by (subst of_int_le_iff) simp
    then show ?thesis by simp
  qed
  obtain w s' where script: "redisTokenBucketScript sample_hash_redis 0 (rb_redisKey sample_backend ''k'') (unix_milli clock)
      (RatePerSecond ?p) (Burst ?p) 1 (bucket_ms floor (RatePerSecond ?p) (Burst ?p)) s = ((?a, w), s')"
    and view: "sample_view s' 0 ''k'' = Some (0, unix_milli clock)"
    using assms later bucket_ms_covers_refill(2) [OF floor_conversion sound]
    by (auto simp: redisTokenBucketScript_def sample_hash_redis_def sample_policy_def sample_backend_def rb_redisKey_def
        sample_view_def Let_def min_def max_def millisecond_def)
  from decide_cases [OF sound _ script, where net = Delivered] view show ?thesis
    by (auto simp: sample_backend_def delivered_outcome)
qed

text \<open>
  The clocks matter. The script stores the clock of each request even when it is behind the
  one stored, so two clients one second apart refill the bucket again and again: within one
  instant of the server any number of requests passes a limit of one per second.
\<close>
theorem skewed_clocks_refill_again:
  "\<exists>rqs. list_all (\<lambda>rq. rq_srv rq = 0 \<and> rq_clock rq \<in> {0, second}) rqs
     \<and> admitted (rb_redisKey sample_backend) ''k'' rqs
         (decide_all floor sample_backend (sample_policy 1) rqs Map.empty) = n"
proof -
  let ?run = "decide_all floor sample_backend (sample_policy 1)"
  let ?n = "\<lambda>rqs s. admitted (rb_redisKey sample_backend) ''k'' rqs (?run rqs s)"
  let ?pair = "[sample_request second, sample_request 0]"
  have near: "near 0 (unix_milli 0)" "near 0 (unix_milli second)" "unix_milli second = unix_milli 0 + 1000"
    by (simp_all add: near_def unix_milli_def second_def millisecond_def)
  have again: "?n (concat (replicate k ?pair)) s = k" if "sample_view s 0 ''k'' = Some (0, unix_milli 0)" for k s
    using that
  proof (induction k arbitrary: s)
    case (Suc k)
    from sample_step [where fresh = False and clock = second and s = s and c = "unix_milli 0"] Suc.prems near
    obtain d s1 where d: "Distributed_Decide (Some (NewDistributedLimiter
        (Some (Backend_Allow floor Delivered 0 second (Some sample_backend))) (sample_policy 1))) ''k'' s = Some (d, s1)"
      "dec_Outcome d = OutcomeAllowed" "sample_view s1 0 ''k'' = Some (0, unix_milli second)" by auto
    from sample_step [where fresh = False and clock = 0 and s = s1 and c = "unix_milli second"] d(3) near
    obtain d' s2 where d': "Distributed_Decide (Some (NewDistributedLimiter
        (Some (Backend_Allow floor Delivered 0 0 (Some sample_backend))) (sample_policy 1))) ''k'' s1 = Some (d', s2)"
      "dec_Outcome d' \<noteq> OutcomeAllowed" "sample_view s2 0 ''k'' = Some (0, unix_milli 0)" by auto
    from Suc.IH [OF d'(3)] d d' show ?case
      by (simp add: admitted_def sample_request_def rb_redisKey_def sample_backend_def)
  qed (simp add: admitted_def)
  show ?thesis
  proof (cases n)
    case 0
    then show ?thesis by (intro exI [of _ "[]"]) (simp add: admitted_def)
  next
    case (Suc k)
    from sample_step [where fresh = True and clock = 0 and s = Map.empty] near
    obtain d s1 where d: "Distributed_Decide (Some (NewDistributedLimiter
        (Some (Backend_Allow floor Delivered 0 0 (Some sample_backend))) (sample_policy 1))) ''k'' Map.empty = Some (d, s1)"
      "dec_Outcome d = OutcomeAllowed" "sample_view s1 0 ''k'' = Some (0, unix_milli 0)"
      by (auto simp: sample_view_def)
    let ?rqs = "sample_request 0 # concat (replicate k ?pair)"
    have "?n ?rqs Map.empty = n"
      using again [OF d(3), of k] d Suc
      by (simp add: admitted_def sample_request_def rb_redisKey_def sample_backend_def)
    moreover have "list_all (\<lambda>rq. rq_srv rq = 0 \<and> rq_clock rq \<in> {0, second}) ?rqs"
      by (auto simp: list_all_iff sample_request_def)
    ultimately show ?thesis by blast
  qed
qed

lemma Backend_Allow_delivered:
  assumes "sound_policy rate burst" and "rb_client b = Some ops" and "key \<noteq> []"
    and "redisTokenBucketScript ops srv (rb_redisKey b key) (unix_milli clock) rate burst 1
        (bucket_ms to_int rate burst) s = ((a, w), s1)"
  shows "Backend_Allow to_int Delivered srv clock (Some b) key rate burst s
    = (Inr (a = 1, wrap64 (w * millisecond)), s1)"
  using assms by (auto simp: Backend_Allow_def call_def read_reply_def script_reply_def redisLimiterInt64_def
      sound_policy_def bucket_ms_def)

lemma ceiling_scaled:
  fixes x :: rat
  assumes "x * 1000000 < 2 ^ 62"
  shows "\<lceil>x\<rceil> * 1000000 < 2 ^ 62 + 1000000"
proof -
  have "of_int \<lceil>x\<rceil> < x + 1" by linarith
  with assms have "(of_int (\<lceil>x\<rceil> * 1000000) :: rat) < of_int (2 ^ 62 + 1000000)" by simp
  then show ?thesis by (simp only: of_int_less_iff)
qed

lemma retry_fits:
  assumes "sound_policy rate burst" and "0 \<le> toks" and "toks < 1"
  shows "wrap64 (\<lceil>(1 - toks) / rate * 1000\<rceil> * millisecond) = \<lceil>(1 - toks) / rate * 1000\<rceil> * millisecond"
proof -
  let ?r = "\<lceil>(1 - toks) / rate * 1000\<rceil>"
  have pos: "0 < rate" "0 < burst" and fits: "of_int second * of_int burst / rate < 2 ^ 62"
    using assms(1) by (auto simp: sound_policy_def)
  have "0 \<le> (1 - toks) / rate * 1000" using assms(3) pos by simp
  then have r0: "0 \<le> ?r" by linarith
  have "(1 - toks) * 1000000000 \<le> of_int second * of_int burst"
  proof -
    have "(1 - toks) * 1000000000 \<le> 1 * 1000000000" using assms(2) by simp
    also have "\<dots> \<le> of_int second * of_int burst" using pos by (simp add: second_def)
    finally show ?thesis .
  qed
  then have "(1 - toks) * 1000000000 / rate \<le> of_int second * of_int burst / rate"
    using pos by (simp add: divide_right_mono)
  with fits have "(1 - toks) * 1000000000 / rate < 2 ^ 62" by (rule le_less_trans [rotated])
  then have "(1 - toks) / rate * 1000 * 1000000 < 2 ^ 62" by (simp add: algebra_simps)
  then have "?r * 1000000 < 2 ^ 62 + 1000000" by (rule ceiling_scaled)
  moreover have "wrap64 (r * 1000000) = r * 1000000" if "0 \<le> r" "r * 1000000 < 2 ^ 62 + 1000000" for r
    using that by (intro wrap64_id) auto
  ultimately show ?thesis using r0 unfolding millisecond_def by blast
qed

text \<open>
  The wait that comes with a refusal is enough: a client that waits as long as it was told
  is admitted, if nobody else has used the key since.
\<close>
theorem retry_after_suffices:
  assumes "hash_contract ops view" and "int_conversion to_int" and "sound_policy rate burst"
    and "rb_client b = Some ops" and "key \<noteq> []"
    and "bucket_at view rate burst s t (rb_redisKey b key) tk c"
    and "t \<le> srv" and "near srv (unix_milli clock)"
    and "Backend_Allow to_int Delivered srv clock (Some b) key rate burst s = (Inr (False, wait), s1)"
    and "\<forall>t'. srv' \<le> t' \<longrightarrow> view s2 t' (rb_redisKey b key) = view s1 t' (rb_redisKey b key)"
    and "srv \<le> srv'" and "near srv' (unix_milli clock')" and "clock + wait \<le> clock'"
  shows "fst (Backend_Allow to_int Delivered srv' clock' (Some b) key rate burst s2) = Inr (True, 0)"
proof -
  let ?k = "rb_redisKey b key" and ?c = "unix_milli clock" and ?c' = "unix_milli clock'"
  let ?toks = "refilled rate burst tk c ?c"
  let ?r = "\<lceil>(1 - ?toks) / rate * 1000\<rceil>"
  from script_step [OF assms(1-3,6-8)] obtain s' where
    run: "redisTokenBucketScript ops srv ?k ?c rate burst 1 (bucket_ms to_int rate burst) s =
      (if 1 \<le> ?toks then (1, 0) else (0, ?r), s')"
    and at: "bucket_at view rate burst s' srv ?k (if 1 \<le> ?toks then ?toks - 1 else ?toks) ?c" by blast
  from Backend_Allow_delivered [OF assms(3-5), where to_int = to_int and srv = srv and clock = clock and s = s] run assms(9)
  have few: "\<not> 1 \<le> ?toks" and s': "s' = s1" and wait: "wait = wrap64 (?r * millisecond)"
    by (auto split: if_splits)
  from at few s' have at1: "bucket_at view rate burst s1 srv ?k ?toks ?c" by simp
  then have "0 \<le> ?toks" by (simp add: bucket_at_def)
  with few wait retry_fits [OF assms(3), of ?toks] have wait: "wait = ?r * millisecond" by simp
  from unix_milli_mono [OF assms(13)] have "?r \<le> ?c' - ?c" by (simp add: wait unix_milli_add)
  moreover have "(1 - ?toks) / rate * 1000 \<le> of_int ?r" by (rule le_of_int_ceiling)
  ultimately have "(1 - ?toks) / rate * 1000 \<le> of_int (max 0 (?c' - ?c))"
    by (meson max.coboundedI2 of_int_le_iff order_trans)
  then have "1 \<le> ?toks + of_int (max 0 (?c' - ?c)) / 1000 * rate"
    using assms(3) by (simp add: sound_policy_def field_simps)
  then have full: "1 \<le> refilled rate burst ?toks ?c ?c'" using assms(3) by (simp add: refilled_def sound_policy_def)
  have at2: "bucket_at view rate burst s2 srv' ?k ?toks ?c"
    using assms(10) by (intro bucket_frame [OF at1 assms(11)]) auto
  from script_step [OF assms(1-3) at2 order_refl assms(12)] full obtain s3 where
    "redisTokenBucketScript ops srv' ?k ?c' rate burst 1 (bucket_ms to_int rate burst) s2 = ((1, 0), s3)" by auto
  from Backend_Allow_delivered [OF assms(3-5) this] show ?thesis by (simp add: wrap64_def)
qed

text \<open>An empty bucket: a first request at time 0 is told to wait a second.\<close>

lemma sample_bucket:
  "bucket_at sample_view 1 1 [''k'' \<mapsto> ((0, unix_milli 0), 6 * second)] 0 ''k'' 0 (unix_milli 0)"
proof -
  have full: "refilled 1 1 0 (unix_milli 0) c' = 1" if "6 * second \<le> t'" "near t' c'" for t' c'
  proof -
    from unix_milli_mono [OF that(1)] that(2) have "1000 \<le> c' - unix_milli 0"
      by (simp add: near_def unix_milli_def second_def millisecond_def)
    then have "of_int 1000 \<le> (of_int (max 0 (c' - unix_milli 0)) :: rat)" by (subst of_int_le_iff) simp
    then show ?thesis by (simp add: refilled_def min_def)
  qed
  then show ?thesis unfolding bucket_at_def
    by (intro conjI exI [of _ "6 * second"]) (auto simp: sample_view_def)
qed

theorem retry_after_suffices_witness:
  "fst (Backend_Allow floor Delivered second second (Some sample_backend) ''k'' 1 1
      (snd (Backend_Allow floor Delivered 0 0 (Some sample_backend) ''k'' 1 1 [''k'' \<mapsto> ((0, unix_milli 0), 6 * second)])))
    = Inr (True, 0)"
proof -
  let ?s = "[''k'' \<mapsto> ((0, unix_milli 0), 6 * second)] :: sample_hash"
  have sound: "sound_policy 1 1" by (simp add: sound_policy_def second_def)
  have near: "near 0 (unix_milli 0)" "near second (unix_milli second)" by (simp_all add: near_def)
  obtain s1 where s1: "Backend_Allow floor Delivered 0 0 (Some sample_backend) ''k'' 1 1 ?s = (Inr (False, second), s1)"
    by (simp add: Backend_Allow_def sample_backend_def sample_hash_redis_def call_def read_reply_def script_reply_def
        redisLimiterInt64_def redisTokenBucketScript_def rb_redisKey_def sample_view_def Let_def second_def millisecond_def
        wrap64_id)
  have "fst (Backend_Allow floor Delivered second second (Some sample_backend) ''k'' 1 1 s1) = Inr (True, 0)"
    by (rule retry_after_suffices [OF sample_hash_contract floor_conversion sound _ _ _ order_refl near(1) s1 _ _ near(2)])
      (use sample_bucket in \<open>simp_all add: sample_backend_def rb_redisKey_def second_def\<close>)
  with s1 show ?thesis by simp
qed

end
