(* ===== verification/Backpressure.thy ===== *)
theory Backpressure
  imports Go_Prelude
begin

text \<open>
  \<open>pkg/backpressure/limiter.go\<close>: a limiter of concurrent work, a channel of capacity
  \<open>maxInflight\<close> that holds one element per slot in use.

  The channel is the number of its elements. \<open>Acquire\<close> first computes until when it waits,
  then its \<open>select\<close> takes a slot or reports the end of the wait; which one, when both are
  possible, is not determined, so the choice is an argument. Requests interleave by
  \<open>inflight_step\<close>. Every operation returns the events it hands to the observer.
\<close>

section \<open>The limiter\<close>

record Limiter =
  sem :: nat
  maxInflight :: int
  bp_timeout :: duration
  bp_component :: string
  bp_dependency :: string

record bp_Options =
  opt_Component :: string
  opt_Dependency :: string

record bp_Event =
  bp_ev_Component :: string
  bp_ev_Dependency :: string
  bp_ev_Resource :: string
  bp_ev_Strategy :: string
  bp_ev_Outcome :: string
  bp_ev_Wait :: duration
  bp_ev_InFlight :: nat
  bp_ev_MaxInflight :: int
  bp_ev_Err :: "string option"

definition OutcomeAcquired :: string where "OutcomeAcquired = ''backpressure_acquired''"
definition OutcomeTimeout :: string where "OutcomeTimeout = ''backpressure_timeout''"
definition OutcomeReleased :: string where "OutcomeReleased = ''backpressure_released''"

definition NewLimiterWithOptions :: "int \<Rightarrow> duration \<Rightarrow> bp_Options \<Rightarrow> Limiter option" where
  "NewLimiterWithOptions mx timeout opts =
     (if mx \<le> 0 then None
      else Some \<lparr>sem = 0, maxInflight = mx, bp_timeout = timeout,
             bp_component = opt_Component opts, bp_dependency = opt_Dependency opts\<rparr>)"

definition NewLimiter :: "int \<Rightarrow> duration \<Rightarrow> Limiter option" where
  "NewLimiter mx timeout = NewLimiterWithOptions mx timeout \<lparr>opt_Component = [], opt_Dependency = []\<rparr>"

definition bp_observe :: "Limiter \<Rightarrow> string \<Rightarrow> duration \<Rightarrow> nat \<Rightarrow> string option \<Rightarrow> bp_Event" where
  "bp_observe l outcome wait inFlight err = \<lparr>bp_ev_Component = bp_component l, bp_ev_Dependency = bp_dependency l,
     bp_ev_Resource = ''downstream'', bp_ev_Strategy = ''semaphore'', bp_ev_Outcome = outcome, bp_ev_Wait = wait,
     bp_ev_InFlight = inFlight, bp_ev_MaxInflight = maxInflight l, bp_ev_Err = err\<rparr>"

text \<open>
  The instant at which the wait ends, if any: the deadline of the caller's context, unless
  the limiter's own timeout comes first. \<open>now1\<close> is the clock of \<open>time.Until\<close>, \<open>now2\<close> that of
  \<open>context.WithTimeout\<close>.
\<close>

definition wait_deadline :: "Limiter \<Rightarrow> instant option \<Rightarrow> instant \<Rightarrow> instant \<Rightarrow> instant option" where
  "wait_deadline l deadline now1 now2 =
     (if 0 < bp_timeout l \<and> (case deadline of None \<Rightarrow> True | Some d \<Rightarrow> bp_timeout l < time_sub d now1)
      then Some (now2 + bp_timeout l) else deadline)"

datatype choice = TakesSlot | WaitEnds string

datatype acquire_result = Unlimited | SlotTaken | WaitFailed string

text \<open>\<open>None\<close>: the choice is not possible now, the call goes on waiting.\<close>

definition bp_Acquire :: "Limiter option \<Rightarrow> choice \<Rightarrow> duration \<Rightarrow> (acquire_result \<times> bp_Event list \<times> Limiter option) option" where
  "bp_Acquire lim c waited =
     (case lim of
        None \<Rightarrow> Some (Unlimited, [], None)
      | Some l \<Rightarrow>
          (case c of
             TakesSlot \<Rightarrow>
               if int (sem l) < maxInflight l then
                 let l' = l\<lparr>sem := sem l + 1\<rparr>
                 in Some (SlotTaken, [bp_observe l' OutcomeAcquired waited (sem l') None], Some l')
               else None
           | WaitEnds err \<Rightarrow>
               Some (WaitFailed err, [bp_observe l OutcomeTimeout waited (sem l) (Some err)], Some l)))"

text \<open>
  The release function an \<open>Acquire\<close> returned. Receiving from the empty channel blocks
  (\<open>None\<close>); the functions of a nil limiter and of a failed wait do nothing.
\<close>

definition bp_release :: "acquire_result \<Rightarrow> Limiter option \<Rightarrow> (bp_Event list \<times> Limiter option) option" where
  "bp_release r lim =
     (case (r, lim) of
        (SlotTaken, Some l) \<Rightarrow>
          if sem l = 0 then None
          else let l' = l\<lparr>sem := sem l - 1\<rparr> in Some ([bp_observe l' OutcomeReleased 0 (sem l') None], Some l')
      | _ \<Rightarrow> Some ([], lim))"

record bp_Stats =
  bp_st_Component :: string
  bp_st_Name :: string
  bp_st_Dependency :: string
  bp_st_Strategy :: string
  bp_st_Enabled :: bool
  bp_st_MaxInflight :: int
  bp_st_InFlight :: nat
  bp_st_TimeoutMillis :: int
  bp_st_Degraded :: bool
  bp_st_Reason :: string

definition bp_stats :: "Limiter option \<Rightarrow> string \<Rightarrow> bp_Stats" where
  "bp_stats lim name =
     (case lim of
        None \<Rightarrow> \<lparr>bp_st_Component = [], bp_st_Name = name, bp_st_Dependency = [], bp_st_Strategy = [],
            bp_st_Enabled = False, bp_st_MaxInflight = 0, bp_st_InFlight = 0, bp_st_TimeoutMillis = 0,
            bp_st_Degraded = True, bp_st_Reason = ''backpressure limiter disabled''\<rparr>
      | Some l \<Rightarrow> \<lparr>bp_st_Component = bp_component l,
            bp_st_Name = (if name = [] then bp_dependency l else name),
            bp_st_Dependency = bp_dependency l, bp_st_Strategy = ''semaphore'', bp_st_Enabled = True,
            bp_st_MaxInflight = maxInflight l, bp_st_InFlight = sem l,
            bp_st_TimeoutMillis = trunc_div (bp_timeout l) millisecond, bp_st_Degraded = False, bp_st_Reason = []\<rparr>)"

section \<open>Concurrent requests\<close>

datatype request = Outside | Working | Gone | GaveUp

type_synonym traffic = "Limiter \<times> (nat \<Rightarrow> request)"

inductive inflight_step :: "traffic \<Rightarrow> traffic \<Rightarrow> bool" where
  enters: "rs i = Outside \<Longrightarrow> bp_Acquire (Some l) TakesSlot w = Some (SlotTaken, evs, Some l')
    \<Longrightarrow> inflight_step (l, rs) (l', rs(i := Working))"
| gives_up: "rs i = Outside \<Longrightarrow> bp_Acquire (Some l) (WaitEnds err) w = Some (WaitFailed err, evs, Some l')
    \<Longrightarrow> inflight_step (l, rs) (l', rs(i := GaveUp))"
| leaves_step: "rs i = Working \<Longrightarrow> bp_release SlotTaken (Some l) = Some (evs, Some l')
    \<Longrightarrow> inflight_step (l, rs) (l', rs(i := Gone))"

text \<open>The same with callers that call their release function again after they have left.\<close>

inductive careless_step :: "traffic \<Rightarrow> traffic \<Rightarrow> bool" where
  proper: "inflight_step t t' \<Longrightarrow> careless_step t t'"
| again: "rs i = Gone \<Longrightarrow> bp_release SlotTaken (Some l) = Some (evs, Some l')
    \<Longrightarrow> careless_step (l, rs) (l', rs)"

definition working :: "(nat \<Rightarrow> request) \<Rightarrow> nat set" where
  "working rs = {i. rs i = Working}"

definition traffic_inv :: "int \<Rightarrow> traffic \<Rightarrow> bool" where
  "traffic_inv mx t \<longleftrightarrow> finite (working (snd t)) \<and> card (working (snd t)) = sem (fst t)
     \<and> int (sem (fst t)) \<le> mx \<and> maxInflight (fst t) = mx"

lemma working_upd:
  "working (rs(i := r)) = (if r = Working then insert i (working rs) else working rs - {i})"
  by (auto simp: working_def)

lemma inflight_step_inv [go_inv]:
  assumes "inflight_step t t'" and "traffic_inv mx t"
  shows "traffic_inv mx t'"
  using assms
proof cases
  case (enters rs i l w evs l')
  then have "i \<notin> working rs" by (simp add: working_def)
  with enters assms(2) show ?thesis
    by (auto simp: traffic_inv_def bp_Acquire_def working_upd Let_def split: if_splits)
next
  case (gives_up rs i l err w evs l')
  then have "i \<notin> working rs" by (simp add: working_def)
  with gives_up assms(2) show ?thesis
    by (simp add: traffic_inv_def bp_Acquire_def working_upd)
next
  case (leaves_step rs i l evs l')
  then have "i \<in> working rs" by (simp add: working_def)
  with leaves_step assms(2) show ?thesis
    by (auto simp: traffic_inv_def bp_release_def working_upd Let_def card_Diff_singleton split: if_splits)
qed

section \<open>Properties\<close>

text \<open>
  C19: Never more than \<open>maxInflight\<close> requests work at once, however acquisitions, timeouts and
  releases interleave, provided each release function is called once; and the limiter's
  count is the number of requests that work.
\<close>
theorem inflight_is_bounded:
  assumes "NewLimiter mx timeout = Some l0" and "inflight_step\<^sup>*\<^sup>* (l0, \<lambda>_. Outside) (l, rs)"
  shows "int (card (working rs)) \<le> mx \<and> bp_st_InFlight (bp_stats (Some l) name) = card (working rs)"
proof -
  have "traffic_inv mx (l0, \<lambda>_. Outside)"
    using assms(1) by (auto simp: traffic_inv_def working_def NewLimiter_def NewLimiterWithOptions_def split: if_splits)
  with assms(2) have "traffic_inv mx (l, rs)"
    by (induction rule: rtranclp_induct) (auto intro: go_inv)
  then show ?thesis by (simp add: traffic_inv_def bp_stats_def)
qed

theorem inflight_is_bounded_witness:
  "int (card (working ((\<lambda>_. Outside)(0 := Working)))) \<le> 1"
proof -
  have "inflight_step (the (NewLimiter 1 0), \<lambda>_. Outside) ((the (NewLimiter 1 0))\<lparr>sem := 1\<rparr>, (\<lambda>_. Outside)(0 := Working))"
    by (rule enters [where w = 0]) (simp_all add: bp_Acquire_def NewLimiter_def NewLimiterWithOptions_def Let_def)
  from r_into_rtranclp [of inflight_step, OF this] show ?thesis
    using inflight_is_bounded [of 1 0 "the (NewLimiter 1 0)" "(the (NewLimiter 1 0))\<lparr>sem := 1\<rparr>"
        "(\<lambda>_. Outside)(0 := Working)" "[]"]
    by (simp add: NewLimiter_def NewLimiterWithOptions_def)
qed

text \<open>
  The release function is not idempotent. Called twice, it gives away the slot of another
  request: with one slot, two requests work at the same time.
\<close>
theorem double_release_overcommits:
  "\<exists>l rs. careless_step\<^sup>*\<^sup>* (the (NewLimiter 1 0), \<lambda>_. Outside) (l, rs) \<and> maxInflight l = 1 \<and> card (working rs) = 2"
proof -
  let ?l0 = "the (NewLimiter 1 0)" and ?r0 = "\<lambda>_. Outside"
  let ?l1 = "?l0\<lparr>sem := 1\<rparr>"
  have l0: "?l0 = \<lparr>sem = 0, maxInflight = 1, bp_timeout = 0, bp_component = [], bp_dependency = []\<rparr>"
    by (simp add: NewLimiter_def NewLimiterWithOptions_def)
  have enter: "careless_step (?l0, rs) (?l1, rs(i := Working))" if "rs i = Outside" for rs i
    by (rule proper, rule enters [of rs i ?l0 0]) (simp_all add: that l0 bp_Acquire_def Let_def)
  have leave: "careless_step (?l1, rs) (?l0, rs(i := Gone))" if "rs i = Working" for rs i
    by (rule proper, rule leaves_step) (simp_all add: that l0 bp_release_def Let_def)
  have twice: "careless_step (?l1, rs) (?l0, rs)" if "rs i = Gone" for rs i
    by (rule again [of rs i]) (simp_all add: that l0 bp_release_def Let_def)
  let ?r1 = "?r0(0 := Working)" let ?r2 = "?r1(0 := Gone)" let ?r3 = "?r2(Suc 0 := Working)"
  have "careless_step (?l0, ?r0) (?l1, ?r1)" by (rule enter) simp
  moreover have "careless_step (?l1, ?r1) (?l0, ?r2)" by (rule leave) simp
  moreover have "careless_step (?l0, ?r2) (?l1, ?r3)" by (rule enter) simp
  moreover have "careless_step (?l1, ?r3) (?l0, ?r3)" by (rule twice [of _ 0]) simp
  moreover have "careless_step (?l0, ?r3) (?l1, ?r3(2 := Working))" by (rule enter) simp
  ultimately have "careless_step\<^sup>*\<^sup>* (?l0, ?r0) (?l1, ?r3(2 := Working))"
    by (meson converse_rtranclp_into_rtranclp rtranclp.rtrancl_refl)
  moreover have "working (?r3(2 := Working)) = {1, 2}" by (auto simp: working_def)
  ultimately show ?thesis
    using l0 by (metis (no_types, lifting) Limiter.select_convs(2) Limiter.update_convs(1) card_2_iff numeral_eq_one_iff
        semiring_norm(85))
qed

end
