(* ===== verification/Process_Runtime.thy ===== *)
theory Process_Runtime
  imports Go_Prelude "HOL-Library.Multiset"
begin

text \<open>
  \<open>pkg/processruntime\<close> and \<open>pkg/shutdown\<close>: start-up stages run in order, long-running services
  run side by side, shutdown hooks run in order, shutdown callbacks run side by side between
  the start and the finish of a shutdown manager.

  A stage, hook or callback is a function on a state \<open>'s\<close> that returns an error or nil; the
  errors handed to a handler are a list. Goroutines interleave: the group of services is a
  step relation, and the callbacks of a shutdown run in any order, an argument.
\<close>

section \<open>Stages\<close>

record 's Stage =
  stage_Name :: string
  stage_Run :: "'s \<Rightarrow> string option \<times> 's"

fun run_stages :: "'s Stage option list \<Rightarrow> 's \<Rightarrow> (string \<times> string) option \<times> 's" where
  "run_stages [] s = (None, s)"
| "run_stages (None # stages) s = run_stages stages s"
| "run_stages (Some stage # stages) s =
     (case stage_Run stage s of
        (Some err, s') \<Rightarrow> (Some (stage_Name stage, err), s')
      | (None, s') \<Rightarrow> run_stages stages s')"

text \<open>The result: the prepared output, the name of the failed stage and its error.\<close>

definition Runner_Run ::
    "'s \<Rightarrow> 's option \<Rightarrow> 's Stage option list \<Rightarrow> ('s \<Rightarrow> 'p) option \<Rightarrow> 'p
     \<Rightarrow> ('p \<times> string \<times> string option) \<times> 's" where
  "Runner_Run zero_state state stages buildPrepared zero =
     (let s0 = (case state of None \<Rightarrow> zero_state | Some s \<Rightarrow> s)
      in case run_stages stages s0 of
        (Some (name, err), s) \<Rightarrow> ((zero, name, Some err), s)
      | (None, s) \<Rightarrow>
          (case buildPrepared of
             None \<Rightarrow> ((zero, [], None), s)
           | Some build \<Rightarrow> ((build s, [], None), s)))"

section \<open>Shutdown hooks\<close>

record 's ShutdownHook =
  hook_name :: string
  hook_run :: "('s \<Rightarrow> string option \<times> 's) option"

type_synonym 's Lifecycle = "'s ShutdownHook list"

definition hook_Run :: "'s ShutdownHook \<Rightarrow> 's \<Rightarrow> string option \<times> 's" where
  "hook_Run h s = (case hook_run h of None \<Rightarrow> (None, s) | Some run \<Rightarrow> run s)"

definition AddShutdownHook ::
    "string \<Rightarrow> ('s \<Rightarrow> string option \<times> 's) option \<Rightarrow> 's Lifecycle option \<Rightarrow> 's Lifecycle option" where
  "AddShutdownHook name run l =
     (case (l, run) of
        (Some hooks, Some f) \<Rightarrow> Some (hooks @ [\<lparr>hook_name = name, hook_run = Some f\<rparr>])
      | _ \<Rightarrow> l)"

text \<open>The last component lists what the error handler was given.\<close>

fun Lifecycle_Run :: "'s Lifecycle \<Rightarrow> bool \<Rightarrow> 's \<Rightarrow> 's \<times> (string \<times> string) list" where
  "Lifecycle_Run [] has_onError s = (s, [])"
| "Lifecycle_Run (hook # hooks) has_onError s =
     (case hook_Run hook s of
        (err, s') \<Rightarrow>
          (case Lifecycle_Run hooks has_onError s' of
             (s'', reported) \<Rightarrow>
               (s'', (case err of Some e \<Rightarrow> if has_onError then [(hook_name hook, e)] else [] | None \<Rightarrow> [])
                       @ reported)))"

section \<open>Groups of services\<close>

text \<open>
  A service without a function is left out; \<open>answers\<close> are what the others return when they
  return. A goroutine sends its error before it counts itself as finished.
\<close>

datatype service_phase = Running | ErrorSent | Finished

record run_group =
  rg_phase :: "nat \<Rightarrow> service_phase"
  rg_errCh :: "string list"
  rg_done :: bool
  rg_result :: "string option option"

definition group_start :: run_group where
  "group_start = \<lparr>rg_phase = \<lambda>_. Running, rg_errCh = [], rg_done = False, rg_result = None\<rparr>"

inductive group_step :: "string option list \<Rightarrow> run_group \<Rightarrow> run_group \<Rightarrow> bool"
  for answers where
  sends: "i < length answers \<Longrightarrow> rg_phase g i = Running \<Longrightarrow> answers ! i = Some err
    \<Longrightarrow> group_step answers g (g\<lparr>rg_phase := (rg_phase g)(i := ErrorSent), rg_errCh := rg_errCh g @ [err]\<rparr>)"
| fails_done: "i < length answers \<Longrightarrow> rg_phase g i = ErrorSent
    \<Longrightarrow> group_step answers g (g\<lparr>rg_phase := (rg_phase g)(i := Finished)\<rparr>)"
| ends: "i < length answers \<Longrightarrow> rg_phase g i = Running \<Longrightarrow> answers ! i = None
    \<Longrightarrow> group_step answers g (g\<lparr>rg_phase := (rg_phase g)(i := Finished)\<rparr>)"
| closes: "\<forall>i < length answers. rg_phase g i = Finished \<Longrightarrow> \<not> rg_done g
    \<Longrightarrow> group_step answers g (g\<lparr>rg_done := True\<rparr>)"
| returns_error: "rg_result g = None \<Longrightarrow> rg_errCh g = err # rest
    \<Longrightarrow> group_step answers g (g\<lparr>rg_errCh := rest, rg_result := Some (Some err)\<rparr>)"
| returns_nil: "rg_result g = None \<Longrightarrow> rg_done g
    \<Longrightarrow> group_step answers g (g\<lparr>rg_result := Some None\<rparr>)"

text \<open>\<open>RunGroup.Run\<close>: the error of the shutdown manager, nil without services, or the group.\<close>

datatype group_run = ReturnsAtOnce "string option" | RunsServices "string option list"

definition RunGroup_Run :: "(unit \<Rightarrow> string option) option \<Rightarrow> string option option list \<Rightarrow> group_run" where
  "RunGroup_Run startShutdown services =
     (case (case startShutdown of None \<Rightarrow> None | Some f \<Rightarrow> f ()) of
        Some err \<Rightarrow> ReturnsAtOnce (Some err)
      | None \<Rightarrow>
          (let active = map the (filter (\<lambda>s. s \<noteq> None) services)
           in if active = [] then ReturnsAtOnce None else RunsServices active))"

section \<open>Graceful shutdown\<close>

record 's ShutdownManager =
  sm_Name :: string
  sm_Start :: "'s \<Rightarrow> string option \<times> 's"
  sm_ShutdownStart :: "'s \<Rightarrow> string option \<times> 's"
  sm_ShutdownFinish :: "'s \<Rightarrow> string option \<times> 's"

record 's GracefulShutdown =
  gs_callbacks :: "(string \<Rightarrow> 's \<Rightarrow> string option \<times> 's) list"
  gs_managers :: "'s ShutdownManager list"
  gs_hasHandler :: bool

definition gs_New :: "'s GracefulShutdown" where
  "gs_New = \<lparr>gs_callbacks = [], gs_managers = [], gs_hasHandler = False\<rparr>"

definition AddShutdownManager :: "'s ShutdownManager \<Rightarrow> 's GracefulShutdown \<Rightarrow> 's GracefulShutdown" where
  "AddShutdownManager manager gs = gs\<lparr>gs_managers := gs_managers gs @ [manager]\<rparr>"

definition AddShutdownCallback ::
    "(string \<Rightarrow> 's \<Rightarrow> string option \<times> 's) \<Rightarrow> 's GracefulShutdown \<Rightarrow> 's GracefulShutdown" where
  "AddShutdownCallback callback gs = gs\<lparr>gs_callbacks := gs_callbacks gs @ [callback]\<rparr>"

definition SetErrorHandler :: "bool \<Rightarrow> 's GracefulShutdown \<Rightarrow> 's GracefulShutdown" where
  "SetErrorHandler given gs = gs\<lparr>gs_hasHandler := given\<rparr>"

fun start_managers :: "'s ShutdownManager list \<Rightarrow> 's \<Rightarrow> string option \<times> 's" where
  "start_managers [] s = (None, s)"
| "start_managers (m # ms) s =
     (case sm_Start m s of (Some err, s') \<Rightarrow> (Some err, s') | (None, s') \<Rightarrow> start_managers ms s')"

definition gs_Start :: "'s GracefulShutdown \<Rightarrow> 's \<Rightarrow> string option \<times> 's" where
  "gs_Start gs s = start_managers (gs_managers gs) s"

definition ReportError :: "'s GracefulShutdown \<Rightarrow> string option \<Rightarrow> string list" where
  "ReportError gs err = (case err of Some e \<Rightarrow> if gs_hasHandler gs then [e] else [] | None \<Rightarrow> [])"

fun run_callbacks ::
    "'s GracefulShutdown \<Rightarrow> string \<Rightarrow> (string \<Rightarrow> 's \<Rightarrow> string option \<times> 's) list \<Rightarrow> 's \<Rightarrow> 's \<times> string list" where
  "run_callbacks gs name [] s = (s, [])"
| "run_callbacks gs name (cb # cbs) s =
     (case cb name s of
        (err, s') \<Rightarrow> (case run_callbacks gs name cbs s' of (s'', reported) \<Rightarrow> (s'', ReportError gs err @ reported)))"

text \<open>\<open>order\<close> lists the callbacks in the order in which their goroutines run.\<close>

definition StartShutdown :: "'s GracefulShutdown \<Rightarrow> 's ShutdownManager \<Rightarrow> nat list \<Rightarrow> 's \<Rightarrow> 's \<times> string list" where
  "StartShutdown gs sm order s =
     (case sm_ShutdownStart sm s of
        (err1, s1) \<Rightarrow>
          (case run_callbacks gs (sm_Name sm) (map (\<lambda>i. gs_callbacks gs ! i) order) s1 of
             (s2, reported) \<Rightarrow>
               (case sm_ShutdownFinish sm s2 of
                  (err3, s3) \<Rightarrow> (s3, ReportError gs err1 @ reported @ ReportError gs err3))))"

section \<open>Lemmas\<close>

text \<open>Stages, hooks and callbacks that only log that they ran, with a given answer.\<close>

definition log_stage :: "string \<times> string option \<Rightarrow> string list Stage" where
  "log_stage d = \<lparr>stage_Name = fst d, stage_Run = \<lambda>log. (snd d, log @ [fst d])\<rparr>"

definition log_hook :: "string \<times> string option \<Rightarrow> string list ShutdownHook" where
  "log_hook d = \<lparr>hook_name = fst d, hook_run = Some (\<lambda>log. (snd d, log @ [fst d]))\<rparr>"

definition log_callback :: "string \<times> string option \<Rightarrow> string \<Rightarrow> string list \<Rightarrow> string option \<times> string list" where
  "log_callback d name log = (snd d, log @ [fst d @ name])"

definition log_manager :: "string \<Rightarrow> string list ShutdownManager" where
  "log_manager name = \<lparr>sm_Name = name, sm_Start = \<lambda>log. (None, log),
     sm_ShutdownStart = \<lambda>log. (None, log @ [''start'']), sm_ShutdownFinish = \<lambda>log. (None, log @ [''finish''])\<rparr>"

lemma run_log_stages:
  "run_stages (map (\<lambda>d. Some (log_stage d)) ds) log =
     (case dropWhile (\<lambda>d. snd d = None) ds of
        [] \<Rightarrow> (None, log @ map fst ds)
      | d # _ \<Rightarrow> (Some (fst d, the (snd d)), log @ map fst (takeWhile (\<lambda>d. snd d = None) ds) @ [fst d]))"
  by (induction ds arbitrary: log) (auto simp: log_stage_def simp del: dropWhile_eq_Nil_conv split: list.split)

lemma ReportError_nil [simp]: "ReportError gs None = []"
  by (simp add: ReportError_def)

lemma run_log_callbacks:
  "run_callbacks gs name (map log_callback ds) log =
     (log @ map (\<lambda>d. fst d @ name) ds, concat (map (\<lambda>d. ReportError gs (snd d)) ds))"
  by (induction ds arbitrary: log) (auto simp: log_callback_def)

text \<open>The group of services: what has been sent, and when the group is done.\<close>

definition group_inv :: "string option list \<Rightarrow> run_group \<Rightarrow> bool" where
  "group_inv answers g \<longleftrightarrow>
     (\<forall>err \<in> set (rg_errCh g). Some err \<in> set answers)
     \<and> (rg_done g \<longrightarrow> (\<forall>i < length answers. rg_phase g i = Finished))
     \<and> (case rg_result g of
          None \<Rightarrow> True
        | Some None \<Rightarrow> rg_done g
        | Some (Some err) \<Rightarrow> Some err \<in> set answers)"

lemma group_step_inv [go_inv]: "group_step answers g g' \<Longrightarrow> group_inv answers g \<Longrightarrow> group_inv answers g'"
  by (induction rule: group_step.induct)
    (auto simp: group_inv_def in_set_conv_nth split: option.splits)

lemma group_start_inv [go_inv]: "group_inv answers group_start"
  by (simp add: group_start_def group_inv_def)

lemma group_run_inv: "(group_step answers)\<^sup>*\<^sup>* group_start g \<Longrightarrow> group_inv answers g"
  by (induction rule: rtranclp_induct) (auto intro: go_inv)

lemma service_can_finish:
  assumes "i < length answers"
  shows "\<exists>g'. (group_step answers)\<^sup>*\<^sup>* g g' \<and> rg_result g' = rg_result g
      \<and> rg_phase g' = (rg_phase g)(i := Finished)"
proof (cases "rg_phase g i")
  case Running
  show ?thesis
  proof (cases "answers ! i")
    case None
    from ends [OF assms Running None] show ?thesis by (metis (no_types, lifting) r_into_rtranclp
          run_group.select_convs(1) run_group.select_convs(4) run_group.surjective run_group.update_convs(1))
  next
    case (Some err)
    let ?g1 = "g\<lparr>rg_phase := (rg_phase g)(i := ErrorSent), rg_errCh := rg_errCh g @ [err]\<rparr>"
    let ?g2 = "?g1\<lparr>rg_phase := (rg_phase ?g1)(i := Finished)\<rparr>"
    have "group_step answers g ?g1" by (rule sends [OF assms Running Some])
    moreover have "group_step answers ?g1 ?g2" by (rule fails_done [OF assms]) simp
    ultimately have "(group_step answers)\<^sup>*\<^sup>* g ?g2" by simp
    moreover have "rg_result ?g2 = rg_result g" "rg_phase ?g2 = (rg_phase g)(i := Finished)" by simp_all
    ultimately show ?thesis by blast
  qed
next
  case ErrorSent
  let ?g1 = "g\<lparr>rg_phase := (rg_phase g)(i := Finished)\<rparr>"
  have "(group_step answers)\<^sup>*\<^sup>* g ?g1" by (rule r_into_rtranclp, rule fails_done [OF assms ErrorSent])
  moreover have "rg_result ?g1 = rg_result g" "rg_phase ?g1 = (rg_phase g)(i := Finished)" by simp_all
  ultimately show ?thesis by blast
next
  case Finished
  then show ?thesis by (metis fun_upd_triv rtranclp.rtrancl_refl)
qed

lemma services_can_finish:
  "k \<le> length answers \<Longrightarrow> \<exists>g'. (group_step answers)\<^sup>*\<^sup>* g g' \<and> rg_result g' = rg_result g
      \<and> (\<forall>i < k. rg_phase g' i = Finished)"
proof (induction k)
  case 0
  show ?case by blast
next
  case (Suc k)
  then obtain g1 where g1: "(group_step answers)\<^sup>*\<^sup>* g g1" "rg_result g1 = rg_result g"
      "\<forall>i < k. rg_phase g1 i = Finished" by auto
  from Suc.prems service_can_finish [of k answers g1] obtain g2 where
    "(group_step answers)\<^sup>*\<^sup>* g1 g2" "rg_result g2 = rg_result g1" "rg_phase g2 = (rg_phase g1)(k := Finished)"
    by auto
  with g1 have "(group_step answers)\<^sup>*\<^sup>* g g2" "rg_result g2 = rg_result g" "\<forall>i < Suc k. rg_phase g2 i = Finished"
    by (auto simp: less_Suc_eq)
  then show ?case by blast
qed

section \<open>Properties\<close>

text \<open>
  Stages run in order up to the first failure, which is reported with the stage's name;
  the prepared output is built only when all have succeeded.
\<close>
theorem runner_stops_at_first_failure:
  "Runner_Run [] None (map (\<lambda>d. Some (log_stage d)) ds) (Some build) zero =
     (case dropWhile (\<lambda>d. snd d = None) ds of
        [] \<Rightarrow> ((build (map fst ds), [], None), map fst ds)
      | d # _ \<Rightarrow> ((zero, fst d, snd d), map fst (takeWhile (\<lambda>d. snd d = None) ds) @ [fst d]))"
proof (cases "dropWhile (\<lambda>d. snd d = None) ds")
  case (Cons d rest)
  with hd_dropWhile [of "\<lambda>d. snd d = None" ds] have "snd d \<noteq> None" by simp
  with Cons show ?thesis by (auto simp: Runner_Run_def run_log_stages)
next
  case Nil
  show ?thesis unfolding Runner_Run_def run_log_stages Nil by simp
qed

text \<open>
  C34: A group of services returns an error only if one of its services returned it, and nil
  only when every service has returned.
\<close>
theorem group_result_is_sound:
  assumes "(group_step answers)\<^sup>*\<^sup>* group_start g" and "rg_result g = Some r"
  shows "case r of
      Some err \<Rightarrow> Some err \<in> set answers
    | None \<Rightarrow> list_all (\<lambda>i. rg_phase g i = Finished) [0 ..< length answers]"
  using group_run_inv [OF assms(1)] assms(2)
  by (auto simp: group_inv_def list_all_iff split: option.splits)

theorem group_result_is_sound_witness:
  "Some ''e'' \<in> set [None, Some ''e'']"
proof -
  let ?a = "[None, Some ''e'']"
  have "group_step ?a group_start (group_start\<lparr>rg_phase := (rg_phase group_start)(1 := ErrorSent),
      rg_errCh := rg_errCh group_start @ [''e'']\<rparr>)"
    by (rule sends) (simp_all add: group_start_def)
  moreover have "group_step ?a (group_start\<lparr>rg_phase := (rg_phase group_start)(1 := ErrorSent),
      rg_errCh := rg_errCh group_start @ [''e'']\<rparr>)
     (group_start\<lparr>rg_phase := (rg_phase group_start)(1 := ErrorSent), rg_errCh := [], rg_result := Some (Some ''e'')\<rparr>)"
    using returns_error [of "group_start\<lparr>rg_phase := (rg_phase group_start)(1 := ErrorSent),
      rg_errCh := rg_errCh group_start @ [''e'']\<rparr>" "''e''" "[]" ?a]
    by (simp add: group_start_def)
  ultimately have "(group_step ?a)\<^sup>*\<^sup>* group_start (group_start\<lparr>rg_phase := (rg_phase group_start)(1 := ErrorSent),
      rg_errCh := [], rg_result := Some (Some ''e'')\<rparr>)"
    by (meson converse_rtranclp_into_rtranclp rtranclp.rtrancl_refl)
  from group_result_is_sound [OF this, of "Some ''e''"] show ?thesis by simp
qed

text \<open>
  A group never gets stuck: from every state in which it has not returned yet it can still
  return, once its services do.
\<close>
theorem group_can_return:
  "\<exists>g'. (group_step answers)\<^sup>*\<^sup>* g g' \<and> rg_result g' = (if rg_result g = None then Some None else rg_result g)"
proof (cases "rg_result g")
  case None
  from services_can_finish [of "length answers" answers g] obtain g1 where
    g1: "(group_step answers)\<^sup>*\<^sup>* g g1" "rg_result g1 = None" "\<forall>i < length answers. rg_phase g1 i = Finished"
    using None by auto
  let ?g2 = "if rg_done g1 then g1 else g1\<lparr>rg_done := True\<rparr>"
  have "(group_step answers)\<^sup>*\<^sup>* g1 ?g2" using closes [OF g1(3)] by auto
  moreover have "group_step answers ?g2 (?g2\<lparr>rg_result := Some None\<rparr>)"
    by (rule returns_nil) (auto simp: g1)
  ultimately have "(group_step answers)\<^sup>*\<^sup>* g (?g2\<lparr>rg_result := Some None\<rparr>)"
    using g1(1) by (meson rtranclp.rtrancl_into_rtrancl rtranclp_trans)
  with None show ?thesis by (auto intro!: exI [of _ "?g2\<lparr>rg_result := Some None\<rparr>"])
qed auto

text \<open>
  The first error can be lost. When the last service fails, the group may find itself done
  and return nil, although the error waits in its channel.
\<close>
theorem group_may_swallow_the_error:
  "\<exists>g. (group_step [Some err])\<^sup>*\<^sup>* group_start g \<and> rg_result g = Some None \<and> rg_errCh g = [err]"
proof -
  let ?g1 = "group_start\<lparr>rg_phase := (rg_phase group_start)(0 := ErrorSent), rg_errCh := rg_errCh group_start @ [err]\<rparr>"
  let ?g2 = "?g1\<lparr>rg_phase := (rg_phase ?g1)(0 := Finished)\<rparr>"
  let ?g3 = "?g2\<lparr>rg_done := True\<rparr>"
  let ?g4 = "?g3\<lparr>rg_result := Some None\<rparr>"
  have "group_step [Some err] group_start ?g1" by (rule sends) (simp_all add: group_start_def)
  moreover have "group_step [Some err] ?g1 ?g2" by (rule fails_done) (simp_all add: group_start_def)
  moreover have "group_step [Some err] ?g2 ?g3" by (rule closes) (simp_all add: group_start_def)
  moreover have "group_step [Some err] ?g3 ?g4" by (rule returns_nil) (simp_all add: group_start_def)
  ultimately have "(group_step [Some err])\<^sup>*\<^sup>* group_start ?g4"
    by (meson converse_rtranclp_into_rtranclp rtranclp.rtrancl_refl)
  moreover have "rg_result ?g4 = Some None" "rg_errCh ?g4 = [err]" by (simp_all add: group_start_def)
  ultimately show ?thesis by blast
qed

text \<open>
  A shutdown tells its manager first, then runs every callback once, with the manager's
  name, in whatever order, and tells the manager that it is finished only after all of them;
  exactly the errors of the callbacks reach the error handler.
\<close>
theorem shutdown_runs_every_callback:
  assumes "mset order = mset [0 ..< length ds]"
  shows "case StartShutdown \<lparr>gs_callbacks = map log_callback ds, gs_managers = ms, gs_hasHandler = True\<rparr>
      (log_manager name) order [] of (log, reported) \<Rightarrow>
    (\<exists>ran. log = [''start''] @ ran @ [''finish''] \<and> mset ran = mset (map (\<lambda>d. fst d @ name) ds))
    \<and> mset reported = mset (map (\<lambda>d. the (snd d)) (filter (\<lambda>d. snd d \<noteq> None) ds))"
proof -
  let ?gs = "\<lparr>gs_callbacks = map log_callback ds, gs_managers = ms, gs_hasHandler = True\<rparr>"
  let ?ds = "map (\<lambda>i. ds ! i) order"
  have "set order \<subseteq> {0 ..< length ds}"
    using mset_eq_setD [OF assms] by simp
  then have cbs: "map (\<lambda>i. gs_callbacks ?gs ! i) order = map log_callback ?ds" by auto
  have "mset ?ds = image_mset ((!) ds) (mset [0 ..< length ds])" by (simp only: mset_map assms)
  also have "\<dots> = mset ds" by (metis map_nth mset_map)
  finally have ds: "mset ?ds = mset ds" .
  have rep: "concat (map (\<lambda>d. ReportError ?gs (snd d)) xs) = map (\<lambda>d. the (snd d)) (filter (\<lambda>d. snd d \<noteq> None) xs)" for xs
    by (induction xs) (auto simp: ReportError_def)
  have run: "StartShutdown ?gs (log_manager name) order [] =
      ([''start''] @ map (\<lambda>d. fst d @ name) ?ds @ [''finish''],
       map (\<lambda>d. the (snd d)) (filter (\<lambda>d. snd d \<noteq> None) ?ds))"
    unfolding StartShutdown_def cbs
    by (simp add: log_manager_def run_log_callbacks rep del: map_map)
  have "mset (map (\<lambda>d. fst d @ name) ?ds) = mset (map (\<lambda>d. fst d @ name) ds)"
    using arg_cong [OF ds, of "image_mset (\<lambda>d. fst d @ name)"] by (simp only: mset_map)
  moreover have "mset (map (\<lambda>d. the (snd d)) (filter (\<lambda>d. snd d \<noteq> None) ?ds))
      = mset (map (\<lambda>d. the (snd d)) (filter (\<lambda>d. snd d \<noteq> None) ds))"
    using ds by (simp only: mset_map mset_filter)
  ultimately show ?thesis unfolding run by auto
qed

theorem shutdown_runs_every_callback_witness:
  "snd (StartShutdown \<lparr>gs_callbacks = map log_callback [(''a'', None), (''b'', Some ''e'')], gs_managers = [],
      gs_hasHandler = True\<rparr> (log_manager ''posix'') [1, 0] []) = [''e'']"
  using shutdown_runs_every_callback [where order = "[1, 0]" and ds = "[(''a'', None), (''b'', Some ''e'')]"
    and ms = "[]" and name = "''posix''"]
  by (auto simp: upt_rec split: prod.splits)

text \<open>
  Every shutdown hook runs, in the order of registration, whatever the ones before it
  answer; exactly the failures are reported, in that order.
\<close>
theorem every_hook_runs:
  "Lifecycle_Run (map log_hook ds) has_onError log =
     (log @ map fst ds,
      if has_onError then map (\<lambda>d. (fst d, the (snd d))) (filter (\<lambda>d. snd d \<noteq> None) ds) else [])"
  by (induction ds arbitrary: log) (auto simp: log_hook_def hook_Run_def)

end
