(* ===== verification/Grpc_Observe.thy ===== *)
theory Grpc_Observe
  imports Grpc_Mtls Grpc_Credential
begin

text \<open>
  \<open>pkg/grpc/interceptors/common.go\<close> and \<open>audit.go\<close>: recovery, request ids, request logs,
  audit events, metrics and alerts.

  A handler ends with a response, a status error (on the left), an error that is no status, or
  a panic, which passes through every interceptor that does not recover. Loggers are functions
  on the state the handlers share. What gRPC knows of a request (peer address, text of a code
  or of a response) is an argument, and so are the readings of the clock.
\<close>

section \<open>How a call ends\<close>

datatype 'r completion = Answers 'r | Fails string | Panics string

type_synonym ('q, 'r, 's) rpc = "('q, 'r completion, 's) handler"
type_synonym ('v, 'x, 'r, 's) stream_rpc = "('v, 'x, 'r completion, 's) stream_handler"

datatype log_value = LogText string | LogNumber int

type_synonym log_fields = "string \<rightharpoonup> log_value"

record 's logger =
  LogInfo :: "string \<Rightarrow> log_fields \<Rightarrow> 's \<Rightarrow> 's"
  LogError :: "string \<Rightarrow> log_fields \<Rightarrow> 's \<Rightarrow> 's"

text \<open>Panicking: what is left of a call that panicked with a value.\<close>

definition panicked :: "(status + 'r completion) \<Rightarrow> string option" where
  "panicked res = (case res of Inr (Panics v) \<Rightarrow> Some v | _ \<Rightarrow> None)"

section \<open>Recovery\<close>

record 's recoveryOptions =
  rec_logger :: "'s logger option"
  rec_contextPreprocess :: "(rpc_context \<Rightarrow> rpc_context) option"

type_synonym 's RecoveryOption = "'s recoveryOptions \<Rightarrow> 's recoveryOptions"

definition defaultRecoveryOptions :: "'s recoveryOptions" where
  "defaultRecoveryOptions = \<lparr>rec_logger = None, rec_contextPreprocess = None\<rparr>"

definition WithRecoveryLogger :: "'s logger \<Rightarrow> 's RecoveryOption" where
  "WithRecoveryLogger l opts = opts\<lparr>rec_logger := Some l\<rparr>"

definition WithRecoveryContextPreprocess :: "(rpc_context \<Rightarrow> rpc_context) \<Rightarrow> 's RecoveryOption" where
  "WithRecoveryContextPreprocess fn opts = opts\<lparr>rec_contextPreprocess := Some fn\<rparr>"

definition recovery_options :: "'s RecoveryOption list \<Rightarrow> 's recoveryOptions" where
  "recovery_options opts = fold (\<lambda>opt options. opt options) opts defaultRecoveryOptions"

text \<open>The deferred function: \<open>stack\<close> is the stack trace.\<close>

definition recover_call ::
    "'s logger option \<Rightarrow> string \<Rightarrow> string \<Rightarrow> string \<Rightarrow> (status + 'r completion) \<times> 's \<Rightarrow> (status + 'r completion) \<times> 's" where
  "recover_call l msg meth stack res =
     (case panicked (fst res) of
        None \<Rightarrow> res
      | Some v \<Rightarrow>
          (Inl (status_Error Internal (''internal server error: '' @ v)),
           case l of None \<Rightarrow> snd res
           | Some lg \<Rightarrow> LogError lg msg [''method'' \<mapsto> LogText meth, ''panic'' \<mapsto> LogText v, ''stack'' \<mapsto> LogText stack] (snd res)))"

definition RecoveryInterceptor ::
    "'s RecoveryOption list \<Rightarrow> string \<Rightarrow> string \<Rightarrow> ('q, 'r, 's) rpc \<Rightarrow> ('q, 'r, 's) rpc" where
  "RecoveryInterceptor opts stack meth h ctx req s =
     (let options = recovery_options opts;
          ctx' = (case rec_contextPreprocess options of None \<Rightarrow> ctx | Some fn \<Rightarrow> fn ctx)
      in recover_call (rec_logger options) ''gRPC request panic recovered'' meth stack (h ctx' req s))"

definition RecoveryStreamInterceptor ::
    "'s RecoveryOption list \<Rightarrow> string \<Rightarrow> string \<Rightarrow> ('v, 'x, 'r, 's) stream_rpc \<Rightarrow> ('v, 'x, 'r, 's) stream_rpc" where
  "RecoveryStreamInterceptor opts stack meth h srv ss s =
     (let options = recovery_options opts
      in recover_call (rec_logger options) ''gRPC stream panic recovered'' meth stack (h srv ss s))"

section \<open>Request ids\<close>

record requestIDOptions =
  rid_generator :: "instant \<Rightarrow> string"
  rid_metadataInjector :: "(rpc_context \<Rightarrow> string \<Rightarrow> rpc_context) option"

type_synonym RequestIDOption = "requestIDOptions \<Rightarrow> requestIDOptions"

text \<open>\<open>UnixNano\<close> counts from 1970.\<close>

definition DefaultRequestIDGenerator :: "instant \<Rightarrow> string" where
  "DefaultRequestIDGenerator now = ''req-'' @ int_text (wrap64 (now - 62135596800 * second))"

definition defaultRequestIDOptions :: requestIDOptions where
  "defaultRequestIDOptions = \<lparr>rid_generator = DefaultRequestIDGenerator, rid_metadataInjector = None\<rparr>"

definition WithRequestIDGenerator :: "(instant \<Rightarrow> string) \<Rightarrow> RequestIDOption" where
  "WithRequestIDGenerator generator opts = opts\<lparr>rid_generator := generator\<rparr>"

definition WithMetadataInjector :: "(rpc_context \<Rightarrow> string \<Rightarrow> rpc_context) \<Rightarrow> RequestIDOption" where
  "WithMetadataInjector injector opts = opts\<lparr>rid_metadataInjector := Some injector\<rparr>"

definition request_id_options :: "RequestIDOption list \<Rightarrow> requestIDOptions" where
  "request_id_options opts = fold (\<lambda>opt options. opt options) opts defaultRequestIDOptions"

definition with_request_id :: "requestIDOptions \<Rightarrow> instant \<Rightarrow> rpc_context \<Rightarrow> rpc_context" where
  "with_request_id options now ctx =
     (let requestID = rid_generator options now;
          ctx' = ctx\<lparr>ctx_request_id := Some requestID\<rparr>
      in case rid_metadataInjector options of None \<Rightarrow> ctx' | Some inject \<Rightarrow> inject ctx' requestID)"

definition RequestIDInterceptor :: "RequestIDOption list \<Rightarrow> instant \<Rightarrow> ('q, 'r, 's) handler \<Rightarrow> ('q, 'r, 's) handler" where
  "RequestIDInterceptor opts now h ctx req s = h (with_request_id (request_id_options opts) now ctx) req s"

definition RequestIDStreamInterceptor ::
    "RequestIDOption list \<Rightarrow> instant \<Rightarrow> ('v, 'x, 'r, 's) stream_handler \<Rightarrow> ('v, 'x, 'r, 's) stream_handler" where
  "RequestIDStreamInterceptor opts now h srv ss s =
     h srv (WrappedServerStream ss (with_request_id (request_id_options opts) now (stream_Context ss))) s"

definition RequestIDFromContext :: "rpc_context \<Rightarrow> string" where
  "RequestIDFromContext ctx = (case ctx_request_id ctx of Some requestID \<Rightarrow> requestID | None \<Rightarrow> [])"

section \<open>Request logs\<close>

definition GetClientIP :: "(rpc_context \<Rightarrow> string option) \<Rightarrow> rpc_context \<Rightarrow> string" where
  "GetClientIP peer_addr ctx = (case peer_addr ctx of Some a \<Rightarrow> a | None \<Rightarrow> ''unknown'')"

definition GetUserAgent :: "rpc_context \<Rightarrow> string" where
  "GetUserAgent ctx =
     (case ctx_metadata ctx of
        Some md \<Rightarrow> (case md ''user-agent'' of userAgent # _ \<Rightarrow> userAgent | [] \<Rightarrow> ''unknown'')
      | None \<Rightarrow> ''unknown'')"

definition GetMetadataValue :: "rpc_context \<Rightarrow> string \<Rightarrow> string" where
  "GetMetadataValue ctx key =
     (case ctx_metadata ctx of
        Some md \<Rightarrow> (case md key of v # _ \<Rightarrow> v | [] \<Rightarrow> [])
      | None \<Rightarrow> [])"

text \<open>
  \<open>render\<close> is the text of a response, nothing for nil. Slicing to a negative length panics,
  which is \<open>None\<close>.
\<close>

definition generateResponseSummary :: "('r \<Rightarrow> string option) \<Rightarrow> 'r \<Rightarrow> int \<Rightarrow> string option" where
  "generateResponseSummary render resp maxLength =
     (case render resp of
        None \<Rightarrow> Some ''nil''
      | Some respStr \<Rightarrow>
          if respStr = [] then Some ''empty''
          else if int (length respStr) > maxLength
          then (if maxLength < 0 then None else Some (take (nat maxLength) respStr @ ''...''))
          else Some respStr)"

record loggingOptions =
  log_skipMatcher :: SkipMethodMatcher
  logResponse :: bool
  maxResponseLen :: int
  log_contextPreprocess :: "(rpc_context \<Rightarrow> rpc_context) option"

type_synonym LoggingOption = "loggingOptions \<Rightarrow> loggingOptions"

definition defaultLoggingOptions :: loggingOptions where
  "defaultLoggingOptions = \<lparr>log_skipMatcher = NewSkipMethodMatcher DefaultSkipMethods, logResponse = True,
     maxResponseLen = 300, log_contextPreprocess = None\<rparr>"

definition WithLoggingSkipMethods :: "string list \<Rightarrow> LoggingOption" where
  "WithLoggingSkipMethods methods opts = opts\<lparr>log_skipMatcher := skip_Add (log_skipMatcher opts) methods\<rparr>"

definition WithLogResponse :: "bool \<Rightarrow> LoggingOption" where
  "WithLogResponse b opts = opts\<lparr>logResponse := b\<rparr>"

definition WithMaxResponseLen :: "int \<Rightarrow> LoggingOption" where
  "WithMaxResponseLen maxLen opts = opts\<lparr>maxResponseLen := maxLen\<rparr>"

definition WithContextPreprocess :: "(rpc_context \<Rightarrow> rpc_context) \<Rightarrow> LoggingOption" where
  "WithContextPreprocess fn opts = opts\<lparr>log_contextPreprocess := Some fn\<rparr>"

definition logging_options :: "LoggingOption list \<Rightarrow> loggingOptions" where
  "logging_options opts = fold (\<lambda>opt options. opt options) opts defaultLoggingOptions"

text \<open>
  What the interceptors tell of gRPC: the address of the peer, the text of a code, the text of
  a response.
\<close>

record 'r grpc_view =
  peer_addr :: "rpc_context \<Rightarrow> string option"
  code_String :: "grpc_code \<Rightarrow> string"
  render :: "'r \<Rightarrow> string option"

definition end_fields :: "'r grpc_view \<Rightarrow> string \<Rightarrow> string \<Rightarrow> duration \<Rightarrow> grpc_code \<Rightarrow> log_fields" where
  "end_fields view meth requestID elapsed code =
     [''method'' \<mapsto> LogText meth, ''request_id'' \<mapsto> LogText requestID,
      ''duration_ms'' \<mapsto> LogNumber (trunc_div elapsed millisecond), ''status_code'' \<mapsto> LogText (code_String view code)]"

definition LoggingInterceptor ::
    "'r grpc_view \<Rightarrow> 's logger option \<Rightarrow> LoggingOption list \<Rightarrow> instant \<times> instant \<Rightarrow> string
     \<Rightarrow> ('q, 'r, 's) rpc \<Rightarrow> ('q, 'r, 's) rpc" where
  "LoggingInterceptor view l opts clocks meth h ctx0 req s =
     (let options = logging_options opts in
      if skip_Match (log_skipMatcher options) meth then h ctx0 req s
      else
        let ctx = (case log_contextPreprocess options of None \<Rightarrow> ctx0 | Some fn \<Rightarrow> fn ctx0);
            requestID = RequestIDFromContext ctx;
            s1 = (case l of None \<Rightarrow> s
              | Some lg \<Rightarrow> LogInfo lg ''gRPC request started''
                  [''method'' \<mapsto> LogText meth, ''client_ip'' \<mapsto> LogText (GetClientIP (peer_addr view) ctx),
                   ''user_agent'' \<mapsto> LogText (GetUserAgent ctx), ''request_id'' \<mapsto> LogText requestID] s)
        in case h ctx req s1 of
             (res, s2) \<Rightarrow>
               let fields = end_fields view meth requestID (time_sub (snd clocks) (fst clocks));
                   failed = (\<lambda>code msg. (res, case l of None \<Rightarrow> s2
                     | Some lg \<Rightarrow> LogError lg ''gRPC request failed'' ((fields code)(''error'' \<mapsto> LogText msg)) s2))
               in (case res of
                     Inl st \<Rightarrow> failed (st_Code st) (st_Message st)
                   | Inr (Fails msg) \<Rightarrow> failed Internal msg
                   | Inr (Panics v) \<Rightarrow> (res, s2)
                   | Inr (Answers resp) \<Rightarrow>
                       (case l of None \<Rightarrow> (res, s2)
                        | Some lg \<Rightarrow>
                            if logResponse options then
                              (case generateResponseSummary (render view) resp (maxResponseLen options) of
                                 None \<Rightarrow> (Inr (Panics ''slice bounds out of range''), s2)
                               | Some summary \<Rightarrow>
                                   (res, LogInfo lg ''gRPC request completed''
                                      ((fields OK)(''response_summary'' \<mapsto> LogText summary)) s2))
                            else (res, LogInfo lg ''gRPC request completed'' (fields OK) s2))))"

definition LoggingStreamInterceptor ::
    "'r grpc_view \<Rightarrow> (status \<Rightarrow> string) \<Rightarrow> 's logger option \<Rightarrow> LoggingOption list \<Rightarrow> instant \<times> instant \<Rightarrow> string
     \<Rightarrow> ('v, 'x, 'r, 's) stream_rpc \<Rightarrow> ('v, 'x, 'r, 's) stream_rpc" where
  "LoggingStreamInterceptor view status_text l opts clocks meth h srv ss s =
     (let options = logging_options opts in
      if skip_Match (log_skipMatcher options) meth then h srv ss s
      else
        let ctx = stream_Context ss;
            requestID = RequestIDFromContext ctx;
            s1 = (case l of None \<Rightarrow> s
              | Some lg \<Rightarrow> LogInfo lg ''gRPC stream started''
                  [''method'' \<mapsto> LogText meth, ''client_ip'' \<mapsto> LogText (GetClientIP (peer_addr view) ctx),
                   ''request_id'' \<mapsto> LogText requestID] s)
        in case h srv ss s1 of
             (res, s2) \<Rightarrow>
               let fields = end_fields view meth requestID (time_sub (snd clocks) (fst clocks));
                   failed = (\<lambda>code msg. (res, case l of None \<Rightarrow> s2
                     | Some lg \<Rightarrow> LogError lg ''gRPC stream failed'' ((fields code)(''error'' \<mapsto> LogText msg)) s2))
               in (case res of
                     Inl st \<Rightarrow> failed (st_Code st) (status_text st)
                   | Inr (Fails msg) \<Rightarrow> failed Internal msg
                   | Inr (Panics v) \<Rightarrow> (res, s2)
                   | Inr (Answers resp) \<Rightarrow>
                       (res, case l of None \<Rightarrow> s2 | Some lg \<Rightarrow> LogInfo lg ''gRPC stream completed'' (fields OK) s2)))"

section \<open>Audit\<close>

record AuditEvent =
  ae_Timestamp :: instant
  ae_Method :: string
  ae_RequestID :: string
  ae_ServiceName :: string
  ae_ServiceNamespace :: string
  ae_CertCN :: string
  ae_CertOU :: "string list"
  ae_CredentialType :: string
  ae_CredentialSubject :: string
  ae_StatusCode :: string
  ae_StatusMsg :: string
  ae_Duration :: duration
  ae_ClientAddr :: string
  ae_Error :: string

definition empty_event :: "instant \<Rightarrow> string \<Rightarrow> duration \<Rightarrow> AuditEvent" where
  "empty_event start meth elapsed = \<lparr>ae_Timestamp = start, ae_Method = meth, ae_RequestID = [], ae_ServiceName = [],
     ae_ServiceNamespace = [], ae_CertCN = [], ae_CertOU = [], ae_CredentialType = [], ae_CredentialSubject = [],
     ae_StatusCode = [], ae_StatusMsg = [], ae_Duration = elapsed, ae_ClientAddr = [], ae_Error = []\<rparr>"

text \<open>\<open>duration_text\<close> is \<open>Duration.String\<close>.\<close>

definition opt_field :: "string \<Rightarrow> string \<Rightarrow> log_fields \<Rightarrow> log_fields" where
  "opt_field key v fs = (if v \<noteq> [] then fs(key \<mapsto> LogText v) else fs)"

definition audit_fields :: "(duration \<Rightarrow> string) \<Rightarrow> AuditEvent \<Rightarrow> log_fields" where
  "audit_fields duration_text event =
     opt_field ''request_id'' (ae_RequestID event)
     (opt_field ''error'' (ae_Error event)
     (opt_field ''client_addr'' (ae_ClientAddr event)
     (opt_field ''credential_subject'' (ae_CredentialSubject event)
     (opt_field ''credential_type'' (ae_CredentialType event)
     (opt_field ''namespace'' (ae_ServiceNamespace event)
     [''method'' \<mapsto> LogText (ae_Method event), ''service'' \<mapsto> LogText (ae_ServiceName event),
      ''status'' \<mapsto> LogText (ae_StatusCode event), ''duration'' \<mapsto> LogText (duration_text (ae_Duration event))])))))"

definition audit_Log :: "(duration \<Rightarrow> string) \<Rightarrow> 's logger option \<Rightarrow> AuditEvent \<Rightarrow> 's \<Rightarrow> 's" where
  "audit_Log duration_text l event s =
     (case l of
        None \<Rightarrow> s
      | Some lg \<Rightarrow>
          if ae_StatusCode event = ''OK''
          then LogInfo lg ''[AUDIT] gRPC call succeeded'' (audit_fields duration_text event) s
          else LogError lg ''[AUDIT] gRPC call failed'' (audit_fields duration_text event) s)"

record auditOptions =
  aud_skipMatcher :: SkipMethodMatcher
  requestIDExtractor :: "(rpc_context \<Rightarrow> string) option"

type_synonym AuditOption = "auditOptions \<Rightarrow> auditOptions"

definition defaultAuditOptions :: auditOptions where
  "defaultAuditOptions = \<lparr>aud_skipMatcher = NewSkipMethodMatcher DefaultSkipMethods, requestIDExtractor = None\<rparr>"

definition WithAuditSkipMethods :: "string list \<Rightarrow> AuditOption" where
  "WithAuditSkipMethods methods opts = opts\<lparr>aud_skipMatcher := skip_Add (aud_skipMatcher opts) methods\<rparr>"

definition WithRequestIDExtractor :: "(rpc_context \<Rightarrow> string) \<Rightarrow> AuditOption" where
  "WithRequestIDExtractor extractor opts = opts\<lparr>requestIDExtractor := Some extractor\<rparr>"

definition audit_options :: "AuditOption list \<Rightarrow> auditOptions" where
  "audit_options opts = fold (\<lambda>opt options. opt options) opts defaultAuditOptions"

definition with_status :: "(grpc_code \<Rightarrow> string) \<Rightarrow> status + 'r completion \<Rightarrow> AuditEvent \<Rightarrow> AuditEvent" where
  "with_status code_text res event =
     (case res of
        Inl st \<Rightarrow> event\<lparr>ae_StatusCode := code_text (st_Code st), ae_StatusMsg := st_Message st\<rparr>
      | Inr (Fails msg) \<Rightarrow> event\<lparr>ae_StatusCode := code_text Internal, ae_Error := msg\<rparr>
      | Inr _ \<Rightarrow> event\<lparr>ae_StatusCode := code_text OK\<rparr>)"

definition audit_event ::
    "(grpc_code \<Rightarrow> string) \<Rightarrow> auditOptions \<Rightarrow> instant \<times> instant \<Rightarrow> string \<Rightarrow> rpc_context \<Rightarrow> status + 'r completion \<Rightarrow> AuditEvent" where
  "audit_event code_text options clocks meth ctx res =
     (let e0 = empty_event (fst clocks) meth (time_sub (snd clocks) (fst clocks));
          e1 = (case ServiceIdentityFromContext ctx of
              None \<Rightarrow> e0
            | Some identity \<Rightarrow> e0\<lparr>ae_ServiceName := ServiceName identity, ae_ServiceNamespace := ServiceNamespace identity,
                ae_CertCN := id_CommonName identity, ae_CertOU := id_OrganizationalUnits identity\<rparr>);
          e2 = (case CredentialFromContext ctx of
              None \<Rightarrow> e1
            | Some cred \<Rightarrow> e1\<lparr>ae_CredentialType := cred_Type cred, ae_CredentialSubject := cred_Subject cred\<rparr>);
          e3 = (case requestIDExtractor options of None \<Rightarrow> e2 | Some f \<Rightarrow> e2\<lparr>ae_RequestID := f ctx\<rparr>)
      in with_status code_text res e3)"

definition AuditInterceptor ::
    "(grpc_code \<Rightarrow> string) \<Rightarrow> (AuditEvent \<Rightarrow> 's \<Rightarrow> 's) option \<Rightarrow> AuditOption list \<Rightarrow> instant \<times> instant \<Rightarrow> string
     \<Rightarrow> ('q, 'r, 's) rpc \<Rightarrow> ('q, 'r, 's) rpc" where
  "AuditInterceptor code_text l opts clocks meth h ctx req s =
     (let options = audit_options opts in
      if skip_Match (aud_skipMatcher options) meth then h ctx req s
      else
        (case h ctx req s of
           (res, s1) \<Rightarrow>
             if panicked res \<noteq> None then (res, s1)
             else (res, case l of None \<Rightarrow> s1 | Some emit \<Rightarrow> emit (audit_event code_text options clocks meth ctx res) s1)))"

text \<open>The event of a stream has neither credential nor request id.\<close>

definition stream_event ::
    "(grpc_code \<Rightarrow> string) \<Rightarrow> instant \<times> instant \<Rightarrow> string \<Rightarrow> rpc_context \<Rightarrow> status + 'r completion \<Rightarrow> AuditEvent" where
  "stream_event code_text clocks meth ctx res =
     (let e0 = empty_event (fst clocks) meth (time_sub (snd clocks) (fst clocks));
          e1 = (case ServiceIdentityFromContext ctx of
              None \<Rightarrow> e0
            | Some identity \<Rightarrow> e0\<lparr>ae_ServiceName := ServiceName identity, ae_ServiceNamespace := ServiceNamespace identity\<rparr>)
      in with_status code_text res e1)"

definition AuditStreamInterceptor ::
    "(grpc_code \<Rightarrow> string) \<Rightarrow> (AuditEvent \<Rightarrow> 's \<Rightarrow> 's) option \<Rightarrow> AuditOption list \<Rightarrow> instant \<times> instant \<Rightarrow> string
     \<Rightarrow> ('v, 'x, 'r, 's) stream_rpc \<Rightarrow> ('v, 'x, 'r, 's) stream_rpc" where
  "AuditStreamInterceptor code_text l opts clocks meth h srv ss s =
     (let options = audit_options opts in
      if skip_Match (aud_skipMatcher options) meth then h srv ss s
      else
        (case h srv ss s of
           (res, s1) \<Rightarrow>
             if panicked res \<noteq> None then (res, s1)
             else (res, case l of None \<Rightarrow> s1
               | Some emit \<Rightarrow> emit (stream_event code_text clocks meth (stream_Context ss) res) s1)))"


section \<open>Panics\<close>

text \<open>The context the recovering interceptor hands on.\<close>

definition recovery_context :: "'s RecoveryOption list \<Rightarrow> rpc_context \<Rightarrow> rpc_context" where
  "recovery_context opts ctx =
     (case rec_contextPreprocess (recovery_options opts) of None \<Rightarrow> ctx | Some fn \<Rightarrow> fn ctx)"

lemma panicked_simps [simp]:
  "panicked (Inl st) = None" "panicked (Inr (Answers r)) = None"
  "panicked (Inr (Fails m)) = None" "panicked (Inr (Panics v)) = Some v"
  by (simp_all add: panicked_def)

lemma panicked_eq_None_iff: "panicked res = None \<longleftrightarrow> (\<forall>v. res \<noteq> Inr (Panics v))"
  by (auto simp: panicked_def split: sum.split completion.split)

lemma recover_call_cases:
  "fst (recover_call l msg meth stack res) =
     (case panicked (fst res) of None \<Rightarrow> fst res
      | Some v \<Rightarrow> Inl (status_Error Internal (''internal server error: '' @ v)))"
  by (simp add: recover_call_def split: option.split)

lemma recover_call_no_panic: "panicked (fst (recover_call l msg meth stack res)) = None"
  by (cases "panicked (fst res)") (simp_all add: recover_call_cases)

lemma recover_call_state: "snd (recover_call None msg meth stack res) = snd res"
  by (simp add: recover_call_def split: option.split)

lemma recover_call_result:
  "\<exists>s'. recover_call l msg meth stack res = (case panicked (fst res) of None \<Rightarrow> res
      | Some v \<Rightarrow> (Inl (status_Error Internal (''internal server error: '' @ v)), s'))"
  by (cases "panicked (fst res)") (simp_all add: recover_call_def)


section \<open>What is audited\<close>

definition audited :: "AuditOption list \<Rightarrow> string \<Rightarrow> bool" where
  "audited opts meth = (meth \<notin> set (aud_skipMatcher (audit_options opts)))"

lemma AuditInterceptor_skipped:
  "\<not> audited opts meth \<Longrightarrow> AuditInterceptor code_text l opts clocks meth h ctx req s = h ctx req s"
  by (simp add: AuditInterceptor_def audited_def skip_Match_iff Let_def)

lemma AuditInterceptor_event:
  assumes "audited opts meth" and "panicked (fst (h ctx req s)) = None"
  shows "AuditInterceptor code_text (Some emit) opts clocks meth h ctx req s
    = (fst (h ctx req s),
       emit (audit_event code_text (audit_options opts) clocks meth ctx (fst (h ctx req s))) (snd (h ctx req s)))"
  using assms by (cases "h ctx req s") (simp add: AuditInterceptor_def audited_def skip_Match_iff Let_def)

lemma AuditInterceptor_panic:
  assumes "panicked (fst (h ctx req s)) \<noteq> None"
  shows "AuditInterceptor code_text l opts clocks meth h ctx req s = h ctx req s"
  using assms by (auto simp: AuditInterceptor_def Let_def split: prod.split)

lemma with_status_keeps [simp]:
  "ae_ServiceName (with_status code_text res e) = ae_ServiceName e"
  "ae_ServiceNamespace (with_status code_text res e) = ae_ServiceNamespace e"
  "ae_CredentialSubject (with_status code_text res e) = ae_CredentialSubject e"
  "ae_CredentialType (with_status code_text res e) = ae_CredentialType e"
  "ae_RequestID (with_status code_text res e) = ae_RequestID e"
  "ae_Method (with_status code_text res e) = ae_Method e"
  by (simp_all add: with_status_def split: sum.split completion.split)

lemma audit_event_fields:
  "ae_Method (audit_event code_text options clocks meth ctx res) = meth"
  "ae_ServiceName (audit_event code_text options clocks meth ctx res) =
     (case ctx_identity ctx of None \<Rightarrow> [] | Some i \<Rightarrow> ServiceName i)"
  "ae_CredentialSubject (audit_event code_text options clocks meth ctx res) =
     (case ctx_credential ctx of None \<Rightarrow> [] | Some c \<Rightarrow> cred_Subject c)"
  "ae_RequestID (audit_event code_text options clocks meth ctx res) =
     (case requestIDExtractor options of None \<Rightarrow> [] | Some f \<Rightarrow> f ctx)"
  by (simp_all add: audit_event_def empty_event_def context_defs Let_def split: option.split)

definition result_code :: "status + 'r completion \<Rightarrow> grpc_code" where
  "result_code res = (case res of Inl st \<Rightarrow> st_Code st | Inr (Fails m) \<Rightarrow> Internal | Inr _ \<Rightarrow> OK)"

lemma audit_event_code: "ae_StatusCode (audit_event code_text options clocks meth ctx res) = code_text (result_code res)"
  by (simp add: audit_event_def with_status_def result_code_def Let_def split: sum.split completion.split)

text \<open>
  C27: Auditing outside recovery misses nothing: every call of an audited method leaves exactly
  one event, with the code the call ended with, whatever the handler did, a panic included.
  With the two interceptors the other way round, a call that panics leaves no event at all.
\<close>
theorem audit_outside_recovery:
  assumes "audited opts meth"
    and "\<And>e s. events (emit e s) = events s @ [e]"
    and "events (snd (h ctx req s)) = events s"
    and "recovery_context ropts ctx = ctx" and "rec_logger (recovery_options ropts) = None"
  shows "\<exists>e. events (snd (AuditInterceptor code_text (Some emit) opts clocks meth
              (RecoveryInterceptor ropts stack meth h) ctx req s)) = events s @ [e]
         \<and> ae_Method e = meth
         \<and> ae_StatusCode e = code_text (result_code (fst (RecoveryInterceptor ropts stack meth h ctx req s)))
         \<and> (panicked (fst (h ctx req s)) = None
            \<or> ae_StatusCode e = code_text Internal
              \<and> events (snd (RecoveryInterceptor ropts stack meth
                   (AuditInterceptor code_text (Some emit) opts clocks meth h) ctx req s)) = events s)"
proof -
  let ?r = "RecoveryInterceptor ropts stack meth h ctx req s"
  let ?e = "audit_event code_text (audit_options opts) clocks meth ctx (fst ?r)"
  have rec: "RecoveryInterceptor ropts stack meth g ctx req s
      = recover_call None ''gRPC request panic recovered'' meth stack (g ctx req s)" for g
    using assms(4,5) by (simp add: RecoveryInterceptor_def recovery_context_def Let_def)
  have no: "panicked (fst ?r) = None" by (simp add: rec recover_call_no_panic)
  have outer: "events (snd (AuditInterceptor code_text (Some emit) opts clocks meth
      (RecoveryInterceptor ropts stack meth h) ctx req s)) = events s @ [?e]"
    using assms(1-3) no by (simp add: AuditInterceptor_event) (simp add: rec recover_call_state)
  have inner: "events (snd (RecoveryInterceptor ropts stack meth
      (AuditInterceptor code_text (Some emit) opts clocks meth h) ctx req s)) = events s"
    if "panicked (fst (h ctx req s)) \<noteq> None"
    using that assms(3) by (simp add: rec recover_call_state AuditInterceptor_panic)
  have "ae_StatusCode ?e = code_text Internal" if "panicked (fst (h ctx req s)) \<noteq> None"
    using that by (auto simp: audit_event_code rec recover_call_cases result_code_def status_Error_def)
  with outer inner show ?thesis
    by (intro exI [of _ ?e]) (auto simp: audit_event_fields audit_event_code)
qed

lemma audit_outside_recovery_witness:
  "\<exists>e. snd (AuditInterceptor (\<lambda>c. if c = OK then ''OK'' else ''Internal'') (Some (\<lambda>e s. s @ [e])) [] (0, 5) ''/svc/Do''
        (RecoveryInterceptor [] ''stack'' ''/svc/Do'' (\<lambda>ctx req s. (Inr (Panics ''boom'') :: status + nat completion, s)))
        \<lparr>ctx_metadata = None, ctx_peer = None, ctx_identity = None, ctx_credential = None, ctx_request_id = None\<rparr>
        () []) = [e] \<and> ae_StatusCode e = ''Internal''"
proof -
  let ?ctx = "\<lparr>ctx_metadata = None, ctx_peer = None, ctx_identity = None, ctx_credential = None, ctx_request_id = None\<rparr>"
  let ?h = "\<lambda>(ctx :: rpc_context) (req :: unit) (s :: AuditEvent list). (Inr (Panics ''boom'') :: status + nat completion, s)"
  have "audited [] ''/svc/Do''"
    by (simp add: audited_def audit_options_def defaultAuditOptions_def NewSkipMethodMatcher_def DefaultSkipMethods_def)
  moreover have "recovery_context [] ?ctx = ?ctx" "rec_logger (recovery_options []) = (None :: AuditEvent list logger option)"
    by (simp_all add: recovery_context_def recovery_options_def defaultRecoveryOptions_def)
  ultimately show ?thesis
    using audit_outside_recovery [where events = "\<lambda>s. s" and emit = "\<lambda>e s. s @ [e]" and opts = "[]" and ropts = "[]"
      and meth = "''/svc/Do''" and h = ?h and ctx = ?ctx and req = "()" and s = "[]" and clocks = "(0, 5)"
      and code_text = "\<lambda>c. if c = OK then ''OK'' else ''Internal''" and stack = "''stack''"]
    by auto
qed

lemma MTLS_without_certificate:
  assumes "ExtractServiceIdentityFromTLS ctx = Inl err"
    and "meth \<notin> set (mtls_skipMatcher (mtls_options opts))"
  shows "MTLSInterceptor opts meth g ctx req s
    = (Inl (status_Error Unauthenticated ''client certificate required''), s)"
  using assms by (simp add: MTLSInterceptor_def skip_Match_iff Let_def)

lemma MTLS_without_validator:
  assumes "ExtractServiceIdentityFromTLS ctx = Inr i" and "mtls_validator (mtls_options opts) = None"
    and "meth \<notin> set (mtls_skipMatcher (mtls_options opts))"
  shows "MTLSInterceptor opts meth g ctx req s = g (ContextWithServiceIdentity ctx i) req s"
  using assms by (simp add: MTLSInterceptor_def skip_Match_iff Let_def)

text \<open>
  The order of the interceptors decides what an audit event says. Inside the mTLS
  interceptor the event of an admitted call names the service; outside it the same call, with
  the same result, is audited without any identity, because the interceptor reads the context
  it was given itself. A call mTLS refuses is audited only by an interceptor outside.
\<close>
theorem audit_order_decides:
  assumes "audited aopts meth" and "ctx_identity ctx = None"
    and "meth \<notin> set (mtls_skipMatcher (mtls_options opts))"
    and "panicked (fst (h (ContextWithServiceIdentity ctx i) req s)) = None"
  shows "case ExtractServiceIdentityFromTLS ctx of
      Inl err \<Rightarrow>
        MTLSInterceptor opts meth (AuditInterceptor code_text (Some emit) aopts clocks meth h) ctx req s
          = MTLSInterceptor opts meth h ctx req s
        \<and> (\<exists>e. snd (AuditInterceptor code_text (Some emit) aopts clocks meth (MTLSInterceptor opts meth h) ctx req s)
              = emit e s \<and> ae_ServiceName e = [] \<and> ae_StatusCode e = code_text Unauthenticated)
    | Inr identity \<Rightarrow>
        mtls_validator (mtls_options opts) = None \<and> identity = i \<longrightarrow>
        (\<exists>e e'. MTLSInterceptor opts meth (AuditInterceptor code_text (Some emit) aopts clocks meth h) ctx req s
              = (fst (h (ContextWithServiceIdentity ctx i) req s), emit e (snd (h (ContextWithServiceIdentity ctx i) req s)))
            \<and> AuditInterceptor code_text (Some emit) aopts clocks meth (MTLSInterceptor opts meth h) ctx req s
              = (fst (h (ContextWithServiceIdentity ctx i) req s), emit e' (snd (h (ContextWithServiceIdentity ctx i) req s)))
            \<and> ae_ServiceName e = ServiceName i \<and> ae_ServiceName e' = [] \<and> ae_StatusCode e = ae_StatusCode e')"
proof (cases "ExtractServiceIdentityFromTLS ctx")
  case (Inl err)
  note refused = MTLS_without_certificate [OF Inl assms(3)]
  from Inl assms(1,2) show ?thesis
    by (auto simp: refused AuditInterceptor_event audit_event_fields audit_event_code result_code_def status_Error_def)
next
  case (Inr identity)
  show ?thesis
  proof (cases "mtls_validator (mtls_options opts) = None \<and> identity = i")
    case True
    with Inr assms(3) have "ExtractServiceIdentityFromTLS ctx = Inr i" "mtls_validator (mtls_options opts) = None"
      by simp_all
    note admitted = MTLS_without_validator [OF this assms(3)]
    let ?c = "ContextWithServiceIdentity ctx i"
    let ?e = "\<lambda>c. audit_event code_text (audit_options aopts) clocks meth c (fst (h ?c req s))"
    have "ctx_identity ?c = Some i" by (simp add: ContextWithServiceIdentity_def)
    then have "ae_ServiceName (?e ?c) = ServiceName i" "ae_ServiceName (?e ctx) = []"
      "ae_StatusCode (?e ?c) = ae_StatusCode (?e ctx)"
      using assms(2) by (simp_all add: audit_event_fields audit_event_code)
    moreover from assms(1,4)
    have "MTLSInterceptor opts meth (AuditInterceptor code_text (Some emit) aopts clocks meth h) ctx req s
        = (fst (h ?c req s), emit (?e ?c) (snd (h ?c req s)))"
      "AuditInterceptor code_text (Some emit) aopts clocks meth (MTLSInterceptor opts meth h) ctx req s
        = (fst (h ?c req s), emit (?e ctx) (snd (h ?c req s)))"
      by (simp_all add: admitted AuditInterceptor_event)
    ultimately show ?thesis using Inr by auto
  qed (use Inr in auto)
qed

lemma audit_order_decides_witness:
  "\<exists>ctx i e e'. ExtractServiceIdentityFromTLS ctx = Inr i
     \<and> MTLSInterceptor [] ''/svc/Do'' (AuditInterceptor (\<lambda>c. ''OK'') (Some (\<lambda>e s. s @ [e])) [] (0, 5) ''/svc/Do''
          (\<lambda>ctx req s. (Inr (Answers True), s))) ctx () [] = (Inr (Answers True), [e])
     \<and> AuditInterceptor (\<lambda>c. ''OK'') (Some (\<lambda>e s. s @ [e])) [] (0, 5) ''/svc/Do''
          (MTLSInterceptor [] ''/svc/Do'' (\<lambda>ctx req s. (Inr (Answers True), s))) ctx () [] = (Inr (Answers True), [e'])
     \<and> ae_ServiceName e = ServiceName i \<and> ae_ServiceName e' = []"
proof -
  let ?cert = "\<lparr>cert_CommonName = ''billing.svc'', cert_OrganizationalUnit = [], cert_SerialNumber = ''1'',
    cert_DNSNames = [], cert_URIs = [], cert_NotBefore = 0, cert_NotAfter = 9, cert_Organization = [],
    cert_IPAddresses = [], cert_IssuerCommonName = ''ca''\<rparr>"
  let ?ctx = "\<lparr>ctx_metadata = None, ctx_peer = Some (TLSInfo [?cert] [[?cert]]), ctx_identity = None,
    ctx_credential = None, ctx_request_id = None\<rparr>"
  let ?h = "\<lambda>(ctx :: rpc_context) (req :: unit) (s :: AuditEvent list). (Inr (Answers True) :: status + bool completion, s)"
  obtain i where i: "ExtractServiceIdentityFromTLS ?ctx = Inr i"
    by (simp add: ExtractServiceIdentityFromTLS_def)
  have "audited [] ''/svc/Do''" "''/svc/Do'' \<notin> set (mtls_skipMatcher (mtls_options []))"
    "mtls_validator (mtls_options []) = None"
    by (simp_all add: audited_def audit_options_def defaultAuditOptions_def NewSkipMethodMatcher_def
      DefaultSkipMethods_def mtls_options_def defaultMTLSOptions_def)
  then show ?thesis
    using audit_order_decides [where aopts = "[]" and meth = "''/svc/Do''" and ctx = ?ctx and opts = "[]" and h = ?h
      and i = i and req = "()" and s = "[]" and emit = "\<lambda>e s. s @ [e]" and code_text = "\<lambda>c. ''OK''" and clocks = "(0, 5)"] i
    by (intro exI [of _ ?ctx] exI [of _ i]) auto
qed

section \<open>Request ids and logs\<close>

lemma request_id_options_generator [simp]:
  "rid_generator (request_id_options [WithRequestIDGenerator gen]) = gen"
  "rid_metadataInjector (request_id_options [WithRequestIDGenerator gen]) = None"
  by (simp_all add: request_id_options_def WithRequestIDGenerator_def defaultRequestIDOptions_def)

lemma audit_options_extractor [simp]:
  "requestIDExtractor (audit_options [WithRequestIDExtractor f]) = Some f"
  "aud_skipMatcher (audit_options [WithRequestIDExtractor f]) = aud_skipMatcher (audit_options [])"
  by (simp_all add: audit_options_def WithRequestIDExtractor_def defaultAuditOptions_def)

text \<open>
  The request id reaches what runs inside: the handler finds the generated id in its
  context, and an audit event made inside with \<open>RequestIDFromContext\<close> carries it. Made outside,
  the event of the same call carries the id the caller's context had, which is none as a rule.
\<close>
theorem request_id_reaches_the_inside:
  assumes "audited [] meth"
    and "panicked (fst (h (ctx\<lparr>ctx_request_id := Some (gen now)\<rparr>) req s)) = None"
  shows "let aopts = [WithRequestIDExtractor RequestIDFromContext]; ropts = [WithRequestIDGenerator gen];
             ctx' = ctx\<lparr>ctx_request_id := Some (gen now)\<rparr>
    in RequestIDFromContext ctx' = gen now
     \<and> RequestIDInterceptor ropts now h ctx req s = h ctx' req s
     \<and> (\<exists>e. RequestIDInterceptor ropts now (AuditInterceptor code_text (Some emit) aopts clocks meth h) ctx req s
            = (fst (h ctx' req s), emit e (snd (h ctx' req s))) \<and> ae_RequestID e = gen now)
     \<and> (\<exists>e. AuditInterceptor code_text (Some emit) aopts clocks meth (RequestIDInterceptor ropts now h) ctx req s
            = (fst (h ctx' req s), emit e (snd (h ctx' req s))) \<and> ae_RequestID e = RequestIDFromContext ctx)"
proof -
  let ?aopts = "[WithRequestIDExtractor RequestIDFromContext]"
  let ?ctx = "ctx\<lparr>ctx_request_id := Some (gen now)\<rparr>"
  let ?e = "\<lambda>c. audit_event code_text (audit_options ?aopts) clocks meth c (fst (h ?ctx req s))"
  have set_id: "with_request_id (request_id_options [WithRequestIDGenerator gen]) now ctx = ?ctx"
    by (simp add: with_request_id_def Let_def)
  have "audited ?aopts meth" using assms(1) by (simp add: audited_def)
  moreover have "RequestIDFromContext ?ctx = gen now" by (simp add: RequestIDFromContext_def)
  then have "ae_RequestID (?e ?ctx) = gen now" "ae_RequestID (?e ctx) = RequestIDFromContext ctx"
    by (simp_all add: audit_event_fields)
  ultimately show ?thesis
    using assms(2) \<open>RequestIDFromContext ?ctx = gen now\<close>
    by (auto simp: RequestIDInterceptor_def AuditInterceptor_event set_id Let_def)
qed

lemma request_id_reaches_the_inside_witness:
  "\<exists>e. RequestIDInterceptor [WithRequestIDGenerator (\<lambda>t. ''req-'' @ int_text t)] 7
        (AuditInterceptor (\<lambda>c. ''OK'') (Some (\<lambda>e s. s @ [e])) [WithRequestIDExtractor RequestIDFromContext] (0, 5) ''/svc/Do''
          (\<lambda>ctx req s. (Inr (Answers True), s)))
        \<lparr>ctx_metadata = None, ctx_peer = None, ctx_identity = None, ctx_credential = None, ctx_request_id = None\<rparr> () []
      = (Inr (Answers True), [e]) \<and> ae_RequestID e = ''req-7''"
proof -
  let ?ctx = "\<lparr>ctx_metadata = None, ctx_peer = None, ctx_identity = None, ctx_credential = None, ctx_request_id = None\<rparr>"
  let ?h = "\<lambda>(ctx :: rpc_context) (req :: unit) (s :: AuditEvent list). (Inr (Answers True) :: status + bool completion, s)"
  have "audited [] ''/svc/Do''"
    by (simp add: audited_def audit_options_def defaultAuditOptions_def NewSkipMethodMatcher_def DefaultSkipMethods_def)
  moreover have "''req-'' @ int_text 7 = ''req-7''" by code_simp
  ultimately show ?thesis
    using request_id_reaches_the_inside [where meth = "''/svc/Do''" and ctx = ?ctx and h = ?h and req = "()" and s = "[]"
      and gen = "\<lambda>t. ''req-'' @ int_text t" and now = 7 and emit = "\<lambda>e s. s @ [e]" and code_text = "\<lambda>c. ''OK''"
      and clocks = "(0, 5)"]
    by (auto simp: Let_def)
qed

definition logging_context :: "LoggingOption list \<Rightarrow> rpc_context \<Rightarrow> rpc_context" where
  "logging_context opts ctx =
     (case log_contextPreprocess (logging_options opts) of None \<Rightarrow> ctx | Some fn \<Rightarrow> fn ctx)"

lemma generateResponseSummary_total: "0 \<le> n \<Longrightarrow> \<exists>t. generateResponseSummary rend resp n = Some t"
  by (auto simp: generateResponseSummary_def split: option.split)

lemma generateResponseSummary_length:
  assumes "generateResponseSummary rend resp n = Some t" and "rend resp = Some r" and "r \<noteq> []"
  shows "t = r \<and> int (length r) \<le> n \<or> t = take (nat n) r @ ''...'' \<and> 0 \<le> n \<and> n < int (length r)"
  using assms by (auto simp: generateResponseSummary_def split: if_splits)

text \<open>
  Logging is transparent when the limit on response texts is not negative: behind the
  interceptor a call of a logged method ends as the handler ends it in the preprocessed
  context. With a negative limit, response logging turns a successful call whose response has a
  text into a panic, after the handler has taken effect.
\<close>
theorem logging_is_transparent:
  assumes "meth \<notin> set (log_skipMatcher (logging_options opts))"
    and "\<And>msg fs s. LogInfo lg msg fs s = s" and "\<And>msg fs s. LogError lg msg fs s = s"
  shows "if 0 \<le> maxResponseLen (logging_options opts)
    then LoggingInterceptor view (Some lg) opts clocks meth h ctx req s = h (logging_context opts ctx) req s
    else (case h (logging_context opts ctx) req s of
        (Inr (Answers resp), s') \<Rightarrow>
          logResponse (logging_options opts) \<and> render view resp \<noteq> None \<and> render view resp \<noteq> Some [] \<longrightarrow>
            LoggingInterceptor view (Some lg) opts clocks meth h ctx req s = (Inr (Panics ''slice bounds out of range''), s')
      | (res, s') \<Rightarrow> LoggingInterceptor view (Some lg) opts clocks meth h ctx req s = (res, s'))"
proof -
  obtain res s' where h: "h (logging_context opts ctx) req s = (res, s')" by force
  have i: "LoggingInterceptor view (Some lg) opts clocks meth h ctx req s =
     (case res of Inr (Answers resp) \<Rightarrow>
        if logResponse (logging_options opts) then
          (case generateResponseSummary (render view) resp (maxResponseLen (logging_options opts)) of
             None \<Rightarrow> (Inr (Panics ''slice bounds out of range''), s') | Some summary \<Rightarrow> (res, s'))
        else (res, s')
      | _ \<Rightarrow> (res, s'))"
    using assms h
    by (cases res) (auto simp: LoggingInterceptor_def skip_Match_iff Let_def logging_context_def
      split: completion.split option.split)
  show ?thesis
  proof (cases "0 \<le> maxResponseLen (logging_options opts)")
    case True
    then obtain t where "\<And>resp. generateResponseSummary (render view) resp (maxResponseLen (logging_options opts)) = Some (t resp)"
      using generateResponseSummary_total by metis
    then have "LoggingInterceptor view (Some lg) opts clocks meth h ctx req s = (res, s')"
      by (auto simp: i split: sum.split completion.split)
    with True h show ?thesis by simp
  next
    case False
    then have "generateResponseSummary (render view) resp (maxResponseLen (logging_options opts)) = None"
      if "render view resp \<noteq> None" "render view resp \<noteq> Some []" for resp
      using that by (auto simp: generateResponseSummary_def)
    with False h show ?thesis by (auto simp: i split: sum.split completion.split)
  qed
qed

lemma logging_is_transparent_witness:
  "LoggingInterceptor \<lparr>peer_addr = (\<lambda>c. None), code_String = (\<lambda>c. ''OK''), render = (\<lambda>r. Some r)\<rparr>
     (Some \<lparr>LogInfo = (\<lambda>m f s. s), LogError = (\<lambda>m f s. s)\<rparr>) [WithMaxResponseLen (- 1)] (0, 5) ''/svc/Do''
     (\<lambda>ctx req s. (Inr (Answers ''done''), Suc s))
     \<lparr>ctx_metadata = None, ctx_peer = None, ctx_identity = None, ctx_credential = None, ctx_request_id = None\<rparr> () 0
   = (Inr (Panics ''slice bounds out of range''), 1)"
  using logging_is_transparent [where meth = "''/svc/Do''" and opts = "[WithMaxResponseLen (- 1)]"
      and lg = "\<lparr>LogInfo = (\<lambda>m f s. s), LogError = (\<lambda>m f s. s)\<rparr>"
      and view = "\<lparr>peer_addr = (\<lambda>c. None), code_String = (\<lambda>c. ''OK''), render = (\<lambda>r. Some r)\<rparr>" and clocks = "(0, 5)"
      and h = "\<lambda>ctx req s. (Inr (Answers ''done''), Suc s)" and req = "()" and s = 0
      and ctx = "\<lparr>ctx_metadata = None, ctx_peer = None, ctx_identity = None, ctx_credential = None, ctx_request_id = None\<rparr>"]
  by (simp add: logging_options_def WithMaxResponseLen_def defaultLoggingOptions_def NewSkipMethodMatcher_def
    DefaultSkipMethods_def)

end
