(* ===== verification/Grpc_Metrics.thy ===== *)
theory Grpc_Metrics
  imports Complex_Main Grpc_Observe
begin

text \<open>
  The second half of \<open>pkg/grpc/interceptors/audit.go\<close>: the counters of authentication, access
  control and services, and the alerts over them. Counters are 64-bit words, the total duration
  is an \<open>int64\<close>, and rates, which the code computes as floats, are exact fractions. The atomic
  operations and the lock make every recording one step.
\<close>

section \<open>Counters\<close>

record ServiceMetrics =
  sm_ServiceName :: string
  RequestCount :: "64 word"
  SuccessCount :: "64 word"
  FailureCount :: "64 word"
  TotalDuration :: int
  LastRequestAt :: int

record AuthMetrics =
  AuthSuccess :: "64 word"
  AuthFailure :: "64 word"
  MTLSSuccess :: "64 word"
  MTLSFailure :: "64 word"
  TokenSuccess :: "64 word"
  TokenFailure :: "64 word"
  ACLAllowed :: "64 word"
  ACLDenied :: "64 word"
  serviceMetrics :: "string \<rightharpoonup> ServiceMetrics"

definition NewAuthMetrics :: AuthMetrics where
  "NewAuthMetrics = \<lparr>AuthSuccess = 0, AuthFailure = 0, MTLSSuccess = 0, MTLSFailure = 0, TokenSuccess = 0,
     TokenFailure = 0, ACLAllowed = 0, ACLDenied = 0, serviceMetrics = Map.empty\<rparr>"

definition token_type :: "string \<Rightarrow> bool" where
  "token_type authType = (authType = ''token'' \<or> authType = ''bearer'' \<or> authType = ''hmac'' \<or> authType = ''api_key'')"

definition RecordAuthSuccess :: "string \<Rightarrow> AuthMetrics \<Rightarrow> AuthMetrics" where
  "RecordAuthSuccess authType m =
     (let m' = m\<lparr>AuthSuccess := AuthSuccess m + 1\<rparr> in
      if authType = ''mtls'' then m'\<lparr>MTLSSuccess := MTLSSuccess m' + 1\<rparr>
      else if token_type authType then m'\<lparr>TokenSuccess := TokenSuccess m' + 1\<rparr>
      else m')"

definition RecordAuthFailure :: "string \<Rightarrow> AuthMetrics \<Rightarrow> AuthMetrics" where
  "RecordAuthFailure authType m =
     (let m' = m\<lparr>AuthFailure := AuthFailure m + 1\<rparr> in
      if authType = ''mtls'' then m'\<lparr>MTLSFailure := MTLSFailure m' + 1\<rparr>
      else if token_type authType then m'\<lparr>TokenFailure := TokenFailure m' + 1\<rparr>
      else m')"

definition RecordACLResult :: "bool \<Rightarrow> AuthMetrics \<Rightarrow> AuthMetrics" where
  "RecordACLResult allowed m =
     (if allowed then m\<lparr>ACLAllowed := ACLAllowed m + 1\<rparr> else m\<lparr>ACLDenied := ACLDenied m + 1\<rparr>)"

definition RecordServiceRequest :: "string \<Rightarrow> bool \<Rightarrow> duration \<Rightarrow> instant \<Rightarrow> AuthMetrics \<Rightarrow> AuthMetrics" where
  "RecordServiceRequest serviceName success elapsed now m =
     (let sm = (case serviceMetrics m serviceName of
            Some sm \<Rightarrow> sm
          | None \<Rightarrow> \<lparr>sm_ServiceName = serviceName, RequestCount = 0, SuccessCount = 0, FailureCount = 0,
              TotalDuration = 0, LastRequestAt = 0\<rparr>);
          sm1 = sm\<lparr>RequestCount := RequestCount sm + 1\<rparr>;
          sm2 = (if success then sm1\<lparr>SuccessCount := SuccessCount sm1 + 1\<rparr> else sm1\<lparr>FailureCount := FailureCount sm1 + 1\<rparr>);
          sm3 = sm2\<lparr>TotalDuration := wrap64 (TotalDuration sm2 + elapsed), LastRequestAt := to_unix now\<rparr>
      in m\<lparr>serviceMetrics := (serviceMetrics m)(serviceName \<mapsto> sm3)\<rparr>)"

section \<open>Snapshots\<close>

record service_snapshot =
  request_count :: "64 word"
  success_count :: "64 word"
  failure_count :: "64 word"
  avg_duration_ms :: rat
  last_request_at :: instant

record metrics_snapshot =
  snap_auth :: "string \<rightharpoonup> 64 word"
  snap_acl :: "string \<rightharpoonup> 64 word"
  snap_services :: "string \<rightharpoonup> service_snapshot"

definition service_snapshot_of :: "ServiceMetrics \<Rightarrow> service_snapshot" where
  "service_snapshot_of sm = \<lparr>request_count = RequestCount sm, success_count = SuccessCount sm,
     failure_count = FailureCount sm,
     avg_duration_ms = (if RequestCount sm > 0
       then of_int (TotalDuration sm) / of_nat (unat (RequestCount sm)) / 1000000 else 0),
     last_request_at = (LastRequestAt sm + 62135596800) * second\<rparr>"

definition GetMetrics :: "AuthMetrics \<Rightarrow> metrics_snapshot" where
  "GetMetrics m = \<lparr>
     snap_auth = [''success'' \<mapsto> AuthSuccess m, ''failure'' \<mapsto> AuthFailure m, ''mtls_success'' \<mapsto> MTLSSuccess m,
       ''mtls_failure'' \<mapsto> MTLSFailure m, ''token_success'' \<mapsto> TokenSuccess m, ''token_failure'' \<mapsto> TokenFailure m],
     snap_acl = [''allowed'' \<mapsto> ACLAllowed m, ''denied'' \<mapsto> ACLDenied m],
     snap_services = map_option service_snapshot_of \<circ> serviceMetrics m\<rparr>"

section \<open>The interceptor\<close>

text \<open>\<open>metrics\<close> and \<open>set_metrics\<close> read and write the counters in the state the calls share.\<close>

definition MetricsInterceptor ::
    "('s \<Rightarrow> AuthMetrics) \<Rightarrow> (AuthMetrics \<Rightarrow> 's \<Rightarrow> 's) \<Rightarrow> instant \<times> instant \<Rightarrow> ('q, 'r, 's) rpc \<Rightarrow> ('q, 'r, 's) rpc" where
  "MetricsInterceptor metrics set_metrics clocks h ctx req s =
     (case h ctx req s of
        (res, s1) \<Rightarrow>
          if panicked res \<noteq> None then (res, s1)
          else
            let serviceName = (case ServiceIdentityFromContext ctx of Some identity \<Rightarrow> ServiceName identity | None \<Rightarrow> ''unknown'');
                success = (case res of Inr (Answers r) \<Rightarrow> True | _ \<Rightarrow> False)
            in (res, set_metrics (RecordServiceRequest serviceName success
                 (time_sub (snd clocks) (fst clocks)) (snd clocks) (metrics s1)) s1))"

section \<open>Alerts\<close>

text \<open>The description of a rule, which nothing reads, is left out.\<close>

record AlertRule =
  ar_Name :: string
  ar_Condition :: "AuthMetrics \<Rightarrow> bool"
  ar_Severity :: string

definition high_auth_failure_rate :: "AuthMetrics \<Rightarrow> bool" where
  "high_auth_failure_rate m =
     (let total = AuthSuccess m + AuthFailure m in
      if total < 100 then False
      else (of_nat (unat (AuthFailure m)) / of_nat (unat total) :: rat) > 1 / 10)"

definition high_acl_deny_rate :: "AuthMetrics \<Rightarrow> bool" where
  "high_acl_deny_rate m =
     (let total = ACLAllowed m + ACLDenied m in
      if total < 100 then False
      else (of_nat (unat (ACLDenied m)) / of_nat (unat total) :: rat) > 5 / 100)"

definition mtls_failure_spike :: "AuthMetrics \<Rightarrow> bool" where
  "mtls_failure_spike m = (MTLSFailure m > 10)"

definition DefaultAlertRules :: "AlertRule list" where
  "DefaultAlertRules =
     [\<lparr>ar_Name = ''high_auth_failure_rate'', ar_Condition = high_auth_failure_rate, ar_Severity = ''critical''\<rparr>,
      \<lparr>ar_Name = ''high_acl_deny_rate'', ar_Condition = high_acl_deny_rate, ar_Severity = ''warning''\<rparr>,
      \<lparr>ar_Name = ''mtls_failure_spike'', ar_Condition = mtls_failure_spike, ar_Severity = ''critical''\<rparr>]"

record 's AlertChecker =
  ac_rules :: "AlertRule list"
  ac_handler :: "AlertRule \<Rightarrow> 's \<Rightarrow> 's"

definition NewAlertChecker :: "(AlertRule \<Rightarrow> 's \<Rightarrow> 's) \<Rightarrow> 's AlertChecker" where
  "NewAlertChecker handler = \<lparr>ac_rules = DefaultAlertRules, ac_handler = handler\<rparr>"

definition alert_AddRule :: "AlertRule \<Rightarrow> 's AlertChecker \<Rightarrow> 's AlertChecker" where
  "alert_AddRule rule c = c\<lparr>ac_rules := ac_rules c @ [rule]\<rparr>"

definition alert_Check :: "'s AlertChecker \<Rightarrow> AuthMetrics \<Rightarrow> 's \<Rightarrow> 's" where
  "alert_Check c m s = fold (\<lambda>rule s. if ar_Condition rule m then ac_handler c rule s else s) (ac_rules c) s"

text \<open>
  What the loop of the periodic check is woken by: a tick, with the counters of that moment,
  or the stop channel. The loop returns when it is stopped, otherwise it waits on; a ticker
  panics for an interval that is not positive, which is \<open>None\<close>.
\<close>

datatype wake = Tick AuthMetrics | StopSignal

fun check_loop :: "'s AlertChecker \<Rightarrow> wake list \<Rightarrow> 's \<Rightarrow> 's \<times> bool" where
  "check_loop c [] s = (s, False)"
| "check_loop c (StopSignal # ws) s = (s, True)"
| "check_loop c (Tick m # ws) s = check_loop c ws (alert_Check c m s)"

definition StartPeriodicCheck :: "'s AlertChecker \<Rightarrow> duration \<Rightarrow> wake list \<Rightarrow> 's \<Rightarrow> ('s \<times> bool) option" where
  "StartPeriodicCheck c interval ws s = (if interval \<le> 0 then None else Some (check_loop c ws s))"

section \<open>What the counters count\<close>

datatype recording =
    AuthOk string
  | AuthBad string
  | AclResult bool
  | Request string bool duration instant

fun record_one :: "recording \<Rightarrow> AuthMetrics \<Rightarrow> AuthMetrics" where
  "record_one (AuthOk t) m = RecordAuthSuccess t m"
| "record_one (AuthBad t) m = RecordAuthFailure t m"
| "record_one (AclResult b) m = RecordACLResult b m"
| "record_one (Request n ok d now) m = RecordServiceRequest n ok d now m"

definition record_all :: "recording list \<Rightarrow> AuthMetrics \<Rightarrow> AuthMetrics" where
  "record_all rs m = fold record_one rs m"

definition requests_of :: "string \<Rightarrow> recording list \<Rightarrow> (bool \<times> duration) list" where
  "requests_of n rs = concat (map (\<lambda>r. case r of Request n' ok d now \<Rightarrow> if n' = n then [(ok, d)] else [] | _ \<Rightarrow> []) rs)"

lemma requests_of_simps [simp]:
  "requests_of n [] = []"
  "requests_of n (Request n' ok d now # rs) = (if n' = n then (ok, d) # requests_of n rs else requests_of n rs)"
  "requests_of n (AuthOk t # rs) = requests_of n rs"
  "requests_of n (AuthBad t # rs) = requests_of n rs"
  "requests_of n (AclResult b # rs) = requests_of n rs"
  "requests_of n (rs @ rs') = requests_of n rs @ requests_of n rs'"
  by (simp_all add: requests_of_def)

lemma record_all_simps [simp]:
  "record_all [] m = m" "record_all (rs @ [r]) m = record_one r (record_all rs m)"
  by (simp_all add: record_all_def)

lemmas recording_defs = RecordAuthSuccess_def RecordAuthFailure_def RecordACLResult_def RecordServiceRequest_def

lemma record_one_auth:
  "AuthSuccess (record_one r m) = AuthSuccess m + (case r of AuthOk t \<Rightarrow> 1 | _ \<Rightarrow> 0)"
  "AuthFailure (record_one r m) = AuthFailure m + (case r of AuthBad t \<Rightarrow> 1 | _ \<Rightarrow> 0)"
  "MTLSSuccess (record_one r m) = MTLSSuccess m + (if r = AuthOk ''mtls'' then 1 else 0)"
  "MTLSFailure (record_one r m) = MTLSFailure m + (if r = AuthBad ''mtls'' then 1 else 0)"
  "ACLAllowed (record_one r m) = ACLAllowed m + (if r = AclResult True then 1 else 0)"
  "ACLDenied (record_one r m) = ACLDenied m + (if r = AclResult False then 1 else 0)"
  by (cases r; simp add: recording_defs Let_def)+

definition is_auth_ok :: "recording \<Rightarrow> bool" where "is_auth_ok r = (case r of AuthOk t \<Rightarrow> True | _ \<Rightarrow> False)"
definition is_auth_bad :: "recording \<Rightarrow> bool" where "is_auth_bad r = (case r of AuthBad t \<Rightarrow> True | _ \<Rightarrow> False)"

lemma record_all_auth:
  "AuthSuccess (record_all rs m) = AuthSuccess m + of_nat (length (filter is_auth_ok rs))"
  "AuthFailure (record_all rs m) = AuthFailure m + of_nat (length (filter is_auth_bad rs))"
  "MTLSSuccess (record_all rs m) = MTLSSuccess m + of_nat (count_list rs (AuthOk ''mtls''))"
  "MTLSFailure (record_all rs m) = MTLSFailure m + of_nat (count_list rs (AuthBad ''mtls''))"
  "ACLAllowed (record_all rs m) = ACLAllowed m + of_nat (count_list rs (AclResult True))"
  "ACLDenied (record_all rs m) = ACLDenied m + of_nat (count_list rs (AclResult False))"
  by (induction rs rule: rev_induct; simp add: record_one_auth is_auth_ok_def is_auth_bad_def split: recording.split)+

lemma wrap64_add [simp]: "wrap64 (a + wrap64 b) = wrap64 (a + b)"
  by (simp add: wrap64_def flip: wi_hom_add)

text \<open>The entry of a service after a run that began with no counters.\<close>

definition service_counts :: "ServiceMetrics \<Rightarrow> (bool \<times> duration) list \<Rightarrow> bool" where
  "service_counts sm qs \<longleftrightarrow>
     RequestCount sm = of_nat (length qs)
     \<and> SuccessCount sm = of_nat (length (filter fst qs))
     \<and> FailureCount sm = of_nat (length (filter (Not \<circ> fst) qs))
     \<and> TotalDuration sm = wrap64 (sum_list (map snd qs))"

lemma record_all_services:
  "case serviceMetrics (record_all rs NewAuthMetrics) n of
     None \<Rightarrow> requests_of n rs = []
   | Some sm \<Rightarrow> service_counts sm (requests_of n rs)"
proof (induction rs rule: rev_induct)
  case Nil
  then show ?case by (simp add: NewAuthMetrics_def)
next
  case (snoc r rs)
  then show ?case
    by (cases r) (auto simp: recording_defs service_counts_def Let_def ac_simps
      split: option.splits if_splits)
qed

lemma successes_and_failures: "length (filter fst qs) + length (filter (Not \<circ> fst) qs) = length qs"
  by (induction qs) auto

text \<open>
  The counters count: after any sequence of recordings on new metrics, every counter is the
  number of recordings of its kind modulo \<open>2 ^ 64\<close>, and a service has an entry exactly when a
  request of it was recorded, in which the requests are the successes and the failures together
  and the total duration is the sum, wrapped to 64 bits, of the durations.
\<close>
theorem metrics_count_recordings:
  "let m = record_all rs NewAuthMetrics in
   AuthSuccess m = of_nat (length (filter is_auth_ok rs))
   \<and> AuthFailure m = of_nat (length (filter is_auth_bad rs))
   \<and> MTLSSuccess m = of_nat (count_list rs (AuthOk ''mtls''))
   \<and> MTLSFailure m = of_nat (count_list rs (AuthBad ''mtls''))
   \<and> ACLAllowed m = of_nat (count_list rs (AclResult True))
   \<and> ACLDenied m = of_nat (count_list rs (AclResult False))
   \<and> (case serviceMetrics m n of
        None \<Rightarrow> requests_of n rs = []
      | Some sm \<Rightarrow> service_counts sm (requests_of n rs)
          \<and> RequestCount sm = SuccessCount sm + FailureCount sm)"
proof -
  have "RequestCount sm = SuccessCount sm + FailureCount sm" if "service_counts sm qs" for sm qs
    using that successes_and_failures [of qs] by (simp add: service_counts_def flip: of_nat_add)
  with record_all_services [where rs = rs and n = n] show ?thesis
    by (simp add: record_all_auth Let_def NewAuthMetrics_def split: option.splits)
qed

section \<open>What the interceptor records\<close>

text \<open>
  The metrics interceptor ends every call as its handler ends it and records exactly one
  request of it, a success when it answered; the service is the identity of the interceptor's
  own context, so outside the mTLS interceptor every request counts as \<open>unknown\<close>. A call that
  panics is not recorded.
\<close>
theorem metrics_record_calls:
  assumes "\<And>m s. metrics (set_metrics m s) = m"
    and "serviceMetrics (metrics (snd (h ctx req s))) n = None"
    and "n = (case ctx_identity ctx of Some i \<Rightarrow> ServiceName i | None \<Rightarrow> ''unknown'')"
  shows "case MetricsInterceptor metrics set_metrics clocks h ctx req s of
    (res, s') \<Rightarrow> res = fst (h ctx req s)
      \<and> (case panicked res of
           Some v \<Rightarrow> s' = snd (h ctx req s)
         | None \<Rightarrow> (\<exists>sm. serviceMetrics (metrics s') = (serviceMetrics (metrics (snd (h ctx req s))))(n \<mapsto> sm)
             \<and> service_counts sm [(case res of Inr (Answers r) \<Rightarrow> True | _ \<Rightarrow> False, time_sub (snd clocks) (fst clocks))]))"
proof -
  obtain res s1 where h: "h ctx req s = (res, s1)" by force
  show ?thesis
  proof (cases "panicked res")
    case None
    with h assms show ?thesis
      by (auto simp: MetricsInterceptor_def Let_def context_defs RecordServiceRequest_def service_counts_def
        split: option.splits)
  qed (simp add: MetricsInterceptor_def h)
qed

lemma metrics_record_calls_witness:
  "\<exists>sm. serviceMetrics (snd (MetricsInterceptor id (\<lambda>m s. m) (0, 5)
       (\<lambda>ctx req s. (Inr (Answers True), s))
       \<lparr>ctx_metadata = None, ctx_peer = None, ctx_identity = None, ctx_credential = None, ctx_request_id = None\<rparr>
       () NewAuthMetrics)) = [''unknown'' \<mapsto> sm] \<and> RequestCount sm = 1 \<and> SuccessCount sm = 1"
  using metrics_record_calls [where metrics = id and set_metrics = "\<lambda>m s. m" and clocks = "(0, 5)"
      and h = "\<lambda>ctx req s. (Inr (Answers True), s)" and req = "()" and s = NewAuthMetrics and n = "''unknown''"
      and ctx = "\<lparr>ctx_metadata = None, ctx_peer = None, ctx_identity = None, ctx_credential = None, ctx_request_id = None\<rparr>"]
  by (auto simp: NewAuthMetrics_def service_counts_def split: prod.splits)

section \<open>When alerts fire\<close>

lemma ratio_exceeds:
  "0 < b \<Longrightarrow> 0 < d \<Longrightarrow> (of_nat a / of_nat b :: rat) > of_nat c / of_nat d \<longleftrightarrow> c * b < a * d"
proof -
  assume "0 < b" "0 < d"
  then have "(of_nat a / of_nat b :: rat) > of_nat c / of_nat d
      \<longleftrightarrow> (of_nat c * of_nat b :: rat) < of_nat a * of_nat d"
    by (simp add: divide_simps mult.commute)
  also have "\<dots> \<longleftrightarrow> c * b < a * d" by (simp flip: of_nat_mult)
  finally show ?thesis .
qed

lemma rate_alert:
  fixes good bad :: "64 word"
  assumes "unat good + unat bad < 2 ^ 64" and "0 < d"
  shows "(if good + bad < 100 then False
      else (of_nat (unat bad) / of_nat (unat (good + bad)) :: rat) > of_nat c / of_nat d)
    \<longleftrightarrow> 100 \<le> unat good + unat bad \<and> c * (unat good + unat bad) < unat bad * d"
proof -
  have sum: "unat (good + bad) = unat good + unat bad"
    using assms(1) by (simp add: unat_word_ariths)
  show ?thesis
  proof (cases "unat good + unat bad < 100")
    case True
    with sum show ?thesis by (simp add: word_less_nat_alt)
  next
    case False
    with sum have "0 < unat (good + bad)" by linarith
    from ratio_exceeds [where a = "unat bad" and c = c, OF this assms(2)] False sum show ?thesis
      by (simp add: word_less_nat_alt)
  qed
qed

text \<open>
  The default alerts, in whole numbers: while the counters of a kind together stay below
  \<open>2 ^ 64\<close>, the authentication alert fires exactly from 100 results on when more than a tenth are
  failures, the access control alert when more than a twentieth are denials, and the mTLS alert
  from the eleventh failure on, whatever the number of successes.
\<close>
theorem default_alerts_fire:
  assumes "unat (AuthSuccess m) + unat (AuthFailure m) < 2 ^ 64"
    and "unat (ACLAllowed m) + unat (ACLDenied m) < 2 ^ 64"
  shows "(high_auth_failure_rate m \<longleftrightarrow>
      100 \<le> unat (AuthSuccess m) + unat (AuthFailure m)
      \<and> unat (AuthSuccess m) + unat (AuthFailure m) < 10 * unat (AuthFailure m))
    \<and> (high_acl_deny_rate m \<longleftrightarrow>
      100 \<le> unat (ACLAllowed m) + unat (ACLDenied m)
      \<and> unat (ACLAllowed m) + unat (ACLDenied m) < 20 * unat (ACLDenied m))
    \<and> (mtls_failure_spike m \<longleftrightarrow> 11 \<le> unat (MTLSFailure m))"
  using rate_alert [OF assms(1), where d = 10 and c = 1] rate_alert [OF assms(2), where d = 100 and c = 5]
  by (auto simp: high_auth_failure_rate_def high_acl_deny_rate_def mtls_failure_spike_def Let_def word_less_nat_alt)

lemma default_alerts_fire_witness:
  "high_auth_failure_rate (NewAuthMetrics\<lparr>AuthSuccess := 89, AuthFailure := 11\<rparr>)
   \<and> \<not> high_auth_failure_rate (NewAuthMetrics\<lparr>AuthSuccess := 90, AuthFailure := 10\<rparr>)"
  using default_alerts_fire [of "NewAuthMetrics\<lparr>AuthSuccess := 89, AuthFailure := 11\<rparr>"]
    default_alerts_fire [of "NewAuthMetrics\<lparr>AuthSuccess := 90, AuthFailure := 10\<rparr>"]
  by (simp add: NewAuthMetrics_def)

lemma alert_Check_firing:
  "alert_Check c m s = fold (ac_handler c) (filter (\<lambda>r. ar_Condition r m) (ac_rules c)) s"
proof -
  have "fold (\<lambda>rule s. if ar_Condition rule m then ac_handler c rule s else s) rs s
      = fold (ac_handler c) (filter (\<lambda>r. ar_Condition r m) rs) s" for rs
    by (induction rs arbitrary: s) simp_all
  then show ?thesis by (simp add: alert_Check_def)
qed

text \<open>The counters at the ticks before the loop is stopped.\<close>

fun ticks_until_stop :: "wake list \<Rightarrow> AuthMetrics list" where
  "ticks_until_stop [] = []"
| "ticks_until_stop (StopSignal # ws) = []"
| "ticks_until_stop (Tick m # ws) = m # ticks_until_stop ws"

text \<open>
  The periodic check handles, in the order of the ticks before the stop signal and of the
  rules, exactly the rules whose condition holds at each tick; it returns exactly when it is
  stopped, and an interval that is not positive makes it panic.
\<close>
theorem periodic_check_handles_firing_rules:
  "StartPeriodicCheck c interval ws s =
     (if interval \<le> 0 then None
      else Some (fold (ac_handler c)
             (concat (map (\<lambda>m. filter (\<lambda>r. ar_Condition r m) (ac_rules c)) (ticks_until_stop ws))) s,
           StopSignal \<in> set ws))"
proof -
  have "check_loop c ws s = (fold (ac_handler c)
      (concat (map (\<lambda>m. filter (\<lambda>r. ar_Condition r m) (ac_rules c)) (ticks_until_stop ws))) s, StopSignal \<in> set ws)"
    by (induction c ws s rule: check_loop.induct) (simp_all add: alert_Check_firing)
  then show ?thesis by (simp add: StartPeriodicCheck_def)
qed

text \<open>
  The mTLS alert does not recover: the counter is never reset, so once eleven failures were
  counted every later check alerts again, whatever is recorded in between, until \<open>2 ^ 64\<close>
  failures wrap the counter round.
\<close>
theorem mtls_alert_stays:
  assumes "mtls_failure_spike m"
    and "unat (MTLSFailure m) + count_list rs (AuthBad ''mtls'') < 2 ^ 64"
  shows "mtls_failure_spike (record_all rs m)"
proof -
  have "unat (MTLSFailure (record_all rs m)) = unat (MTLSFailure m) + count_list rs (AuthBad ''mtls'')"
    using assms(2) by (simp add: record_all_auth unat_of_nat unat_word_ariths mod_add_right_eq)
  with assms(1) show ?thesis by (simp add: mtls_failure_spike_def word_less_nat_alt)
qed

lemma mtls_alert_stays_witness:
  "mtls_failure_spike (record_all (replicate 3 (AuthOk ''mtls'')) (NewAuthMetrics\<lparr>MTLSFailure := 11\<rparr>))"
  using mtls_alert_stays [of "NewAuthMetrics\<lparr>MTLSFailure := 11\<rparr>" "replicate 3 (AuthOk ''mtls'')"]
  by (simp add: mtls_failure_spike_def NewAuthMetrics_def numeral_3_eq_3)

end
