(* ===== verification/Go_Floats.thy ===== *)
theory Go_Floats
  imports Complex_Main Go_Prelude
begin

text \<open>
  Floats: a \<open>float64\<close> is an exact fraction, which leaves out rounding, infinities and NaN. The
  conversion of a float to an integer drops the fraction.
\<close>

definition trunc_float :: "rat \<Rightarrow> int" where
  "trunc_float q = (if q < 0 then - \<lfloor>- q\<rfloor> else \<lfloor>q\<rfloor>)"

lemma trunc_float_int [simp]: "trunc_float (of_int i) = i"
  by (simp add: trunc_float_def flip: of_int_minus)

lemma trunc_float_of_nonneg: "0 \<le> q \<Longrightarrow> trunc_float q = \<lfloor>q\<rfloor>"
  by (simp add: trunc_float_def)

lemma trunc_float_zero [simp]: "trunc_float 0 = 0"
  by (simp add: trunc_float_def)

end
