(* ===== verification/Grpc_Client.thy ===== *)
theory Grpc_Client
  imports Go_Floats Grpc_Observe
begin

text \<open>
  \<open>pkg/grpc/interceptors/client.go\<close>: what a client adds to its calls (credentials, retries, a
  deadline, a log), and what becomes of them at a server with the package's own validators.

  An invoker is a function of the call context, the method, the request and a state of any
  type; its result is the error of the call. The context holds the outgoing metadata as the
  pairs appended to it and the deadline. Random bytes, the clock and the outcome of a wait that
  a cancelled context may cut short are arguments.
\<close>

section \<open>Credential providers\<close>

record client_context =
  cc_outgoing :: "(string \<times> string) list"
  cc_deadline :: "instant option"

type_synonym ('q, 'e, 's) invoker = "client_context \<Rightarrow> string \<Rightarrow> 'q \<Rightarrow> 's \<Rightarrow> 'e option \<times> 's"

type_synonym ('q, 'e, 'c, 's) streamer = "client_context \<Rightarrow> string \<Rightarrow> 'q \<Rightarrow> 's \<Rightarrow> ('e + 'c) \<times> 's"

type_synonym ('e, 's) ClientCredentialProvider = "client_context \<Rightarrow> 's \<Rightarrow> ('e + (string \<rightharpoonup> string)) \<times> 's"

definition BearerTokenProvider :: "('s \<Rightarrow> ('e + string) \<times> 's) \<Rightarrow> ('e, 's) ClientCredentialProvider" where
  "BearerTokenProvider getToken ctx s =
     (case getToken s of
        (Inl err, s') \<Rightarrow> (Inl err, s')
      | (Inr token, s') \<Rightarrow> (Inr [''authorization'' \<mapsto> ''Bearer '' @ token], s'))"

definition hex_byte :: "nat \<Rightarrow> string" where
  "hex_byte b = [hex_digit (b div 16), hex_digit (b mod 16)]"

definition generateNonce :: "nat list \<Rightarrow> string" where
  "generateNonce bytes = concat (map hex_byte bytes)"

text \<open>\<open>random s\<close> are the sixteen random bytes of one call, \<open>now s\<close> its reading of the clock.\<close>

definition HMACCredentialProvider ::
    "(string \<Rightarrow> string \<Rightarrow> string) \<Rightarrow> ('s \<Rightarrow> nat list \<times> 's) \<Rightarrow> ('s \<Rightarrow> instant) \<Rightarrow> string \<Rightarrow> string
     \<Rightarrow> ('e, 's) ClientCredentialProvider" where
  "HMACCredentialProvider mac random now accessKey secretKey ctx s =
     (case random s of
        (bytes, s') \<Rightarrow> (Inr (GenerateHMACCredentials mac (now s') accessKey secretKey (generateNonce bytes)), s'))"

definition APIKeyProvider :: "string \<Rightarrow> ('e, 's) ClientCredentialProvider" where
  "APIKeyProvider apiKey ctx s = (Inr [''x-api-key'' \<mapsto> apiKey], s)"

section \<open>Adding credentials\<close>

text \<open>\<open>order\<close> gives the order in which a map is visited.\<close>

definition metadata_pairs :: "((string \<rightharpoonup> string) \<Rightarrow> string list) \<Rightarrow> (string \<rightharpoonup> string) \<Rightarrow> (string \<times> string) list" where
  "metadata_pairs order md = map (\<lambda>k. (k, the (md k))) (order md)"

definition AppendToOutgoingContext :: "client_context \<Rightarrow> (string \<times> string) list \<Rightarrow> client_context" where
  "AppendToOutgoingContext ctx pairs = ctx\<lparr>cc_outgoing := cc_outgoing ctx @ pairs\<rparr>"

definition ClientCredentialInterceptor ::
    "((string \<rightharpoonup> string) \<Rightarrow> string list) \<Rightarrow> ('e, 's) ClientCredentialProvider \<Rightarrow> ('q, 'e, 's) invoker \<Rightarrow> ('q, 'e, 's) invoker" where
  "ClientCredentialInterceptor order provider invoke ctx meth req s =
     (case provider ctx s of
        (Inl err, s') \<Rightarrow> (Some err, s')
      | (Inr md, s') \<Rightarrow> invoke (AppendToOutgoingContext ctx (metadata_pairs order md)) meth req s')"

definition ClientCredentialStreamInterceptor ::
    "((string \<rightharpoonup> string) \<Rightarrow> string list) \<Rightarrow> ('e, 's) ClientCredentialProvider \<Rightarrow> ('q, 'e, 'c, 's) streamer \<Rightarrow> ('q, 'e, 'c, 's) streamer" where
  "ClientCredentialStreamInterceptor order provider open_stream ctx meth desc s =
     (case provider ctx s of
        (Inl err, s') \<Rightarrow> (Inl err, s')
      | (Inr md, s') \<Rightarrow> open_stream (AppendToOutgoingContext ctx (metadata_pairs order md)) meth desc s')"

section \<open>Retries\<close>

record 'e RetryOption =
  MaxRetries :: int
  InitialWait :: duration
  MaxWait :: duration
  Multiplier :: rat
  ShouldRetry :: "('e \<Rightarrow> bool) option"

definition DefaultRetryOption :: "'e RetryOption" where
  "DefaultRetryOption = \<lparr>MaxRetries = 3, InitialWait = 100 * millisecond, MaxWait = 5 * second,
     Multiplier = 2, ShouldRetry = None\<rparr>"

definition next_wait :: "'e RetryOption \<Rightarrow> duration \<Rightarrow> duration" where
  "next_wait opt wait =
     (let wait' = trunc_float (of_int wait * Multiplier opt) in
      if wait' > MaxWait opt then MaxWait opt else wait')"

text \<open>
  The loop, over the attempts that are left. \<open>pause wait s\<close> waits and tells whether the context
  ended first, and with what error.
\<close>

fun client_retry ::
    "'e RetryOption \<Rightarrow> (duration \<Rightarrow> 's \<Rightarrow> 'e option \<times> 's) \<Rightarrow> ('s \<Rightarrow> 'e option \<times> 's) \<Rightarrow> nat
     \<Rightarrow> duration \<Rightarrow> 'e option \<Rightarrow> 's \<Rightarrow> 'e option \<times> 's" where
  "client_retry opt pause attempt 0 wait lastErr s = (lastErr, s)"
| "client_retry opt pause attempt (Suc n) wait lastErr s =
     (case attempt s of
        (None, s1) \<Rightarrow> (None, s1)
      | (Some err, s1) \<Rightarrow>
          if (case ShouldRetry opt of None \<Rightarrow> False | Some should \<Rightarrow> \<not> should err) then (Some err, s1)
          else if n = 0 then (Some err, s1)
          else (case pause wait s1 of
                  (Some e, s2) \<Rightarrow> (Some e, s2)
                | (None, s2) \<Rightarrow> client_retry opt pause attempt n (next_wait opt wait) (Some err) s2))"

definition ClientRetryInterceptor ::
    "(duration \<Rightarrow> 's \<Rightarrow> 'e option \<times> 's) \<Rightarrow> 'e RetryOption option \<Rightarrow> ('q, 'e, 's) invoker \<Rightarrow> ('q, 'e, 's) invoker" where
  "ClientRetryInterceptor pause opt invoke ctx meth req s =
     (let opt = (case opt of None \<Rightarrow> DefaultRetryOption | Some opt \<Rightarrow> opt)
      in client_retry opt pause (invoke ctx meth req) (nat (MaxRetries opt + 1)) (InitialWait opt) None s)"

section \<open>Deadlines and logs\<close>

definition ClientTimeoutInterceptor :: "instant \<Rightarrow> duration \<Rightarrow> ('q, 'e, 's) invoker \<Rightarrow> ('q, 'e, 's) invoker" where
  "ClientTimeoutInterceptor now timeout invoke ctx meth req s =
     (let ctx' = (case cc_deadline ctx of None \<Rightarrow> ctx\<lparr>cc_deadline := Some (now + timeout)\<rparr> | Some d \<Rightarrow> ctx)
      in invoke ctx' meth req s)"

definition ClientLogInterceptor ::
    "(duration \<Rightarrow> string) \<Rightarrow> ('e \<Rightarrow> string) \<Rightarrow> 's logger option \<Rightarrow> instant \<times> instant \<Rightarrow> ('q, 'e, 's) invoker \<Rightarrow> ('q, 'e, 's) invoker" where
  "ClientLogInterceptor duration_text err_text l clocks invoke ctx meth req s =
     (case invoke ctx meth req s of
        (err, s1) \<Rightarrow>
          let fs = [''method'' \<mapsto> LogText meth, ''duration'' \<mapsto> LogText (duration_text (time_sub (snd clocks) (fst clocks)))]
          in (err, case l of None \<Rightarrow> s1
              | Some lg \<Rightarrow>
                  (case err of
                     Some e \<Rightarrow> LogError lg ''gRPC client call failed'' (fs(''error'' \<mapsto> LogText (err_text e))) s1
                   | None \<Rightarrow> LogInfo lg ''gRPC client call succeeded'' fs s1)))"

section \<open>What retrying does\<close>

text \<open>The attempts of a call, one after the other, with the pauses between them.\<close>

fun attempt_state :: "'e RetryOption \<Rightarrow> (duration \<Rightarrow> 's \<Rightarrow> 'e option \<times> 's) \<Rightarrow> ('s \<Rightarrow> 'e option \<times> 's) \<Rightarrow> duration \<Rightarrow> nat \<Rightarrow> 's \<Rightarrow> 's" where
  "attempt_state opt pause attempt wait 0 s = s"
| "attempt_state opt pause attempt wait (Suc k) s =
     attempt_state opt pause attempt (next_wait opt wait) k (snd (pause wait (snd (attempt s))))"

text \<open>The attempt from \<open>s\<close> fails and the loop goes on to the next one.\<close>

definition retried :: "'e RetryOption \<Rightarrow> (duration \<Rightarrow> 's \<Rightarrow> 'e option \<times> 's) \<Rightarrow> ('s \<Rightarrow> 'e option \<times> 's) \<Rightarrow> duration \<Rightarrow> 's \<Rightarrow> bool" where
  "retried opt pause attempt wait s =
     (case fst (attempt s) of
        None \<Rightarrow> False
      | Some err \<Rightarrow>
          (case ShouldRetry opt of None \<Rightarrow> True | Some should \<Rightarrow> should err)
          \<and> fst (pause wait (snd (attempt s))) = None)"

definition wait_before :: "'e RetryOption \<Rightarrow> nat \<Rightarrow> duration" where
  "wait_before opt k = (next_wait opt ^^ k) (InitialWait opt)"

lemma client_retry_skip:
  assumes "\<forall>k < m. retried opt pause attempt ((next_wait opt ^^ k) wait) (attempt_state opt pause attempt wait k s)"
    and "m < n"
  shows "\<exists>e. client_retry opt pause attempt n wait e0 s
    = client_retry opt pause attempt (n - m) ((next_wait opt ^^ m) wait) e (attempt_state opt pause attempt wait m s)"
  using assms
proof (induction m arbitrary: n wait e0 s)
  case (Suc m)
  obtain n' where n: "n = Suc n'" "m < n'" using Suc.prems(2) by (cases n) auto
  let ?s = "snd (pause wait (snd (attempt s)))"
  have "retried opt pause attempt wait s" using Suc.prems(1) by force
  then obtain err s1 s2 where "attempt s = (Some err, s1)" "pause wait s1 = (None, s2)" "?s = s2"
    "case ShouldRetry opt of None \<Rightarrow> True | Some should \<Rightarrow> should err"
    by (cases "attempt s") (auto simp: retried_def prod_eq_iff split: option.splits)
  then have step: "client_retry opt pause attempt n wait e0 s
      = client_retry opt pause attempt n' (next_wait opt wait) (Some err) ?s"
    using n by (cases "ShouldRetry opt") simp_all
  have "\<forall>k < m. retried opt pause attempt ((next_wait opt ^^ k) (next_wait opt wait))
      (attempt_state opt pause attempt (next_wait opt wait) k ?s)"
  proof (intro allI impI)
    fix k assume "k < m"
    with Suc.prems(1) have "retried opt pause attempt ((next_wait opt ^^ Suc k) wait) (attempt_state opt pause attempt wait (Suc k) s)"
      by blast
    then show "retried opt pause attempt ((next_wait opt ^^ k) (next_wait opt wait))
        (attempt_state opt pause attempt (next_wait opt wait) k ?s)"
      by (simp add: funpow_swap1)
  qed
  then obtain e where "client_retry opt pause attempt n' (next_wait opt wait) (Some err) ?s
      = client_retry opt pause attempt (n' - m) ((next_wait opt ^^ m) (next_wait opt wait)) e
          (attempt_state opt pause attempt (next_wait opt wait) m ?s)"
    using Suc.IH n(2) by blast
  then show ?case using step n by (auto simp: funpow_swap1)
qed auto

text \<open>
  C21: What the retrying interceptor returns, for a number of retries that is not negative: there
  is a last attempt, at most the \<open>MaxRetries\<close> plus first, before which every attempt failed with
  an error to be retried and every pause was waited out. The result is that of the last attempt
  when it succeeds, when its error is not to be retried or when no retry is left; otherwise the
  context ended in the pause after it, and its error is the result.
\<close>
theorem retry_returns_the_last_attempt:
  assumes "0 \<le> MaxRetries opt"
  shows "\<exists>k \<le> nat (MaxRetries opt).
    (\<forall>j < k. retried opt pause (invoke ctx meth req) (wait_before opt j) (attempt_state opt pause (invoke ctx meth req) (InitialWait opt) j s))
    \<and> (let st = attempt_state opt pause (invoke ctx meth req) (InitialWait opt) k s;
          res = ClientRetryInterceptor pause (Some opt) invoke ctx meth req s
      in res = invoke ctx meth req st
           \<and> (fst res = None \<or> k = nat (MaxRetries opt)
              \<or> (case ShouldRetry opt of None \<Rightarrow> False | Some should \<Rightarrow> \<not> should (the (fst res))))
         \<or> fst (invoke ctx meth req st) \<noteq> None \<and> fst res \<noteq> None \<and> res = pause (wait_before opt k) (snd (invoke ctx meth req st)))"
proof -
  define attempt where "attempt = invoke ctx meth req"
  let ?N = "nat (MaxRetries opt)" and ?w = "InitialWait opt"
  let ?st = "\<lambda>k. attempt_state opt pause attempt ?w k s"
  let ?P = "\<lambda>k. k = ?N \<or> \<not> retried opt pause attempt (wait_before opt k) (?st k)"
  define k where "k = (LEAST k. ?P k)"
  have k: "?P k" unfolding k_def by (rule LeastI [of _ ?N]) simp
  have le: "k \<le> ?N" unfolding k_def by (rule Least_le) simp
  have before: "retried opt pause attempt (wait_before opt j) (?st j)" if "j < k" for j
    using not_less_Least [of j ?P] that k_def by auto
  have N: "nat (MaxRetries opt + 1) = Suc ?N" using assms(1) by simp
  obtain e where "ClientRetryInterceptor pause (Some opt) invoke ctx meth req s
      = client_retry opt pause attempt (Suc ?N - k) (wait_before opt k) e (?st k)"
    using client_retry_skip [of k opt pause attempt ?w s "Suc ?N" None] before le
    by (auto simp: ClientRetryInterceptor_def wait_before_def attempt_def N)
  also have "Suc ?N - k = Suc (?N - k)" using le by simp
  finally have res: "ClientRetryInterceptor pause (Some opt) invoke ctx meth req s
      = client_retry opt pause attempt (Suc (?N - k)) (wait_before opt k) e (?st k)" .
  obtain r s1 where a: "attempt (?st k) = (r, s1)" by force
  obtain p s2 where p: "pause (wait_before opt k) s1 = (p, s2)" by force
  show ?thesis
    using k le before unfolding attempt_def [symmetric]
    by (intro exI [of _ k])
      (cases r; cases p; auto simp: res a p Let_def retried_def split: option.splits)
qed

lemma retry_returns_the_last_attempt_witness:
  "\<exists>k \<le> 3. (let st = attempt_state DefaultRetryOption (\<lambda>w s. (None, s)) (\<lambda>n. (if n < 2 then Some ''unavailable'' else None, Suc n))
        (100 * millisecond) k 0;
      res = ClientRetryInterceptor (\<lambda>w s. (None, s)) (Some DefaultRetryOption)
        (\<lambda>ctx meth req n. (if n < 2 then Some ''unavailable'' else None, Suc n))
        \<lparr>cc_outgoing = [], cc_deadline = None\<rparr> ''/svc/Do'' () 0
    in res = (if st < (2 :: nat) then Some ''unavailable'' else None, Suc st))"
  using retry_returns_the_last_attempt [where opt = DefaultRetryOption and pause = "\<lambda>w s. (None, s)"
      and invoke = "\<lambda>ctx meth req n. (if n < 2 then Some ''unavailable'' else None, Suc n)" and s = 0
      and ctx = "\<lparr>cc_outgoing = [], cc_deadline = None\<rparr>" and meth = "''/svc/Do''" and req = "()"]
  by (auto simp: DefaultRetryOption_def Let_def)

text \<open>
  With a negative number of retries the interceptor reports success without having sent the
  request at all.
\<close>
theorem negative_retries_send_nothing:
  assumes "MaxRetries opt < 0"
  shows "ClientRetryInterceptor pause (Some opt) invoke ctx meth req s = (None, s)"
  using assms by (simp add: ClientRetryInterceptor_def)

lemma negative_retries_send_nothing_witness:
  "ClientRetryInterceptor (\<lambda>w s. (None, s)) (Some (DefaultRetryOption\<lparr>MaxRetries := - 1\<rparr>))
     (\<lambda>ctx meth req n. (Some ''unavailable'', Suc n)) \<lparr>cc_outgoing = [], cc_deadline = None\<rparr> ''/svc/Do'' () 0 = (None, 0)"
  by (rule negative_retries_send_nothing) simp

lemma next_wait_grows:
  assumes "1 \<le> Multiplier opt" and "0 \<le> wait" and "wait \<le> MaxWait opt"
  shows "wait \<le> next_wait opt wait \<and> next_wait opt wait \<le> MaxWait opt"
proof -
  have "(of_int wait :: rat) \<le> of_int wait * Multiplier opt"
    using mult_left_mono [OF assms(1), of "of_int wait"] assms(2) by simp
  moreover from this assms(2) have "0 \<le> of_int wait * Multiplier opt"
    by (metis of_int_0_le_iff order_trans)
  ultimately have "wait \<le> trunc_float (of_int wait * Multiplier opt)"
    by (simp add: trunc_float_of_nonneg le_floor_iff)
  with assms(3) show ?thesis by (auto simp: next_wait_def Let_def)
qed

text \<open>
  For a multiplier of at least one and an initial wait that is not longer than the maximum,
  the pauses never get shorter and never exceed the maximum; with the default options they
  double from 100 milliseconds up to five seconds.
\<close>
theorem waits_grow_to_the_maximum:
  fixes opt :: "'e RetryOption"
  assumes "1 \<le> Multiplier opt" and "0 \<le> InitialWait opt" and "InitialWait opt \<le> MaxWait opt"
  shows "InitialWait opt \<le> wait_before opt k \<and> wait_before opt k \<le> wait_before opt (Suc k)
    \<and> wait_before opt (Suc k) \<le> MaxWait opt
    \<and> wait_before (DefaultRetryOption :: 'e RetryOption) k = min (5 * second) (100 * millisecond * 2 ^ k)"
proof -
  have inv: "InitialWait opt \<le> wait_before opt k \<and> wait_before opt k \<le> MaxWait opt" for k
  proof (induction k)
    case (Suc k)
    with next_wait_grows [of opt "wait_before opt k"] assms show ?case
      by (simp add: wait_before_def)
  qed (use assms in \<open>simp add: wait_before_def\<close>)
  have "wait_before opt k \<le> wait_before opt (Suc k)"
    using next_wait_grows [of opt "wait_before opt k"] assms inv [of k] by (simp add: wait_before_def)
  moreover have "wait_before (DefaultRetryOption :: 'e RetryOption) k = min (5 * second) (100 * millisecond * 2 ^ k)"
  proof (induction k)
    case (Suc k)
    have "trunc_float (of_int w * 2) = w * 2" for w
      using trunc_float_int [of "w * 2"] by simp
    with Suc show ?case
      by (simp add: wait_before_def next_wait_def DefaultRetryOption_def Let_def second_def millisecond_def)
  qed (simp add: wait_before_def DefaultRetryOption_def second_def millisecond_def)
  ultimately show ?thesis using inv [of k] inv [of "Suc k"] by simp
qed

lemma waits_grow_to_the_maximum_witness:
  "100 * millisecond \<le> wait_before (DefaultRetryOption :: string RetryOption) 7"
  using waits_grow_to_the_maximum [where opt = "DefaultRetryOption :: string RetryOption" and k = 7]
  by (simp add: DefaultRetryOption_def second_def millisecond_def)

section \<open>Clients against the package's own server\<close>

text \<open>
  The server reads the metadata the client sent. It is the credential interceptor, with the
  extractor and the validators of the package, around a handler; \<open>clocks n\<close> are the readings
  of its clock during the \<open>n\<close>-th request and \<open>h n\<close> is what the handler does with it. Its state is the number of requests and the stores.
\<close>

definition outgoing_Get :: "(string \<times> string) list \<Rightarrow> string \<Rightarrow> string list" where
  "outgoing_Get pairs k = map snd (filter (\<lambda>p. fst p = k) pairs)"

definition incoming :: "client_context \<Rightarrow> rpc_context" where
  "incoming ctx = \<lparr>ctx_metadata = Some (outgoing_Get (cc_outgoing ctx)), ctx_peer = None, ctx_identity = None,
     ctx_credential = None, ctx_request_id = None\<rparr>"

definition serve ::
    "(string \<Rightarrow> string \<Rightarrow> string) \<Rightarrow> (nat \<Rightarrow> clock) \<Rightarrow> (nat \<Rightarrow> ('q, 'r, security_stores) handler)
     \<Rightarrow> ('q, status, nat \<times> security_stores) invoker" where
  "serve mac clocks h ctx meth req s =
     (case CredentialInterceptor (Extract NewMetadataCredentialExtractor) (Composite_Validate (server_validator mac))
             [] (clocks (fst s)) meth (h (fst s)) (incoming ctx) req (snd s) of
        (Inl st, s') \<Rightarrow> (Some st, (Suc (fst s), s'))
      | (Inr r, s') \<Rightarrow> (None, (Suc (fst s), s')))"

lemma outgoing_Get_pairs:
  assumes "enumerates (order md) md"
  shows "outgoing_Get (metadata_pairs order md) k = header_Get md k"
proof -
  have "filter (\<lambda>p. fst p = k) (map (\<lambda>k. (k, the (md k))) ks) = (if k \<in> set ks then [(k, the (md k))] else [])"
    if "distinct ks" for ks
    using that by (induction ks) auto
  with assms show ?thesis
    by (auto simp: outgoing_Get_def metadata_pairs_def header_Get_def enumerates_def split: option.splits)
qed

lemma extracted_credential:
  assumes "enumerates (order md) md" and "md = GenerateHMACCredentials mac now accessKey secretKey nonce"
    and "0 \<le> now" and "now < 2 ^ 62"
  shows "Extract NewMetadataCredentialExtractor
      (incoming (AppendToOutgoingContext \<lparr>cc_outgoing = [], cc_deadline = d\<rparr> (metadata_pairs order md)))
    = Inr (generated_credential mac now accessKey secretKey nonce)"
proof (rule Extract_generated)
  show "ctx_metadata (incoming (AppendToOutgoingContext \<lparr>cc_outgoing = [], cc_deadline = d\<rparr> (metadata_pairs order md)))
      = Some (header_Get (GenerateHMACCredentials mac now accessKey secretKey nonce))"
    using outgoing_Get_pairs [where order = order and md = md, OF assms(1)] by (auto simp: incoming_def AppendToOutgoingContext_def assms(2))
qed fact+

lemma used_nonce_refused:
  assumes "nonces s nonce = Some expiry" and "nonce \<noteq> []"
  shows "\<exists>err. HMAC_Validate mac server_hmac clock ctx (generated_credential mac now accessKey secretKey nonce) s = (Inl err, s)"
proof -
  have "HMAC_nonce_check server_hmac (generated_credential mac now accessKey secretKey nonce) s \<noteq> None"
    using in_memory.held_refuses [of server_hmac "generated_credential mac now accessKey secretKey nonce" s expiry] assms
    by (simp add: server_hmac_def nonce_held_def)
  then have "HMAC_check mac server_hmac clock (generated_credential mac now accessKey secretKey nonce) s \<noteq> None"
    by (simp add: HMAC_check_None)
  then show ?thesis by (auto simp: HMAC_Validate_def)
qed

text \<open>One request with generated credentials.\<close>

definition with_credential :: "((string \<rightharpoonup> string) \<Rightarrow> string list) \<Rightarrow> (string \<rightharpoonup> string) \<Rightarrow> client_context" where
  "with_credential order md = AppendToOutgoingContext \<lparr>cc_outgoing = [], cc_deadline = None\<rparr> (metadata_pairs order md)"

lemma serve_used:
  assumes "\<And>md. md = GenerateHMACCredentials mac now ak sk nonce \<Longrightarrow> enumerates (order md) md"
    and "0 \<le> now" and "now < 2 ^ 62" and "meth \<notin> set DefaultSkipMethods"
    and "nonces st nonce = Some expiry" and "nonce \<noteq> []"
  shows "serve mac clocks h (with_credential order (GenerateHMACCredentials mac now ak sk nonce)) meth req (n, st)
    = (Some (status_Error Unauthenticated ''invalid credentials''), (Suc n, st))"
proof -
  note ex = extracted_credential [where order = order, OF assms(1) [OF refl] refl assms(2,3), where d = None]
  obtain err where "HMAC_Validate mac server_hmac (clocks n)
      (incoming (with_credential order (GenerateHMACCredentials mac now ak sk nonce)))
      (generated_credential mac now ak sk nonce) st = (Inl err, st)"
    using used_nonce_refused [OF assms(5,6)] by blast
  with ex assms(4) show ?thesis
    by (simp add: serve_def CredentialInterceptor_def credential_options_def defaultCredentialOptions_def
        NewSkipMethodMatcher_def skip_Match_iff with_credential_def server_validates_generated)
qed

lemma serve_fresh:
  assumes "\<And>md. md = GenerateHMACCredentials mac now ak sk nonce \<Longrightarrow> enumerates (order md) md"
    and "0 \<le> now" and "now < 2 ^ 62" and "meth \<notin> set DefaultSkipMethods"
    and "secrets st ak = Some sk" and "nonces st nonce = None" and "nonce \<noteq> []"
    and "clocks n 0 - now \<le> 299 * second" and "now - clocks n 1 \<le> 300 * second"
    and h: "\<And>ctx' st'. h n ctx' req st' = (answer, st')"
  shows "\<exists>expiry. serve mac clocks h (with_credential order (GenerateHMACCredentials mac now ak sk nonce)) meth req (n, st)
    = (case answer of Inl e \<Rightarrow> Some e | Inr r \<Rightarrow> None, (Suc n, st\<lparr>nonces := (nonces st)(nonce \<mapsto> expiry)\<rparr>))"
proof -
  note ex = extracted_credential [where order = order, OF assms(1) [OF refl] refl assms(2,3), where d = None]
  let ?c = "generated_credential mac now ak sk nonce"
  have "HMAC_check mac server_hmac (clocks n) ?c st = None"
    using assms(2,3,5,6,8,9) by (intro generated_credential_checks)
  then have "HMAC_Validate mac server_hmac (clocks n) ctx' ?c st
      = (Inr (fst (HMAC_commit server_hmac (clocks n) ?c st)), snd (HMAC_commit server_hmac (clocks n) ?c st))" for ctx'
    by (simp add: HMAC_Validate_def prod_eq_iff)
  moreover obtain expiry where "snd (HMAC_commit server_hmac (clocks n) ?c st) = st\<lparr>nonces := (nonces st)(nonce \<mapsto> expiry)\<rparr>"
    using assms(7) by (simp add: HMAC_commit_def uses_nonce_def server_hmac_def in_memory_nonces_def Nonce_Store_def Let_def)
  ultimately obtain c where "HMAC_Validate mac server_hmac (clocks n)
      (incoming (with_credential order (GenerateHMACCredentials mac now ak sk nonce))) ?c st
        = (Inr c, st\<lparr>nonces := (nonces st)(nonce \<mapsto> expiry)\<rparr>)" by simp
  then have "serve mac clocks h (with_credential order (GenerateHMACCredentials mac now ak sk nonce)) meth req (n, st)
    = (case answer of Inl e \<Rightarrow> Some e | Inr r \<Rightarrow> None, (Suc n, st\<lparr>nonces := (nonces st)(nonce \<mapsto> expiry)\<rparr>))"
    using ex assms(4) h
    by (simp add: serve_def CredentialInterceptor_def credential_options_def defaultCredentialOptions_def
        NewSkipMethodMatcher_def skip_Match_iff with_credential_def server_validates_generated
        validateIdentityMatch_def ServiceIdentityFromContext_def incoming_def split: sum.split)
  then show ?thesis by blast
qed

text \<open>The client of both stacks: \<open>bytes n\<close> are the random bytes when the server has seen \<open>n\<close> requests.\<close>

definition hmac_client ::
    "(string \<Rightarrow> string \<Rightarrow> string) \<Rightarrow> (nat \<Rightarrow> nat list) \<Rightarrow> instant \<Rightarrow> string \<Rightarrow> string \<Rightarrow> (status, nat \<times> security_stores) ClientCredentialProvider" where
  "hmac_client mac bytes now = HMACCredentialProvider mac (\<lambda>s. (bytes (fst s), s)) (\<lambda>s. now)"

lemma client_sends:
  "ClientCredentialInterceptor order (hmac_client mac bytes now ak sk) invoke \<lparr>cc_outgoing = [], cc_deadline = None\<rparr> meth req s
    = invoke (with_credential order (GenerateHMACCredentials mac now ak sk (generateNonce (bytes (fst s))))) meth req s"
  by (simp add: ClientCredentialInterceptor_def hmac_client_def HMACCredentialProvider_def with_credential_def)

lemma retries_all_refused:
  assumes "ShouldRetry opt = None" and "\<And>w s. pause w s = (None, s)"
    and "\<And>n. attempt (n, st) = (Some e, (Suc n, st))"
  shows "client_retry opt pause attempt (Suc k) wait e0 (n, st) = (Some e, (n + Suc k, st))"
  using assms by (induction k arbitrary: wait e0 n) simp_all

text \<open>
  C20: Where the retries go decides whether they help. A client with HMAC credentials calls a
  server of this package whose handler fails once and then succeeds. With the credential
  interceptor outside the retries, every retry sends the nonce of the first attempt and is
  refused as a replay: the call ends Unauthenticated. With the retries outside, every attempt
  has its own nonce and the second one succeeds.
\<close>
theorem retries_need_fresh_credentials:
  assumes "1 \<le> MaxRetries opt" and "ShouldRetry opt = None" and "\<And>w s. pause w s = (None, s)"
    and "\<And>nonce md. md = GenerateHMACCredentials mac now ak sk nonce \<Longrightarrow> enumerates (order md) md"
    and "0 \<le> now" and "now < 2 ^ 62" and "meth \<notin> set DefaultSkipMethods"
    and "secrets st ak = Some sk"
    and "\<And>n. generateNonce (bytes n) \<noteq> [] \<and> nonces st (generateNonce (bytes n)) = None"
    and "generateNonce (bytes 0) \<noteq> generateNonce (bytes 1)"
    and "\<And>n. clocks n 0 - now \<le> 299 * second \<and> now - clocks n 1 \<le> 300 * second"
    and "\<And>n ctx s. h n ctx req s = (if n = 0 then Inl (status_Error Unavailable ''busy'') else Inr r, s)"
  shows "fst (ClientCredentialInterceptor order (hmac_client mac bytes now ak sk)
        (ClientRetryInterceptor pause (Some opt) (serve mac clocks h))
        \<lparr>cc_outgoing = [], cc_deadline = None\<rparr> meth req (0, st))
      = Some (status_Error Unauthenticated ''invalid credentials'')
    \<and> fst (ClientRetryInterceptor pause (Some opt)
        (ClientCredentialInterceptor order (hmac_client mac bytes now ak sk) (serve mac clocks h))
        \<lparr>cc_outgoing = [], cc_deadline = None\<rparr> meth req (0, st)) = None"
proof -
  let ?n = "\<lambda>k. generateNonce (bytes k)" and ?busy = "status_Error Unavailable ''busy''"
  let ?md = "\<lambda>k. with_credential order (GenerateHMACCredentials mac now ak sk (?n k))"
  define k where "k = nat (MaxRetries opt - 1)"
  have k: "nat (MaxRetries opt + 1) = Suc (Suc k)" using assms(1) unfolding k_def by arith
  have fresh: "\<exists>expiry. serve mac clocks h (?md j) meth req (j, st')
      = (if j = 0 then Some ?busy else None, (Suc j, st'\<lparr>nonces := (nonces st')(?n j \<mapsto> expiry)\<rparr>))"
    if "secrets st' ak = Some sk" "nonces st' (?n j) = None" for j st'
    using serve_fresh [where mac = mac and now = now and ak = ak and sk = sk and nonce = "?n j" and order = order
        and clocks = clocks and n = j and h = h and req = req and meth = meth and st = st'
        and answer = "if j = 0 then Inl ?busy else Inr r"] assms that by auto
  obtain x where first: "serve mac clocks h (?md 0) meth req (0, st)
      = (Some ?busy, (1, st\<lparr>nonces := (nonces st)(?n 0 \<mapsto> x)\<rparr>))"
    using fresh [of st 0] assms(8,9) by auto
  let ?st = "st\<lparr>nonces := (nonces st)(?n 0 \<mapsto> x)\<rparr>"
  have again: "serve mac clocks h (?md 0) meth req (j, ?st)
      = (Some (status_Error Unauthenticated ''invalid credentials''), (Suc j, ?st))" for j
    using assms(4-7,9) by (intro serve_used [where expiry = x]) auto
  obtain y where second: "serve mac clocks h (?md 1) meth req (1, ?st) = (None, (2, ?st\<lparr>nonces := (nonces ?st)(?n 1 \<mapsto> y)\<rparr>))"
    using fresh [of ?st 1] assms(8-10) by (auto simp: numeral_2_eq_2)
  have "ClientRetryInterceptor pause (Some opt) (serve mac clocks h) (?md 0) meth req (0, st)
      = client_retry opt pause (serve mac clocks h (?md 0) meth req) (Suc k) (next_wait opt (InitialWait opt)) (Some ?busy) (1, ?st)"
    using first assms(2,3) by (simp add: ClientRetryInterceptor_def k)
  then have outside: "fst (ClientRetryInterceptor pause (Some opt) (serve mac clocks h) (?md 0) meth req (0, st))
      = Some (status_Error Unauthenticated ''invalid credentials'')"
    using retries_all_refused [where attempt = "serve mac clocks h (?md 0) meth req", OF assms(2,3) again]
    by (simp del: client_retry.simps)
  have inside: "fst (ClientRetryInterceptor pause (Some opt)
      (ClientCredentialInterceptor order (hmac_client mac bytes now ak sk) (serve mac clocks h))
      \<lparr>cc_outgoing = [], cc_deadline = None\<rparr> meth req (0, st)) = None"
    using first second assms(2,3) by (simp add: ClientRetryInterceptor_def k client_sends)
  from outside inside show ?thesis by (simp add: client_sends)
qed

lemma retries_need_fresh_credentials_witness:
  "fst (ClientRetryInterceptor (\<lambda>w s. (None, s)) (Some DefaultRetryOption)
        (ClientCredentialInterceptor (\<lambda>md. [''x-api-key'', ''x-api-signature'', ''x-api-timestamp'', ''x-api-nonce''])
           (hmac_client (\<lambda>k m. k) (\<lambda>n. [n]) 0 ''svc'' ''key'')
           (serve (\<lambda>k m. k) (\<lambda>n j. 0) (\<lambda>n ctx req s. (if n = 0 then Inl (status_Error Unavailable ''busy'') else Inr (), s))))
        \<lparr>cc_outgoing = [], cc_deadline = None\<rparr> ''/svc/Do'' () (0, sample_stores)) = None"
proof -
  have order: "enumerates [''x-api-key'', ''x-api-signature'', ''x-api-timestamp'', ''x-api-nonce''] md"
    if "md = GenerateHMACCredentials (\<lambda>k m. k) 0 ''svc'' ''key'' nonce" for md nonce
    by (auto simp: that GenerateHMACCredentials_def enumerates_def Let_def)
  have "generateNonce [0] \<noteq> generateNonce [1]" by (simp add: generateNonce_def hex_byte_def hex_digit_def)
  with order show ?thesis
    using retries_need_fresh_credentials [where opt = DefaultRetryOption and pause = "\<lambda>w s. (None, s)"
        and mac = "\<lambda>k m. k" and now = 0 and ak = "''svc''" and sk = "''key''" and meth = "''/svc/Do''" and req = "()"
        and order = "\<lambda>md. [''x-api-key'', ''x-api-signature'', ''x-api-timestamp'', ''x-api-nonce'']"
        and st = sample_stores and bytes = "\<lambda>n. [n]" and clocks = "\<lambda>n j. 0" and r = "()"
        and h = "\<lambda>n ctx req s. (if n = 0 then Inl (status_Error Unavailable ''busy'') else Inr (), s)"]
    by (simp add: DefaultRetryOption_def DefaultSkipMethods_def sample_stores_def generateNonce_def hex_byte_def second_def)
qed

end
