(* ===== verification/Redis_Store.thy ===== *)
theory Redis_Store
  imports Redis_Lease
begin

text \<open>
  \<open>pkg/redis/store\<close>: typed values in Redis behind a codec, and the functions of
  \<open>pkg/redis/lock.go\<close>, which take and free a lease by its key.

  The server is that of \<open>Redis_Lease\<close> with \<open>SET\<close> and \<open>EXISTS\<close>. Payloads are byte strings. The
  JSON library and gzip are arguments of their codecs. As with leases, an operation also returns
  the events it hands to the observer.
\<close>

section \<open>Codecs\<close>

record 'v ValueCodec =
  vc_Marshal :: "'v \<Rightarrow> string + string"
  vc_Unmarshal :: "string \<Rightarrow> string + 'v"
  vc_Name :: string

definition JSONCodec :: "('v \<Rightarrow> string + string) \<Rightarrow> (string \<Rightarrow> string + 'v) \<Rightarrow> 'v ValueCodec" where
  "JSONCodec json_Marshal json_Unmarshal = \<lparr>vc_Marshal = json_Marshal,
     vc_Unmarshal = \<lambda>payload. if length payload = 0 then Inl ''json payload is empty'' else json_Unmarshal payload,
     vc_Name = ''json''\<rparr>"

definition StringCodec :: "string ValueCodec" where
  "StringCodec = \<lparr>vc_Marshal = Inr, vc_Unmarshal = Inr, vc_Name = ''string''\<rparr>"

definition BytesCodec :: "string ValueCodec" where
  "BytesCodec = \<lparr>vc_Marshal = Inr, vc_Unmarshal = Inr, vc_Name = ''bytes''\<rparr>"

definition compression_Marshal :: "(string \<Rightarrow> string + string) \<Rightarrow> 'v ValueCodec option \<Rightarrow> 'v \<Rightarrow> string + string" where
  "compression_Marshal gzip base value =
     (case base of
        None \<Rightarrow> Inl ''base codec is nil''
      | Some c \<Rightarrow> (case vc_Marshal c value of Inl err \<Rightarrow> Inl err | Inr payload \<Rightarrow> gzip payload))"

definition compression_Unmarshal :: "(string \<Rightarrow> string + string) \<Rightarrow> 'v ValueCodec option \<Rightarrow> string \<Rightarrow> string + 'v" where
  "compression_Unmarshal gunzip base payload =
     (case base of
        None \<Rightarrow> Inl ''base codec is nil''
      | Some c \<Rightarrow> (case gunzip payload of Inl err \<Rightarrow> Inl err | Inr decoded \<Rightarrow> vc_Unmarshal c decoded))"

definition compression_Name :: "'v ValueCodec option \<Rightarrow> string" where
  "compression_Name base = (case base of None \<Rightarrow> ''gzip'' | Some c \<Rightarrow> ''gzip+'' @ vc_Name c)"

definition NewCompressionCodec ::
    "(string \<Rightarrow> string + string) \<Rightarrow> (string \<Rightarrow> string + string) \<Rightarrow> 'v ValueCodec option \<Rightarrow> 'v ValueCodec" where
  "NewCompressionCodec gzip gunzip base = \<lparr>vc_Marshal = compression_Marshal gzip base,
     vc_Unmarshal = compression_Unmarshal gunzip base, vc_Name = compression_Name base\<rparr>"

section \<open>The store\<close>

record 's value_redis =
  vr_base :: "'s redis"
  r_SET :: "instant \<Rightarrow> string \<Rightarrow> string \<Rightarrow> duration \<Rightarrow> 's \<Rightarrow> 's"
  r_EXISTS :: "instant \<Rightarrow> string \<Rightarrow> 's \<Rightarrow> int"

definition NewStoreKey :: "string \<Rightarrow> string + string" where
  "NewStoreKey key = (if key = [] then Inl ''store key is empty'' else Inr key)"

text \<open>A panic is \<open>None\<close>.\<close>

definition MustStoreKey :: "string \<Rightarrow> string option" where
  "MustStoreKey key = (case NewStoreKey key of Inl err \<Rightarrow> None | Inr storeKey \<Rightarrow> Some storeKey)"

record StoreEvent =
  se_Operation :: string
  se_Key :: string
  se_Codec :: string
  se_Hit :: bool
  se_TTL :: duration
  se_Size :: int
  se_Err :: "string option"

text \<open>A store that is not nil; its client and its codec may be.\<close>

record ('s, 'v) ValueStore =
  vs_client :: "'s value_redis option"
  vs_codec :: "'v ValueCodec option"

definition NewValueStore :: "'s value_redis option \<Rightarrow> 'v ValueCodec option \<Rightarrow> ('s, 'v) ValueStore" where
  "NewValueStore client codec = \<lparr>vs_client = client, vs_codec = codec\<rparr>"

definition store_client :: "('s, 'v) ValueStore option \<Rightarrow> 's value_redis option" where
  "store_client store = (case store of None \<Rightarrow> None | Some st \<Rightarrow> vs_client st)"

definition codecName :: "'v ValueCodec option \<Rightarrow> string" where
  "codecName codec = (case codec of None \<Rightarrow> [] | Some c \<Rightarrow> vc_Name c)"

definition store_event :: "string \<Rightarrow> string \<Rightarrow> string \<Rightarrow> bool \<Rightarrow> duration \<Rightarrow> int \<Rightarrow> string option \<Rightarrow> StoreEvent" where
  "store_event op key codec hit ttl sz err = \<lparr>se_Operation = op, se_Key = key, se_Codec = codec, se_Hit = hit,
     se_TTL = ttl, se_Size = sz, se_Err = err\<rparr>"

text \<open>The guards of \<open>Get\<close>, \<open>Set\<close> and \<open>SetIfAbsent\<close>.\<close>

definition store_ready :: "('s, 'v) ValueStore option \<Rightarrow> string \<Rightarrow> string + 's value_redis \<times> 'v ValueCodec" where
  "store_ready store key =
     (case store_client store of
        None \<Rightarrow> Inl ''redis client is nil''
      | Some ops \<Rightarrow>
          (case vs_codec (the store) of
             None \<Rightarrow> Inl ''value codec is nil''
           | Some codec \<Rightarrow> if key = [] then Inl ''store key is empty'' else Inr (ops, codec)))"

text \<open>The result is the value, if there is one.\<close>

definition store_Get ::
    "('s, 'v) ValueStore option \<Rightarrow> instant \<Rightarrow> outcome \<Rightarrow> string \<Rightarrow> 's \<Rightarrow> (string + 'v option) \<times> StoreEvent list" where
  "store_Get store now net key s =
     (case store_ready store key of
        Inl err \<Rightarrow> (Inl err, [])
      | Inr (ops, codec) \<Rightarrow>
          (case fst (call net (r_GET (vr_base ops) now key s, s) s) of
             Inl RedisNil \<Rightarrow> (Inr None, [store_event ''get'' key (vc_Name codec) False 0 0 None])
           | Inl (RedisError err) \<Rightarrow> (Inl err, [store_event ''get'' key (vc_Name codec) False 0 0 (Some err)])
           | Inr None \<Rightarrow> (Inr None, [store_event ''get'' key (vc_Name codec) False 0 0 None])
           | Inr (Some payload) \<Rightarrow>
               (case vc_Unmarshal codec payload of
                  Inl err \<Rightarrow> (Inl err, [store_event ''get'' key (vc_Name codec) False 0 (int (length payload)) (Some err)])
                | Inr value \<Rightarrow>
                    (Inr (Some value), [store_event ''get'' key (vc_Name codec) True 0 (int (length payload)) None]))))"

definition store_set ::
    "('s, 'v) ValueStore option \<Rightarrow> instant \<Rightarrow> outcome \<Rightarrow> string \<Rightarrow> 'v \<Rightarrow> duration \<Rightarrow> bool \<Rightarrow> 's
     \<Rightarrow> string option \<times> StoreEvent list \<times> 's" where
  "store_set store now net key value ttl onlyIfAbsent s =
     (case store_ready store key of
        Inl err \<Rightarrow> (Some err, [], s)
      | Inr (ops, codec) \<Rightarrow>
          (case vc_Marshal codec value of
             Inl err \<Rightarrow> (Some err, [store_event ''set'' key (vc_Name codec) False 0 0 (Some err)], s)
           | Inr payload \<Rightarrow>
               (case call net ((), r_SET ops now key payload ttl s) s of
                  (r, s') \<Rightarrow>
                    let err = (case r of Inl e \<Rightarrow> Some (redis_text e) | Inr _ \<Rightarrow> None)
                    in (err, [store_event ''set'' key (vc_Name codec) (\<not> onlyIfAbsent) ttl (int (length payload)) err], s'))))"

definition store_Set ::
    "('s, 'v) ValueStore option \<Rightarrow> instant \<Rightarrow> outcome \<Rightarrow> string \<Rightarrow> 'v \<Rightarrow> duration \<Rightarrow> 's
     \<Rightarrow> string option \<times> StoreEvent list \<times> 's" where
  "store_Set store now net key value ttl s = store_set store now net key value ttl False s"

definition SetIfAbsent ::
    "('s, 'v) ValueStore option \<Rightarrow> instant \<Rightarrow> outcome \<Rightarrow> string \<Rightarrow> 'v \<Rightarrow> duration \<Rightarrow> 's
     \<Rightarrow> (string + bool) \<times> StoreEvent list \<times> 's" where
  "SetIfAbsent store now net key value ttl s =
     (case store_ready store key of
        Inl err \<Rightarrow> (Inl err, [], s)
      | Inr (ops, codec) \<Rightarrow>
          (case vc_Marshal codec value of
             Inl err \<Rightarrow> (Inl err, [store_event ''set_if_absent'' key (vc_Name codec) False 0 0 (Some err)], s)
           | Inr payload \<Rightarrow>
               (case call net (r_SETNX (vr_base ops) now key payload ttl s) s of
                  (Inl e, s') \<Rightarrow> (Inl (redis_text e), [store_event ''set_if_absent'' key (vc_Name codec) False ttl
                      (int (length payload)) (Some (redis_text e))], s')
                | (Inr ok, s') \<Rightarrow> (Inr ok, [store_event ''set_if_absent'' key (vc_Name codec) ok ttl
                      (int (length payload)) None], s'))))"

definition store_Delete ::
    "('s, 'v) ValueStore option \<Rightarrow> instant \<Rightarrow> outcome \<Rightarrow> string \<Rightarrow> 's \<Rightarrow> string option \<times> StoreEvent list \<times> 's" where
  "store_Delete store now net key s =
     (case store_client store of
        None \<Rightarrow> (Some ''redis client is nil'', [], s)
      | Some ops \<Rightarrow>
          if key = [] then (Some ''store key is empty'', [], s)
          else (case call net (r_DEL (vr_base ops) now key s) s of
                  (r, s') \<Rightarrow>
                    let err = (case r of Inl e \<Rightarrow> Some (redis_text e) | Inr _ \<Rightarrow> None)
                    in (err, [store_event ''delete'' key (codecName (vs_codec (the store))) False 0 0 err], s')))"

definition store_Exists ::
    "('s, 'v) ValueStore option \<Rightarrow> instant \<Rightarrow> outcome \<Rightarrow> string \<Rightarrow> 's \<Rightarrow> (string + bool) \<times> StoreEvent list" where
  "store_Exists store now net key s =
     (case store_client store of
        None \<Rightarrow> (Inl ''redis client is nil'', [])
      | Some ops \<Rightarrow>
          if key = [] then (Inl ''store key is empty'', [])
          else let name = codecName (vs_codec (the store)) in
            (case fst (call net (r_EXISTS ops now key s, s) s) of
               Inl e \<Rightarrow> (Inl (redis_text e), [store_event ''exists'' key name False 0 0 (Some (redis_text e))])
             | Inr count \<Rightarrow> (Inr (count > 0), [store_event ''exists'' key name (count > 0) 0 0 None])))"

section \<open>Leases by key\<close>

text \<open>The result is the token, if the lease was acquired.\<close>

definition AcquireLease ::
    "'s redis option \<Rightarrow> instant \<Rightarrow> outcome \<Rightarrow> instant \<Rightarrow> (string + string) \<Rightarrow> string \<Rightarrow> duration \<Rightarrow> 's
     \<Rightarrow> (string + string option) \<times> 's" where
  "AcquireLease client now net clock new_token key ttl s =
     (case NewLeaseKey key of
        Inl err \<Rightarrow> (Inl err, s)
      | Inr leaseKey \<Rightarrow>
          (case Acquire (Some client) now net clock new_token leaseKey ttl None s of
             (Inl err, _, s') \<Rightarrow> (Inl err, s')
           | (Inr attempt, _, s') \<Rightarrow>
               if \<not> Acquired attempt then (Inr None, s') else (Inr (Some (lease_Token (attempt_Lease attempt))), s')))"

definition ReleaseLease ::
    "'s redis option \<Rightarrow> instant \<Rightarrow> outcome \<Rightarrow> string \<Rightarrow> string \<Rightarrow> 's \<Rightarrow> string option \<times> 's" where
  "ReleaseLease client now net key token s =
     (if key = [] \<or> token = [] then (None, s)
      else (case Release (Some client) now net (no_lease\<lparr>lease_Key := key, lease_Token := token\<rparr>) s of
              (err, _, s') \<Rightarrow> (err, s')))"

section \<open>What SET and EXISTS promise\<close>

definition value_contract :: "'s value_redis \<Rightarrow> 's live \<Rightarrow> bool" where
  "value_contract ops live \<longleftrightarrow>
     redis_contract (vr_base ops) live
     \<and> (\<forall>now k v d s. 0 \<le> d \<longrightarrow>
          changes_only live now k (\<lambda>t. if lasts now d t then Some v else None) s (r_SET ops now k v d s))
     \<and> (\<forall>now k s. r_EXISTS ops now k s = (if live s now k = None then 0 else 1))"

lemma value_contract_base: "value_contract ops live \<Longrightarrow> redis_contract (vr_base ops) live"
  by (simp add: value_contract_def)

lemma contract_SET:
  "value_contract ops live \<Longrightarrow> now \<le> t \<Longrightarrow> 0 \<le> d \<Longrightarrow>
     live (r_SET ops now k v d s) t k' = (if k' = k then (if lasts now d t then Some v else None) else live s t k')"
  by (simp add: value_contract_def changes_only_def)

lemma contract_EXISTS: "value_contract ops live \<Longrightarrow> r_EXISTS ops now k s = (if live s now k = None then 0 else 1)"
  by (simp add: value_contract_def)

definition sample_value_redis :: "(string \<rightharpoonup> string \<times> instant option) value_redis" where
  "sample_value_redis = \<lparr>vr_base = sample_redis,
     r_SET = \<lambda>now k v d s. s(k \<mapsto> (v, if d = 0 then None else Some (now + granted d))),
     r_EXISTS = \<lambda>now k s. if sample_live s now k = None then 0 else 1\<rparr>"

lemma sample_value_contract: "value_contract sample_value_redis sample_live"
  by (simp add: value_contract_def sample_value_redis_def sample_contract changes_only_def)
    (auto simp: sample_live_def lasts_def)

section \<open>Codecs as an interface\<close>

definition faithful :: "'v ValueCodec \<Rightarrow> 'v \<Rightarrow> bool" where
  "faithful codec v = (case vc_Marshal codec v of Inl err \<Rightarrow> False | Inr p \<Rightarrow> vc_Unmarshal codec p = Inr v)"

text \<open>What goes on at the server between a write and a read.\<close>

datatype 'v store_op =
    OpSet string 'v duration
  | OpSetIfAbsent string 'v duration
  | OpDelete string
  | OpGet string
  | OpExists string

record 'v store_call =
  sc_at :: instant
  sc_net :: outcome
  sc_op :: "'v store_op"

definition store_exec :: "('s, 'v) ValueStore option \<Rightarrow> 'v store_call \<Rightarrow> 's \<Rightarrow> 's" where
  "store_exec store c s =
     (case sc_op c of
        OpSet key v ttl \<Rightarrow> snd (snd (store_Set store (sc_at c) (sc_net c) key v ttl s))
      | OpSetIfAbsent key v ttl \<Rightarrow> snd (snd (SetIfAbsent store (sc_at c) (sc_net c) key v ttl s))
      | OpDelete key \<Rightarrow> snd (snd (store_Delete store (sc_at c) (sc_net c) key s))
      | OpGet key \<Rightarrow> s
      | OpExists key \<Rightarrow> s)"

definition store_run :: "('s, 'v) ValueStore option \<Rightarrow> 'v store_call list \<Rightarrow> 's \<Rightarrow> 's" where
  "store_run store cs s = fold (store_exec store) cs s"

text \<open>A call that neither overwrites nor deletes the key; it may set it if it is absent.\<close>

fun leaves :: "string \<Rightarrow> 'v store_op \<Rightarrow> bool" where
  "leaves key (OpSet k v ttl) = (k \<noteq> key \<and> 0 \<le> ttl)"
| "leaves key (OpSetIfAbsent k v ttl) = (0 \<le> ttl)"
| "leaves key (OpDelete k) = (k \<noteq> key)"
| "leaves key _ = True"

definition payload_kept :: "'s live \<Rightarrow> 's \<Rightarrow> instant \<Rightarrow> (instant \<Rightarrow> bool) \<Rightarrow> string \<Rightarrow> string \<Rightarrow> bool" where
  "payload_kept live s since alive key p \<longleftrightarrow> (\<forall>t. since \<le> t \<and> alive t \<longrightarrow> live s t key = Some p)"

lemma store_ready_Inr:
  "store_ready store key = Inr (ops, codec) \<longleftrightarrow>
     key \<noteq> [] \<and> store_client store = Some ops \<and> vs_codec (the store) = Some codec"
  by (auto simp: store_ready_def split: option.splits)

lemma Set_state:
  "snd (snd (store_Set (Some \<lparr>vs_client = Some ops, vs_codec = codec\<rparr>) now net k v ttl s))
    \<in> {s, r_SET ops now k (projr (vc_Marshal (the codec) v)) ttl s}"
  by (cases codec; cases "vc_Marshal (the codec) v"; cases net; cases "k = []")
    (auto simp: store_Set_def store_set_def store_ready_def store_client_def call_def Let_def)

lemma SetIfAbsent_state:
  "snd (snd (SetIfAbsent (Some \<lparr>vs_client = Some ops, vs_codec = codec\<rparr>) now net k v ttl s))
    \<in> {s, snd (r_SETNX (vr_base ops) now k (projr (vc_Marshal (the codec) v)) ttl s)}"
  by (cases codec; cases "vc_Marshal (the codec) v"; cases net; cases "k = []")
    (auto simp: SetIfAbsent_def store_ready_def store_client_def call_def split: prod.split)

lemma Delete_state:
  "snd (snd (store_Delete (Some \<lparr>vs_client = Some ops, vs_codec = codec\<rparr>) now net k s)) = s
   \<or> snd (snd (store_Delete (Some \<lparr>vs_client = Some ops, vs_codec = codec\<rparr>) now net k s))
       = snd (r_DEL (vr_base ops) now k s)"
  by (cases net) (auto simp: store_Delete_def call_def store_client_def Let_def)

lemma store_exec_state:
  "store_exec (Some \<lparr>vs_client = Some ops, vs_codec = codec\<rparr>) c s = s
   \<or> (\<exists>k v ttl p. sc_op c = OpSet k v ttl
        \<and> store_exec (Some \<lparr>vs_client = Some ops, vs_codec = codec\<rparr>) c s = r_SET ops (sc_at c) k p ttl s)
   \<or> (\<exists>k v ttl p. sc_op c = OpSetIfAbsent k v ttl
        \<and> store_exec (Some \<lparr>vs_client = Some ops, vs_codec = codec\<rparr>) c s
            = snd (r_SETNX (vr_base ops) (sc_at c) k p ttl s))
   \<or> (\<exists>k. sc_op c = OpDelete k
        \<and> store_exec (Some \<lparr>vs_client = Some ops, vs_codec = codec\<rparr>) c s = snd (r_DEL (vr_base ops) (sc_at c) k s))"
proof (cases "sc_op c")
  case (OpSet k v ttl)
  then show ?thesis using Set_state [of ops codec "sc_at c" "sc_net c" k v ttl s] by (auto simp: store_exec_def)
next
  case (OpSetIfAbsent k v ttl)
  then show ?thesis using SetIfAbsent_state [of ops codec "sc_at c" "sc_net c" k v ttl s] by (auto simp: store_exec_def)
next
  case (OpDelete k)
  then show ?thesis using Delete_state [of ops codec "sc_at c" "sc_net c" k s] by (simp add: store_exec_def)
qed (simp_all add: store_exec_def)

lemma store_exec_keeps:
  assumes "value_contract ops live" and "payload_kept live s (sc_at c) (lasts t0 ttl) key p"
    and "leaves key (sc_op c)"
  shows "payload_kept live (store_exec (Some \<lparr>vs_client = Some ops, vs_codec = codec\<rparr>) c s) (sc_at c) (lasts t0 ttl) key p"
proof -
  note effects = contract_SET [OF assms(1)] contract_effects [OF value_contract_base [OF assms(1)]]
  let ?s = "store_exec (Some \<lparr>vs_client = Some ops, vs_codec = codec\<rparr>) c s"
  have now: "live s (sc_at c) key = Some p" if "sc_at c \<le> t" "lasts t0 ttl t" for t
    using assms(2) that by (auto simp: payload_kept_def lasts_def)
  consider "?s = s" | k v d p' where "sc_op c = OpSet k v d" "?s = r_SET ops (sc_at c) k p' d s"
    | k v d p' where "sc_op c = OpSetIfAbsent k v d" "?s = snd (r_SETNX (vr_base ops) (sc_at c) k p' d s)"
    | k where "sc_op c = OpDelete k" "?s = snd (r_DEL (vr_base ops) (sc_at c) k s)"
    using store_exec_state [of ops codec c s] by blast
  then show ?thesis
  proof cases
    case 1
    with assms(2) show ?thesis by simp
  next
    case 2
    with assms(2,3) show ?thesis by (auto simp: payload_kept_def effects)
  next
    case (3 k v d p')
    with assms(2,3) now show ?thesis by (simp add: payload_kept_def effects) (metis option.distinct(1))
  next
    case 4
    with assms(2,3) show ?thesis by (auto simp: payload_kept_def effects)
  qed
qed

fun store_calls_between :: "instant \<Rightarrow> instant \<Rightarrow> 'v store_call list \<Rightarrow> bool" where
  "store_calls_between since until [] = (since \<le> until)"
| "store_calls_between since until (c # cs) = (since \<le> sc_at c \<and> store_calls_between (sc_at c) until cs)"

lemma payload_kept_later: "payload_kept live s since alive key p \<Longrightarrow> since \<le> since' \<Longrightarrow> payload_kept live s since' alive key p"
  by (simp add: payload_kept_def)

lemma store_run_keeps:
  assumes "value_contract ops live"
  shows "payload_kept live s since (lasts t0 ttl) key p \<Longrightarrow> store_calls_between since now cs
    \<Longrightarrow> list_all (\<lambda>c. leaves key (sc_op c)) cs
    \<Longrightarrow> payload_kept live (store_run (Some \<lparr>vs_client = Some ops, vs_codec = codec\<rparr>) cs s) now (lasts t0 ttl) key p"
proof (induction cs arbitrary: s since)
  case Nil
  then show ?case by (auto simp: store_run_def payload_kept_later)
next
  case (Cons c cs)
  let ?s = "store_exec (Some \<lparr>vs_client = Some ops, vs_codec = codec\<rparr>) c s"
  from Cons.prems have "payload_kept live ?s (sc_at c) (lasts t0 ttl) key p"
    by (intro store_exec_keeps [OF assms]) (auto intro: payload_kept_later)
  with Cons show ?case by (auto simp: store_run_def)
qed

lemma Set_writes:
  assumes "vc_Marshal codec v = Inr p" and "key \<noteq> []"
  shows "store_Set (Some \<lparr>vs_client = Some ops, vs_codec = Some codec\<rparr>) now Delivered key v ttl s
    = (None, [store_event ''set'' key (vc_Name codec) True ttl (int (length p)) None], r_SET ops now key p ttl s)"
  using assms by (simp add: store_Set_def store_set_def store_ready_def store_client_def call_def)

lemma Get_reads:
  assumes "redis_contract (vr_base ops) live" and "live s now key = Some p" and "vc_Unmarshal codec p = Inr v" and "key \<noteq> []"
  shows "store_Get (Some \<lparr>vs_client = Some ops, vs_codec = Some codec\<rparr>) now Delivered key s
    = (Inr (Some v), [store_event ''get'' key (vc_Name codec) True 0 (int (length p)) None])"
  using assms by (simp add: store_Get_def store_ready_def store_client_def call_def contract_GET)

lemma Get_misses:
  assumes "redis_contract (vr_base ops) live" and "live s now key = None" and "key \<noteq> []"
  shows "fst (store_Get (Some \<lparr>vs_client = Some ops, vs_codec = Some codec\<rparr>) now Delivered key s) = Inr None"
  using assms by (simp add: store_Get_def store_ready_def store_client_def call_def contract_GET)

locale value_codec =
  fixes codec :: "'v ValueCodec"
    and stored :: "'v set"
  assumes faithful: "v \<in> stored \<Longrightarrow> faithful codec v"
begin

lemma marshalled:
  assumes "v \<in> stored"
  obtains p where "vc_Marshal codec v = Inr p" "vc_Unmarshal codec p = Inr v"
  using faithful [OF assms] by (auto simp: faithful_def split: sum.splits)

lemma read_back:
  fixes ops :: "'s value_redis"
  assumes contract: "value_contract ops live" and v: "v \<in> stored" and "key \<noteq> []" and "0 \<le> ttl"
    and "store_calls_between t0 now cs" and "list_all (\<lambda>c. leaves key (sc_op c)) cs" and "lasts t0 ttl now"
  defines "store \<equiv> Some \<lparr>vs_client = Some ops, vs_codec = Some codec\<rparr>"
  shows "case store_Set store t0 Delivered key v ttl s of
    (err, evs, s') \<Rightarrow> err = None
      \<and> fst (store_Get store now Delivered key (store_run store cs s')) = Inr (Some v)
      \<and> fst (SetIfAbsent store now Delivered key v' ttl' (store_run store cs s')) \<noteq> Inr True"
proof -
  obtain p where p: "vc_Marshal codec v = Inr p" "vc_Unmarshal codec p = Inr v" using v by (rule marshalled)
  note base = value_contract_base [OF contract]
  have "payload_kept live (r_SET ops t0 key p ttl s) t0 (lasts t0 ttl) key p"
    using assms(4) by (simp add: payload_kept_def contract_SET [OF contract])
  then have "payload_kept live (store_run store cs (r_SET ops t0 key p ttl s)) now (lasts t0 ttl) key p"
    unfolding store_def using assms(5,6) by (rule store_run_keeps [OF contract])
  then have live: "live (store_run store cs (r_SET ops t0 key p ttl s)) now key = Some p"
    using assms(7) by (simp add: payload_kept_def)
  from live have "\<not> fst (r_SETNX (vr_base ops) now key q ttl' (store_run store cs (r_SET ops t0 key p ttl s)))" for q
    using contract_SETNX_reply [OF base] by simp
  then have "fst (SetIfAbsent store now Delivered key v' ttl' (store_run store cs (r_SET ops t0 key p ttl s))) \<noteq> Inr True"
    using assms(3) by (auto simp: SetIfAbsent_def store_def store_ready_def store_client_def call_def split: sum.splits)
  with live show ?thesis
    using Get_reads [OF base live p(2) assms(3)] Set_writes [where ops = ops, OF p(1) assms(3)] by (simp add: store_def)
qed

end

interpretation string_codec: value_codec StringCodec UNIV
  by unfold_locales (simp add: faithful_def StringCodec_def)

interpretation bytes_codec: value_codec BytesCodec UNIV
  by unfold_locales (simp add: faithful_def BytesCodec_def)

interpretation json_codec: value_codec "JSONCodec marshal unmarshal"
    "{v. \<exists>p. marshal v = Inr p \<and> p \<noteq> [] \<and> unmarshal p = Inr v}" for marshal unmarshal
  by unfold_locales (auto simp: faithful_def JSONCodec_def)

interpretation compressed: value_codec "NewCompressionCodec gzip gunzip (Some base)"
    "{v. faithful base v \<and> (\<forall>p. \<exists>z. gzip p = Inr z \<and> gunzip z = Inr p)}" for gzip gunzip base
proof unfold_locales
  fix v assume v: "v \<in> {v. faithful base v \<and> (\<forall>p. \<exists>z. gzip p = Inr z \<and> gunzip z = Inr p)}"
  then obtain p where p: "vc_Marshal base v = Inr p" "vc_Unmarshal base p = Inr v"
    by (auto simp: faithful_def split: sum.splits)
  from v obtain z where "gzip p = Inr z" "gunzip z = Inr p" by blast
  with p show "faithful (NewCompressionCodec gzip gunzip (Some base)) v"
    by (simp add: faithful_def NewCompressionCodec_def compression_Marshal_def compression_Unmarshal_def)
qed

section \<open>Properties\<close>

text \<open>
  C10: A stored string is read back: after a successful \<open>Set\<close> through a codec that compresses
  strings, and whatever calls that do not overwrite or delete the key come in between, with
  whatever network failures, \<open>Get\<close> returns the value until its time to live has passed, and
  \<open>SetIfAbsent\<close> does not replace it; with a time to live of zero this holds for ever.
\<close>
theorem stored_strings_are_read_back:
  assumes "value_contract ops live" and "\<And>p. \<exists>z. gzip p = Inr z \<and> gunzip z = Inr p"
    and "key \<noteq> []" and "0 \<le> ttl" and "store_calls_between t0 now cs"
    and "list_all (\<lambda>c. leaves key (sc_op c)) cs" and "lasts t0 ttl now"
  shows "let store = Some (NewValueStore (Some ops) (Some (NewCompressionCodec gzip gunzip (Some StringCodec))))
    in case store_Set store t0 Delivered key v ttl s of
      (err, evs, s') \<Rightarrow> err = None
        \<and> fst (store_Get store now Delivered key (store_run store cs s')) = Inr (Some v)
        \<and> fst (SetIfAbsent store now Delivered key v' ttl' (store_run store cs s')) \<noteq> Inr True"
  using compressed.read_back [where base = StringCodec and gzip = gzip and gunzip = gunzip and ops = ops, OF assms(1) _ assms(3-7)]
    assms(2) string_codec.faithful
  by (simp add: NewValueStore_def)

lemma stored_strings_are_read_back_witness:
  "fst (store_Get (Some (NewValueStore (Some sample_value_redis) (Some (NewCompressionCodec Inr Inr (Some StringCodec)))))
      7 Delivered ''k'' (snd (snd (store_Set
        (Some (NewValueStore (Some sample_value_redis) (Some (NewCompressionCodec Inr Inr (Some StringCodec)))))
        5 Delivered ''k'' ''v'' second Map.empty)))) = Inr (Some ''v'')"
  using stored_strings_are_read_back [OF sample_value_contract, where gzip = Inr and gunzip = Inr and key = "''k''"
      and ttl = second and ?t0.0 = 5 and now = 7 and cs = "[]" and v = "''v''" and s = Map.empty]
  by (simp add: lasts_def granted_def second_def millisecond_def store_run_def Let_def case_prod_beta)

text \<open>
  Codecs. Strings and byte strings always survive their codec; a JSON value does when the
  JSON library brings it back from a text that is not empty; a compressing codec around a
  faithful one is faithful when gzip is undone by gunzip, and without a base it fails both ways.
\<close>
theorem codecs_are_faithful:
  "faithful StringCodec v \<and> faithful BytesCodec b
   \<and> (faithful (JSONCodec marshal unmarshal) x \<longleftrightarrow> (\<exists>p. marshal x = Inr p \<and> p \<noteq> [] \<and> unmarshal p = Inr x))
   \<and> (\<not> (\<exists>p. vc_Marshal base y = Inr p \<and> (\<exists>z. gzip p = Inr z \<and> gunzip z = Inr p)) \<or> \<not> faithful base y
      \<or> faithful (NewCompressionCodec gzip gunzip (Some base)) y)
   \<and> vc_Marshal (NewCompressionCodec gzip gunzip None) y = Inl ''base codec is nil''
   \<and> (vc_Unmarshal (NewCompressionCodec gzip gunzip None) z :: string + 'v) = Inl ''base codec is nil''"
  using string_codec.faithful [of v] bytes_codec.faithful [of b]
  by (auto simp: faithful_def JSONCodec_def NewCompressionCodec_def compression_Marshal_def compression_Unmarshal_def
    split: sum.splits)

text \<open>
  An error does not mean that nothing was stored. When the reply to \<open>SetIfAbsent\<close> gets
  lost, the caller is told an error although the value is in place: it is read by everyone, and
  trying again is refused.
\<close>
theorem lost_reply_has_stored:
  assumes "value_contract ops live" and "live s now key = None" and "key \<noteq> []" and "0 \<le> ttl"
  shows "let store = Some (NewValueStore (Some ops) (Some StringCodec)) in
    case SetIfAbsent store now (LostReply (RedisError e)) key v ttl s of
      (r, evs, s') \<Rightarrow> r = Inl e \<and> map se_Hit evs = [False]
        \<and> fst (store_Get store now Delivered key s') = Inr (Some v)
        \<and> fst (SetIfAbsent store now Delivered key v ttl s') = Inr False"
proof -
  note base = value_contract_base [OF assms(1)]
  let ?s = "snd (r_SETNX (vr_base ops) now key v ttl s)"
  have "lasts now ttl now" using assms(4) by (auto simp: lasts_def granted_def millisecond_def max_def)
  with assms(2,4) have live: "live ?s now key = Some v" by (simp add: contract_SETNX [OF base])
  then have "\<not> fst (r_SETNX (vr_base ops) now key v ttl ?s)" using contract_SETNX_reply [OF base] by simp
  with live assms(3) show ?thesis
    by (simp add: SetIfAbsent_def store_Get_def store_ready_def store_client_def NewValueStore_def StringCodec_def
        call_def store_event_def contract_GET [OF base] Let_def split: prod.split)
qed

lemma lost_reply_has_stored_witness:
  "fst (SetIfAbsent (Some (NewValueStore (Some sample_value_redis) (Some StringCodec))) 5
     (LostReply (RedisError ''timeout'')) ''k'' ''v'' second Map.empty) = Inl ''timeout''"
  using lost_reply_has_stored [OF sample_value_contract, where s = Map.empty and now = 5 and key = "''k''" and ttl = second
      and v = "''v''" and e = "''timeout''"]
  by (simp add: sample_live_def second_def Let_def case_prod_beta)

text \<open>
  What cannot be decoded blocks its key: with a payload the codec refuses, \<open>Get\<close> fails,
  \<open>Exists\<close> says there is a value and \<open>SetIfAbsent\<close> stores nothing; \<open>Set\<close> and \<open>Delete\<close> get rid of it.
  A value that cannot be encoded is never sent to the server.
\<close>
theorem undecodable_value_blocks_its_key:
  assumes "value_contract ops live" and "live s now key = Some p" and "key \<noteq> []"
    and "vc_Unmarshal codec p = Inl err" and "vc_Marshal codec bad = Inl err'" and "vc_Marshal codec good = Inr q"
  defines "store \<equiv> Some (NewValueStore (Some ops) (Some codec))"
  shows "fst (store_Get store now Delivered key s) = Inl err
    \<and> fst (store_Exists store now Delivered key s) = Inr True
    \<and> fst (SetIfAbsent store now Delivered key good ttl s) = Inr False
    \<and> live (snd (snd (store_Delete store now Delivered key s))) now key = None
    \<and> live (snd (snd (store_Set store now Delivered key good 0 s))) now key = Some q
    \<and> snd (snd (store_Set store now net key bad ttl s)) = s"
proof -
  note base = value_contract_base [OF assms(1)]
  have "\<not> fst (r_SETNX (vr_base ops) now key q ttl s)"
    using contract_SETNX_reply [OF base] assms(2) by simp
  with assms(2-6) show ?thesis
    by (simp add: store_def SetIfAbsent_def store_Get_def store_Exists_def store_Delete_def store_Set_def store_set_def
        store_ready_def store_client_def NewValueStore_def call_def contract_GET [OF base] contract_DEL [OF base]
        contract_EXISTS [OF assms(1)] contract_SET [OF assms(1)] lasts_def Let_def)
qed

lemma undecodable_value_blocks_its_key_witness:
  "fst (SetIfAbsent (Some (NewValueStore (Some sample_value_redis) (Some
       \<lparr>vc_Marshal = \<lambda>v. if v then Inr ''t'' else Inl ''no'', vc_Unmarshal = \<lambda>p. Inl ''bad'', vc_Name = ''c''\<rparr>)))
       5 Delivered ''k'' True second [''k'' \<mapsto> (''x'', None)]) = Inr False"
  using undecodable_value_blocks_its_key [OF sample_value_contract, where s = "[''k'' \<mapsto> (''x'', None)]" and now = 5
      and key = "''k''" and p = "''x''" and good = True and bad = False and ttl = second and q = "''t''"
      and codec = "\<lparr>vc_Marshal = \<lambda>v. if v then Inr ''t'' else Inl ''no'', vc_Unmarshal = \<lambda>p. Inl ''bad'', vc_Name = ''c''\<rparr>"]
  by (simp add: sample_live_def)

text \<open>
  The token that \<open>AcquireLease\<close> returns frees the key: with it \<open>ReleaseLease\<close> makes the key
  free for the next client at once, with any other token it changes nothing and reports no error.
\<close>
theorem token_frees_the_lease:
  assumes "redis_contract ops live" and "0 < ttl" and "token \<noteq> []" and "other \<noteq> token"
    and "AcquireLease (Some ops) now Delivered clock (Inr token) key ttl s = (Inr (Some token'), s')"
    and "now \<le> later" and "later < now + granted ttl"
  shows "token' = token
    \<and> ReleaseLease (Some ops) later Delivered key other s' = (None, s')
    \<and> fst (AcquireLease (Some ops) later Delivered clock (Inr token) key ttl s') = Inr None
    \<and> (case ReleaseLease (Some ops) later Delivered key token s' of
         (err, s'') \<Rightarrow> err = None
           \<and> fst (AcquireLease (Some ops) later Delivered clock (Inr token) key ttl s'') = Inr (Some token))"
proof -
  from assms(2,5) have key: "key \<noteq> []" and s': "s' = snd (r_SETNX ops now key token ttl s)"
    and ok: "fst (r_SETNX ops now key token ttl s)" and "token' = token"
    by (auto simp: AcquireLease_def NewLeaseKey_def Acquire_def lease_client_def call_def split: if_splits)
  have live: "live s' later key = Some token"
    using ok contract_SETNX_reply [OF assms(1)] assms(2,6,7) by (simp add: s' contract_SETNX [OF assms(1)] lasts_def)
  have "live (snd (r_DEL ops later key s')) later key = None" by (simp add: contract_DEL [OF assms(1)])
  then have "fst (r_SETNX ops later key token ttl (snd (r_DEL ops later key s')))"
    using contract_SETNX_reply [OF assms(1)] by blast
  moreover have "\<not> fst (r_SETNX ops later key token ttl s')" using contract_SETNX_reply [OF assms(1)] live by simp
  ultimately show ?thesis
    using live key assms(2-4) \<open>token' = token\<close>
    by (auto simp: ReleaseLease_def Release_def AcquireLease_def NewLeaseKey_def Acquire_def lease_client_def call_def
        releaseScript_def contract_GET [OF assms(1)] no_lease_def)
qed

lemma token_frees_the_lease_witness:
  "ReleaseLease (Some sample_redis) 6 Delivered ''k'' ''u'' [''k'' \<mapsto> (''t'', Some (5 + granted second))]
    = (None, [''k'' \<mapsto> (''t'', Some (5 + granted second))])"
  using token_frees_the_lease [OF sample_contract, where ttl = second and token = "''t''" and other = "''u''" and now = 5
      and later = 6 and clock = 5 and key = "''k''" and s = Map.empty and token' = "''t''"
      and s' = "[''k'' \<mapsto> (''t'', Some (5 + granted second))]"]
  by (simp add: AcquireLease_def NewLeaseKey_def Acquire_def lease_client_def call_def sample_redis_def sample_live_def
      second_def granted_def millisecond_def)

end
