(* ===== verification/Uow_Gorm.thy ===== *)
theory Uow_Gorm
  imports Go_Prelude
begin

text \<open>
  \<open>pkg/uow/gorm/uow.go\<close>: units of work over gorm transactions, with hooks that run after the
  commit.

  A context carries a pointer to a \<open>txState\<close>, which callbacks share and change; pointers are
  addresses of a heap. Hooks, too, are kept in the heap, as names that \<open>run_hook\<close> gives a
  meaning. gorm is an argument: its method \<open>Transaction\<close>, of which \<open>gorm_contract\<close> states what
  the documentation promises, in terms of what the database driver does to its state \<open>'w\<close> when
  a transaction begins, commits and is rolled back. \<open>'g\<close> are the values of type \<open>*gorm.DB\<close>.
\<close>

section \<open>Contexts and transaction states\<close>

datatype uow_err = ErrUnitOfWorkUnavailable | ErrActiveTransactionRequired | DBError string | AppError string

datatype tx_result = TxOk | TxErr uow_err | TxPanic string

record TxOptions =
  tx_Name :: string
  tx_ReadOnly :: bool
  tx_Isolation :: int

record sql_TxOptions =
  sql_Isolation :: int
  sql_ReadOnly :: bool

record ('g, 'h) txState =
  ts_tx :: "'g option"
  ts_afterCommit :: "'h list"

record ('w, 'g, 'h) uow_state =
  db :: 'w
  heap :: "nat \<rightharpoonup> ('g, 'h) txState"
  fresh :: nat

text \<open>A context is nil, or has a transaction state or none.\<close>

datatype uow_ctx = NilCtx | Ctx "nat option"

definition alloc_state :: "('g, 'h) txState \<Rightarrow> ('w, 'g, 'h) uow_state \<Rightarrow> nat \<times> ('w, 'g, 'h) uow_state" where
  "alloc_state st s = (fresh s, s\<lparr>heap := (heap s)(fresh s \<mapsto> st), fresh := Suc (fresh s)\<rparr>)"

definition txStateFromContext :: "uow_ctx \<Rightarrow> ('w, 'g, 'h) uow_state \<Rightarrow> (nat \<times> ('g, 'h) txState) option" where
  "txStateFromContext ctx s =
     (case ctx of
        NilCtx \<Rightarrow> None
      | Ctx None \<Rightarrow> None
      | Ctx (Some a) \<Rightarrow> map_option (Pair a) (heap s a))"

definition WithTx :: "uow_ctx \<Rightarrow> 'g option \<Rightarrow> ('w, 'g, 'h) uow_state \<Rightarrow> uow_ctx \<times> ('w, 'g, 'h) uow_state" where
  "WithTx ctx tx s =
     (let ctx = (case ctx of NilCtx \<Rightarrow> Ctx None | Ctx a \<Rightarrow> Ctx a) in
      case tx of
        None \<Rightarrow> (ctx, s)
      | Some t \<Rightarrow> (case alloc_state \<lparr>ts_tx = Some t, ts_afterCommit = []\<rparr> s of (a, s') \<Rightarrow> (Ctx (Some a), s')))"

definition TxFromContext :: "uow_ctx \<Rightarrow> ('w, 'g, 'h) uow_state \<Rightarrow> 'g option" where
  "TxFromContext ctx s = (case txStateFromContext ctx s of None \<Rightarrow> None | Some (a, st) \<Rightarrow> ts_tx st)"

definition RequireTx :: "uow_ctx \<Rightarrow> ('w, 'g, 'h) uow_state \<Rightarrow> uow_err + 'g" where
  "RequireTx ctx s = (case TxFromContext ctx s of None \<Rightarrow> Inl ErrActiveTransactionRequired | Some tx \<Rightarrow> Inr tx)"

text \<open>\<open>with_context\<close> is gorm's method of that name.\<close>

definition uow_WithContext :: "(uow_ctx \<Rightarrow> 'g \<Rightarrow> 'g) \<Rightarrow> uow_ctx \<Rightarrow> 'g option \<Rightarrow> ('w, 'g, 'h) uow_state \<Rightarrow> 'g option" where
  "uow_WithContext with_context ctx handle s =
     (case TxFromContext ctx s of
        Some tx \<Rightarrow> Some (with_context ctx tx)
      | None \<Rightarrow> (case handle of None \<Rightarrow> None | Some d \<Rightarrow> Some (with_context ctx d)))"

definition AfterCommit ::
    "uow_ctx \<Rightarrow> 'h option \<Rightarrow> ('w, 'g, 'h) uow_state \<Rightarrow> uow_err option \<times> ('w, 'g, 'h) uow_state" where
  "AfterCommit ctx hook s =
     (case hook of
        None \<Rightarrow> (None, s)
      | Some h \<Rightarrow>
          (case txStateFromContext ctx s of
             None \<Rightarrow> (Some ErrActiveTransactionRequired, s)
           | Some (a, st) \<Rightarrow>
               if ts_tx st = None then (Some ErrActiveTransactionRequired, s)
               else (None, s\<lparr>heap := (heap s)(a \<mapsto> st\<lparr>ts_afterCommit := ts_afterCommit st @ [h]\<rparr>)\<rparr>)))"

definition toSQLTxOptions :: "TxOptions list \<Rightarrow> sql_TxOptions option" where
  "toSQLTxOptions opts =
     (case opts of
        [] \<Rightarrow> None
      | opt # _ \<Rightarrow>
          if \<not> tx_ReadOnly opt \<and> tx_Isolation opt = 0 then None
          else Some \<lparr>sql_Isolation = tx_Isolation opt, sql_ReadOnly = tx_ReadOnly opt\<rparr>)"

section \<open>Transactions\<close>

type_synonym ('w, 'g, 'h) callback = "uow_ctx \<Rightarrow> ('w, 'g, 'h) uow_state \<Rightarrow> tx_result \<times> ('w, 'g, 'h) uow_state"

type_synonym ('w, 'g, 'h) gorm_Transaction =
  "'g \<Rightarrow> uow_ctx \<Rightarrow> sql_TxOptions option \<Rightarrow> ('g \<Rightarrow> ('w, 'g, 'h) uow_state \<Rightarrow> tx_result \<times> ('w, 'g, 'h) uow_state)
   \<Rightarrow> ('w, 'g, 'h) uow_state \<Rightarrow> tx_result \<times> ('w, 'g, 'h) uow_state"

text \<open>The loop over the hooks: errors are logged, a panic ends it.\<close>

fun run_hooks :: "('h \<Rightarrow> ('w, 'g, 'h) callback) \<Rightarrow> uow_ctx \<Rightarrow> 'h list \<Rightarrow> ('w, 'g, 'h) uow_state \<Rightarrow> tx_result \<times> ('w, 'g, 'h) uow_state" where
  "run_hooks run_hook ctx [] s = (TxOk, s)"
| "run_hooks run_hook ctx (h # hs) s =
     (case run_hook h ctx s of
        (TxPanic v, s') \<Rightarrow> (TxPanic v, s')
      | (_, s') \<Rightarrow> run_hooks run_hook ctx hs s')"

text \<open>
  \<open>unit\<close> is the unit of work's handle; a nil unit of work and one with a nil handle are \<open>None\<close>.
  Deriving a context from nil panics inside the transaction.
\<close>

definition tx_body ::
    "nat \<Rightarrow> uow_ctx \<Rightarrow> ('w, 'g, 'h) callback \<Rightarrow> 'g \<Rightarrow> ('w, 'g, 'h) uow_state \<Rightarrow> tx_result \<times> ('w, 'g, 'h) uow_state" where
  "tx_body a ctx fn tx s =
     (let s1 = s\<lparr>heap := (heap s)(a \<mapsto> (the (heap s a))\<lparr>ts_tx := Some tx\<rparr>)\<rparr> in
      if ctx = NilCtx then (TxPanic ''cannot create context from nil parent'', s1)
      else fn (Ctx (Some a)) s1)"

definition WithinTransaction ::
    "('w, 'g, 'h) gorm_Transaction \<Rightarrow> ('h \<Rightarrow> ('w, 'g, 'h) callback) \<Rightarrow> 'g option \<Rightarrow> uow_ctx
     \<Rightarrow> ('w, 'g, 'h) callback option \<Rightarrow> TxOptions list \<Rightarrow> ('w, 'g, 'h) uow_state \<Rightarrow> tx_result \<times> ('w, 'g, 'h) uow_state" where
  "WithinTransaction transaction run_hook unit ctx fn opts s =
     (case fn of
        None \<Rightarrow> (TxOk, s)
      | Some f \<Rightarrow>
          (case unit of
             None \<Rightarrow> (TxErr ErrUnitOfWorkUnavailable, s)
           | Some handle \<Rightarrow>
               if TxFromContext ctx s \<noteq> None then f ctx s
               else
                 (case alloc_state \<lparr>ts_tx = None, ts_afterCommit = []\<rparr> s of
                    (a, s0) \<Rightarrow>
                      (case transaction handle ctx (toSQLTxOptions opts) (tx_body a ctx f) s0 of
                         (TxOk, s') \<Rightarrow> run_hooks run_hook ctx (ts_afterCommit (the (heap s' a))) s'
                       | (r, s') \<Rightarrow> (r, s')))))"

section \<open>What gorm promises\<close>

record ('w, 'g) driver =
  tx_begin :: "sql_TxOptions option \<Rightarrow> 'w \<Rightarrow> (string + 'g) \<times> 'w"
  tx_commit :: "'g \<Rightarrow> 'w \<Rightarrow> string option \<times> 'w"
  tx_rollback :: "'g \<Rightarrow> 'w \<Rightarrow> 'w"

definition finish_tx :: "('w, 'g) driver \<Rightarrow> 'g \<Rightarrow> tx_result \<times> ('w, 'g, 'h) uow_state \<Rightarrow> tx_result \<times> ('w, 'g, 'h) uow_state" where
  "finish_tx drv tx res =
     (case res of
        (TxOk, s) \<Rightarrow>
          (case tx_commit drv tx (db s) of
             (None, w) \<Rightarrow> (TxOk, s\<lparr>db := w\<rparr>)
           | (Some e, w) \<Rightarrow> (TxErr (DBError e), s\<lparr>db := tx_rollback drv tx w\<rparr>))
      | (r, s) \<Rightarrow> (r, s\<lparr>db := tx_rollback drv tx (db s)\<rparr>))"

definition gorm_contract :: "('w, 'g, 'h) gorm_Transaction \<Rightarrow> ('w, 'g) driver \<Rightarrow> bool" where
  "gorm_contract transaction drv \<longleftrightarrow>
     (\<forall>handle ctx opts body s. transaction handle ctx opts body s =
        (case tx_begin drv opts (db s) of
           (Inl e, w) \<Rightarrow> (TxErr (DBError e), s\<lparr>db := w\<rparr>)
         | (Inr tx, w) \<Rightarrow> finish_tx drv tx (body tx (s\<lparr>db := w\<rparr>))))"

section \<open>Work in steps\<close>

text \<open>
  A unit of work as a list of steps: work on the database, which may fail or panic, the
  registration of a hook, and work in a nested unit of work with its own options. A step that
  does not succeed ends the work.
\<close>

datatype ('w, 'h) step =
    Work "'w \<Rightarrow> tx_result \<times> 'w"
  | Register 'h
  | Nested "TxOptions list" "('w, 'h) step list"

fun run_steps ::
    "('w, 'g, 'h) gorm_Transaction \<Rightarrow> ('h \<Rightarrow> ('w, 'g, 'h) callback) \<Rightarrow> 'g option \<Rightarrow> ('w, 'h) step list \<Rightarrow> ('w, 'g, 'h) callback" where
  "run_steps transaction run_hook unit [] ctx s = (TxOk, s)"
| "run_steps transaction run_hook unit (Work f # rest) ctx s =
     (case f (db s) of
        (TxOk, w) \<Rightarrow> run_steps transaction run_hook unit rest ctx (s\<lparr>db := w\<rparr>)
      | (r, w) \<Rightarrow> (r, s\<lparr>db := w\<rparr>))"
| "run_steps transaction run_hook unit (Register h # rest) ctx s =
     (case AfterCommit ctx (Some h) s of
        (None, s') \<Rightarrow> run_steps transaction run_hook unit rest ctx s'
      | (Some e, s') \<Rightarrow> (TxErr e, s'))"
| "run_steps transaction run_hook unit (Nested opts inner # rest) ctx s =
     (case WithinTransaction transaction run_hook unit ctx (Some (run_steps transaction run_hook unit inner)) opts s of
        (TxOk, s') \<Rightarrow> run_steps transaction run_hook unit rest ctx s'
      | (r, s') \<Rightarrow> (r, s'))"

text \<open>The same steps without any transaction in between: only the database work.\<close>

fun flat_work :: "('w, 'h) step list \<Rightarrow> 'w \<Rightarrow> tx_result \<times> 'w" where
  "flat_work [] w = (TxOk, w)"
| "flat_work (Work f # rest) w = (case f w of (TxOk, w') \<Rightarrow> flat_work rest w' | (r, w') \<Rightarrow> (r, w'))"
| "flat_work (Register h # rest) w = flat_work rest w"
| "flat_work (Nested opts inner # rest) w =
     (case flat_work inner w of (TxOk, w') \<Rightarrow> flat_work rest w' | (r, w') \<Rightarrow> (r, w'))"

fun hooks_of :: "('w, 'h) step list \<Rightarrow> 'h list" where
  "hooks_of [] = []"
| "hooks_of (Work f # rest) = hooks_of rest"
| "hooks_of (Register h # rest) = h # hooks_of rest"
| "hooks_of (Nested opts inner # rest) = hooks_of inner @ hooks_of rest"

lemma TxFromContext_Some:
  "heap s a = Some \<lparr>ts_tx = Some tx, ts_afterCommit = hs\<rparr> \<Longrightarrow> TxFromContext (Ctx (Some a)) s = Some tx"
  by (simp add: TxFromContext_def txStateFromContext_def)

lemma AfterCommit_in_tx:
  "heap s a = Some \<lparr>ts_tx = Some tx, ts_afterCommit = hs\<rparr> \<Longrightarrow> AfterCommit (Ctx (Some a)) (Some h) s
    = (None, s\<lparr>heap := (heap s)(a \<mapsto> \<lparr>ts_tx = Some tx, ts_afterCommit = hs @ [h]\<rparr>)\<rparr>)"
  by (simp add: AfterCommit_def txStateFromContext_def)

lemma nested_in_tx:
  "heap s a = Some \<lparr>ts_tx = Some tx, ts_afterCommit = hs\<rparr> \<Longrightarrow>
    WithinTransaction transaction run_hook (Some handle) (Ctx (Some a)) (Some f) opts s = f (Ctx (Some a)) s"
  by (simp add: WithinTransaction_def TxFromContext_Some)

text \<open>Inside a transaction steps work on the database as if there were no nesting.\<close>

lemma run_steps_in_tx:
  assumes "m a = Some \<lparr>ts_tx = Some tx, ts_afterCommit = hs\<rparr>"
  shows "\<exists>hs'. run_steps transaction run_hook (Some handle) steps (Ctx (Some a)) \<lparr>db = w, heap = m, fresh = n\<rparr>
      = (fst (flat_work steps w), \<lparr>db = snd (flat_work steps w),
          heap = m(a \<mapsto> \<lparr>ts_tx = Some tx, ts_afterCommit = hs @ hs'\<rparr>), fresh = n\<rparr>)
    \<and> (fst (flat_work steps w) = TxOk \<longrightarrow> hs' = hooks_of steps)"
  using assms
proof (induction steps arbitrary: w m hs rule: hooks_of.induct)
  case 1
  then show ?case by (intro exI [of _ "[]"]) (simp add: fun_upd_idem)
next
  case (2 f rest)
  obtain r w' where f: "f w = (r, w')" by force
  show ?case
  proof (cases "r = TxOk")
    case True
    with 2(1) [where w = w' and m = m and hs = hs] 2(2) f show ?thesis by auto
  next
    case False
    have "m(a \<mapsto> \<lparr>ts_tx = Some tx, ts_afterCommit = hs @ []\<rparr>) = m"
      using 2(2) by (simp add: fun_upd_idem)
    with f False show ?thesis by (intro exI [of _ "[]"], cases r) simp_all
  qed
next
  case (3 h rest)
  let ?m = "m(a \<mapsto> \<lparr>ts_tx = Some tx, ts_afterCommit = hs @ [h]\<rparr>)"
  obtain hs' where
    "run_steps transaction run_hook (Some handle) rest (Ctx (Some a)) \<lparr>db = w, heap = ?m, fresh = n\<rparr>
      = (fst (flat_work rest w), \<lparr>db = snd (flat_work rest w),
          heap = ?m(a \<mapsto> \<lparr>ts_tx = Some tx, ts_afterCommit = (hs @ [h]) @ hs'\<rparr>), fresh = n\<rparr>)"
    "fst (flat_work rest w) = TxOk \<longrightarrow> hs' = hooks_of rest"
    using 3(1) [where w = w and m = ?m and hs = "hs @ [h]", OF fun_upd_same] by blast
  moreover have "AfterCommit (Ctx (Some a)) (Some h) \<lparr>db = w, heap = m, fresh = n\<rparr> = (None, \<lparr>db = w, heap = ?m, fresh = n\<rparr>)"
    using 3(2) by (simp add: AfterCommit_in_tx)
  moreover have "?m(a \<mapsto> \<lparr>ts_tx = Some tx, ts_afterCommit = (hs @ [h]) @ hs'\<rparr>)
      = m(a \<mapsto> \<lparr>ts_tx = Some tx, ts_afterCommit = hs @ h # hs'\<rparr>)" by simp
  ultimately show ?case
    by (intro exI [of _ "h # hs'"]) (simp only: run_steps.simps hooks_of.simps flat_work.simps prod.case option.case simp_thms list.inject)
next
  case (4 opts inner rest)
  let ?m = "\<lambda>hs'. m(a \<mapsto> \<lparr>ts_tx = Some tx, ts_afterCommit = hs @ hs'\<rparr>)"
  obtain hs1 where i: "run_steps transaction run_hook (Some handle) inner (Ctx (Some a)) \<lparr>db = w, heap = m, fresh = n\<rparr>
      = (fst (flat_work inner w), \<lparr>db = snd (flat_work inner w), heap = ?m hs1, fresh = n\<rparr>)"
    "fst (flat_work inner w) = TxOk \<longrightarrow> hs1 = hooks_of inner" using 4(1) [where m = m and hs = hs and w = w, OF 4(3)] by blast
  have nested: "WithinTransaction transaction run_hook (Some handle) (Ctx (Some a)) (Some f) opts \<lparr>db = w, heap = m, fresh = n\<rparr>
      = f (Ctx (Some a)) \<lparr>db = w, heap = m, fresh = n\<rparr>" for f
    using 4(3) by (simp add: nested_in_tx)
  obtain r w' where fw: "flat_work inner w = (r, w')" by force
  show ?case
  proof (cases "r = TxOk")
    case True
    obtain hs2 where
      "run_steps transaction run_hook (Some handle) rest (Ctx (Some a)) \<lparr>db = w', heap = ?m hs1, fresh = n\<rparr>
        = (fst (flat_work rest w'), \<lparr>db = snd (flat_work rest w'),
            heap = (?m hs1)(a \<mapsto> \<lparr>ts_tx = Some tx, ts_afterCommit = (hs @ hs1) @ hs2\<rparr>), fresh = n\<rparr>)"
      "fst (flat_work rest w') = TxOk \<longrightarrow> hs2 = hooks_of rest"
      using 4(2) [where w = w' and m = "?m hs1" and hs = "hs @ hs1", OF fun_upd_same] by blast
    moreover have "(?m hs1)(a \<mapsto> \<lparr>ts_tx = Some tx, ts_afterCommit = (hs @ hs1) @ hs2\<rparr>) = ?m (hs1 @ hs2)" by simp
    ultimately show ?thesis
      using i fw True
      by (intro exI [of _ "hs1 @ hs2"])
        (simp only: run_steps.simps hooks_of.simps flat_work.simps nested prod.case tx_result.case simp_thms fst_conv snd_conv same_append_eq)
  next
    case False
    with i fw show ?thesis by (intro exI [of _ hs1], cases r) (auto simp: nested)
  qed
qed

section \<open>Properties\<close>

lemma outermost:
  assumes "gorm_contract transaction drv" and "TxFromContext ctx s = None" and "ctx \<noteq> NilCtx"
  shows "WithinTransaction transaction run_hook (Some handle) ctx (Some f) opts s =
    (case tx_begin drv (toSQLTxOptions opts) (db s) of
       (Inl e, w) \<Rightarrow> (TxErr (DBError e),
           \<lparr>db = w, heap = (heap s)(fresh s \<mapsto> \<lparr>ts_tx = None, ts_afterCommit = []\<rparr>), fresh = Suc (fresh s)\<rparr>)
     | (Inr tx, w) \<Rightarrow>
         (case finish_tx drv tx (f (Ctx (Some (fresh s)))
             \<lparr>db = w, heap = (heap s)(fresh s \<mapsto> \<lparr>ts_tx = Some tx, ts_afterCommit = []\<rparr>), fresh = Suc (fresh s)\<rparr>) of
            (TxOk, s') \<Rightarrow> run_hooks run_hook ctx (ts_afterCommit (the (heap s' (fresh s)))) s'
          | (r, s') \<Rightarrow> (r, s')))"
proof -
  have contract: "transaction handle ctx (toSQLTxOptions opts) body s0 =
        (case tx_begin drv (toSQLTxOptions opts) (db s0) of
           (Inl e, w) \<Rightarrow> (TxErr (DBError e), s0\<lparr>db := w\<rparr>)
         | (Inr tx, w) \<Rightarrow> finish_tx drv tx (body tx (s0\<lparr>db := w\<rparr>)))" for body s0
    using assms(1) by (simp add: gorm_contract_def)
  show ?thesis
  proof (cases s)
    case (fields w0 h n)
    obtain b w where begin_tx: "tx_begin drv (toSQLTxOptions opts) w0 = (b, w)" by force
    show ?thesis
      using assms(2,3) begin_tx unfolding fields
      by (cases b) (simp_all add: WithinTransaction_def alloc_state_def tx_body_def contract split: prod.split tx_result.split)
  qed
qed


text \<open>
  A unit of work inside another one is no transaction of its own: its callback runs in the
  outer transaction, its options are ignored, its hooks wait for the outer commit, and when it
  fails nothing of it is undone: a caller that ignores the error commits what it did.
\<close>
theorem nested_unit_joins_the_outer:
  assumes "heap s a = Some \<lparr>ts_tx = Some tx, ts_afterCommit = hs\<rparr>"
  shows "WithinTransaction transaction run_hook (Some handle) (Ctx (Some a)) (Some f) opts s = f (Ctx (Some a)) s
    \<and> (\<exists>hs'. WithinTransaction transaction run_hook (Some handle) (Ctx (Some a))
           (Some (run_steps transaction run_hook (Some handle) steps)) opts s
         = (fst (flat_work steps (db s)), \<lparr>db = snd (flat_work steps (db s)),
             heap = (heap s)(a \<mapsto> \<lparr>ts_tx = Some tx, ts_afterCommit = hs @ hs'\<rparr>), fresh = fresh s\<rparr>))"
  using nested_in_tx [OF assms] run_steps_in_tx [where m = "heap s" and w = "db s" and n = "fresh s", OF assms]
  by (metis uow_state.surjective old.unit.exhaust)

lemma nested_unit_joins_the_outer_witness:
  "fst (WithinTransaction (\<lambda>h c q body s. (TxOk, s)) (\<lambda>h c s. (TxOk, s)) (Some ''db'') (Ctx (Some 0))
     (Some (\<lambda>c s. (TxErr (AppError ''no''), s\<lparr>db := 7\<rparr>))) [\<lparr>tx_Name = [], tx_ReadOnly = True, tx_Isolation = 4\<rparr>]
     \<lparr>db = 3 :: nat, heap = [0 \<mapsto> \<lparr>ts_tx = Some ''tx'', ts_afterCommit = [True]\<rparr>], fresh = 1\<rparr>) = TxErr (AppError ''no'')"
  using nested_unit_joins_the_outer [where s = "\<lparr>db = 3 :: nat, heap = [0 \<mapsto> \<lparr>ts_tx = Some ''tx'', ts_afterCommit = [True]\<rparr>], fresh = 1\<rparr>"
      and a = 0 and tx = "''tx''" and hs = "[True]" and transaction = "\<lambda>h c q body s. (TxOk, s)" and run_hook = "\<lambda>h c s. (TxOk, s)"
      and handle = "''db''" and f = "\<lambda>c s. (TxErr (AppError ''no''), s\<lparr>db := 7\<rparr>)"
      and opts = "[\<lparr>tx_Name = [], tx_ReadOnly = True, tx_Isolation = 4\<rparr>]"]
  by simp

text \<open>
  Hooks registered with a context made by \<open>WithTx\<close> are accepted and lost: the registration
  reports success, but no unit of work runs them, because a unit of work with such a context
  only calls its callback and returns what it returns.
\<close>
theorem hooks_under_WithTx_are_lost:
  "case WithTx ctx (Some tx) s of (ctx', s1) \<Rightarrow>
     case AfterCommit ctx' (Some h) s1 of (err, s2) \<Rightarrow>
       err = None \<and> RequireTx ctx' s2 = Inr tx
       \<and> WithinTransaction transaction run_hook (Some handle) ctx' (Some f) opts s2 = f ctx' s2"
  by (simp add: WithTx_def alloc_state_def AfterCommit_def txStateFromContext_def RequireTx_def TxFromContext_def
    WithinTransaction_def split: uow_ctx.split)

text \<open>
  A hook can register another one with the transaction's context, which it may have kept,
  and is told that this worked; but the loop runs over the hooks there were at the commit, so
  the new one never runs.
\<close>
theorem late_hooks_are_lost:
  assumes "heap s a = Some \<lparr>ts_tx = Some tx, ts_afterCommit = hs\<rparr>"
    and "\<And>ctx s. run_hook h ctx s = (case AfterCommit (Ctx (Some a)) (Some late) s of (e, s') \<Rightarrow> (TxOk, s'))"
  shows "run_hooks run_hook ctx [h] s
    = (TxOk, s\<lparr>heap := (heap s)(a \<mapsto> \<lparr>ts_tx = Some tx, ts_afterCommit = hs @ [late]\<rparr>)\<rparr>)
    \<and> fst (AfterCommit (Ctx (Some a)) (Some late) s) = None"
  using assms(1) by (simp add: assms(2) AfterCommit_in_tx)

lemma late_hooks_are_lost_witness:
  "run_hooks (\<lambda>h ctx s. (case AfterCommit (Ctx (Some 0)) (Some 2) s of (e, s') \<Rightarrow> (TxOk, s'))) (Ctx None) [1 :: nat]
      \<lparr>db = (), heap = [0 \<mapsto> \<lparr>ts_tx = Some ''tx'', ts_afterCommit = [1]\<rparr>], fresh = 1\<rparr>
    = (TxOk, \<lparr>db = (), heap = [0 \<mapsto> \<lparr>ts_tx = Some ''tx'', ts_afterCommit = [1, 2]\<rparr>], fresh = 1\<rparr>)"
  using late_hooks_are_lost [where s = "\<lparr>db = (), heap = [0 \<mapsto> \<lparr>ts_tx = Some ''tx'', ts_afterCommit = [1]\<rparr>], fresh = 1\<rparr>"
      and a = 0 and tx = "''tx''" and hs = "[1]" and h = "1 :: nat" and late = 2 and ctx = "Ctx None"
      and run_hook = "\<lambda>h ctx s. (case AfterCommit (Ctx (Some 0)) (Some 2) s of (e, s') \<Rightarrow> (TxOk, s'))"]
  by simp

text \<open>
  Without a database nothing runs, and a nil context panics inside the transaction, which is
  rolled back.
\<close>
theorem unavailable_unit_runs_nothing:
  assumes "gorm_contract transaction drv" and "tx_begin drv (toSQLTxOptions opts) (db s) = (Inr tx, w)"
  shows "WithinTransaction transaction run_hook None ctx (Some f) opts s = (TxErr ErrUnitOfWorkUnavailable, s)
    \<and> (case WithinTransaction transaction run_hook (Some handle) NilCtx (Some f) opts s of
         (r, s') \<Rightarrow> r = TxPanic ''cannot create context from nil parent'' \<and> db s' = tx_rollback drv tx w)"
proof -
  have "transaction handle NilCtx (toSQLTxOptions opts) body s0 = finish_tx drv tx (body tx (s0\<lparr>db := w\<rparr>))"
    if "db s0 = db s" for body s0
    using assms that by (simp add: gorm_contract_def)
  then show ?thesis
    by (simp add: WithinTransaction_def TxFromContext_def txStateFromContext_def alloc_state_def tx_body_def finish_tx_def)
qed

text \<open>A gorm that keeps the contract, over a driver that counts.\<close>

definition sample_driver :: "(nat, string) driver" where
  "sample_driver = \<lparr>tx_begin = \<lambda>opts w. (Inr ''tx'', w), tx_commit = \<lambda>tx w. (None, w), tx_rollback = \<lambda>tx w. 0\<rparr>"

definition sample_gorm :: "(nat, string, 'h) gorm_Transaction" where
  "sample_gorm handle ctx opts body s =
     (case tx_begin sample_driver opts (db s) of
        (Inl e, w) \<Rightarrow> (TxErr (DBError e), s\<lparr>db := w\<rparr>)
      | (Inr tx, w) \<Rightarrow> finish_tx sample_driver tx (body tx (s\<lparr>db := w\<rparr>)))"

lemma sample_gorm_contract: "gorm_contract sample_gorm sample_driver"
  by (simp add: gorm_contract_def sample_gorm_def)

lemma unavailable_unit_runs_nothing_witness:
  "db (snd (WithinTransaction sample_gorm (\<lambda>(h :: nat) c s. (TxOk, s)) (Some ''db'') NilCtx (Some (\<lambda>c s. (TxOk, s))) []
     \<lparr>db = 3, heap = Map.empty, fresh = 0\<rparr>)) = 0"
  using unavailable_unit_runs_nothing [OF sample_gorm_contract, where s = "\<lparr>db = 3, heap = Map.empty, fresh = 0\<rparr>"
      and opts = "[]" and tx = "''tx''" and w = 3 and handle = "''db''" and f = "\<lambda>c s. (TxOk, s)" and run_hook = "\<lambda>(h :: nat) c s. (TxOk, s)"]
  by (simp add: sample_driver_def case_prod_beta)


end
