(* ===== verification/Util_Strings.thy ===== *)
theory Util_Strings
  imports Go_Prelude
begin

text \<open>
  String helpers: \<open>pkg/util/stringutil/stringutil.go\<close> and \<open>pkg/util/homedir/homedir.go\<close>.

  \<open>Reverse\<close> works on the UTF-8 runes of a string, so the two functions it takes from
  \<open>unicode/utf8\<close> are modelled here; a write past the end of its buffer panics, which is
  \<open>None\<close>. \<open>HomeDir\<close> takes the environment and the file system as arguments.
\<close>

section \<open>Runes\<close>

abbreviation byte_of :: "char \<Rightarrow> nat" where "byte_of \<equiv> of_char"

definition RuneError :: nat where "RuneError = 0xFFFD"

definition valid_rune :: "nat \<Rightarrow> bool" where
  "valid_rune r \<longleftrightarrow> r < 0xD800 \<or> 0xE000 \<le> r \<and> r \<le> 0x10FFFF"

definition continuation :: "nat \<Rightarrow> bool" where "continuation b \<longleftrightarrow> 0x80 \<le> b \<and> b \<le> 0xBF"

text \<open>The second bytes that may follow a first byte of a sequence of three or four.\<close>

definition accepts :: "nat \<Rightarrow> nat \<Rightarrow> bool" where
  "accepts b0 b1 \<longleftrightarrow>
     (if b0 = 0xE0 then 0xA0 \<le> b1 \<and> b1 \<le> 0xBF else if b0 = 0xED then 0x80 \<le> b1 \<and> b1 \<le> 0x9F
      else if b0 = 0xF0 then 0x90 \<le> b1 \<and> b1 \<le> 0xBF else if b0 = 0xF4 then 0x80 \<le> b1 \<and> b1 \<le> 0x8F
      else continuation b1)"

text \<open>\<open>utf8.DecodeRuneInString\<close>: the first rune of a string and the bytes it takes.\<close>

definition DecodeRune :: "string \<Rightarrow> nat \<times> nat" where
  "DecodeRune s =
     (case map byte_of s of
        [] \<Rightarrow> (RuneError, 0)
      | b0 # bs \<Rightarrow>
          if b0 < 0x80 then (b0, 1)
          else if b0 < 0xC2 \<or> 0xF4 < b0 then (RuneError, 1)
          else if b0 < 0xE0 then
            (case bs of b1 # _ \<Rightarrow> if continuation b1 then (b0 mod 32 * 64 + b1 mod 64, 2) else (RuneError, 1)
             | [] \<Rightarrow> (RuneError, 1))
          else if b0 < 0xF0 then
            (case bs of b1 # b2 # _ \<Rightarrow>
               if accepts b0 b1 \<and> continuation b2 then (b0 mod 16 * 4096 + b1 mod 64 * 64 + b2 mod 64, 3) else (RuneError, 1)
             | _ \<Rightarrow> (RuneError, 1))
          else
            (case bs of b1 # b2 # b3 # _ \<Rightarrow>
               if accepts b0 b1 \<and> continuation b2 \<and> continuation b3
               then (b0 mod 8 * 262144 + b1 mod 64 * 4096 + b2 mod 64 * 64 + b3 mod 64, 4) else (RuneError, 1)
             | _ \<Rightarrow> (RuneError, 1)))"

text \<open>What \<open>utf8.EncodeRune\<close> writes.\<close>

definition three_bytes :: "nat \<Rightarrow> string" where
  "three_bytes r = [char_of (0xE0 + r div 4096), char_of (0x80 + r div 64 mod 64), char_of (0x80 + r mod 64)]"

definition EncodeRune :: "nat \<Rightarrow> string" where
  "EncodeRune r =
     (if r \<le> 0x7F then [char_of r]
      else if r \<le> 0x7FF then [char_of (0xC0 + r div 64), char_of (0x80 + r mod 64)]
      else if \<not> valid_rune r then three_bytes RuneError
      else if r \<le> 0xFFFF then three_bytes r
      else [char_of (0xF0 + r div 262144), char_of (0x80 + r div 4096 mod 64), char_of (0x80 + r div 64 mod 64),
            char_of (0x80 + r mod 64)])"

lemma DecodeRune_width: "s \<noteq> [] \<Longrightarrow> 0 < snd (DecodeRune s) \<and> snd (DecodeRune s) \<le> length s"
  by (cases s) (auto simp: DecodeRune_def split: list.splits)

lemma byte_char_of: "n < 256 \<Longrightarrow> byte_of (char_of n) = n"
  by (simp add: of_char_of)

lemma mask5: "x < 32 \<Longrightarrow> (192 + x) mod 32 = (x::nat)"
  using mod_mult_self3 [of 6 32 x] by simp

lemma mask6: "r mod 64 \<le> (63::nat)" "(128 + r mod 64) mod 64 = (r mod 64 :: nat)"
proof -
  have "r mod 64 < (64::nat)" by simp
  then show "r mod 64 \<le> (63::nat)" by linarith
  show "(128 + r mod 64) mod 64 = (r mod 64 :: nat)" using mod_mult_self3 [of 2 64 "r mod 64"] by simp
qed

lemma div4096: "r div 4096 = r div 64 div (64::nat)" "r div 262144 = r div 64 div 64 div (64::nat)"
  by (simp_all add: div_mult2_eq [symmetric])

lemma DecodeRune_EncodeRune:
  assumes "valid_rune r"
  shows "DecodeRune (EncodeRune r @ rest) = (r, length (EncodeRune r))"
proof -
  have d4: "r div 64 * 64 + r mod 64 = r" "r mod 64 < 64"
    "r div 64 div 64 * 64 + r div 64 mod 64 = r div 64" "r div 64 mod 64 < 64"
    "r div 64 div 64 div 64 * 64 + r div 64 div 64 mod 64 = r div 64 div 64" "r div 64 div 64 mod 64 < 64"
    by simp_all
  consider (one) "r \<le> 0x7F" | (two) "0x7F < r" "r \<le> 0x7FF" | (three) "0x7FF < r" "r \<le> 0xFFFF" | (four) "0xFFFF < r"
    by arith
  then show ?thesis
  proof cases
    case one
    then show ?thesis by (simp add: EncodeRune_def DecodeRune_def byte_char_of)
  next
    case two
    with d4 have d: "2 \<le> r div 64" "r div 64 < 32" by linarith+
    have "(192 + r div 64) mod 32 = r div 64" using mask5 [OF d(2)] .
    then show ?thesis using two d mask6 [of r]
      by (simp add: EncodeRune_def DecodeRune_def byte_char_of continuation_def)
  next
    case three
    from three d4 have d: "r div 64 div 64 < 16" by linarith
    have acc: "accepts (0xE0 + r div 64 div 64) (0x80 + r div 64 mod 64)"
    proof -
      have "32 \<le> r div 64 mod 64" if "r div 64 div 64 = 0" using three that d4 by linarith
      moreover have "r div 64 mod 64 < 32" if "r div 64 div 64 = 13"
        using assms that d4 unfolding valid_rune_def by linarith
      ultimately show ?thesis using d d4(4) by (auto simp: accepts_def continuation_def)
    qed
    from d have "(224 + r div 64 div 64) mod 16 = r div 64 div 64"
      using mod_mult_self3 [of 14 16 "r div 64 div 64"] by simp
    moreover from d4 have "r div 64 div 64 * 4096 + r div 64 mod 64 * 64 + r mod 64 = r" by linarith
    ultimately show ?thesis using three assms d acc mask6 [of r] mask6 [of "r div 64"]
      by (simp add: EncodeRune_def three_bytes_def DecodeRune_def byte_char_of continuation_def div4096)
  next
    case four
    define a b c e where "a = r div 64 div 64 div 64" and "b = r div 64 div 64 mod 64"
      and "c = r div 64 mod 64" and "e = r mod 64"
    note parts = this
    from d4 have r: "r = a * 262144 + b * 4096 + c * 64 + e" and small: "b < 64" "c < 64" "e < 64"
      unfolding parts by linarith+
    from four assms r small have a: "a < 5" unfolding valid_rune_def by linarith
    have enc: "EncodeRune r = [char_of (0xF0 + a), char_of (0x80 + b), char_of (0x80 + c), char_of (0x80 + e)]"
      using four assms by (simp add: EncodeRune_def div4096 parts)
    have "16 \<le> b" if "a = 0" using four that r small by linarith
    moreover have "b < 16" if "a = 4" using assms that r small unfolding valid_rune_def by linarith
    ultimately have acc: "accepts (0xF0 + a) (0x80 + b)" using a small by (auto simp: accepts_def continuation_def)
    have "(240 + a) mod 8 = a" using a mod_mult_self3 [of 30 8 a] by simp
    moreover have "(128 + x) mod 64 = x" if "x < 64" for x :: nat using mod_mult_self3 [of 2 64 x] that by simp
    ultimately show ?thesis using a small acc
      by (simp add: enc DecodeRune_def byte_char_of continuation_def) (simp add: r)
  qed
qed

lemma EncodeRune_nonempty [simp]: "EncodeRune r \<noteq> []"
  by (simp add: EncodeRune_def three_bytes_def)

section \<open>stringutil\<close>

definition Diff :: "string list \<Rightarrow> string list \<Rightarrow> string list" where
  "Diff base exclude =
     (let excludeMap = fold (\<lambda>s m. m(s \<mapsto> True)) exclude Map.empty
      in filter (\<lambda>s. excludeMap s \<noteq> Some True) base)"

text \<open>The map's keys, in the order in which they are visited.\<close>

definition unique_map :: "string list \<Rightarrow> (string \<rightharpoonup> bool)" where
  "unique_map ss = fold (\<lambda>s m. m(s \<mapsto> True)) ss Map.empty"

definition Unique :: "string list \<Rightarrow> string list \<Rightarrow> string list" where
  "Unique order ss = order"

fun find_from :: "int \<Rightarrow> string list \<Rightarrow> string \<Rightarrow> int" where
  "find_from index [] str = - 1"
| "find_from index (s # array) str = (if str = s then index else find_from (index + 1) array str)"

definition FindString :: "string list \<Rightarrow> string \<Rightarrow> int" where
  "FindString array str = find_from 0 array str"

definition StringIn :: "string \<Rightarrow> string list \<Rightarrow> bool" where
  "StringIn str array \<longleftrightarrow> FindString array str > - 1"

definition write_at :: "string \<Rightarrow> nat \<Rightarrow> string \<Rightarrow> string" where
  "write_at buf pos bs = take pos buf @ bs @ drop (pos + length bs) buf"

function reverse_loop :: "string \<Rightarrow> nat \<Rightarrow> nat \<Rightarrow> string \<Rightarrow> string option" where
  "reverse_loop rest start len buf =
     (if rest = [] then Some buf
      else let (r, n) = DecodeRune rest; start' = start + n; bs = EncodeRune r
        in if length buf < len - start' + length bs then None
           else reverse_loop (drop n rest) start' len (write_at buf (len - start') bs))"
  by pat_completeness auto
termination
proof (relation "measure (\<lambda>(rest, _, _, _). length rest)")
  fix rest :: string and start len :: nat and buf x r n start' bs
  assume "rest \<noteq> []" "x = DecodeRune rest" "(r, n) = x"
  then have "0 < n" using DecodeRune_width [of rest] by (metis snd_conv)
  with \<open>rest \<noteq> []\<close> show "((drop n rest, start', len, write_at buf (len - start') bs), rest, start, len, buf)
      \<in> measure (\<lambda>(rest, _, _, _). length rest)" by simp
qed simp

declare reverse_loop.simps [simp del]

definition Reverse :: "string \<Rightarrow> string option" where
  "Reverse s = reverse_loop s 0 (length s) (replicate (length s) (char_of (0::nat)))"


section \<open>Properties\<close>

text \<open>
  \<open>DecodeRune\<close> reads back what \<open>EncodeRune\<close> wrote for every rune that is no surrogate and
  not above U+10FFFF, whatever follows it; any other rune is written as U+FFFD.
\<close>
theorem runes_are_read_back:
  "DecodeRune (EncodeRune r @ rest) = (if valid_rune r then r else RuneError, length (EncodeRune r))"
proof (cases "valid_rune r")
  case True
  then show ?thesis by (simp add: DecodeRune_EncodeRune)
next
  case False
  then have "EncodeRune r = EncodeRune RuneError"
    by (auto simp: EncodeRune_def valid_rune_def RuneError_def)
  moreover have "valid_rune RuneError" by (simp add: valid_rune_def RuneError_def)
  ultimately show ?thesis using False DecodeRune_EncodeRune [of RuneError rest] by simp
qed

abbreviation text_of :: "nat list \<Rightarrow> string" where "text_of rs \<equiv> concat (map EncodeRune rs)"

lemma write_before:
  "write_at (replicate (m + length bs) z @ suf) m bs = replicate m z @ bs @ suf"
  by (simp add: write_at_def replicate_add)

lemma reverse_loop_runes:
  assumes "list_all valid_rune rs" and "len = start + length (text_of rs)"
  shows "reverse_loop (text_of rs) start len (replicate (len - start) z @ suf) = Some (text_of (rev rs) @ suf)"
  using assms
proof (induction rs arbitrary: start suf)
  case Nil
  then show ?case by (simp add: reverse_loop.simps)
next
  case (Cons r rs)
  let ?bs = "EncodeRune r"
  from Cons.prems have d: "DecodeRune (text_of (r # rs)) = (r, length ?bs)" by (simp add: DecodeRune_EncodeRune)
  from Cons.prems have sizes: "len - start = (len - (start + length ?bs)) + length ?bs" by simp
  have w: "write_at (replicate (len - start) z @ suf) (len - (start + length ?bs)) ?bs
      = replicate (len - (start + length ?bs)) z @ ?bs @ suf"
    by (subst sizes) (rule write_before)
  from Cons.prems Cons.IH [of "start + length ?bs" "?bs @ suf"]
  have "reverse_loop (text_of rs) (start + length ?bs) len (replicate (len - (start + length ?bs)) z @ ?bs @ suf)
      = Some (text_of (rev rs) @ ?bs @ suf)" by simp
  with d w sizes show ?case by (subst reverse_loop.simps) (simp add: Let_def)
qed

lemma reverse_text: "list_all valid_rune rs \<Longrightarrow> Reverse (text_of rs) = Some (text_of (rev rs))"
  using reverse_loop_runes [where start = 0 and len = "length (text_of rs)" and suf = "[]"]
  by (simp add: Reverse_def)

text \<open>
  \<open>Reverse\<close> of the text of valid runes is the text of these runes in reverse order, so
  reversing twice gives the text back. On a string that is not UTF-8 it is not safe: when its
  first byte is no rune, the replacement, three bytes long, is written past the end of the
  buffer and the call panics.
\<close>
theorem Reverse_reverses_runes:
  assumes "list_all valid_rune rs"
  shows "Reverse (text_of rs) = Some (text_of (rev rs))
    \<and> Option.bind (Reverse (text_of rs)) Reverse = Some (text_of rs)
    \<and> Reverse [char_of (255::nat)] = None"
proof -
  from assms have "list_all valid_rune (rev rs)" by (simp add: list_all_iff)
  from reverse_text [OF assms] reverse_text [OF this] have "Option.bind (Reverse (text_of rs)) Reverse = Some (text_of rs)" by simp
  moreover have "Reverse [char_of (255::nat)] = None"
    by (simp add: Reverse_def reverse_loop.simps DecodeRune_def byte_char_of EncodeRune_def RuneError_def valid_rune_def
        three_bytes_def)
  ultimately show ?thesis using reverse_text [OF assms] by blast
qed

lemma Reverse_reverses_runes_witness: "Reverse (text_of [104, 0xE9, 0x4E2D]) = Some (text_of [0x4E2D, 0xE9, 104])"
  using Reverse_reverses_runes [of "[104, 0xE9, 0x4E2D]"] by (simp add: valid_rune_def)

lemma fold_keys: "fold (\<lambda>s m. m(s \<mapsto> True)) ss m0 = (\<lambda>k. if k \<in> set ss then Some True else m0 k)"
  by (induction ss arbitrary: m0) (auto simp: fun_eq_iff)

lemma find_from_index:
  "find_from i array str = (if str \<in> set array then i + int (length (takeWhile (\<lambda>s. s \<noteq> str) array)) else - 1)"
  by (induction array arbitrary: i) auto

text \<open>
  \<open>Diff\<close> keeps the strings of its first argument that are not in the second, in order and
  with their repetitions; \<open>Unique\<close> has each string once, in an order that is not fixed;
  \<open>FindString\<close> is the first position, and \<open>StringIn\<close> is membership.
\<close>
theorem string_lists:
  assumes "enumerates order (unique_map ss)"
  shows "Diff base exclude = filter (\<lambda>s. s \<notin> set exclude) base
    \<and> distinct (Unique order ss) \<and> set (Unique order ss) = set ss
    \<and> (StringIn str array \<longleftrightarrow> str \<in> set array)
    \<and> (str \<in> set array \<longrightarrow> 0 \<le> FindString array str \<and> array ! nat (FindString array str) = str
        \<and> (\<forall>i < nat (FindString array str). array ! i \<noteq> str))"
proof -
  have "set order = set ss"
    using enumerates_set [OF assms] by (auto simp: unique_map_def fold_keys split: if_splits)
  moreover have "array ! length (takeWhile (\<lambda>s. s \<noteq> str) array) = str" if "str \<in> set array"
    using that nth_length_takeWhile [of "\<lambda>s. s \<noteq> str" array]
    by (metis (mono_tags, lifting) length_takeWhile_le nat_less_le takeWhile_eq_all_conv takeWhile_eq_take take_all_iff)
  moreover have "array ! i \<noteq> str" if "i < length (takeWhile (\<lambda>s. s \<noteq> str) array)" for i
    using that by (metis (mono_tags, lifting) nth_mem set_takeWhileD takeWhile_nth)
  ultimately show ?thesis
    using enumerates_distinct [OF assms]
    by (auto simp: Diff_def Unique_def fold_keys StringIn_def FindString_def find_from_index Let_def)
qed

lemma string_lists_witness: "Diff [''foo'', ''bar'', ''hello''] [''foo'', ''bar'', ''world''] = [''hello'']"
proof -
  have "enumerates [''a''] (unique_map [''a'', ''a''])"
    by (simp add: unique_map_def enumerates_def)
  from string_lists [OF this, where base = "[''foo'', ''bar'', ''hello'']" and exclude = "[''foo'', ''bar'', ''world'']"]
  show ?thesis by simp
qed

section \<open>homedir\<close>

record file_info =
  fi_IsDir :: bool
  fi_Perm :: nat

fun first_config :: "(string \<Rightarrow> bool) \<Rightarrow> string list \<Rightarrow> string option" where
  "first_config has_config [] = None"
| "first_config has_config (p # ps) =
     (if p = [] then first_config has_config ps
      else if \<not> has_config p then first_config has_config ps
      else Some p)"

text \<open>The second loop: the first set and the first existing path so far.\<close>

fun find_home :: "(string \<Rightarrow> file_info option) \<Rightarrow> string list \<Rightarrow> string \<Rightarrow> string \<Rightarrow> string" where
  "find_home stat [] firstSetPath firstExistingPath =
     (if firstExistingPath \<noteq> [] then firstExistingPath
      else if firstSetPath \<noteq> [] then firstSetPath
      else [])"
| "find_home stat (p # ps) firstSetPath firstExistingPath =
     (if p = [] then find_home stat ps firstSetPath firstExistingPath
      else let firstSetPath = (if firstSetPath = [] then p else firstSetPath) in
        case stat p of
          None \<Rightarrow> find_home stat ps firstSetPath firstExistingPath
        | Some info \<Rightarrow>
            let firstExistingPath = (if firstExistingPath = [] then p else firstExistingPath) in
            if fi_IsDir info \<and> bit (fi_Perm info) 7 then p
            else find_home stat ps firstSetPath firstExistingPath)"

definition HomeDir :: "bool \<Rightarrow> (string \<Rightarrow> string) \<Rightarrow> (string \<Rightarrow> bool) \<Rightarrow> (string \<Rightarrow> file_info option) \<Rightarrow> string" where
  "HomeDir windows Getenv has_config stat =
     (if \<not> windows then Getenv ''HOME''
      else let home = Getenv ''HOME'';
        homeDriveHomePath = (if Getenv ''HOMEDRIVE'' \<noteq> [] \<and> Getenv ''HOMEPATH'' \<noteq> []
          then Getenv ''HOMEDRIVE'' @ Getenv ''HOMEPATH'' else []);
        userProfile = Getenv ''USERPROFILE''
      in case first_config has_config [home, homeDriveHomePath, userProfile] of
           Some p \<Rightarrow> p
         | None \<Rightarrow> find_home stat [home, userProfile, homeDriveHomePath] [] [])"

definition writeable :: "(string \<Rightarrow> file_info option) \<Rightarrow> string \<Rightarrow> bool" where
  "writeable stat p \<longleftrightarrow> (case stat p of None \<Rightarrow> False | Some info \<Rightarrow> fi_IsDir info \<and> bit (fi_Perm info) 7)"

definition or_else :: "'a option \<Rightarrow> 'a option \<Rightarrow> 'a option" where
  "or_else x y = (case x of None \<Rightarrow> y | Some _ \<Rightarrow> x)"

text \<open>The documented order of preference.\<close>

definition home_rule :: "(string \<Rightarrow> bool) \<Rightarrow> (string \<Rightarrow> file_info option) \<Rightarrow> string \<Rightarrow> string \<Rightarrow> string \<Rightarrow> string" where
  "home_rule has_config stat home drive_path profile =
     (let set_first = filter (\<lambda>p. p \<noteq> []) [home, drive_path, profile];
          set_then = filter (\<lambda>p. p \<noteq> []) [home, profile, drive_path]
      in case or_else (find has_config set_first) (or_else (find (writeable stat) set_then)
           (or_else (find (\<lambda>p. stat p \<noteq> None) set_then) (find (\<lambda>p. True) set_then))) of
           Some p \<Rightarrow> p | None \<Rightarrow> [])"

lemma first_config_find: "first_config has_config ps = find has_config (filter (\<lambda>p. p \<noteq> []) ps)"
  by (induction ps) auto

lemma or_else_chain:
  "(case x of None \<Rightarrow> (case y of None \<Rightarrow> (case or_else z w of None \<Rightarrow> [] | Some p \<Rightarrow> p) | Some p \<Rightarrow> p) | Some p \<Rightarrow> p)
     = (case or_else x (or_else y (or_else z w)) of None \<Rightarrow> [] | Some p \<Rightarrow> p)"
  by (simp add: or_else_def split: option.split)

lemma find_home_finds:
  "find_home stat ps s e =
     (case find (writeable stat) (filter (\<lambda>p. p \<noteq> []) ps) of
        Some p \<Rightarrow> p
      | None \<Rightarrow> (case or_else (if e = [] then find (\<lambda>p. stat p \<noteq> None) (filter (\<lambda>p. p \<noteq> []) ps) else Some e)
            (if s = [] then find (\<lambda>p. True) (filter (\<lambda>p. p \<noteq> []) ps) else Some s) of
           Some p \<Rightarrow> p | None \<Rightarrow> []))"
proof (induction ps arbitrary: s e)
  case Nil
  show ?case by (simp add: or_else_def)
next
  case (Cons p ps)
  show ?case
  proof (cases "p = []")
    case True
    then have skip: "filter (\<lambda>p. p \<noteq> []) (p # ps) = filter (\<lambda>p. p \<noteq> []) ps"
      "find_home stat (p # ps) s e = find_home stat ps s e" by simp_all
    show ?thesis unfolding skip by (rule Cons.IH)
  next
    case False
    then have "filter (\<lambda>p. p \<noteq> []) (p # ps) = p # filter (\<lambda>p. p \<noteq> []) ps" by simp
    moreover have "find_home stat (p # ps) s e =
        (if writeable stat p then p
         else find_home stat ps (if s = [] then p else s) (if e = [] \<and> stat p \<noteq> None then p else e))"
      using False by (cases "stat p") (simp_all add: writeable_def Let_def)
    ultimately show ?thesis using False
      by (simp add: Cons.IH writeable_def or_else_def split: option.split)
  qed
qed

text \<open>
  The search on Windows follows the documented preference: the first set path that holds
  the configuration, else the first writeable directory, else the first that exists, else the
  first that is set, the second time with the user profile before the home drive. Elsewhere it
  is \<open>HOME\<close>.
\<close>
theorem HomeDir_prefers:
  "HomeDir windows Getenv has_config stat =
     (if windows then home_rule has_config stat (Getenv ''HOME'')
        (if Getenv ''HOMEDRIVE'' = [] \<or> Getenv ''HOMEPATH'' = [] then [] else Getenv ''HOMEDRIVE'' @ Getenv ''HOMEPATH'')
        (Getenv ''USERPROFILE'')
      else Getenv ''HOME'')"
proof (cases windows)
  case False
  then show ?thesis by (simp add: HomeDir_def)
next
  case True
  let ?drive = "if Getenv ''HOMEDRIVE'' \<noteq> [] \<and> Getenv ''HOMEPATH'' \<noteq> [] then Getenv ''HOMEDRIVE'' @ Getenv ''HOMEPATH'' else []"
  have drive: "(if Getenv ''HOMEDRIVE'' = [] \<or> Getenv ''HOMEPATH'' = [] then [] else Getenv ''HOMEDRIVE'' @ Getenv ''HOMEPATH'')
    = ?drive" by simp
  have rule: "(case first_config has_config [h, d, u] of Some p \<Rightarrow> p | None \<Rightarrow> find_home stat [h, u, d] [] [])
    = home_rule has_config stat h d u" for h d u
    unfolding first_config_find find_home_finds home_rule_def Let_def
    by (simp only: simp_thms if_True or_else_chain)
  show ?thesis unfolding HomeDir_def Let_def drive rule using True by simp
qed

end
