(* ===== verification/Util_Ids.thy ===== *)
theory Util_Ids
  imports Util_Strings
begin

text \<open>
  Identifiers: \<open>pkg/util/idutil\<close> (\<open>id.go\<close>, \<open>idutil.go\<close>), \<open>pkg/util/iputil/iputil.go\<close> and
  \<open>pkg/util/codeutil/codeutil.go\<close>.

  A Sonyflake identifier is a 64-bit word of a time in units of 10 ms, a sequence number and a
  machine number. The generators of the libraries (\<open>sonyflake\<close>, \<open>hashids\<close>, \<open>base62\<close>), the random
  source and the network interfaces are arguments; a panic is the left of a sum.
\<close>

unbundle bit_operations_syntax

section \<open>ID\<close>

datatype ID = NewID (Uint64: "64 word")

definition id_String :: "ID \<Rightarrow> string" where "id_String i = nat_text (unat (Uint64 i))"

datatype scan_error = NumSyntax string | NumRange string | CannotScan string

fun parse_u64 :: "string \<Rightarrow> nat \<Rightarrow> string \<Rightarrow> scan_error + nat" where
  "parse_u64 all n [] = Inr n"
| "parse_u64 all n (c # cs) =
     (if \<not> is_digit c then Inl (NumSyntax all)
      else let n1 = 10 * n + (of_char c - 48) in
        if 2 ^ 64 \<le> n1 then Inl (NumRange all) else parse_u64 all n1 cs)"

text \<open>\<open>strconv.ParseUint(s, 10, 64)\<close>.\<close>

definition ParseUint :: "string \<Rightarrow> scan_error + nat" where
  "ParseUint s = (if s = [] then Inl (NumSyntax s) else parse_u64 s 0 s)"

datatype sql_value = SqlNil | SqlInt64 "64 word" | SqlUint64 "64 word" | SqlBytes string | SqlString string | SqlOther string

text \<open>\<open>Scan\<close> writes its receiver unless it fails.\<close>

definition Scan :: "sql_value \<Rightarrow> ID \<Rightarrow> scan_error option \<times> ID" where
  "Scan src i =
     (let parsed = (\<lambda>s. case ParseUint s of Inl err \<Rightarrow> (Some err, i) | Inr n \<Rightarrow> (None, NewID (of_nat n)))
      in case src of
        SqlNil \<Rightarrow> (None, NewID 0)
      | SqlInt64 v \<Rightarrow> (None, NewID v)
      | SqlUint64 v \<Rightarrow> (None, NewID v)
      | SqlBytes v \<Rightarrow> parsed v
      | SqlString v \<Rightarrow> parsed v
      | SqlOther T \<Rightarrow> (Some (CannotScan T), i))"

definition GormDBDataType :: "ID \<Rightarrow> string \<Rightarrow> string" where "GormDBDataType i db = ''bigint''"

text \<open>The \<open>int64\<close> that is written to the database: the same word, read with a sign.\<close>

definition Value :: "ID \<Rightarrow> sql_value" where "Value i = SqlInt64 (Uint64 i)"

definition IsZero :: "ID \<Rightarrow> bool" where "IsZero i \<longleftrightarrow> Uint64 i = 0"

definition id_Equal :: "ID \<Rightarrow> ID \<Rightarrow> bool" where "id_Equal i other \<longleftrightarrow> Uint64 i = Uint64 other"

definition MarshalJSON :: "ID \<Rightarrow> string" where "MarshalJSON i = nat_text (unat (Uint64 i))"

definition UnmarshalJSON :: "(string \<Rightarrow> string + 64 word) \<Rightarrow> string \<Rightarrow> ID \<Rightarrow> string option \<times> ID" where
  "UnmarshalJSON unmarshal b i = (case unmarshal b of Inl err \<Rightarrow> (Some err, i) | Inr v \<Rightarrow> (None, NewID v))"

section \<open>Addresses\<close>

record interface_addr =
  ia_is_ipnet :: bool
  ia_loopback :: bool
  ia_is_v4 :: bool
  ia_text :: string

fun first_local :: "interface_addr list \<Rightarrow> string" where
  "first_local [] = ''127.0.0.1''"
| "first_local (a # addrs) =
     (if ia_is_ipnet a \<and> \<not> ia_loopback a then (if ia_is_v4 a then ia_text a else first_local addrs)
      else first_local addrs)"

definition GetLocalIP :: "string + interface_addr list \<Rightarrow> string" where
  "GetLocalIP addrs = (case addrs of Inl err \<Rightarrow> ''127.0.0.1'' | Inr as \<Rightarrow> first_local as)"

text \<open>\<open>host\<close> is the host part of an address with a port, empty when there is none.\<close>

definition RemoteIP :: "(string \<Rightarrow> string) \<Rightarrow> string \<Rightarrow> (string \<Rightarrow> string) \<Rightarrow> string" where
  "RemoteIP host remote header =
     (let addr = (if header ''x-client-ip'' \<noteq> [] then header ''x-client-ip''
          else if header ''X-Real-IP'' \<noteq> [] then header ''X-Real-IP''
          else if header ''X-Forwarded-For'' \<noteq> [] then header ''X-Forwarded-For''
          else host remote)
      in if addr = ''::1'' then ''127.0.0.1'' else addr)"

section \<open>Machine numbers\<close>

definition byte_word :: "char \<Rightarrow> 16 word" where "byte_word c = word_of_nat (of_char c)"

text \<open>\<open>uint16([]byte(ip)[2])<<8 + uint16([]byte(ip)[3])\<close>, of the text of the address.\<close>

definition MachineID :: "string \<Rightarrow> 16 word option" where
  "MachineID ip = (if 3 < length ip then Some (push_bit 8 (byte_word (ip ! 2)) + byte_word (ip ! 3)) else None)"

text \<open>The generator, \<open>None\<close> when it could not be made, and the time of the fallback.\<close>

definition GetIntID :: "(('s \<Rightarrow> (string + 64 word) \<times> 's)) option \<Rightarrow> instant \<Rightarrow> 's \<Rightarrow> 64 word \<times> 's" where
  "GetIntID sf now s =
     (let unix_nano = word_of_int (now - 62135596800 * second) in
      case sf of
        None \<Rightarrow> (unix_nano, s)
      | Some NextID \<Rightarrow> (case NextID s of (Inl err, s') \<Rightarrow> (unix_nano, s') | (Inr i, s') \<Rightarrow> (i, s')))"

section \<open>Texts of identifiers\<close>

definition Alphabet62 :: string where
  "Alphabet62 = ''abcdefghijklmnopqrstuvwxyzABCDEFGHIJKLMNOPQRSTUVWXYZ1234567890''"

definition Alphabet36 :: string where "Alphabet36 = ''abcdefghijklmnopqrstuvwxyz1234567890''"

text \<open>An encoder of lists of numbers, made for an alphabet, a least length and a salt.\<close>

type_synonym hashids = "string \<Rightarrow> nat \<Rightarrow> string \<Rightarrow> string + (int list \<Rightarrow> string + string)"

definition hash_text :: "hashids \<Rightarrow> nat \<Rightarrow> string \<Rightarrow> string \<Rightarrow> 64 word \<Rightarrow> string + string" where
  "hash_text new min_len salt pre uid =
     (case new Alphabet36 min_len salt of
        Inl err \<Rightarrow> Inl err
      | Inr Encode \<Rightarrow>
          (case Encode [sint uid] of
             Inl err \<Rightarrow> Inl err
           | Inr i \<Rightarrow> (case Reverse i of None \<Rightarrow> Inl ''index out of range'' | Some r \<Rightarrow> Inr (pre @ r))))"

definition GetInstanceID :: "hashids \<Rightarrow> 64 word \<Rightarrow> string \<Rightarrow> string + string" where
  "GetInstanceID new uid pre = hash_text new 6 ''x20k5x'' pre uid"

definition GetUUID36 ::
    "hashids \<Rightarrow> (('s \<Rightarrow> (string + 64 word) \<times> 's)) option \<Rightarrow> instant \<Rightarrow> string \<Rightarrow> 's \<Rightarrow> (string + string) \<times> 's" where
  "GetUUID36 new sf now pre s = (case GetIntID sf now s of (i, s') \<Rightarrow> (hash_text new 0 [] pre i, s'))"

text \<open>\<open>read n\<close> are \<open>n\<close> random bytes, or the error of the source.\<close>

definition randString :: "(nat \<Rightarrow> string + 8 word list) \<Rightarrow> string \<Rightarrow> nat \<Rightarrow> string + string" where
  "randString read letters n =
     (case read n of
        Inl err \<Rightarrow> Inl err
      | Inr randomness \<Rightarrow>
          if n \<noteq> 0 \<and> (of_nat (length letters) :: 8 word) = 0 then Inl ''integer divide by zero''
          else Inr (map (\<lambda>random. letters ! unat (random mod of_nat (length letters))) (take n randomness)))"

definition NewSecretID :: "(nat \<Rightarrow> string + 8 word list) \<Rightarrow> string + string" where
  "NewSecretID read = randString read Alphabet62 36"

definition NewSecretKey :: "(nat \<Rightarrow> string + 8 word list) \<Rightarrow> string + string" where
  "NewSecretKey read = randString read Alphabet62 32"

definition NewTraceID :: "(nat \<Rightarrow> string + 8 word list) \<Rightarrow> string + string" where
  "NewTraceID read = randString read ''0123456789abcdef'' 32"

definition NewSpanID :: "(nat \<Rightarrow> string + 8 word list) \<Rightarrow> string + string" where
  "NewSpanID read = randString read ''0123456789abcdef'' 16"

definition NewRequestID :: "(nat \<Rightarrow> string + 8 word list) \<Rightarrow> instant \<Rightarrow> string + string" where
  "NewRequestID read now =
     (let timestamp = trunc_div (wrap64 (now - 62135596800 * second)) 1000000 in
      case randString read Alphabet36 8 of
        Inl err \<Rightarrow> Inl err
      | Inr randomPart \<Rightarrow> Inr (''req-'' @ int_text timestamp @ ''-'' @ randomPart))"

section \<open>Times of identifiers\<close>

definition sonyflakeEpoch :: instant where "sonyflakeEpoch = unix_time 1409529600"

definition GetIDTimestamp :: "64 word \<Rightarrow> instant" where
  "GetIDTimestamp i =
     (let timestamp = drop_bit 24 i
      in sonyflakeEpoch + wrap64 (wrap64 (sint timestamp * 10) * millisecond))"

definition GetIDMachineID :: "64 word \<Rightarrow> 16 word" where "GetIDMachineID i = ucast (i AND 0xFFFF)"

definition GetIDSequence :: "64 word \<Rightarrow> 8 word" where "GetIDSequence i = ucast (drop_bit 16 i AND 0xFF)"

definition ValidateIntID :: "instant \<Rightarrow> 64 word \<Rightarrow> bool" where
  "ValidateIntID now i =
     (if i = 0 then False
      else if 2 ^ 63 - 1 < i then False
      else let idTime = GetIDTimestamp i in
        if idTime < sonyflakeEpoch then False
        else if now + 60 * minute < idTime then False
        else True)"

text \<open>The clock is read twice.\<close>

definition ValidateIntIDStrict :: "instant \<Rightarrow> instant \<Rightarrow> 64 word \<Rightarrow> bool" where
  "ValidateIntIDStrict now1 now2 i =
     (if \<not> ValidateIntID now1 i then False
      else let idTime = GetIDTimestamp i;
          pastThreshold = now2 - 30 * 24 * 60 * minute;
          futureThreshold = now2 + minute
        in \<not> (idTime < pastThreshold \<or> futureThreshold < idTime))"

definition IsValidIDRange :: "instant \<Rightarrow> 64 word \<Rightarrow> instant \<Rightarrow> instant \<Rightarrow> bool" where
  "IsValidIDRange now i start until =
     (if \<not> ValidateIntID now i then False
      else \<not> GetIDTimestamp i < start \<and> \<not> until < GetIDTimestamp i)"

section \<open>codeutil\<close>

text \<open>The package's \<open>once\<close>, \<open>flake\<close> and \<open>initError\<close>: \<open>None\<close> until the first call.\<close>

type_synonym 's code_flake = "(string + ('s \<Rightarrow> (string + 64 word) \<times> 's)) option"

definition initSonyflake :: "('s \<Rightarrow> (string + 64 word) \<times> 's) option \<Rightarrow> string + ('s \<Rightarrow> (string + 64 word) \<times> 's)" where
  "initSonyflake new = (case new of None \<Rightarrow> Inl ''sonyflake initialization failed'' | Some NextID \<Rightarrow> Inr NextID)"

definition GenerateCode ::
    "('s \<Rightarrow> (string + 64 word) \<times> 's) option \<Rightarrow> (int \<Rightarrow> string) \<Rightarrow> 's code_flake \<Rightarrow> 's \<Rightarrow> (string + string) \<times> 's code_flake \<times> 's" where
  "GenerateCode new base62 st s =
     (let fl = (case st of None \<Rightarrow> initSonyflake new | Some fl \<Rightarrow> fl) in
      case fl of
        Inl err \<Rightarrow> (Inl err, Some fl, s)
      | Inr NextID \<Rightarrow>
          (case NextID s of
             (Inl err, s') \<Rightarrow> (Inl err, Some fl, s')
           | (Inr i, s') \<Rightarrow> (Inr (base62 (sint i)), Some fl, s')))"


section \<open>Properties\<close>

lemma parse_u64_snoc:
  "parse_u64 all a xs = Inr b \<Longrightarrow> d < 10 \<Longrightarrow> 10 * b + d < 2 ^ 64 \<Longrightarrow> parse_u64 all a (xs @ [char_of (48 + d)]) = Inr (10 * b + d)"
proof (induction xs arbitrary: a)
  case Nil
  then show ?case by (simp add: is_digit_def of_char_digit)
next
  case (Cons x xs)
  then show ?case by (auto simp: Let_def split: if_splits)
qed

lemma parse_u64_nat_text: "n < 2 ^ 64 \<Longrightarrow> parse_u64 all 0 (nat_text n) = Inr n"
proof (induction n rule: nat_text.induct)
  case (1 n)
  show ?case
  proof (cases "n < 10")
    case True
    then show ?thesis by (simp add: nat_text_digit is_digit_def of_char_digit)
  next
    case False
    with 1 have "parse_u64 all 0 (nat_text (n div 10)) = Inr (n div 10)" by simp
    from parse_u64_snoc [OF this, of "n mod 10"] False 1(2) show ?thesis by (simp add: nat_text_step)
  qed
qed

lemma word64_less: "unat (w :: 64 word) < 2 ^ 64" "uint w < 2 ^ 64" "- (2 ^ 63) \<le> uint w"
    "0 \<le> uint w div 16777216"
proof -
  have pos: "0 \<le> uint w" by simp
  show "- (2 ^ 63) \<le> uint w" by (rule order_trans [OF _ pos]) simp
  from pos show "0 \<le> uint w div 16777216" by (simp add: pos_imp_zdiv_nonneg_iff del: uint_ge_0)
  have "unat w < 2 ^ LENGTH(64)" "uint w < 2 ^ LENGTH(64)" by (rule unsigned_less)+
  then show "unat w < 2 ^ 64" "uint w < 2 ^ 64" by simp_all
qed

lemma ParseUint_text: "ParseUint (nat_text (unat (w :: 64 word))) = Inr (unat w)"
  using word64_less(1) [of w] by (simp only: ParseUint_def parse_u64_nat_text nat_text_nonempty if_False)

lemma sint_word:
  "if unat (w :: 64 word) < 2 ^ 63 then sint w = int (unat w) else sint w < 0"
proof -
  have u: "int (unat w) = uint w" by simp
  show ?thesis
  proof (cases "unat w < 2 ^ 63")
    case True
    then have "int (unat w) < int (2 ^ 63)" by (simp only: of_nat_less_iff)
    then have "uint w < 2 ^ 63" by simp
    then have "sint w = uint w" unfolding sint_uint using word64_less(3) [of w] by (intro signed_take_bit_int_eq_self) simp_all
    with True u show ?thesis by simp
  next
    case False
    then have "int (2 ^ 63) \<le> int (unat w)" by (simp only: of_nat_le_iff not_less)
    then have "2 ^ 63 \<le> uint w" by simp
    with word64_less(2) [of w] have "uint w div 2 ^ 63 = 1" by auto
    then have "odd (uint w div 2 ^ 63)" by simp
    then have "bit (uint w) 63" unfolding bit_iff_odd .
    with False show ?thesis by (simp add: sint_uint)
  qed
qed

text \<open>
  An identifier is read back from what was written of it: from the database's \<open>int64\<close>,
  from its text, in bytes or as a string, and from JSON. The text of the signed number, which a
  database may answer instead, is read back only below \<open>2^63\<close>; above it \<open>Scan\<close> refuses the
  sign and leaves the identifier alone.
\<close>
theorem ids_are_read_back:
  assumes "unmarshal (nat_text (unat (Uint64 i))) = Inr (Uint64 i)"
  shows "Scan (Value i) j = (None, i)
    \<and> Scan (SqlString (id_String i)) j = (None, i) \<and> Scan (SqlBytes (id_String i)) j = (None, i)
    \<and> UnmarshalJSON unmarshal (MarshalJSON i) j = (None, i)
    \<and> Scan (SqlBytes (int_text (sint (Uint64 i)))) j =
        (if unat (Uint64 i) < 2 ^ 63 then (None, i) else (Some (NumSyntax (int_text (sint (Uint64 i)))), j))"
proof -
  have i: "NewID (of_nat (unat (Uint64 i))) = i" by (cases i) simp
  have "Scan (SqlBytes (int_text (sint (Uint64 i)))) j =
      (if unat (Uint64 i) < 2 ^ 63 then (None, i) else (Some (NumSyntax (int_text (sint (Uint64 i)))), j))"
  proof (cases "unat (Uint64 i) < 2 ^ 63")
    case True
    with sint_word [of "Uint64 i"] i ParseUint_text [of "Uint64 i"] show ?thesis
      by (simp add: Scan_def int_text_def)
  next
    case False
    with sint_word [of "Uint64 i"] obtain cs where "int_text (sint (Uint64 i)) = CHR ''-'' # cs" by (simp add: int_text_def)
    with False show ?thesis by (simp add: Scan_def ParseUint_def is_digit_def)
  qed
  with i assms ParseUint_text [of "Uint64 i"] show ?thesis
    by (simp add: Scan_def Value_def id_String_def UnmarshalJSON_def MarshalJSON_def)
qed

lemma ids_are_read_back_witness: "Scan (SqlString ''7'') (NewID 0) = (None, NewID 7)"
proof -
  have "nat_text 7 = ''7''" by (simp add: nat_text_digit char_of_def bit_0)
  then show ?thesis
    using ids_are_read_back [of "\<lambda>_. Inr 7" "NewID 7" "NewID 0"] by (simp add: id_String_def)
qed

lemma uint_shift: "uint (drop_bit n (i :: 64 word)) = uint i div 2 ^ n"
proof -
  have "take_bit LENGTH(64) (uint i) = uint i" using word64_less(2) [of i] by (intro take_bit_int_eq_self) simp_all
  then show ?thesis by (simp only: unsigned_drop_bit_eq drop_bit_eq_div [where 'a = int])
qed

lemma and_mask: "k AND 65535 = k mod (65536 :: int)" "k AND 255 = k mod (256 :: int)"
proof -
  have "(65535 :: int) = mask 16" "(255 :: int) = mask 8" by (simp_all add: mask_eq_exp_minus_1)
  then show "k AND 65535 = k mod (65536 :: int)" "k AND 255 = k mod (256 :: int)"
    by (simp_all only: take_bit_eq_mask [symmetric] take_bit_eq_mod) simp_all
qed

text \<open>
  The time, the sequence number and the machine number of an identifier make it up.
\<close>
theorem id_parts:
  "uint i = uint (drop_bit 24 i) * 2 ^ 24 + uint (GetIDSequence i) * 2 ^ 16 + uint (GetIDMachineID i)"
proof -
  have m: "uint (GetIDMachineID i) = uint i mod 65536"
    using and_mask(1) [of "uint i"] by (simp add: GetIDMachineID_def uint_and unsigned_ucast_eq take_bit_eq_mod)
  have s: "uint (GetIDSequence i) = uint i div 65536 mod 256"
    using uint_shift [of 16 i] and_mask(2) [of "uint i div 65536"]
    by (simp add: GetIDSequence_def uint_and unsigned_ucast_eq take_bit_eq_mod)
  have t: "uint (drop_bit 24 i) = uint i div 65536 div 256"
    using uint_shift [of 24 i] by (simp add: zdiv_zmult2_eq [symmetric])
  have "uint i = uint i div 65536 div 256 * 16777216 + uint i div 65536 mod 256 * 65536 + uint i mod 65536"
    using div_mult_mod_eq [of "uint i" 65536] div_mult_mod_eq [of "uint i div 65536" 256] by linarith
  with m s t show ?thesis by simp
qed


lemma ticks_fit:
  assumes "0 \<le> n" and "n < 2 ^ 39"
  shows "wrap64 (wrap64 (n * 10) * millisecond) = n * (10 * millisecond)"
proof -
  have "wrap64 (n * 10) = n * 10" using assms by (intro wrap64_id) simp_all
  moreover have "wrap64 (n * 10 * millisecond) = n * 10 * millisecond"
    using assms by (intro wrap64_id) (simp_all add: millisecond_def)
  ultimately show ?thesis by simp
qed

lemma id_time:
  assumes "unat i < 2 ^ 63"
  shows "GetIDTimestamp i = sonyflakeEpoch + uint i div 2 ^ 24 * (10 * millisecond)"
proof -
  have "int (unat i) < int (2 ^ 63)" using assms by (simp only: of_nat_less_iff)
  then have i: "uint i < 2 ^ 63" by simp
  then have t: "0 \<le> uint i div 2 ^ 24" "uint i div 2 ^ 24 < 2 ^ 39" using word64_less(4) [of i] by simp_all
  have "unat (drop_bit 24 i) < 2 ^ 63"
  proof -
    have "int (unat (drop_bit 24 i)) < int (2 ^ 63)" using t(2) uint_shift [of 24 i] by simp
    then show ?thesis by (simp only: of_nat_less_iff)
  qed
  with sint_word [of "drop_bit 24 i"] have s: "sint (drop_bit 24 i) = uint i div 2 ^ 24"
    using uint_shift [of 24 i] by simp
  from ticks_fit [OF t] show ?thesis by (simp add: GetIDTimestamp_def s Let_def)
qed

lemma word_above: "2 ^ 63 - 1 < (i :: 64 word) \<longleftrightarrow> 2 ^ 63 \<le> unat i"
  by (simp add: word_less_nat_alt) linarith

lemma epoch_first: "unat i < 2 ^ 63 \<Longrightarrow> sonyflakeEpoch \<le> GetIDTimestamp i"
  using word64_less(4) [of i] by (simp add: id_time millisecond_def)

lemma accepted_ids_eq: "ValidateIntID now i \<longleftrightarrow> i \<noteq> 0 \<and> unat i < 2 ^ 63 \<and> GetIDTimestamp i \<le> now + 60 * minute"
proof (cases "unat i < 2 ^ 63")
  case True
  with word_above [of i] epoch_first [OF True] show ?thesis by (auto simp: ValidateIntID_def Let_def)
next
  case False
  with word_above [of i] show ?thesis by (simp add: ValidateIntID_def)
qed

text \<open>
  An identifier is accepted when it is not 0, has no sign and its time is at most an hour
  after now. Within this range the arithmetic of \<open>time.Duration\<close> does not overflow, so the test
  against the epoch never decides; above it the time of an identifier may lie before the epoch.
\<close>
theorem accepted_ids:
  "ValidateIntID now i \<longleftrightarrow> i \<noteq> 0 \<and> unat i < 2 ^ 63
     \<and> sonyflakeEpoch + uint i div 2 ^ 24 * (10 * millisecond) \<le> now + 60 * minute"
  "unat i < 2 ^ 63 \<Longrightarrow> sonyflakeEpoch \<le> GetIDTimestamp i"
  "GetIDTimestamp 0xFFFFFFFFFFFFFFFF < sonyflakeEpoch"
proof -
  show "sonyflakeEpoch \<le> GetIDTimestamp i" if "unat i < 2 ^ 63" using that by (rule epoch_first)
  show "ValidateIntID now i \<longleftrightarrow> i \<noteq> 0 \<and> unat i < 2 ^ 63
     \<and> sonyflakeEpoch + uint i div 2 ^ 24 * (10 * millisecond) \<le> now + 60 * minute"
    by (cases "unat i < 2 ^ 63") (simp_all add: accepted_ids_eq id_time)
  have "wrap64 (wrap64 (1099511627775 * 10) * millisecond) < 0"
    by (simp add: wrap64_def millisecond_def)
  then show "GetIDTimestamp 0xFFFFFFFFFFFFFFFF < sonyflakeEpoch" by (simp add: GetIDTimestamp_def Let_def)
qed


lemma accepted_ids_witness: "ValidateIntID (sonyflakeEpoch + minute) 0x1000000 \<and> sonyflakeEpoch \<le> GetIDTimestamp 0x1000000"
  using accepted_ids(1) [of "sonyflakeEpoch + minute" "0x1000000"] accepted_ids(2) [of "0x1000000"]
  by (simp add: millisecond_def minute_def)

text \<open>
  The strict test accepts part of what the test accepts, the range test the identifiers of
  its interval; and the times of identifiers are in their order, so an accepted identifier makes
  every smaller one but 0 acceptable.
\<close>
theorem ids_are_ordered_by_time:
  assumes "i \<le> j" and "unat j < 2 ^ 63"
  shows "GetIDTimestamp i \<le> GetIDTimestamp j
    \<and> (ValidateIntID now j \<longrightarrow> i \<noteq> 0 \<longrightarrow> ValidateIntID now i)
    \<and> (ValidateIntIDStrict now now2 j \<longleftrightarrow> ValidateIntID now j
        \<and> IsValidIDRange now j (now2 - 30 * 24 * 60 * minute) (now2 + minute))"
proof -
  have ij: "unat i \<le> unat j" using assms(1) by (simp add: word_le_nat_alt)
  with assms(2) have i: "unat i < 2 ^ 63" by linarith
  have "uint i \<le> uint j" using assms(1) by (simp add: word_le_def)
  then have "uint i div 2 ^ 24 \<le> uint j div 2 ^ 24" by (intro zdiv_mono1) simp_all
  then have le: "GetIDTimestamp i \<le> GetIDTimestamp j"
    using id_time [OF i] id_time [OF assms(2)] by (simp add: millisecond_def)
  then have "ValidateIntID now j \<Longrightarrow> i \<noteq> 0 \<Longrightarrow> ValidateIntID now i"
    using accepted_ids_eq [of now i] accepted_ids_eq [of now j] i by auto
  with le show ?thesis by (auto simp: ValidateIntIDStrict_def IsValidIDRange_def Let_def)
qed

lemma ids_are_ordered_by_time_witness:
  "GetIDTimestamp 5 \<le> GetIDTimestamp 0x1000000"
  using ids_are_ordered_by_time [of 5 "0x1000000"] by simp

text \<open>
  The machine number is taken from the third and the fourth character of the text of the
  address, not from its bytes: every host of 192.168.0.0/16 has the same number, and so has
  every host whose address text agrees in these two characters.
\<close>
theorem machine_numbers_collide:
  "MachineID (''192.168.'' @ rest) = Some 0x322E"
  "MachineID (a # b # c # d # rest) = MachineID (a' # b' # c # d # rest')"
  by (simp_all add: MachineID_def byte_word_def push_bit_eq_mult)

section \<open>Random texts\<close>

text \<open>
  A random text has the length asked for and characters of the alphabet only. It is not
  uniform: of the 256 bytes, five choose each of the first eight characters of the 62 and four
  each of the others.
\<close>
theorem random_texts:
  assumes "read n = Inr bytes" and "length bytes = n" and "0 < length letters" and "length letters < 256"
  shows "\<exists>r. randString read letters n = Inr r \<and> length r = n \<and> set r \<subseteq> set letters"
    and "k < 62 \<Longrightarrow> card {b :: nat. b < 256 \<and> b mod 62 = k} = (if k < 8 then 5 else 4)"
proof -
  have l: "unat (of_nat (length letters) :: 8 word) = length letters"
    using assms(4) by (simp add: unat_of_nat take_bit_eq_mod)
  then have nz: "(of_nat (length letters) :: 8 word) \<noteq> 0" using assms(3) by auto
  have "unat (b mod of_nat (length letters) :: 8 word) < length letters" for b :: "8 word"
    using assms(3) l by (simp add: unat_mod_distrib)
  then show "\<exists>r. randString read letters n = Inr r \<and> length r = n \<and> set r \<subseteq> set letters"
    using assms(1,2) nz by (auto simp: randString_def dest!: in_set_takeD)
  show "card {b :: nat. b < 256 \<and> b mod 62 = k} = (if k < 8 then 5 else 4)" if "k < 62"
  proof -
    have "{b :: nat. b < 256 \<and> b mod 62 = k} = (\<lambda>q. k + 62 * q) ` {q. q < (if k < 8 then 5 else 4)}"
    proof (intro set_eqI iffI)
      fix b assume "b \<in> {b :: nat. b < 256 \<and> b mod 62 = k}"
      then have b: "b < 256" "k + 62 * (b div 62) = b" by auto
      then have "b div 62 < (if k < 8 then 5 else 4)" by auto
      with b(2) show "b \<in> (\<lambda>q. k + 62 * q) ` {q. q < (if k < 8 then 5 else 4)}" by force
    next
      fix b assume "b \<in> (\<lambda>q. k + 62 * q) ` {q. q < (if k < 8 then 5 else 4)}"
      then obtain q where "b = k + 62 * q" "q < (if k < 8 then 5 else 4)" by auto
      with that show "b \<in> {b :: nat. b < 256 \<and> b mod 62 = k}" by (auto split: if_splits)
    qed
    moreover have "inj (\<lambda>q. k + 62 * q)" by (simp add: inj_def)
    ultimately show ?thesis by (simp add: card_image inj_on_subset)
  qed
qed

text \<open>
  The identifier of an instance tells instances apart when the encoding does and yields
  valid UTF-8; an identifier with the highest bit set is given to the encoder as a negative
  number, and what the encoder refuses panics.
\<close>
theorem instance_ids:
  assumes "new Alphabet36 6 ''x20k5x'' = Inr Encode"
    and "\<And>n m x. Encode [n] = Inr x \<Longrightarrow> Encode [m] = Inr x \<Longrightarrow> n = m"
    and "\<And>n x. Encode [n] = Inr x \<Longrightarrow> \<exists>rs. list_all valid_rune rs \<and> x = text_of rs"
    and "\<And>n. n < 0 \<Longrightarrow> \<exists>err. Encode [n] = Inl err"
  shows "GetInstanceID new i p = Inr x \<Longrightarrow> GetInstanceID new j p = Inr x \<Longrightarrow> i = j"
    and "2 ^ 63 \<le> unat i \<Longrightarrow> \<exists>err. GetInstanceID new i p = Inl err"
proof -
  show "i = j" if "GetInstanceID new i p = Inr x" "GetInstanceID new j p = Inr x"
  proof -
    from that(1) assms(1) obtain e where e: "Encode [sint i] = Inr e" "map_option ((@) p) (Reverse e) = Some x"
      by (auto simp: GetInstanceID_def hash_text_def split: sum.splits option.splits)
    from that(2) assms(1) obtain f where f: "Encode [sint j] = Inr f" "map_option ((@) p) (Reverse f) = Some x"
      by (auto simp: GetInstanceID_def hash_text_def split: sum.splits option.splits)
    from assms(3) e(1) f(1) obtain rs qs where rs: "list_all valid_rune rs" "e = text_of rs"
      and qs: "list_all valid_rune qs" "f = text_of qs" by blast
    from reverse_text [OF rs(1)] reverse_text [OF qs(1)] e(2) f(2) rs(2) qs(2)
    have "text_of (rev rs) = text_of (rev qs)" by auto
    then have "e = f" using rs qs reverse_text [of "rev rs"] reverse_text [of "rev qs"] by (auto simp: list_all_iff)
    with e f assms(2) have "sint i = sint j" by blast
    then show ?thesis by (simp add: signed_word_eqI)
  qed
  show "\<exists>err. GetInstanceID new i p = Inl err" if "2 ^ 63 \<le> unat i"
    using assms(1) assms(4) [of "sint i"] sint_word [of i] that
    by (auto simp: GetInstanceID_def hash_text_def)
qed

text \<open>
  The generator of codes is made once: when it cannot be made, this call and every later
  one fails, whatever generator could be made by then.
\<close>
theorem code_generator_is_made_once:
  "GenerateCode None base62 None s = (Inl ''sonyflake initialization failed'', Some (Inl ''sonyflake initialization failed''), s)"
  "GenerateCode new base62 (Some (Inl err)) s = (Inl err, Some (Inl err), s)"
  "GenerateCode new base62 (Some (Inr NextID)) s =
     (case NextID s of (Inl err, s') \<Rightarrow> (Inl err, Some (Inr NextID), s')
      | (Inr i, s') \<Rightarrow> (Inr (base62 (sint i)), Some (Inr NextID), s'))"
  by (simp_all add: GenerateCode_def initSonyflake_def Let_def)

text \<open>
  The address of a remote client is the first header that is set, in the order client,
  real, forwarded, taken whole; only without any is it the host of the connection. The loopback
  of IPv6 is written as that of IPv4.
\<close>
theorem remote_address:
  "RemoteIP host remote header \<noteq> ''::1''"
  "header ''x-client-ip'' = ip \<Longrightarrow> ip \<noteq> [] \<Longrightarrow> ip \<noteq> ''::1'' \<Longrightarrow> RemoteIP host remote header = ip"
  "header ''x-client-ip'' = [] \<Longrightarrow> header ''X-Real-IP'' = [] \<Longrightarrow> header ''X-Forwarded-For'' = list
     \<Longrightarrow> list \<noteq> [] \<Longrightarrow> list \<noteq> ''::1'' \<Longrightarrow> RemoteIP host remote header = list"
  by (simp_all add: RemoteIP_def Let_def)

end
