(* ===== verification/Log_Fields.thy ===== *)
theory Log_Fields
  imports Util_Ids Complex_Main
begin

text \<open>
  Log records: the fields and levels of \<open>pkg/log/types.go\<close>, the typed records, key-value pairs
  and the request logger of \<open>log.go\<close>, the trace fields of \<open>trace.go\<close>, \<open>context.go\<close> and the HTTP
  middleware of \<open>middleware/tracing.go\<close>.

  What is written is a value, the list of the records an operation gives to the underlying
  logger (zap); which of them reach an output is the matter of \<open>Log_Output\<close>. A context is the
  record of the values the package keeps in it.
\<close>

section \<open>Fields and records\<close>

text \<open>The fields the code makes, by their constructors in \<open>types.go\<close>; \<open>AnyF\<close> holds the text of its value.\<close>

datatype Field =
    SkipF
  | TextF string string
  | IntF string int
  | UintF string nat
  | FloatF string rat
  | BoolF string bool
  | DurationF string duration
  | TimeF string instant
  | AnyF string string
  | MapF string "(string \<times> string) list"

fun field_key :: "Field \<Rightarrow> string" where
  "field_key SkipF = []"
| "field_key (TextF k v) = k"
| "field_key (IntF k v) = k"
| "field_key (UintF k v) = k"
| "field_key (FloatF k v) = k"
| "field_key (BoolF k v) = k"
| "field_key (DurationF k v) = k"
| "field_key (TimeF k v) = k"
| "field_key (AnyF k v) = k"
| "field_key (MapF k v) = k"

datatype Level = DebugLevel | InfoLevel | WarnLevel | ErrorLevel | DPanicLevel | PanicLevel | FatalLevel

text \<open>The number of a level, which orders the levels.\<close>

fun level_num :: "Level \<Rightarrow> int" where
  "level_num DebugLevel = - 1"
| "level_num InfoLevel = 0"
| "level_num WarnLevel = 1"
| "level_num ErrorLevel = 2"
| "level_num DPanicLevel = 3"
| "level_num PanicLevel = 4"
| "level_num FatalLevel = 5"

record log_entry =
  le_level :: Level
  le_msg :: string
  le_fields :: "Field list"

definition entry :: "Level \<Rightarrow> string \<Rightarrow> Field list \<Rightarrow> log_entry" where
  "entry level msg fs = \<lparr>le_level = level, le_msg = msg, le_fields = fs\<rparr>"

section \<open>Typed records\<close>

definition log_HTTP :: "string \<Rightarrow> Field list \<Rightarrow> log_entry" where "log_HTTP msg fs = entry InfoLevel msg (TextF ''type'' ''HTTP'' # fs)"
definition log_HTTPDebug :: "string \<Rightarrow> Field list \<Rightarrow> log_entry" where "log_HTTPDebug msg fs = entry DebugLevel msg (TextF ''type'' ''HTTP'' # fs)"
definition log_HTTPWarn :: "string \<Rightarrow> Field list \<Rightarrow> log_entry" where "log_HTTPWarn msg fs = entry WarnLevel msg (TextF ''type'' ''HTTP'' # fs)"
definition log_HTTPError :: "string \<Rightarrow> Field list \<Rightarrow> log_entry" where "log_HTTPError msg fs = entry ErrorLevel msg (TextF ''type'' ''HTTP'' # fs)"
definition log_SQL :: "string \<Rightarrow> Field list \<Rightarrow> log_entry" where "log_SQL msg fs = entry InfoLevel msg (TextF ''type'' ''SQL'' # fs)"
definition log_SQLDebug :: "string \<Rightarrow> Field list \<Rightarrow> log_entry" where "log_SQLDebug msg fs = entry DebugLevel msg (TextF ''type'' ''SQL'' # fs)"
definition log_SQLWarn :: "string \<Rightarrow> Field list \<Rightarrow> log_entry" where "log_SQLWarn msg fs = entry WarnLevel msg (TextF ''type'' ''SQL'' # fs)"
definition log_SQLError :: "string \<Rightarrow> Field list \<Rightarrow> log_entry" where "log_SQLError msg fs = entry ErrorLevel msg (TextF ''type'' ''SQL'' # fs)"
definition log_GRPC :: "string \<Rightarrow> Field list \<Rightarrow> log_entry" where "log_GRPC msg fs = entry InfoLevel msg (TextF ''type'' ''GRPC'' # fs)"
definition log_GRPCDebug :: "string \<Rightarrow> Field list \<Rightarrow> log_entry" where "log_GRPCDebug msg fs = entry DebugLevel msg (TextF ''type'' ''GRPC'' # fs)"
definition log_GRPCWarn :: "string \<Rightarrow> Field list \<Rightarrow> log_entry" where "log_GRPCWarn msg fs = entry WarnLevel msg (TextF ''type'' ''GRPC'' # fs)"
definition log_GRPCError :: "string \<Rightarrow> Field list \<Rightarrow> log_entry" where "log_GRPCError msg fs = entry ErrorLevel msg (TextF ''type'' ''GRPC'' # fs)"
definition log_Redis :: "string \<Rightarrow> Field list \<Rightarrow> log_entry" where "log_Redis msg fs = entry InfoLevel msg (TextF ''type'' ''Redis'' # fs)"
definition log_RedisDebug :: "string \<Rightarrow> Field list \<Rightarrow> log_entry" where "log_RedisDebug msg fs = entry DebugLevel msg (TextF ''type'' ''Redis'' # fs)"
definition log_RedisWarn :: "string \<Rightarrow> Field list \<Rightarrow> log_entry" where "log_RedisWarn msg fs = entry WarnLevel msg (TextF ''type'' ''Redis'' # fs)"
definition log_RedisError :: "string \<Rightarrow> Field list \<Rightarrow> log_entry" where "log_RedisError msg fs = entry ErrorLevel msg (TextF ''type'' ''Redis'' # fs)"
definition log_MQ :: "string \<Rightarrow> Field list \<Rightarrow> log_entry" where "log_MQ msg fs = entry InfoLevel msg (TextF ''type'' ''MQ'' # fs)"
definition log_MQDebug :: "string \<Rightarrow> Field list \<Rightarrow> log_entry" where "log_MQDebug msg fs = entry DebugLevel msg (TextF ''type'' ''MQ'' # fs)"
definition log_MQWarn :: "string \<Rightarrow> Field list \<Rightarrow> log_entry" where "log_MQWarn msg fs = entry WarnLevel msg (TextF ''type'' ''MQ'' # fs)"
definition log_MQError :: "string \<Rightarrow> Field list \<Rightarrow> log_entry" where "log_MQError msg fs = entry ErrorLevel msg (TextF ''type'' ''MQ'' # fs)"
definition log_Cache :: "string \<Rightarrow> Field list \<Rightarrow> log_entry" where "log_Cache msg fs = entry InfoLevel msg (TextF ''type'' ''Cache'' # fs)"
definition log_CacheDebug :: "string \<Rightarrow> Field list \<Rightarrow> log_entry" where "log_CacheDebug msg fs = entry DebugLevel msg (TextF ''type'' ''Cache'' # fs)"
definition log_CacheWarn :: "string \<Rightarrow> Field list \<Rightarrow> log_entry" where "log_CacheWarn msg fs = entry WarnLevel msg (TextF ''type'' ''Cache'' # fs)"
definition log_CacheError :: "string \<Rightarrow> Field list \<Rightarrow> log_entry" where "log_CacheError msg fs = entry ErrorLevel msg (TextF ''type'' ''Cache'' # fs)"
definition log_RPC :: "string \<Rightarrow> Field list \<Rightarrow> log_entry" where "log_RPC msg fs = entry InfoLevel msg (TextF ''type'' ''RPC'' # fs)"
definition log_RPCDebug :: "string \<Rightarrow> Field list \<Rightarrow> log_entry" where "log_RPCDebug msg fs = entry DebugLevel msg (TextF ''type'' ''RPC'' # fs)"
definition log_RPCWarn :: "string \<Rightarrow> Field list \<Rightarrow> log_entry" where "log_RPCWarn msg fs = entry WarnLevel msg (TextF ''type'' ''RPC'' # fs)"
definition log_RPCError :: "string \<Rightarrow> Field list \<Rightarrow> log_entry" where "log_RPCError msg fs = entry ErrorLevel msg (TextF ''type'' ''RPC'' # fs)"
definition log_Mongo :: "string \<Rightarrow> Field list \<Rightarrow> log_entry" where "log_Mongo msg fs = entry InfoLevel msg (TextF ''type'' ''MongoDB'' # fs)"
definition log_MongoDebug :: "string \<Rightarrow> Field list \<Rightarrow> log_entry" where "log_MongoDebug msg fs = entry DebugLevel msg (TextF ''type'' ''MongoDB'' # fs)"
definition log_MongoWarn :: "string \<Rightarrow> Field list \<Rightarrow> log_entry" where "log_MongoWarn msg fs = entry WarnLevel msg (TextF ''type'' ''MongoDB'' # fs)"
definition log_MongoError :: "string \<Rightarrow> Field list \<Rightarrow> log_entry" where "log_MongoError msg fs = entry ErrorLevel msg (TextF ''type'' ''MongoDB'' # fs)"

lemmas typed_defs =
  log_HTTP_def log_HTTPDebug_def log_HTTPWarn_def log_HTTPError_def
  log_SQL_def log_SQLDebug_def log_SQLWarn_def log_SQLError_def
  log_GRPC_def log_GRPCDebug_def log_GRPCWarn_def log_GRPCError_def
  log_Redis_def log_RedisDebug_def log_RedisWarn_def log_RedisError_def
  log_MQ_def log_MQDebug_def log_MQWarn_def log_MQError_def
  log_Cache_def log_CacheDebug_def log_CacheWarn_def log_CacheError_def
  log_RPC_def log_RPCDebug_def log_RPCWarn_def log_RPCError_def
  log_Mongo_def log_MongoDebug_def log_MongoWarn_def log_MongoError_def
  entry_def

section \<open>Key-value pairs\<close>

datatype arg = ArgField Field | ArgText string | ArgOther string

text \<open>Any value under a key is shown as its text.\<close>

fun arg_text :: "arg \<Rightarrow> string" where
  "arg_text (ArgField f) = field_key f"
| "arg_text (ArgText s) = s"
| "arg_text (ArgOther s) = s"

text \<open>
  \<open>handleFields\<close>: the fields of alternating keys and values, and the complaint that stops it.
\<close>

datatype complaint = TypedField Field | OddNumber arg | NonStringKey arg

fun sweeten :: "arg list \<Rightarrow> Field list \<times> complaint option" where
  "sweeten [] = ([], None)"
| "sweeten (ArgField f # args) = ([], Some (TypedField f))"
| "sweeten [a] = ([], Some (OddNumber a))"
| "sweeten (ArgOther k # v # args) = ([], Some (NonStringKey (ArgOther k)))"
| "sweeten (ArgText k # v # args) = (case sweeten args of (fs, c) \<Rightarrow> (AnyF k (arg_text v) # fs, c))"

definition handleFields :: "arg list \<Rightarrow> Field list \<Rightarrow> Field list \<times> complaint option" where
  "handleFields args additional =
     (if args = [] then (additional, None)
      else case sweeten args of (fs, c) \<Rightarrow> (fs @ additional, c))"

section \<open>Contexts\<close>

record log_ctx =
  lc_trace :: "string option"
  lc_span :: "string option"
  lc_request :: "string option"
  lc_requestID :: "string option"
  lc_username :: "string option"
  lc_watcher :: "string option"

definition Background :: log_ctx where
  "Background = \<lparr>lc_trace = None, lc_span = None, lc_request = None, lc_requestID = None, lc_username = None,
     lc_watcher = None\<rparr>"

definition text_or_empty :: "string option \<Rightarrow> string" where
  "text_or_empty v = (case v of None \<Rightarrow> [] | Some s \<Rightarrow> s)"

definition ExtractTraceID :: "log_ctx option \<Rightarrow> string" where
  "ExtractTraceID ctx = (case ctx of None \<Rightarrow> [] | Some c \<Rightarrow> text_or_empty (lc_trace c))"

definition ExtractSpanID :: "log_ctx option \<Rightarrow> string" where
  "ExtractSpanID ctx = (case ctx of None \<Rightarrow> [] | Some c \<Rightarrow> text_or_empty (lc_span c))"

definition ExtractRequestID :: "log_ctx option \<Rightarrow> string" where
  "ExtractRequestID ctx = (case ctx of None \<Rightarrow> [] | Some c \<Rightarrow> text_or_empty (lc_request c))"

definition TraceID :: "log_ctx option \<Rightarrow> Field" where
  "TraceID ctx = (if ExtractTraceID ctx = [] then SkipF else TextF ''trace_id'' (ExtractTraceID ctx))"

definition SpanID :: "log_ctx option \<Rightarrow> Field" where
  "SpanID ctx = (if ExtractSpanID ctx = [] then SkipF else TextF ''span_id'' (ExtractSpanID ctx))"

definition RequestID :: "log_ctx option \<Rightarrow> Field" where
  "RequestID ctx = (if ExtractRequestID ctx = [] then SkipF else TextF ''request_id'' (ExtractRequestID ctx))"

definition TraceFields :: "log_ctx option \<Rightarrow> Field list" where
  "TraceFields ctx =
     (if ExtractTraceID ctx \<noteq> [] then [TextF ''trace_id'' (ExtractTraceID ctx)] else [])
     @ (if ExtractSpanID ctx \<noteq> [] then [TextF ''span_id'' (ExtractSpanID ctx)] else [])
     @ (if ExtractRequestID ctx \<noteq> [] then [TextF ''request_id'' (ExtractRequestID ctx)] else [])"

definition WithTraceID :: "log_ctx \<Rightarrow> string \<Rightarrow> log_ctx" where "WithTraceID ctx i = ctx\<lparr>lc_trace := Some i\<rparr>"
definition WithSpanID :: "log_ctx \<Rightarrow> string \<Rightarrow> log_ctx" where "WithSpanID ctx i = ctx\<lparr>lc_span := Some i\<rparr>"
definition WithRequestID :: "log_ctx \<Rightarrow> string \<Rightarrow> log_ctx" where "WithRequestID ctx i = ctx\<lparr>lc_request := Some i\<rparr>"

definition WithTraceContext :: "log_ctx \<Rightarrow> string \<Rightarrow> string \<Rightarrow> string \<Rightarrow> log_ctx" where
  "WithTraceContext ctx traceID spanID requestID =
     (let ctx = WithSpanID (WithTraceID ctx traceID) spanID
      in if requestID \<noteq> [] then WithRequestID ctx requestID else ctx)"

definition InfoContext :: "log_ctx option \<Rightarrow> string \<Rightarrow> Field list \<Rightarrow> log_entry" where
  "InfoContext ctx msg fs = entry InfoLevel msg (TraceFields ctx @ fs)"
definition DebugContext :: "log_ctx option \<Rightarrow> string \<Rightarrow> Field list \<Rightarrow> log_entry" where
  "DebugContext ctx msg fs = entry DebugLevel msg (TraceFields ctx @ fs)"
definition WarnContext :: "log_ctx option \<Rightarrow> string \<Rightarrow> Field list \<Rightarrow> log_entry" where
  "WarnContext ctx msg fs = entry WarnLevel msg (TraceFields ctx @ fs)"
definition ErrorContext :: "log_ctx option \<Rightarrow> string \<Rightarrow> Field list \<Rightarrow> log_entry" where
  "ErrorContext ctx msg fs = entry ErrorLevel msg (TraceFields ctx @ fs)"

text \<open>The fields \<open>L\<close> adds for the values it finds in the context, under keys of its own.\<close>

definition L_fields :: "log_ctx \<Rightarrow> Field list" where
  "L_fields ctx =
     (case lc_requestID ctx of None \<Rightarrow> [] | Some v \<Rightarrow> [AnyF ''requestID'' v])
     @ (case lc_username ctx of None \<Rightarrow> [] | Some v \<Rightarrow> [AnyF ''username'' v])
     @ (case lc_watcher ctx of None \<Rightarrow> [] | Some v \<Rightarrow> [AnyF ''watcher'' v])"

section \<open>The tracing middleware\<close>

record http_response =
  hr_headers :: "string \<rightharpoonup> string"
  hr_status :: int

text \<open>
  \<open>next\<close> is the wrapped handler: it is given the context and the response and answers the
  response, and whether it returned or panicked. \<open>ids\<close> are the generated trace, span and
  request identifiers. The two messages, Chinese in the code, are named \<open>start\<close> and \<open>done\<close>.
\<close>

definition HTTPTracingMiddleware ::
    "(log_ctx \<Rightarrow> http_response \<Rightarrow> 's \<Rightarrow> bool \<times> http_response \<times> 's) \<Rightarrow> string \<times> string \<times> string \<Rightarrow> duration
     \<Rightarrow> (string \<Rightarrow> string) \<Rightarrow> string \<times> string \<times> string \<Rightarrow> log_ctx \<Rightarrow> http_response \<Rightarrow> 's
     \<Rightarrow> bool \<times> http_response \<times> log_entry list \<times> 's" where
  "HTTPTracingMiddleware next_h ids elapsed header request ctx w s =
     (case (ids, request) of ((new_trace, new_span, new_request), (meth, path, addr)) \<Rightarrow>
      let traceID = (if header ''X-Trace-Id'' = [] then new_trace else header ''X-Trace-Id'');
          spanID = new_span;
          requestID = (if header ''X-Request-Id'' = [] then new_request else header ''X-Request-Id'');
          ctx1 = WithTraceContext ctx traceID spanID requestID;
          w1 = w\<lparr>hr_headers := (hr_headers w)(''X-Trace-Id'' \<mapsto> traceID, ''X-Request-Id'' \<mapsto> requestID), hr_status := 200\<rparr>;
          started = InfoContext (Some ctx1) ''start'' [TextF ''method'' meth, TextF ''path'' path, TextF ''remote_addr'' addr]
      in case next_h ctx1 w1 s of
           (returned, w2, s') \<Rightarrow>
             if returned then
               (True, w2, [started, InfoContext (Some ctx1) ''done'' [TextF ''method'' meth, TextF ''path'' path,
                  IntF ''status_code'' (hr_status w2), DurationF ''duration'' elapsed]], s')
             else (False, w2, [started], s'))"

definition ExtractTraceFromContext :: "log_ctx option \<Rightarrow> string \<times> string \<times> string" where
  "ExtractTraceFromContext ctx = (ExtractTraceID ctx, ExtractSpanID ctx, ExtractRequestID ctx)"

section \<open>Properties\<close>

lemma TraceFields_with:
  "ExtractTraceFromContext (Some (WithTraceContext ctx t sp r))
     = (t, sp, if r = [] then ExtractRequestID (Some ctx) else r)"
  by (simp add: ExtractTraceFromContext_def WithTraceContext_def WithTraceID_def WithSpanID_def WithRequestID_def
      ExtractTraceID_def ExtractSpanID_def ExtractRequestID_def text_or_empty_def Let_def)

text \<open>
  The middleware gives a request the identifiers of its headers, or new ones where they
  are missing; the handler, the two records and the response carry the same trace and request
  identifiers, and the last record the status of the response. A handler that panics has no
  last record.
\<close>
theorem requests_carry_their_trace:
  assumes "new_trace \<noteq> []" and "new_span \<noteq> []" and "new_request \<noteq> []"
    and "HTTPTracingMiddleware next_h (new_trace, new_span, new_request) elapsed header (meth, path, addr) ctx w s
      = (returned, w2, es, s')"
  defines "t \<equiv> (if header ''X-Trace-Id'' = [] then new_trace else header ''X-Trace-Id'')"
    and "r \<equiv> (if header ''X-Request-Id'' = [] then new_request else header ''X-Request-Id'')"
  shows "\<exists>ctx1 w1. next_h ctx1 w1 s = (returned, w2, s')
    \<and> ExtractTraceFromContext (Some ctx1) = (t, new_span, r)
    \<and> hr_headers w1 ''X-Trace-Id'' = Some t \<and> hr_headers w1 ''X-Request-Id'' = Some r
    \<and> length es = (if returned then 2 else 1)
    \<and> list_all (\<lambda>e. TextF ''trace_id'' t \<in> set (le_fields e) \<and> TextF ''request_id'' r \<in> set (le_fields e)) es
    \<and> (returned \<longrightarrow> IntF ''status_code'' (hr_status w2) \<in> set (le_fields (last es)))"
proof -
  let ?ctx1 = "WithTraceContext ctx t new_span r"
  let ?w1 = "w\<lparr>hr_headers := (hr_headers w)(''X-Trace-Id'' \<mapsto> t, ''X-Request-Id'' \<mapsto> r), hr_status := 200\<rparr>"
  have nonempty: "t \<noteq> []" "r \<noteq> []" using assms(1,3) by (simp_all add: t_def r_def)
  from TraceFields_with [of ctx t new_span r] nonempty
  have ids: "ExtractTraceFromContext (Some ?ctx1) = (t, new_span, r)" by simp
  then have fields: "TextF ''trace_id'' t \<in> set (TraceFields (Some ?ctx1))" "TextF ''request_id'' r \<in> set (TraceFields (Some ?ctx1))"
    using nonempty by (simp_all add: TraceFields_def ExtractTraceFromContext_def)
  obtain b w' u where step: "next_h ?ctx1 ?w1 s = (b, w', u)" by (metis prod_cases3)
  from assms(4) step have "returned = b" "w2 = w'" "s' = u"
    and es: "es = (let started = InfoContext (Some ?ctx1) ''start'' [TextF ''method'' meth, TextF ''path'' path, TextF ''remote_addr'' addr]
      in if b then [started, InfoContext (Some ?ctx1) ''done'' [TextF ''method'' meth, TextF ''path'' path,
                  IntF ''status_code'' (hr_status w'), DurationF ''duration'' elapsed]] else [started])"
    by (auto simp: HTTPTracingMiddleware_def t_def [symmetric] r_def [symmetric] Let_def split: if_splits)
  with step ids fields show ?thesis
    by (intro exI [of _ ?ctx1] exI [of _ ?w1]) (auto simp: InfoContext_def entry_def Let_def)
qed

lemma requests_carry_their_trace_witness:
  "\<exists>ctx1 w1. ExtractTraceFromContext (Some ctx1) = (''t1'', ''s1'', ''r1'') \<and> hr_headers (w1 :: http_response) ''X-Trace-Id'' = Some ''t1''"
proof -
  obtain returned w2 es s' where step: "HTTPTracingMiddleware (\<lambda>c w (u::unit). (True, w, u)) (''t0'', ''s1'', ''r1'') 5
      (\<lambda>h. if h = ''X-Trace-Id'' then ''t1'' else []) (''GET'', ''/'', ''h'') Background
      \<lparr>hr_headers = Map.empty, hr_status = 0\<rparr> () = (returned, w2, es, s')" by (metis prod_cases4)
  from requests_carry_their_trace [OF _ _ _ step] show ?thesis by (auto intro: exI [of _ w2])
qed

text \<open>
  Of alternating keys and values every pair becomes a field, in order, and nothing is
  complained about; an odd argument, a key that is no text or a typed field ends the fields at
  that place, and what came before and the additional fields are kept.
\<close>
theorem pairs_become_fields:
  assumes "sweeten bad = ([], Some c)"
  shows "handleFields (concat (map (\<lambda>(k, v). [ArgText k, v]) ps)) extra = (map (\<lambda>(k, v). AnyF k (arg_text v)) ps @ extra, None)
    \<and> handleFields (concat (map (\<lambda>(k, v). [ArgText k, v]) ps) @ bad) extra
        = (map (\<lambda>(k, v). AnyF k (arg_text v)) ps @ extra, Some c)"
proof -
  have pairs: "sweeten (concat (map (\<lambda>(k, v). [ArgText k, v]) ps) @ rest)
      = (case sweeten rest of (fs, c) \<Rightarrow> (map (\<lambda>(k, v). AnyF k (arg_text v)) ps @ fs, c))" for rest
  proof (induction ps)
    case (Cons p ps)
    then show ?case by (cases p) (simp split: prod.split)
  qed simp
  have "handleFields args extra = (case sweeten args of (fs, c) \<Rightarrow> (fs @ extra, c))" for args
    by (simp add: handleFields_def)
  with pairs [of "[]"] pairs [of bad] assms show ?thesis by simp
qed

lemma pairs_become_fields_witness:
  "handleFields [ArgText ''a'', ArgOther ''1'', ArgText ''b''] [] = ([AnyF ''a'' ''1''], Some (OddNumber (ArgText ''b'')))"
  using pairs_become_fields [of "[ArgText ''b'']" "OddNumber (ArgText ''b'')" "[(''a'', ArgOther ''1'')]" "[]"] by simp

end
