(* ===== verification/Log_Output.thy ===== *)
theory Log_Output
  imports Log_Fields
begin

text \<open>
  Where log records go: \<open>pkg/log/options.go\<close>, the logger's construction in \<open>log.go\<close> and
  \<open>rotation.go\<close>, and the writer that rotates files by date, \<open>time_rotation.go\<close>.

  The text of a level is read by zap, the argument \<open>parse\<close>. A core is what zap tees records
  to: a test of the level and the outputs behind it.
\<close>

section \<open>Options\<close>

record Options =
  OutputPaths :: "string list"
  ErrorOutputPaths :: "string list"
  lo_Level :: string
  Format :: string
  DisableCaller :: bool
  DisableStacktrace :: bool
  EnableColor :: bool
  Development :: bool
  lo_Name :: string
  MaxSize :: int
  MaxAge :: int
  MaxBackups :: int
  Compress :: bool
  EnableTimeRotation :: bool
  TimeRotationFormat :: string
  LevelOutputPaths :: "string \<rightharpoonup> string list"
  EnableLevelOutput :: bool
  LevelOutputMode :: string

definition consoleFormat :: string where "consoleFormat = ''console''"
definition jsonFormat :: string where "jsonFormat = ''json''"

definition NewOptions :: Options where
  "NewOptions = \<lparr>OutputPaths = [''stdout''], ErrorOutputPaths = [''stderr''], lo_Level = ''info'', Format = consoleFormat,
     DisableCaller = False, DisableStacktrace = False, EnableColor = False, Development = False, lo_Name = [],
     MaxSize = 100, MaxAge = 30, MaxBackups = 10, Compress = True, EnableTimeRotation = False,
     TimeRotationFormat = ''2006-01-02'', LevelOutputPaths = Map.empty, EnableLevelOutput = False,
     LevelOutputMode = ''duplicate''\<rparr>"

datatype option_error = BadLevel string | BadFormat string | BadMaxSize | BadMaxAge | BadMaxBackups

definition lo_Validate :: "(string \<Rightarrow> Level option) \<Rightarrow> Options \<Rightarrow> option_error list" where
  "lo_Validate parse opts =
     (if parse (lo_Level opts) = None then [BadLevel (lo_Level opts)] else [])
     @ (let format = to_lower (Format opts)
        in if format \<noteq> consoleFormat \<and> format \<noteq> jsonFormat then [BadFormat (Format opts)] else [])
     @ (if MaxSize opts \<le> 0 then [BadMaxSize] else [])
     @ (if MaxAge opts < 0 then [BadMaxAge] else [])
     @ (if MaxBackups opts < 0 then [BadMaxBackups] else [])"

section \<open>Cores\<close>

datatype sink = Stdout | Stderr | Lumberjack string | TimeRotated string

datatype encoder = JSONEncoder | ConsoleEncoder

record core =
  core_enabled :: "Level \<Rightarrow> bool"
  core_sinks :: "sink list"

definition at_least :: "Level \<Rightarrow> Level \<Rightarrow> bool" where "at_least level l \<longleftrightarrow> level_num level \<le> level_num l"

definition encoder_of :: "Options \<Rightarrow> encoder" where
  "encoder_of opts = (if Format opts = jsonFormat then JSONEncoder else ConsoleEncoder)"

text \<open>\<open>can_make\<close>: whether the directory of a file exists or can be made.\<close>

definition getLumberjackWriter :: "(string \<Rightarrow> bool) \<Rightarrow> string \<Rightarrow> sink" where
  "getLumberjackWriter can_make filename = (if \<not> can_make filename then Stderr else Lumberjack filename)"

definition getOutputPaths :: "(string \<Rightarrow> bool) \<Rightarrow> string list \<Rightarrow> sink list" where
  "getOutputPaths can_make paths =
     map (\<lambda>path. if path = ''stdout'' then Stdout else if path = ''stderr'' then Stderr
        else getLumberjackWriter can_make path) paths"

definition createWriteSyncer :: "(string \<Rightarrow> bool) \<Rightarrow> Options \<Rightarrow> string \<Rightarrow> sink" where
  "createWriteSyncer can_make opts path =
     (if path = ''stdout'' then Stdout else if path = ''stderr'' then Stderr
      else if EnableTimeRotation opts then TimeRotated path
      else getLumberjackWriter can_make path)"

text \<open>The core of one level of the configuration, if it names a level and has an output.\<close>

definition level_core ::
    "(string \<Rightarrow> Level option) \<Rightarrow> (string \<Rightarrow> bool) \<Rightarrow> Options \<Rightarrow> (Level \<Rightarrow> Level \<Rightarrow> bool) \<Rightarrow> string \<Rightarrow> core list" where
  "level_core parse can_make opts test levelStr =
     (case parse levelStr of
        None \<Rightarrow> []
      | Some level \<Rightarrow>
          let writers = map (createWriteSyncer can_make opts) (case LevelOutputPaths opts levelStr of None \<Rightarrow> [] | Some ps \<Rightarrow> ps)
          in if writers = [] then [] else [\<lparr>core_enabled = test level, core_sinks = writers\<rparr>])"

definition all_core :: "(string \<Rightarrow> bool) \<Rightarrow> Options \<Rightarrow> Level \<Rightarrow> core list" where
  "all_core can_make opts zapLevel =
     (case LevelOutputPaths opts ''all'' of
        None \<Rightarrow> []
      | Some paths \<Rightarrow>
          if paths = [] then []
          else [\<lparr>core_enabled = at_least zapLevel, core_sinks = map (createWriteSyncer can_make opts) paths\<rparr>])"

text \<open>\<open>order\<close> is the order in which the levels of the configuration are visited.\<close>

definition newLoggerWithLevelOutput ::
    "(string \<Rightarrow> Level option) \<Rightarrow> (string \<Rightarrow> bool) \<Rightarrow> string list \<Rightarrow> Options \<Rightarrow> Level \<Rightarrow> string + core list" where
  "newLoggerWithLevelOutput parse can_make order opts zapLevel =
     (let cores =
        (if LevelOutputMode opts = ''duplicate'' then
           all_core can_make opts zapLevel
           @ concat (map (\<lambda>levelStr. if levelStr = ''all'' then [] else level_core parse can_make opts (\<lambda>level l. l = level) levelStr) order)
         else
           concat (map (level_core parse can_make opts
             (if LevelOutputMode opts = ''exact'' then (\<lambda>level l. l = level) else at_least)) order))
      in if cores = [] then Inl ''no valid log output configured'' else Inr cores)"

definition newLoggerWithTimeRotation :: "Options \<Rightarrow> Level \<Rightarrow> string + core list" where
  "newLoggerWithTimeRotation opts zapLevel =
     (let writers = map (\<lambda>path. if path = ''stdout'' then Stdout else if path = ''stderr'' then Stderr else TimeRotated path)
          (OutputPaths opts)
      in if writers = [] then Inl ''no valid output paths configured''
         else Inr [\<lparr>core_enabled = at_least zapLevel, core_sinks = writers\<rparr>])"

definition outputs :: "core list \<Rightarrow> Level \<Rightarrow> sink list" where
  "outputs cores l = concat (map core_sinks (filter (\<lambda>c. core_enabled c l) cores))"

text \<open>
  How \<open>New\<close> makes its logger: from cores, or from zap's own configuration, which \<open>build\<close> may
  refuse; a refusal panics, the left of the sum.
\<close>

datatype backend = Cores encoder "core list" | ZapConfig string Level "string list" "string list"

definition log_level :: "(string \<Rightarrow> Level option) \<Rightarrow> Options \<Rightarrow> Level" where
  "log_level parse opts = (case parse (lo_Level opts) of None \<Rightarrow> InfoLevel | Some l \<Rightarrow> l)"

definition log_New ::
    "(string \<Rightarrow> Level option) \<Rightarrow> (string \<Rightarrow> bool) \<Rightarrow> (backend \<Rightarrow> string option) \<Rightarrow> string list \<Rightarrow> Options option
     \<Rightarrow> string + backend" where
  "log_New parse can_make build order opts =
     (let opts = (case opts of None \<Rightarrow> NewOptions | Some x \<Rightarrow> x); zapLevel = log_level parse opts in
      if EnableLevelOutput opts \<and> 0 < length order then
        (case newLoggerWithLevelOutput parse can_make order opts zapLevel of
           Inl err \<Rightarrow> Inl err | Inr cores \<Rightarrow> Inr (Cores (encoder_of opts) cores))
      else if EnableTimeRotation opts then
        (case newLoggerWithTimeRotation opts zapLevel of
           Inl err \<Rightarrow> Inl err | Inr cores \<Rightarrow> Inr (Cores (encoder_of opts) cores))
      else
        (let cfg = ZapConfig (Format opts) zapLevel (OutputPaths opts) (ErrorOutputPaths opts)
         in case build cfg of Some err \<Rightarrow> Inl err | None \<Rightarrow> Inr cfg))"

definition NewWithRotation :: "(string \<Rightarrow> Level option) \<Rightarrow> (string \<Rightarrow> bool) \<Rightarrow> Options option \<Rightarrow> backend" where
  "NewWithRotation parse can_make opts =
     (let opts = (case opts of None \<Rightarrow> NewOptions | Some x \<Rightarrow> x);
          outs = getOutputPaths can_make (OutputPaths opts);
          errs = getOutputPaths can_make (ErrorOutputPaths opts)
      in Cores JSONEncoder
           (\<lparr>core_enabled = at_least (log_level parse opts), core_sinks = outs\<rparr>
            # (if errs \<noteq> [] then [\<lparr>core_enabled = at_least ErrorLevel, core_sinks = errs\<rparr>] else [])))"

definition lo_Build ::
    "(string \<Rightarrow> Level option) \<Rightarrow> (string \<Rightarrow> bool) \<Rightarrow> (backend \<Rightarrow> string option) \<Rightarrow> Options \<Rightarrow> string + backend" where
  "lo_Build parse can_make build opts =
     (let is_file = (\<lambda>path. path \<noteq> ''stdout'' \<and> path \<noteq> ''stderr'');
          hasFileOutput = (list_ex is_file (OutputPaths opts) \<or> list_ex is_file (ErrorOutputPaths opts))
      in if hasFileOutput then Inr (NewWithRotation parse can_make (Some opts))
         else
           (let cfg = ZapConfig (Format opts) (log_level parse opts) (OutputPaths opts) (ErrorOutputPaths opts)
            in case build cfg of Some err \<Rightarrow> Inl err | None \<Rightarrow> Inr cfg))"

section \<open>Level texts\<close>

definition esc :: char where "esc = CHR 0x1B"

fun level_name :: "Level \<Rightarrow> string" where
  "level_name DebugLevel = ''DEBUG''" | "level_name InfoLevel = ''INFO''" | "level_name WarnLevel = ''WARN''"
| "level_name ErrorLevel = ''ERROR''" | "level_name DPanicLevel = ''DPANIC''" | "level_name PanicLevel = ''PANIC''"
| "level_name FatalLevel = ''FATAL''"

fun level_color :: "Level \<Rightarrow> string" where
  "level_color DebugLevel = esc # ''[36m''" | "level_color InfoLevel = esc # ''[32m''"
| "level_color WarnLevel = esc # ''[33m''" | "level_color _ = esc # ''[31m''"

definition customLevelEncoder :: "Level \<Rightarrow> string" where
  "customLevelEncoder l = level_color l @ ''['' @ level_name l @ '']'' @ (esc # ''[0m'')"

definition customLevelEncoderNoColor :: "Level \<Rightarrow> string" where
  "customLevelEncoderNoColor l = ''['' @ level_name l @ '']''"

section \<open>Properties of the outputs\<close>

lemma at_least_level: "at_least level l \<longleftrightarrow> level_num level \<le> level_num l"
  by (simp add: at_least_def)

definition configured :: "Options \<Rightarrow> string \<Rightarrow> string \<Rightarrow> bool" where
  "configured opts levelStr path \<longleftrightarrow> (\<exists>ps. LevelOutputPaths opts levelStr = Some ps \<and> path \<in> set ps)"

lemma level_core_outputs:
  "w \<in> set (outputs (level_core parse can_make opts test levelStr) l) \<longleftrightarrow>
     (\<exists>level path. parse levelStr = Some level \<and> test level l \<and> configured opts levelStr path
        \<and> w = createWriteSyncer can_make opts path)"
  by (cases "parse levelStr"; cases "LevelOutputPaths opts levelStr")
    (auto simp: level_core_def outputs_def configured_def)

lemma all_core_outputs:
  "w \<in> set (outputs (all_core can_make opts zapLevel) l) \<longleftrightarrow>
     (\<exists>path. at_least zapLevel l \<and> configured opts ''all'' path \<and> w = createWriteSyncer can_make opts path)"
  by (cases "LevelOutputPaths opts ''all''") (auto simp: all_core_def outputs_def configured_def)

lemma outputs_append: "outputs (xs @ ys) l = outputs xs l @ outputs ys l"
  by (simp add: outputs_def)

lemma outputs_concat: "set (outputs (concat (map f ks)) l) = (\<Union>k \<in> set ks. set (outputs (f k) l))"
  by (induction ks) (simp_all add: outputs_append, simp add: outputs_def)

text \<open>
  C38: Which outputs a record of level \<open>l\<close> reaches. In the mode \<open>duplicate\<close> those of \<open>all\<close> from
  the configured least level on, and those of exactly its own level; in the mode \<open>exact\<close> those
  of its level and otherwise those of its level and below, whatever the configured least level
  is. So the file for errors has no panic and no fatal record unless the mode is \<open>above\<close>.
\<close>
theorem records_reach_their_outputs:
  assumes "enumerates order (LevelOutputPaths opts)"
    and "newLoggerWithLevelOutput parse can_make order opts zapLevel = Inr cores"
  shows "w \<in> set (outputs cores l) \<longleftrightarrow>
    (if LevelOutputMode opts = ''duplicate'' then
       (\<exists>path. w = createWriteSyncer can_make opts path \<and>
          (configured opts ''all'' path \<and> at_least zapLevel l
           \<or> (\<exists>k. k \<noteq> ''all'' \<and> parse k = Some l \<and> configured opts k path)))
     else
       (\<exists>path k level. w = createWriteSyncer can_make opts path \<and> parse k = Some level \<and> configured opts k path
          \<and> (if LevelOutputMode opts = ''exact'' then l = level else at_least level l)))"
proof -
  have visited: "configured opts k path \<Longrightarrow> k \<in> set order" for k path
    using enumerates_set [OF assms(1)] by (auto simp: configured_def)
  show ?thesis
  proof (cases "LevelOutputMode opts = ''duplicate''")
    case True
    let ?one = "\<lambda>k. if k = ''all'' then [] else level_core parse can_make opts (\<lambda>level l. l = level) k"
    from assms(2) True have "cores = all_core can_make opts zapLevel @ concat (map ?one order)"
      by (auto simp: newLoggerWithLevelOutput_def Let_def split: if_splits)
    then have "w \<in> set (outputs cores l) \<longleftrightarrow> w \<in> set (outputs (all_core can_make opts zapLevel) l)
        \<or> (\<exists>k \<in> set order. w \<in> set (outputs (?one k) l))"
      by (simp add: outputs_append outputs_concat)
    also have "(\<exists>k \<in> set order. w \<in> set (outputs (?one k) l)) \<longleftrightarrow>
        (\<exists>k \<in> set order. k \<noteq> ''all'' \<and> w \<in> set (outputs (level_core parse can_make opts (\<lambda>level l. l = level) k) l))"
      by (auto simp: outputs_def split: if_splits)
    finally show ?thesis
      unfolding level_core_outputs all_core_outputs using True visited by auto
  next
    case False
    let ?test = "if LevelOutputMode opts = ''exact'' then (\<lambda>level l. l = level) else at_least"
    from assms(2) False have "cores = concat (map (level_core parse can_make opts ?test) order)"
      by (simp add: newLoggerWithLevelOutput_def Let_def split: if_splits)
    then have "w \<in> set (outputs cores l) \<longleftrightarrow> (\<exists>k \<in> set order. w \<in> set (outputs (level_core parse can_make opts ?test k) l))"
      by (simp add: outputs_concat)
    then show ?thesis
      unfolding level_core_outputs using False visited by (auto split: if_splits)
  qed
qed

definition sample_parse :: "string \<Rightarrow> Level option" where
  "sample_parse s = (if s = ''info'' then Some InfoLevel else if s = ''error'' then Some ErrorLevel else None)"

definition split_options :: Options where
  "split_options = NewOptions\<lparr>EnableLevelOutput := True, LevelOutputPaths := [''all'' \<mapsto> [''app.log''], ''error'' \<mapsto> [''error.log'']]\<rparr>"

lemma records_reach_their_outputs_witness:
  "\<exists>cores. newLoggerWithLevelOutput sample_parse (\<lambda>_. True) [''all'', ''error''] split_options InfoLevel = Inr cores
     \<and> Lumberjack ''error.log'' \<in> set (outputs cores ErrorLevel) \<and> Lumberjack ''error.log'' \<notin> set (outputs cores FatalLevel)"
proof -
  have order: "enumerates [''all'', ''error''] (LevelOutputPaths split_options)"
    by (auto simp: enumerates_def split_options_def)
  obtain cores where cores: "newLoggerWithLevelOutput sample_parse (\<lambda>_. True) [''all'', ''error''] split_options InfoLevel = Inr cores"
    by (simp add: newLoggerWithLevelOutput_def all_core_def split_options_def NewOptions_def)
  note reach = records_reach_their_outputs [OF order cores, where w = "Lumberjack ''error.log''"]
  have "LevelOutputMode split_options = ''duplicate''" by (simp add: split_options_def NewOptions_def)
  moreover have "createWriteSyncer (\<lambda>_. True) split_options p = Lumberjack ''error.log'' \<longleftrightarrow> p = ''error.log''" for p
    by (simp add: createWriteSyncer_def split_options_def NewOptions_def getLumberjackWriter_def)
  moreover have "configured split_options k p \<longleftrightarrow> (k = ''all'' \<and> p = ''app.log'') \<or> (k = ''error'' \<and> p = ''error.log'')" for k p
    by (auto simp: configured_def split_options_def)
  ultimately show ?thesis using cores reach [of ErrorLevel] reach [of FatalLevel]
    by (auto simp: sample_parse_def eq_commute [of "Lumberjack _"])
qed

text \<open>
  Options that pass the validation may still not do what they say: a format in capitals is
  valid but encoded as console text, or refused by zap and then a panic; and the logger that
  rotates files encodes as JSON whatever the format is.
\<close>
theorem valid_format_is_not_used:
  assumes "parse ''info'' = Some InfoLevel" and "build (ZapConfig ''JSON'' InfoLevel [''stdout''] [''stderr'']) = Some err"
  shows "lo_Validate parse (NewOptions\<lparr>Format := ''JSON''\<rparr>) = []
    \<and> encoder_of (NewOptions\<lparr>Format := ''JSON''\<rparr>) = ConsoleEncoder
    \<and> log_New parse can_make build [] (Some (NewOptions\<lparr>Format := ''JSON''\<rparr>)) = Inl err
    \<and> (\<exists>cores. NewWithRotation parse can_make opts = Cores JSONEncoder cores)"
proof -
  have "to_lower ''JSON'' = ''json''" by code_simp
  with assms show ?thesis
    by (simp add: lo_Validate_def NewOptions_def encoder_of_def log_New_def log_level_def jsonFormat_def consoleFormat_def
        NewWithRotation_def Let_def)
qed

lemma valid_format_is_not_used_witness:
  "lo_Validate sample_parse (NewOptions\<lparr>Format := ''JSON''\<rparr>) = []"
  using valid_format_is_not_used [of sample_parse "\<lambda>_. Some ''unregistered''"] by (simp add: sample_parse_def)

section \<open>Rotating by date\<close>

text \<open>The files: closing, making the directory, opening for append and writing, on a world \<open>'w\<close>.\<close>

record 'w files =
  fs_Close :: "nat \<Rightarrow> 'w \<Rightarrow> string option \<times> 'w"
  fs_MkdirAll :: "string \<Rightarrow> 'w \<Rightarrow> string option \<times> 'w"
  fs_OpenFile :: "string \<Rightarrow> 'w \<Rightarrow> (string + nat) \<times> 'w"
  fs_Write :: "nat \<Rightarrow> string \<Rightarrow> 'w \<Rightarrow> (string + nat) \<times> 'w"
  fs_Sync :: "nat \<Rightarrow> 'w \<Rightarrow> string option \<times> 'w"

record rotation_writer =
  rw_filename :: string
  rw_timeFormat :: string
  rw_currentDate :: string
  rw_currentFile :: "nat option"
  rw_maxAge :: int

definition NewTimeRotationWriter :: "string \<Rightarrow> string \<Rightarrow> int \<Rightarrow> rotation_writer" where
  "NewTimeRotationWriter filename timeFormat maxAge = \<lparr>rw_filename = filename, rw_timeFormat = timeFormat,
     rw_currentDate = [], rw_currentFile = None, rw_maxAge = maxAge\<rparr>"

text \<open>\<open>filepath.Ext\<close>: from the last dot of the last element on; and the rest of the name.\<close>

definition file_ext :: "string \<Rightarrow> string" where
  "file_ext path =
     (let tail = takeWhile (\<lambda>c. c \<noteq> CHR ''.'' \<and> c \<noteq> CHR ''/'') (rev path); rest = drop (length tail) (rev path)
      in case rest of c # _ \<Rightarrow> if c = CHR ''.'' then CHR ''.'' # rev tail else [] | [] \<Rightarrow> [])"

definition rotated_name :: "string \<Rightarrow> string \<Rightarrow> string" where
  "rotated_name filename newDate =
     (let ext = file_ext filename; base = take (length filename - length ext) filename
      in base @ ''.'' @ newDate @ ext)"

definition rotate :: "'w files \<Rightarrow> (string \<Rightarrow> string) \<Rightarrow> string \<Rightarrow> rotation_writer \<Rightarrow> 'w \<Rightarrow> string option \<times> rotation_writer \<times> 'w" where
  "rotate fs dir newDate w s =
     (case (case rw_currentFile w of None \<Rightarrow> (None, s) | Some f \<Rightarrow> fs_Close fs f s) of
        (Some err, s1) \<Rightarrow> (Some err, w, s1)
      | (None, s1) \<Rightarrow>
          (case fs_MkdirAll fs (dir (rw_filename w)) s1 of
             (Some err, s2) \<Rightarrow> (Some err, w, s2)
           | (None, s2) \<Rightarrow>
               (case fs_OpenFile fs (rotated_name (rw_filename w) newDate) s2 of
                  (Inl err, s3) \<Rightarrow> (Some err, w, s3)
                | (Inr f, s3) \<Rightarrow> (None, w\<lparr>rw_currentFile := Some f, rw_currentDate := newDate\<rparr>, s3))))"

text \<open>\<open>today\<close> is the formatted date of the call.\<close>

definition rotation_Write ::
    "'w files \<Rightarrow> (string \<Rightarrow> string) \<Rightarrow> string \<Rightarrow> string \<Rightarrow> rotation_writer \<Rightarrow> 'w \<Rightarrow> (string + nat) \<times> rotation_writer \<times> 'w" where
  "rotation_Write fs dir today p w s =
     (case (if rw_currentFile w = None \<or> rw_currentDate w \<noteq> today then rotate fs dir today w s else (None, w, s)) of
        (Some err, w1, s1) \<Rightarrow> (Inl err, w1, s1)
      | (None, w1, s1) \<Rightarrow> (case fs_Write fs (the (rw_currentFile w1)) p s1 of (r, s2) \<Rightarrow> (r, w1, s2)))"

definition rotation_Sync :: "'w files \<Rightarrow> rotation_writer \<Rightarrow> 'w \<Rightarrow> string option \<times> 'w" where
  "rotation_Sync fs w s = (case rw_currentFile w of None \<Rightarrow> (None, s) | Some f \<Rightarrow> fs_Sync fs f s)"

definition rotation_Close :: "'w files \<Rightarrow> rotation_writer \<Rightarrow> 'w \<Rightarrow> string option \<times> 'w" where
  "rotation_Close fs w s = (case rw_currentFile w of None \<Rightarrow> (None, s) | Some f \<Rightarrow> fs_Close fs f s)"

definition getCurrentFilename :: "(nat \<Rightarrow> string) \<Rightarrow> string \<Rightarrow> rotation_writer \<Rightarrow> string" where
  "getCurrentFilename name today w =
     (case rw_currentFile w of Some f \<Rightarrow> name f | None \<Rightarrow> rotated_name (rw_filename w) today)"

record file_entry =
  fe_path :: string
  fe_is_dir :: bool
  fe_mod_time :: instant

text \<open>What the clean-up removes of the files below the directory of the log; \<open>base\<close> is \<open>filepath.Base\<close>.\<close>

definition cleanOldFiles :: "(string \<Rightarrow> string) \<Rightarrow> (instant \<Rightarrow> int \<Rightarrow> instant) \<Rightarrow> instant \<Rightarrow> rotation_writer \<Rightarrow> file_entry list \<Rightarrow> file_entry list" where
  "cleanOldFiles base add_days now w tree =
     (if rw_maxAge w \<le> 0 then []
      else
        (let ext = file_ext (rw_filename w);
             stem = base (take (length (rw_filename w) - length ext) (rw_filename w));
             cutoff = add_days now (- rw_maxAge w)
         in filter (\<lambda>f. \<not> fe_is_dir f \<and> has_prefix (base (fe_path f)) stem \<and> fe_mod_time f < cutoff) tree))"

text \<open>What the operating system promises of its files: \<open>opened\<close> are the open ones, \<open>name\<close> their names.\<close>

definition os_files :: "'w files \<Rightarrow> ('w \<Rightarrow> nat \<rightharpoonup> string) \<Rightarrow> bool" where
  "os_files fs opened \<longleftrightarrow>
     (\<forall>f s. opened s f = None \<longrightarrow> (\<exists>err. fs_Close fs f s = (Some err, s)))
     \<and> (\<forall>f s s' e. fs_Close fs f s = (e, s') \<longrightarrow> opened s' = (opened s)(f := None))
     \<and> (\<forall>d s. opened (snd (fs_MkdirAll fs d s)) = opened s)
     \<and> (\<forall>n s. case fs_OpenFile fs n s of (Inl e, s') \<Rightarrow> opened s' = opened s
          | (Inr f, s') \<Rightarrow> opened s f = None \<and> opened s' = (opened s)(f \<mapsto> n))
     \<and> (\<forall>f p s. opened (snd (fs_Write fs f p s)) = opened s)
     \<and> (\<forall>f p s. opened s f = None \<longrightarrow> (\<exists>err. fst (fs_Write fs f p s) = Inl err))"

lemma os_files_rules:
  assumes "os_files fs opened"
  shows "opened s f = None \<Longrightarrow> \<exists>err. fs_Close fs f s = (Some err, s)"
    "opened (snd (fs_Close fs f s)) = (opened s)(f := None)"
    "opened (snd (fs_MkdirAll fs d s)) = opened s"
    "case fs_OpenFile fs n s of (Inl e, s') \<Rightarrow> opened s' = opened s
       | (Inr f, s') \<Rightarrow> opened s f = None \<and> opened s' = (opened s)(f \<mapsto> n)"
    "opened (snd (fs_Write fs f p s)) = opened s"
    "opened s f = None \<Longrightarrow> \<exists>err. fst (fs_Write fs f p s) = Inl err"
  using assms unfolding os_files_def by (simp_all add: prod_eq_iff)


lemma os_OpenFile:
  fixes fs :: "'w files" and opened :: "'w \<Rightarrow> nat \<rightharpoonup> string" and n :: string
  assumes "os_files fs opened" and "fs_OpenFile fs n s = (r, s')"
  shows "case r of Inl e \<Rightarrow> opened s' = opened s | Inr f \<Rightarrow> opened s f = None \<and> opened s' = (opened s)(f \<mapsto> n)"
  using os_files_rules(4) [OF assms(1), where n = n and s = s] assms(2) by (cases r) simp_all

text \<open>The writer holds an open file of the name of its date, or none.\<close>

definition writer_inv :: "('w \<Rightarrow> nat \<rightharpoonup> string) \<Rightarrow> rotation_writer \<Rightarrow> 'w \<Rightarrow> bool" where
  "writer_inv opened w s \<longleftrightarrow>
     (case rw_currentFile w of None \<Rightarrow> True
      | Some f \<Rightarrow> opened s f = Some (rotated_name (rw_filename w) (rw_currentDate w)))"

text \<open>
  While a writer works, every write goes to the file of its date: when it succeeds, the
  file it was written to is open under the name of the day and the next write of the day goes
  to the same file without opening another.
\<close>
theorem writes_go_to_their_date:
  assumes "os_files fs opened" and "writer_inv opened w s"
    and "rotation_Write fs dir today p w s = (Inr n, w', s')"
  shows "writer_inv opened w' s' \<and> rw_currentDate w' = today
    \<and> (\<exists>f. rw_currentFile w' = Some f \<and> opened s' f = Some (rotated_name (rw_filename w) today)
        \<and> (\<forall>q t. rotation_Write fs dir today q w' t = (case fs_Write fs f q t of (r, t') \<Rightarrow> (r, w', t'))))"
proof -
  let ?fresh = "rw_currentFile w = None \<or> rw_currentDate w \<noteq> today"
  obtain e w1 s1 where step: "(if ?fresh then rotate fs dir today w s else (None, w, s)) = (e, w1, s1)"
    by (metis prod_cases3)
  from assms(3) step have e: "e = None" and w': "w' = w1" and s': "s' = snd (fs_Write fs (the (rw_currentFile w1)) p s1)"
    by (cases e; simp add: rotation_Write_def split: prod.splits)+
  have "\<exists>f. rw_currentFile w1 = Some f \<and> rw_currentDate w1 = today \<and> rw_filename w1 = rw_filename w
      \<and> opened s1 f = Some (rotated_name (rw_filename w) today)"
  proof (cases ?fresh)
    case False
    with step assms(2) show ?thesis by (auto simp: writer_inv_def)
  next
    case True
    with step e have "rotate fs dir today w s = (None, w1, s1)" by simp
    then obtain sa sb f where "fs_OpenFile fs (rotated_name (rw_filename w) today) sb = (Inr f, s1)"
      and "w1 = w\<lparr>rw_currentFile := Some f, rw_currentDate := today\<rparr>"
      by (auto simp: rotate_def split: prod.splits option.splits sum.splits)
    with os_OpenFile [OF assms(1)] show ?thesis by force
  qed
  then obtain f where f: "rw_currentFile w1 = Some f" "rw_currentDate w1 = today" "rw_filename w1 = rw_filename w"
    "opened s1 f = Some (rotated_name (rw_filename w) today)" by blast
  with w' s' os_files_rules(5) [OF assms(1), of f p s1] show ?thesis
    by (simp add: writer_inv_def rotation_Write_def)
qed

text \<open>The writes that follow, each with its date, and their results.\<close>

fun rotation_writes ::
    "'w files \<Rightarrow> (string \<Rightarrow> string) \<Rightarrow> (string \<times> string) list \<Rightarrow> rotation_writer \<Rightarrow> 'w \<Rightarrow> (string + nat) list" where
  "rotation_writes fs dir [] w s = []"
| "rotation_writes fs dir ((today, p) # rest) w s =
     (case rotation_Write fs dir today p w s of (r, w', s') \<Rightarrow> r # rotation_writes fs dir rest w' s')"

lemma closed_writer_fails:
  assumes "os_files fs opened" and "rw_currentFile w = Some f" and "opened s f = None"
  shows "\<exists>err s'. rotation_Write fs dir today p w s = (Inl err, w, s') \<and> opened s' f = None"
proof (cases "rw_currentDate w = today")
  case True
  obtain r s' where r: "fs_Write fs f p s = (r, s')" by force
  with os_files_rules(6) [OF assms(1,3), of p] os_files_rules(5) [OF assms(1), of f p s] assms(2,3) True show ?thesis
    by (auto simp: rotation_Write_def)
next
  case False
  from os_files_rules(1) [OF assms(1,3)] obtain err where "fs_Close fs f s = (Some err, s)" by blast
  with assms(2,3) False show ?thesis by (simp add: rotation_Write_def rotate_def)
qed

text \<open>
  A rotation that fails after it closed the old file is never made up for: the writer keeps
  the closed file, the next rotation stops at closing it again, and every later write fails, of
  whatever date, even when the directory and the files can be made again.
\<close>
theorem failed_rotation_is_for_ever:
  assumes "os_files fs opened" and "rw_currentFile w = Some f" and "rw_currentDate w \<noteq> today"
    and "fs_Close fs f s = (None, s1)" and "fs_MkdirAll fs (dir (rw_filename w)) s1 = (m, s2)"
    and "m \<noteq> None \<or> fs_OpenFile fs (rotated_name (rw_filename w) today) s2 = (Inl err, s3)"
  shows "list_all (\<lambda>r. \<exists>err. r = Inl err) (rotation_writes fs dir ((today, p) # later) w s)"
proof -
  have later: "opened t f = None \<Longrightarrow> list_all (\<lambda>r. \<exists>err. r = Inl err) (rotation_writes fs dir later w t)" for later t
  proof (induction later arbitrary: t)
    case (Cons x later)
    obtain d q where x: "x = (d, q)" by force
    from closed_writer_fails [OF assms(1,2) Cons.prems, of dir d q] obtain e t' where
      "rotation_Write fs dir d q w t = (Inl e, w, t')" "opened t' f = None" by blast
    with Cons.IH x show ?case by simp
  qed simp
  from os_files_rules(2) [OF assms(1), of f s] assms(4) have closed: "opened s1 f = None" by simp
  from os_files_rules(3) [OF assms(1), of "dir (rw_filename w)" s1] assms(5) closed have "opened s2 f = None" by simp
  moreover have "opened s3 f = None" if "fs_OpenFile fs (rotated_name (rw_filename w) today) s2 = (Inl err, s3)"
    using os_OpenFile [OF assms(1) that] \<open>opened s2 f = None\<close> by simp
  ultimately show ?thesis
    using assms(2-6) later by (cases m) (auto simp: rotation_Write_def rotate_def)
qed

text \<open>A disk with the open files, the next number, and whether files can be opened.\<close>

definition sample_disk :: "((nat \<rightharpoonup> string) \<times> nat \<times> bool) files" where
  "sample_disk = \<lparr>
     fs_Close = \<lambda>f (m, k, ok). (if m f = None then Some ''closed'' else None, m(f := None), k, ok),
     fs_MkdirAll = \<lambda>d s. (None, s),
     fs_OpenFile = \<lambda>n (m, k, ok). if ok \<and> m k = None then (Inr k, m(k \<mapsto> n), k + 1, ok) else (Inl ''full'', m, k, True),
     fs_Write = \<lambda>f p (m, k, ok). (if m f = None then Inl ''closed'' else Inr (length p), m, k, ok),
     fs_Sync = \<lambda>f s. (None, s)\<rparr>"

lemma sample_disk_files: "os_files sample_disk fst"
  by (auto simp: os_files_def sample_disk_def)

definition sample_writer :: rotation_writer where
  "sample_writer = \<lparr>rw_filename = ''app.log'', rw_timeFormat = ''2006-01-02'', rw_currentDate = ''2024-01-01'',
     rw_currentFile = Some 0, rw_maxAge = 7\<rparr>"

lemma writes_go_to_their_date_witness:
  "rw_currentDate (fst (snd (rotation_Write sample_disk (\<lambda>_. ''.'') ''2024-01-02'' ''x'' sample_writer
     ([0 \<mapsto> ''app.2024-01-01.log''], 1, True)))) = ''2024-01-02''"
proof -
  have name: "rotated_name ''app.log'' ''2024-01-01'' = ''app.2024-01-01.log''" by code_simp
  then have inv: "writer_inv fst sample_writer ([0 \<mapsto> ''app.2024-01-01.log''], 1, True)"
    by (simp add: writer_inv_def sample_writer_def)
  obtain w' s' where step: "rotation_Write sample_disk (\<lambda>_. ''.'') ''2024-01-02'' ''x'' sample_writer
      ([0 \<mapsto> ''app.2024-01-01.log''], 1, True) = (Inr 1, w', s')"
    by (simp add: rotation_Write_def rotate_def sample_writer_def sample_disk_def)
  from writes_go_to_their_date [OF sample_disk_files inv step] step show ?thesis by simp
qed

lemma failed_rotation_is_for_ever_witness:
  "list_all (\<lambda>r. \<exists>err. r = Inl err) (rotation_writes sample_disk (\<lambda>_. ''.'')
     [(''2024-01-02'', ''x''), (''2024-01-02'', ''y''), (''2024-01-03'', ''z'')] sample_writer
     ([0 \<mapsto> ''app.2024-01-01.log''], 1, False))"
  by (rule failed_rotation_is_for_ever [OF sample_disk_files, where f = 0 and m = None and err = "''full''"
      and ?s1.0 = "(Map.empty, 1, False)" and ?s2.0 = "(Map.empty, 1, False)" and ?s3.0 = "(Map.empty, 1, True)"])
    (simp_all add: sample_writer_def sample_disk_def)

text \<open>
  The clean-up removes only files that are older than the age that is kept, and none when
  no age is set; but it removes every such file below the directory whose name begins with the
  name of the log, whether it is one of the log's files or not.
\<close>
theorem clean_up_removes_what_begins_alike:
  assumes "rw_filename w = dirname @ ''/app.log''" and "0 < rw_maxAge w"
    and "base (dirname @ ''/app'') = ''app''" and "fe_mod_time f < add_days now (- rw_maxAge w)"
    and "f \<in> set tree" and "\<not> fe_is_dir f" and "base (fe_path f) = ''application.db''"
  shows "f \<in> set (cleanOldFiles base add_days now w tree)
    \<and> (\<forall>g \<in> set (cleanOldFiles base add_days now w tree). fe_mod_time g < add_days now (- rw_maxAge w))
    \<and> cleanOldFiles base add_days now (w\<lparr>rw_maxAge := 0\<rparr>) tree = []"
proof -
  have "file_ext (rw_filename w) = ''.log''" by (simp add: assms(1) file_ext_def)
  moreover have "has_prefix ''application.db'' ''app''" by code_simp
  ultimately show ?thesis using assms by (simp add: cleanOldFiles_def)
qed

lemma clean_up_removes_what_begins_alike_witness:
  "let f = \<lparr>fe_path = ''/d/sub/application.db'', fe_is_dir = False, fe_mod_time = 0\<rparr>
   in f \<in> set (cleanOldFiles (\<lambda>p. if p = ''/d/app'' then ''app'' else ''application.db'') (\<lambda>t d. t + d * 86400) 10000000
        (sample_writer\<lparr>rw_filename := ''/d/app.log''\<rparr>) [f])"
  using clean_up_removes_what_begins_alike [where w = "sample_writer\<lparr>rw_filename := ''/d/app.log''\<rparr>" and dirname = "''/d''"
      and base = "\<lambda>p. if p = ''/d/app'' then ''app'' else ''application.db''" and add_days = "\<lambda>t d. t + d * 86400"
      and now = 10000000 and f = "\<lparr>fe_path = ''/d/sub/application.db'', fe_is_dir = False, fe_mod_time = 0\<rparr>"
      and tree = "[\<lparr>fe_path = ''/d/sub/application.db'', fe_is_dir = False, fe_mod_time = 0\<rparr>]"]
  by (simp add: sample_writer_def)


section \<open>The logger\<close>

text \<open>A logger: the fields it adds and the levels its cores let through.\<close>

record zapLogger =
  zl_fields :: "Field list"
  zl_enabled :: "Level \<Rightarrow> bool"

definition zl_emit :: "zapLogger \<Rightarrow> Level \<Rightarrow> string \<Rightarrow> Field list \<Rightarrow> log_entry list" where
  "zl_emit l level msg fs = (if zl_enabled l level then [entry level msg (zl_fields l @ fs)] else [])"

definition zl_Debug :: "zapLogger \<Rightarrow> string \<Rightarrow> Field list \<Rightarrow> log_entry list" where "zl_Debug l = zl_emit l DebugLevel"
definition zl_Info :: "zapLogger \<Rightarrow> string \<Rightarrow> Field list \<Rightarrow> log_entry list" where "zl_Info l = zl_emit l InfoLevel"
definition zl_Warn :: "zapLogger \<Rightarrow> string \<Rightarrow> Field list \<Rightarrow> log_entry list" where "zl_Warn l = zl_emit l WarnLevel"
definition zl_Error :: "zapLogger \<Rightarrow> string \<Rightarrow> Field list \<Rightarrow> log_entry list" where "zl_Error l = zl_emit l ErrorLevel"

text \<open>\<open>V\<close>: a logger at one level, or the one that is always disabled.\<close>

datatype InfoLogger = NoopInfoLogger | LevelLogger Level zapLogger

definition V :: "zapLogger \<Rightarrow> Level \<Rightarrow> InfoLogger" where
  "V l level = (if zl_enabled l level then LevelLogger level l else NoopInfoLogger)"

fun info_Enabled :: "InfoLogger \<Rightarrow> bool" where
  "info_Enabled NoopInfoLogger = False"
| "info_Enabled (LevelLogger level l) = True"

fun info_Info :: "InfoLogger \<Rightarrow> string \<Rightarrow> Field list \<Rightarrow> log_entry list" where
  "info_Info NoopInfoLogger msg fs = []"
| "info_Info (LevelLogger level l) msg fs = zl_emit l level msg fs"

fun info_Infow :: "InfoLogger \<Rightarrow> string \<Rightarrow> arg list \<Rightarrow> log_entry list" where
  "info_Infow NoopInfoLogger msg kvs = []"
| "info_Infow (LevelLogger level l) msg kvs = zl_emit l level msg (fst (handleFields kvs []))"

definition WithValues :: "zapLogger \<Rightarrow> arg list \<Rightarrow> zapLogger" where
  "WithValues l kvs = l\<lparr>zl_fields := zl_fields l @ fst (handleFields kvs [])\<rparr>"

definition log_L :: "zapLogger \<Rightarrow> log_ctx \<Rightarrow> zapLogger" where
  "log_L l ctx = l\<lparr>zl_fields := zl_fields l @ L_fields ctx\<rparr>"

definition CheckIntLevel :: "zapLogger \<Rightarrow> int \<Rightarrow> bool" where
  "CheckIntLevel l level = zl_enabled l (if level < 5 then InfoLevel else DebugLevel)"

text \<open>
  A logger of a level writes exactly what the logger itself writes at that level, and is
  enabled exactly when that is not suppressed; values and context values are added to what a
  logger writes and leave the levels alone. The logger of a context knows nothing of the trace:
  it reads other keys than those the tracing writes.
\<close>
theorem level_loggers_agree:
  "info_Info (V l level) msg fs = zl_emit l level msg fs"
  "info_Enabled (V l level) \<longleftrightarrow> zl_enabled l level"
  "info_Infow (V l level) msg kvs = info_Info (V (WithValues l kvs) level) msg []"
  "V (WithValues (WithValues l kvs) []) level = V (WithValues l kvs) level"
  "log_L l (WithTraceContext Background t sp r) = l"
  by (simp_all add: V_def zl_emit_def WithValues_def handleFields_def log_L_def L_fields_def WithTraceContext_def
      WithTraceID_def WithSpanID_def WithRequestID_def Background_def Let_def)

end
