(* ===== verification/Database_Url.thy ===== *)
theory Database_Url
  imports Go_Prelude
begin

text \<open>
  How the drivers of \<open>pkg/database\<close> name what they connect to: the URL of
  \<open>MongoConfig.BuildURL\<close> (\<open>mongo.go\<close>), with the escapes of \<open>net/url\<close> it relies on, and the
  data source name of \<open>mysql.go\<close>.
\<close>

section \<open>Escapes of net/url\<close>

text \<open>The parts of a URL, each with its own characters that are written as they are.\<close>

datatype url_mode = EncPath | EncHost | EncUserPassword | EncQuery

definition url_alnum :: "char \<Rightarrow> bool" where
  "url_alnum c \<longleftrightarrow> (CHR ''a'' \<le> c \<and> c \<le> CHR ''z'') \<or> (CHR ''A'' \<le> c \<and> c \<le> CHR ''Z'') \<or> (CHR ''0'' \<le> c \<and> c \<le> CHR ''9'')"

definition should_escape :: "url_mode \<Rightarrow> char \<Rightarrow> bool" where
  "should_escape mode c =
     (if url_alnum c then False
      else if mode = EncHost \<and> c \<in> set ([CHR 0x22, CHR 0x27] @ ''!$&()*+,;=:[]<>'') then False
      else if c \<in> set ''-_.~'' then False
      else if c \<in> set ''$&+,/:;=?@'' then
        (case mode of
           EncPath \<Rightarrow> c = CHR ''?''
         | EncUserPassword \<Rightarrow> c \<in> set ''@/?:''
         | EncQuery \<Rightarrow> True
         | EncHost \<Rightarrow> True)
      else True)"

definition upper_hex :: "nat \<Rightarrow> char" where
  "upper_hex n = (if n < 10 then char_of (48 + n) else char_of (55 + n))"

definition hex_value :: "char \<Rightarrow> nat option" where
  "hex_value c =
     (let n = of_char c :: nat in
      if 48 \<le> n \<and> n \<le> 57 then Some (n - 48)
      else if 97 \<le> n \<and> n \<le> 102 then Some (n - 87)
      else if 65 \<le> n \<and> n \<le> 70 then Some (n - 55)
      else None)"

definition escape_char :: "url_mode \<Rightarrow> char \<Rightarrow> string" where
  "escape_char mode c =
     (if mode = EncQuery \<and> c = CHR '' '' then ''+''
      else if should_escape mode c then
        [CHR ''%'', upper_hex ((of_char c :: nat) div 16), upper_hex ((of_char c :: nat) mod 16)]
      else [c])"

definition url_escape :: "url_mode \<Rightarrow> string \<Rightarrow> string" where
  "url_escape mode s = concat (map (escape_char mode) s)"

text \<open>\<open>url.PathUnescape\<close>.\<close>

fun path_unescape :: "string \<Rightarrow> string option" where
  "path_unescape [] = Some []"
| "path_unescape (c # s) =
     (if c = CHR ''%'' then
        (case s of
           a # b # r \<Rightarrow>
             (case (hex_value a, hex_value b) of
                (Some x, Some y) \<Rightarrow> map_option (Cons (char_of (16 * x + y))) (path_unescape r)
              | _ \<Rightarrow> None)
         | _ \<Rightarrow> None)
      else map_option (Cons c) (path_unescape s))"

lemma hex_value_upper_hex: "n < 16 \<Longrightarrow> hex_value (upper_hex n) = Some n"
  by (auto simp: hex_value_def upper_hex_def Let_def)

lemma byte_div: "(of_char c :: nat) div 16 < 16"
proof -
  have "(of_char c :: nat) < 256" by simp
  then show ?thesis using less_mult_imp_div_less [of "of_char c" 16 16] by simp
qed

lemma unescape_escape_char:
  assumes "mode \<noteq> EncQuery"
  shows "path_unescape (escape_char mode c @ s) = map_option (Cons c) (path_unescape s)"
proof (cases "should_escape mode c")
  case True
  let ?n = "of_char c :: nat"
  have "?n div 16 < 16" "?n mod 16 < 16" using byte_div by simp_all
  moreover have "char_of (16 * (?n div 16) + ?n mod 16) = c" by (metis char_of_char mult_div_mod_eq)
  ultimately show ?thesis using True assms by (simp add: escape_char_def hex_value_upper_hex)
next
  case False
  then have "c \<noteq> CHR ''%''" by (auto simp: should_escape_def url_alnum_def less_eq_char_def split: if_splits)
  then show ?thesis using False assms by (simp add: escape_char_def)
qed

lemma unescape_escape:
  assumes "mode \<noteq> EncQuery"
  shows "path_unescape (url_escape mode s) = Some s"
  by (induction s) (simp_all add: url_escape_def unescape_escape_char [OF assms])

text \<open>A character that is escaped, neither a digit nor a letter, does not occur in an escaped text.\<close>

lemma upper_hex_alnum: "n < 16 \<Longrightarrow> url_alnum (upper_hex n)"
  by (auto simp: upper_hex_def url_alnum_def less_eq_char_def)

lemma escaped_absent:
  assumes "should_escape mode d" and "d \<noteq> CHR ''%''" and "mode \<noteq> EncQuery"
  shows "d \<notin> set (url_escape mode s)"
proof -
  have "\<not> url_alnum d" using assms(1) by (auto simp: should_escape_def)
  moreover note byte_div
  ultimately have "d \<notin> set (escape_char mode c)" for c
    using assms upper_hex_alnum [of "of_char c mod 16"] upper_hex_alnum [OF byte_div, of c] by (auto simp: escape_char_def)
  then show ?thesis by (auto simp: url_escape_def)
qed

section \<open>The URL of MongoDB\<close>

record MongoConfig =
  mc_URL :: string
  mc_Host :: string
  mc_Username :: string
  mc_Password :: string
  mc_Database :: string
  mc_ReplicaSet :: string
  mc_DirectConnection :: bool
  mc_UseSSL :: bool
  mc_SSLInsecureSkipVerify :: bool
  mc_SSLAllowInvalidHostnames :: bool
  mc_SSLCAFile :: string
  mc_SSLPEMKeyfile :: string
  mc_EnableLogger :: bool
  mc_SlowThreshold :: duration
  mc_LogCommandDetail :: bool
  mc_LogReplyDetail :: bool
  mc_LogStarted :: bool

text \<open>\<open>Values.Encode\<close>: the pairs by their keys.\<close>

definition encode_query :: "(string \<times> string) list \<Rightarrow> string" where
  "encode_query q =
     strings_Join (map (\<lambda>(k, v). url_escape EncQuery k @ ''='' @ url_escape EncQuery v) (sort_key fst q)) ''&''"

definition mongo_query :: "MongoConfig \<Rightarrow> (string \<times> string) list" where
  "mongo_query c =
     (if mc_ReplicaSet c \<noteq> [] then [(''replicaSet'', mc_ReplicaSet c)] else [])
     @ (if mc_DirectConnection c then [(''directConnection'', ''true'')] else [])
     @ (if mc_UseSSL c then [(''tls'', ''true'')] else [])
     @ (if mc_SSLInsecureSkipVerify c then [(''tlsInsecure'', ''true'')] else [])
     @ (if mc_SSLAllowInvalidHostnames c then [(''tlsAllowInvalidHostnames'', ''true'')] else [])"

definition user_text :: "MongoConfig \<Rightarrow> string" where
  "user_text c = url_escape EncUserPassword (mc_Username c)
     @ (if mc_Password c \<noteq> [] then '':'' @ url_escape EncUserPassword (mc_Password c) else [])"

definition user_info :: "MongoConfig \<Rightarrow> string" where
  "user_info c =
     (if mc_Username c = [] then [] else user_text c @ ''@'')"

definition BuildURL :: "MongoConfig option \<Rightarrow> string" where
  "BuildURL cfg =
     (case cfg of
        None \<Rightarrow> []
      | Some c \<Rightarrow>
          if mc_URL c \<noteq> [] then mc_URL c
          else if mc_Host c = [] then []
          else
            (let path = (if mc_Database c \<noteq> [] then ''/'' @ mc_Database c else []); query = encode_query (mongo_query c) in
             ''mongodb://'' @ user_info c @ url_escape EncHost (mc_Host c) @ url_escape EncPath path
               @ (if query \<noteq> [] then ''?'' @ query else [])))"

text \<open>
  How such a URL is read: the authority ends at the first slash or question mark, the user in
  it at the first at sign, the user's name at the first colon; each part is then unescaped.
\<close>

definition cut_at :: "char \<Rightarrow> string \<Rightarrow> string \<times> string option" where
  "cut_at d s =
     (takeWhile (\<lambda>c. c \<noteq> d) s, case dropWhile (\<lambda>c. c \<noteq> d) s of [] \<Rightarrow> None | _ # r \<Rightarrow> Some r)"

record url_parts =
  up_user :: "(string option \<times> string option option) option"
  up_host :: "string option"
  up_path :: "string option"

definition read_url :: "string \<Rightarrow> url_parts" where
  "read_url s =
     (let body = drop (length ''mongodb://'') s;
          authority = takeWhile (\<lambda>c. c \<noteq> CHR ''/'' \<and> c \<noteq> CHR ''?'') body;
          path = fst (cut_at CHR ''?'' (drop (length authority) body));
          (user, host) = (case cut_at CHR ''@'' authority of (a, None) \<Rightarrow> (None, a) | (a, Some b) \<Rightarrow> (Some a, b))
      in \<lparr>up_user = map_option (\<lambda>u. case cut_at CHR '':'' u of (a, b) \<Rightarrow> (path_unescape a, map_option path_unescape b)) user,
          up_host = path_unescape host, up_path = path_unescape (drop 1 path)\<rparr>)"

lemma cut_at_absent: "d \<notin> set s \<Longrightarrow> cut_at d s = (s, None)"
  by (induction s) (auto simp: cut_at_def split: list.splits)

lemma cut_at_present: "d \<notin> set a \<Longrightarrow> cut_at d (a @ d # b) = (a, Some b)"
  by (induction a) (auto simp: cut_at_def)

lemma set_user_info: "CHR ''/'' \<notin> set (user_info c)" "CHR ''?'' \<notin> set (user_info c)"
  using escaped_absent [of EncUserPassword "CHR ''/''"] escaped_absent [of EncUserPassword "CHR ''?''"]
  by (simp_all add: user_info_def user_text_def should_escape_def url_alnum_def less_eq_char_def)

lemma read_user:
  assumes "CHR ''@'' \<notin> set h"
  shows "(case cut_at CHR ''@'' (user_info c @ h) of (a, None) \<Rightarrow> (None, a) | (a, Some b) \<Rightarrow> (Some a, b))
    = (if mc_Username c = [] then (None, h) else (Some (user_text c), h))"
proof (cases "mc_Username c = []")
  case True
  then show ?thesis using assms by (simp add: user_info_def cut_at_absent)
next
  case False
  have "CHR ''@'' \<notin> set (user_text c)"
    using escaped_absent [of EncUserPassword "CHR ''@''"]
    by (simp add: user_text_def should_escape_def url_alnum_def less_eq_char_def)
  then have "cut_at CHR ''@'' (user_info c @ h) = (user_text c, Some h)" using False by (simp add: user_info_def cut_at_present)
  then show ?thesis using False by simp
qed


definition sample_mongo :: MongoConfig where
  "sample_mongo = \<lparr>mc_URL = [], mc_Host = ''db:27017'', mc_Username = ''app'', mc_Password = ''p@ss/w:rd'', mc_Database = ''qs'',
     mc_ReplicaSet = ''rs 0'', mc_DirectConnection = False, mc_UseSSL = True, mc_SSLInsecureSkipVerify = False,
     mc_SSLAllowInvalidHostnames = False, mc_SSLCAFile = [], mc_SSLPEMKeyfile = [], mc_EnableLogger = True,
     mc_SlowThreshold = 0, mc_LogCommandDetail = False, mc_LogReplyDetail = False, mc_LogStarted = False\<rparr>"

lemma sample_mongo_url:
  "BuildURL (Some sample_mongo) = ''mongodb://app:p%40ss%2Fw%3Ard@db:27017/qs?replicaSet=rs+0&tls=true''"
  by code_simp


text \<open>
  Which settings the URL has. One that is given explicitly is used as it is, and then no
  other setting is; without a host there is none. Verification of the server is given up only
  on request, and files of certificates are never named, so that a private authority or a
  client's certificate can not be used.
\<close>
theorem mongo_url_settings:
  "mc_URL c \<noteq> [] \<Longrightarrow> BuildURL (Some (c\<lparr>mc_Host := h, mc_Username := u, mc_Password := p, mc_UseSSL := t\<rparr>)) = mc_URL c"
  "mc_URL c = [] \<Longrightarrow> mc_Host c = [] \<Longrightarrow> BuildURL (Some c) = []"
  "(''tls'', v) \<in> set (mongo_query c) \<longleftrightarrow> mc_UseSSL c \<and> v = ''true''"
  "(''tlsInsecure'', v) \<in> set (mongo_query c) \<longleftrightarrow> mc_SSLInsecureSkipVerify c \<and> v = ''true''"
  "BuildURL (Some (c\<lparr>mc_SSLCAFile := ca, mc_SSLPEMKeyfile := key\<rparr>)) = BuildURL (Some c)"
  by (auto simp: BuildURL_def mongo_query_def user_info_def user_text_def Let_def)

lemma mongo_url_settings_witness: "BuildURL (Some (sample_mongo\<lparr>mc_Host := []\<rparr>)) = []"
  by (rule mongo_url_settings(2)) (simp_all add: sample_mongo_def)

section \<open>The data source name of MySQL\<close>

record MySQLConfig =
  my_Host :: string
  my_Username :: string
  my_Password :: string
  my_Database :: string
  my_MaxIdleConnections :: int
  my_MaxOpenConnections :: int
  my_MaxConnectionLifeTime :: duration

definition mysql_dsn :: "MySQLConfig \<Rightarrow> string" where
  "mysql_dsn c = my_Username c @ '':'' @ my_Password c @ ''@tcp('' @ my_Host c @ '')/'' @ my_Database c
     @ ''?charset=utf8&parseTime=true&loc=Local&multiStatements=true''"

text \<open>
  The data source name of MySQL is put together without escapes, so it does not tell its
  parts apart: a colon in the user's name may as well be in the password, and a database's name
  with a question mark is read as further parameters of the connection.
\<close>
theorem dsn_is_ambiguous:
  "mysql_dsn (c\<lparr>my_Username := u @ '':'' @ p, my_Password := q\<rparr>) = mysql_dsn (c\<lparr>my_Username := u, my_Password := p @ '':'' @ q\<rparr>)
   \<and> mysql_dsn (c\<lparr>my_Database := d @ ''?'' @ params\<rparr>)
     = my_Username c @ '':'' @ my_Password c @ ''@tcp('' @ my_Host c @ '')/'' @ d @ ''?'' @ params
       @ ''?charset=utf8&parseTime=true&loc=Local&multiStatements=true''"
  by (simp add: mysql_dsn_def)

end
