(* ===== verification/Logger_Request.thy ===== *)
theory Logger_Request
  imports Log_Output
begin

text \<open>
  The request loggers of \<open>pkg/logger\<close>: the logger a request carries (\<open>context.go\<close>,
  \<open>fields.go\<close>), the HTTP access log (\<open>http.go\<close>) and the gRPC logging interceptors (\<open>grpc.go\<close>).

  The records are the values the operations answer. JSON is read and written by the arguments
  \<open>unmarshal\<close> and \<open>marshal\<close>; a handler may read the request's body, which is part of the
  request it is given.
\<close>

section \<open>The request logger\<close>

record RequestLogger =
  rl_fields :: "Field list"

definition NewRequestLogger :: "log_ctx option \<Rightarrow> Field list \<Rightarrow> RequestLogger" where
  "NewRequestLogger ctx fs = \<lparr>rl_fields = TraceFields ctx @ fs\<rparr>"

text \<open>A context with the logger it may carry.\<close>

record req_ctx =
  rc_log :: log_ctx
  rc_logger :: "RequestLogger option"

definition WithLogger :: "req_ctx \<Rightarrow> RequestLogger \<Rightarrow> req_ctx" where "WithLogger ctx l = ctx\<lparr>rc_logger := Some l\<rparr>"

definition ctx_L :: "req_ctx \<Rightarrow> RequestLogger" where
  "ctx_L ctx = (case rc_logger ctx of Some l \<Rightarrow> l | None \<Rightarrow> NewRequestLogger (Some (rc_log ctx)) [])"

definition rl_Default :: RequestLogger where "rl_Default = \<lparr>rl_fields = []\<rparr>"

definition rl_New :: "Field list \<Rightarrow> RequestLogger" where "rl_New fs = \<lparr>rl_fields = fs\<rparr>"

definition WithFields :: "RequestLogger \<Rightarrow> Field list \<Rightarrow> RequestLogger" where
  "WithFields l fs = \<lparr>rl_fields = rl_fields l @ fs\<rparr>"

definition WithField :: "RequestLogger \<Rightarrow> string \<Rightarrow> string \<Rightarrow> RequestLogger" where
  "WithField l k v = WithFields l [AnyF k v]"

text \<open>
  A field as zap keeps it: a type, an integer, a text and an interface, which \<open>fieldValue\<close>
  takes apart again. \<open>raw\<close> is zap's encoding of a field.
\<close>

datatype zap_type = ZString | ZInt64 | ZUint64 | ZFloat64 | ZBool | ZDuration | ZTime | ZOther

datatype go_value = VText string | VInt int | VUint nat | VFloat rat | VBool bool | VLocation string | VAny string

record raw_field =
  z_Type :: zap_type
  z_Integer :: int
  z_String :: string
  z_Interface :: "go_value option"

definition fieldValue :: "raw_field \<Rightarrow> go_value" where
  "fieldValue f =
     (case z_Type f of
        ZString \<Rightarrow> VText (z_String f)
      | ZInt64 \<Rightarrow> VInt (z_Integer f)
      | ZUint64 \<Rightarrow> VUint (nat (z_Integer f mod 2 ^ 64))
      | ZFloat64 \<Rightarrow> VFloat (of_int (z_Integer f))
      | ZBool \<Rightarrow> VBool (z_Integer f = 1)
      | ZDuration \<Rightarrow> VInt (z_Integer f)
      | ZTime \<Rightarrow> (case z_Interface f of Some v \<Rightarrow> v | None \<Rightarrow> VAny ''nil'')
      | ZOther \<Rightarrow> (case z_Interface f of Some v \<Rightarrow> v | None \<Rightarrow> VText (z_String f)))"

definition fieldsToKV :: "(Field \<Rightarrow> raw_field) \<Rightarrow> Field list \<Rightarrow> (string \<times> go_value) list" where
  "fieldsToKV raw fs = map (\<lambda>f. (field_key f, fieldValue (raw f))) fs"

definition mergeFields :: "RequestLogger \<Rightarrow> Field list \<Rightarrow> Field list" where
  "mergeFields l fs = (if fs = [] then rl_fields l else rl_fields l @ fs)"

definition prependFields :: "(Field \<Rightarrow> raw_field) \<Rightarrow> RequestLogger \<Rightarrow> (string \<times> go_value) list \<Rightarrow> (string \<times> go_value) list" where
  "prependFields raw l kvs = fieldsToKV raw (rl_fields l) @ kvs"

text \<open>A record of pairs.\<close>

record kv_entry =
  kv_level :: Level
  kv_msg :: string
  kv_pairs :: "(string \<times> go_value) list"

definition rl_log :: "Level \<Rightarrow> (Field \<Rightarrow> raw_field) \<Rightarrow> RequestLogger \<Rightarrow> string \<Rightarrow> Field list \<Rightarrow> kv_entry" where
  "rl_log level raw l msg fs = \<lparr>kv_level = level, kv_msg = msg, kv_pairs = fieldsToKV raw (mergeFields l fs)\<rparr>"

definition rl_logw :: "Level \<Rightarrow> (Field \<Rightarrow> raw_field) \<Rightarrow> RequestLogger \<Rightarrow> string \<Rightarrow> (string \<times> go_value) list \<Rightarrow> kv_entry" where
  "rl_logw level raw l msg kvs = \<lparr>kv_level = level, kv_msg = msg, kv_pairs = prependFields raw l kvs\<rparr>"

definition rl_Debug :: "(Field \<Rightarrow> raw_field) \<Rightarrow> RequestLogger \<Rightarrow> string \<Rightarrow> Field list \<Rightarrow> kv_entry" where "rl_Debug = rl_log DebugLevel"
definition rl_Info :: "(Field \<Rightarrow> raw_field) \<Rightarrow> RequestLogger \<Rightarrow> string \<Rightarrow> Field list \<Rightarrow> kv_entry" where "rl_Info = rl_log InfoLevel"
definition rl_Warn :: "(Field \<Rightarrow> raw_field) \<Rightarrow> RequestLogger \<Rightarrow> string \<Rightarrow> Field list \<Rightarrow> kv_entry" where "rl_Warn = rl_log WarnLevel"
definition rl_Error :: "(Field \<Rightarrow> raw_field) \<Rightarrow> RequestLogger \<Rightarrow> string \<Rightarrow> Field list \<Rightarrow> kv_entry" where "rl_Error = rl_log ErrorLevel"
definition rl_Debugw :: "(Field \<Rightarrow> raw_field) \<Rightarrow> RequestLogger \<Rightarrow> string \<Rightarrow> (string \<times> go_value) list \<Rightarrow> kv_entry" where "rl_Debugw = rl_logw DebugLevel"
definition rl_Infow :: "(Field \<Rightarrow> raw_field) \<Rightarrow> RequestLogger \<Rightarrow> string \<Rightarrow> (string \<times> go_value) list \<Rightarrow> kv_entry" where "rl_Infow = rl_logw InfoLevel"
definition rl_Warnw :: "(Field \<Rightarrow> raw_field) \<Rightarrow> RequestLogger \<Rightarrow> string \<Rightarrow> (string \<times> go_value) list \<Rightarrow> kv_entry" where "rl_Warnw = rl_logw WarnLevel"
definition rl_Errorw :: "(Field \<Rightarrow> raw_field) \<Rightarrow> RequestLogger \<Rightarrow> string \<Rightarrow> (string \<times> go_value) list \<Rightarrow> kv_entry" where "rl_Errorw = rl_logw ErrorLevel"

text \<open>
  What zap documents of its encoding: texts and integers are kept as they are, floats by their
  bits, durations in nanoseconds, and an instant by its nanoseconds with its location.
\<close>

definition zap_encodes :: "(rat \<Rightarrow> int) \<Rightarrow> (Field \<Rightarrow> raw_field) \<Rightarrow> bool" where
  "zap_encodes bits raw \<longleftrightarrow>
     (\<forall>k v. raw (TextF k v) = \<lparr>z_Type = ZString, z_Integer = 0, z_String = v, z_Interface = None\<rparr>)
     \<and> (\<forall>k v. raw (IntF k v) = \<lparr>z_Type = ZInt64, z_Integer = v, z_String = [], z_Interface = None\<rparr>)
     \<and> (\<forall>k v. raw (BoolF k v) = \<lparr>z_Type = ZBool, z_Integer = (if v then 1 else 0), z_String = [], z_Interface = None\<rparr>)
     \<and> (\<forall>k v. raw (FloatF k v) = \<lparr>z_Type = ZFloat64, z_Integer = bits v, z_String = [], z_Interface = None\<rparr>)
     \<and> (\<forall>k v. raw (DurationF k v) = \<lparr>z_Type = ZDuration, z_Integer = v, z_String = [], z_Interface = None\<rparr>)
     \<and> (\<forall>k v. \<exists>loc. raw (TimeF k v) = \<lparr>z_Type = ZTime, z_Integer = v - 62135596800 * second, z_String = [], z_Interface = Some (VLocation loc)\<rparr>)"

text \<open>
  A request logger keeps its fields in front of those of each record, and adding fields
  leaves the logger it was made from alone. Texts, integers and truth values come out as they
  went in; a float comes out as the number its bits spell, and an instant as its location.
\<close>
theorem request_logger_fields:
  assumes "zap_encodes bits raw"
  shows "map fst (kv_pairs (rl_Info raw (WithFields l fs) msg gs)) = map field_key (rl_fields l @ fs @ gs)
    \<and> kv_pairs (rl_Infow raw l msg kvs) = kv_pairs (rl_Info raw l msg []) @ kvs
    \<and> kv_pairs (rl_Info raw rl_Default msg [TextF k v, IntF k n, BoolF k b]) = [(k, VText v), (k, VInt n), (k, VBool b)]
    \<and> kv_pairs (rl_Info raw rl_Default msg [FloatF k x]) = [(k, VFloat (of_int (bits x)))]
    \<and> (\<exists>loc. kv_pairs (rl_Info raw rl_Default msg [TimeF k t]) = [(k, VLocation loc)])"
proof -
  from assms obtain loc where "raw (TimeF k t) = \<lparr>z_Type = ZTime, z_Integer = t - 62135596800 * second, z_String = [],
      z_Interface = Some (VLocation loc)\<rparr>" unfolding zap_encodes_def by blast
  then have "kv_pairs (rl_Info raw rl_Default msg [TimeF k t]) = [(k, VLocation loc)]"
    by (simp add: rl_Info_def rl_log_def rl_Default_def mergeFields_def fieldsToKV_def fieldValue_def)
  with assms show ?thesis
    by (auto simp: zap_encodes_def rl_Info_def rl_Infow_def rl_log_def rl_logw_def prependFields_def rl_Default_def
        WithFields_def mergeFields_def fieldsToKV_def fieldValue_def)
qed

definition sample_raw :: "Field \<Rightarrow> raw_field" where
  "sample_raw f = (case f of
      TextF k v \<Rightarrow> \<lparr>z_Type = ZString, z_Integer = 0, z_String = v, z_Interface = None\<rparr>
    | IntF k v \<Rightarrow> \<lparr>z_Type = ZInt64, z_Integer = v, z_String = [], z_Interface = None\<rparr>
    | BoolF k v \<Rightarrow> \<lparr>z_Type = ZBool, z_Integer = (if v then 1 else 0), z_String = [], z_Interface = None\<rparr>
    | FloatF k v \<Rightarrow> \<lparr>z_Type = ZFloat64, z_Integer = 4609434218613702656, z_String = [], z_Interface = None\<rparr>
    | DurationF k v \<Rightarrow> \<lparr>z_Type = ZDuration, z_Integer = v, z_String = [], z_Interface = None\<rparr>
    | TimeF k v \<Rightarrow> \<lparr>z_Type = ZTime, z_Integer = v - 62135596800 * second, z_String = [], z_Interface = Some (VLocation ''UTC'')\<rparr>
    | _ \<Rightarrow> \<lparr>z_Type = ZOther, z_Integer = 0, z_String = [], z_Interface = None\<rparr>)"

lemma request_logger_fields_witness:
  "kv_pairs (rl_Info sample_raw rl_Default ''slow'' [FloatF ''elapsed_ms'' 1.5]) = [(''elapsed_ms'', VFloat 4609434218613702656)]"
proof -
  have "zap_encodes (\<lambda>_. 4609434218613702656) sample_raw" by (simp add: zap_encodes_def sample_raw_def)
  from request_logger_fields [OF this, where k = "''elapsed_ms''" and x = "1.5" and msg = "''slow''"] show ?thesis by simp
qed


section \<open>Standard fields\<close>

definition optional :: "string \<Rightarrow> string \<Rightarrow> Field list" where
  "optional k v = (if v \<noteq> [] then [TextF k v] else [])"

definition UserFields :: "string \<Rightarrow> string \<Rightarrow> string \<Rightarrow> Field list" where
  "UserFields userID accountID tenantID = optional ''user_id'' userID @ optional ''account_id'' accountID @ optional ''tenant_id'' tenantID"

definition OperationFields :: "string \<Rightarrow> string \<Rightarrow> string \<Rightarrow> Field list" where
  "OperationFields action resource resourceID =
     [TextF ''action'' action, TextF ''resource'' resource] @ optional ''resource_id'' resourceID"

definition ResultFields :: "string \<Rightarrow> int \<Rightarrow> Field list" where
  "ResultFields result durationMS = [TextF ''result'' result, IntF ''duration_ms'' durationMS]"

definition ErrorFields :: "string \<Rightarrow> int \<Rightarrow> Field list" where
  "ErrorFields err code = TextF ''error'' err # (if code \<noteq> 0 then [IntF ''error_code'' code] else [])"

definition HTTPFields :: "string \<Rightarrow> string \<Rightarrow> string \<Rightarrow> int \<Rightarrow> Field list" where
  "HTTPFields meth path query statusCode =
     [TextF ''method'' meth, TextF ''path'' path] @ optional ''query'' query
     @ (if statusCode \<noteq> 0 then [IntF ''status_code'' statusCode] else [])"

definition GRPCFields :: "string \<Rightarrow> string \<Rightarrow> string \<Rightarrow> Field list" where
  "GRPCFields meth service code = TextF ''grpc.method'' meth # optional ''grpc.service'' service @ optional ''grpc.code'' code"

definition EventField :: "string \<Rightarrow> Field" where "EventField event = TextF ''event'' event"

section \<open>Masking\<close>

datatype json = JNull | JBool bool | JNum string | JStr string | JArr "json list" | JObj "(string \<times> json) list"

definition sensitiveFields :: "string list" where
  "sensitiveFields = [''password'', ''secret'', ''token'', ''authorization'', ''api_key'', ''apikey'',
     ''access_token'', ''refresh_token'', ''private_key'', ''client_secret'']"

definition isSensitiveHTTPField :: "string \<Rightarrow> bool" where
  "isSensitiveHTTPField fieldName \<longleftrightarrow> to_lower fieldName \<in> set sensitiveFields"

definition isSensitiveHTTPHeader :: "string \<Rightarrow> bool" where
  "isSensitiveHTTPHeader name \<longleftrightarrow> to_lower name \<in> {''authorization'', ''cookie'', ''x-api-key''}"

definition maskHTTPSensitiveValue :: "string \<Rightarrow> string" where
  "maskHTTPSensitiveValue v =
     (if length v \<le> 8 then ''***'' else take 4 v @ ''***'' @ drop (length v - 4) v)"

fun maskHTTPSensitiveInData :: "json \<Rightarrow> json" where
  "maskHTTPSensitiveInData (JObj kvs) =
     JObj (map (\<lambda>(key, v).
       (key, if isSensitiveHTTPField key then (case v of JStr s \<Rightarrow> JStr (maskHTTPSensitiveValue s) | _ \<Rightarrow> v)
             else maskHTTPSensitiveInData v)) kvs)"
| "maskHTTPSensitiveInData (JArr vs) = JArr (map maskHTTPSensitiveInData vs)"
| "maskHTTPSensitiveInData v = v"

text \<open>\<open>unmarshal\<close> reads an object; anything else is not one, and the text is kept.\<close>

definition maskHTTPSensitiveJSON :: "(string \<Rightarrow> (string \<times> json) list option) \<Rightarrow> (json \<Rightarrow> string option) \<Rightarrow> string \<Rightarrow> string" where
  "maskHTTPSensitiveJSON unmarshal marshal jsonStr =
     (case unmarshal jsonStr of
        None \<Rightarrow> jsonStr
      | Some kvs \<Rightarrow> (case marshal (maskHTTPSensitiveInData (JObj kvs)) of None \<Rightarrow> jsonStr | Some masked \<Rightarrow> masked))"

text \<open>The texts under sensitive keys, reached through keys that are not.\<close>

fun secrets :: "json \<Rightarrow> string list" where
  "secrets (JObj kvs) =
     concat (map (\<lambda>(key, v). if isSensitiveHTTPField key then (case v of JStr s \<Rightarrow> [s] | _ \<Rightarrow> []) else secrets v) kvs)"
| "secrets (JArr vs) = concat (map secrets vs)"
| "secrets v = []"

lemma secrets_masked: "secrets (maskHTTPSensitiveInData j) = map maskHTTPSensitiveValue (secrets j)"
proof (induction j rule: maskHTTPSensitiveInData.induct)
  case (1 kvs)
  define S where "S = (\<lambda>(key, v). if isSensitiveHTTPField key then (case v of JStr s \<Rightarrow> [s] | _ \<Rightarrow> []) else secrets v)"
  define M where "M = (\<lambda>(key, v). (key, if isSensitiveHTTPField key
      then (case v of JStr s \<Rightarrow> JStr (maskHTTPSensitiveValue s) | _ \<Rightarrow> v) else maskHTTPSensitiveInData v))"
  have "S (M kv) = map maskHTTPSensitiveValue (S kv)" if "kv \<in> set kvs" for kv
    using 1 [OF that] by (cases kv) (auto simp: S_def M_def split: json.split)
  then have "map (\<lambda>kv. S (M kv)) kvs = map (\<lambda>kv. map maskHTTPSensitiveValue (S kv)) kvs" by simp
  moreover have "secrets (JObj xs) = concat (map S xs)" for xs by (simp add: S_def)
  moreover have "maskHTTPSensitiveInData (JObj kvs) = JObj (map M kvs)" by (simp add: M_def)
  ultimately show ?case by (simp add: map_concat comp_def del: secrets.simps maskHTTPSensitiveInData.simps cong: map_cong)
next
  case (2 vs)
  then have "map (\<lambda>v. secrets (maskHTTPSensitiveInData v)) vs = map (\<lambda>v. map maskHTTPSensitiveValue (secrets v)) vs" by simp
  then show ?case by (simp add: map_concat comp_def cong: map_cong)
qed simp_all

text \<open>
  What masking does and what it leaves. Every text under a sensitive key that is reached
  through other keys is masked: it is short and shows nothing, or shows its first and last four
  characters, which of nine characters is all but one. A value under a sensitive key that is no
  text is left as it is, with everything below it; a text that is no JSON object, such as one
  that was cut off or an array, is left altogether.
\<close>
theorem masking_hides_texts_only:
  "secrets (maskHTTPSensitiveInData j) = map maskHTTPSensitiveValue (secrets j)"
  "length s \<le> 8 \<Longrightarrow> maskHTTPSensitiveValue s = ''***''"
  "length a = 4 \<Longrightarrow> length b = 4 \<Longrightarrow> maskHTTPSensitiveValue (a @ [c] @ b) = a @ ''***'' @ b"
  "maskHTTPSensitiveInData (JObj [(''token'', JObj [(''password'', JStr p)])]) = JObj [(''token'', JObj [(''password'', JStr p)])]"
  "unmarshal body = None \<Longrightarrow> maskHTTPSensitiveJSON unmarshal marshal body = body"
proof -
  show "secrets (maskHTTPSensitiveInData j) = map maskHTTPSensitiveValue (secrets j)" by (rule secrets_masked)
  show "maskHTTPSensitiveInData (JObj [(''token'', JObj [(''password'', JStr p)])]) = JObj [(''token'', JObj [(''password'', JStr p)])]"
  proof -
    have "isSensitiveHTTPField ''token''" by code_simp
    then show ?thesis by simp
  qed
qed (simp_all add: maskHTTPSensitiveValue_def maskHTTPSensitiveJSON_def)

lemma masking_hides_texts_only_witness:
  "maskHTTPSensitiveValue ''123456789'' = ''1234***6789'' \<and> maskHTTPSensitiveJSON (\<lambda>_. None) (\<lambda>_. None) ''[1]'' = ''[1]''
    \<and> maskHTTPSensitiveValue ''12345678'' = ''***''"
  using masking_hides_texts_only(2) [of "''12345678''"] masking_hides_texts_only(3) [of "''1234''" "''6789''" "CHR ''5''"]
    masking_hides_texts_only(5) [of "\<lambda>_. None" "''[1]''" "\<lambda>_. None"] by simp

text \<open>A value without the texts that masking may change.\<close>

fun without_secrets :: "json \<Rightarrow> json" where
  "without_secrets (JObj kvs) =
     JObj (map (\<lambda>(key, v). (key, if isSensitiveHTTPField key then (case v of JStr s \<Rightarrow> JStr [] | _ \<Rightarrow> v) else without_secrets v)) kvs)"
| "without_secrets (JArr vs) = JArr (map without_secrets vs)"
| "without_secrets v = v"

fun json_sort :: "json \<Rightarrow> nat" where
  "json_sort JNull = 0"
| "json_sort (JBool b) = 1"
| "json_sort (JNum n) = 2"
| "json_sort (JStr s) = 3"
| "json_sort (JArr vs) = 4"
| "json_sort (JObj kvs) = 5"

lemma without_secrets_masked: "without_secrets (maskHTTPSensitiveInData j) = without_secrets j"
proof (induction j rule: maskHTTPSensitiveInData.induct)
  case (1 kvs)
  define W where "W = (\<lambda>(key, v). (key, if isSensitiveHTTPField key then (case v of JStr s \<Rightarrow> JStr [] | _ \<Rightarrow> v) else without_secrets v))"
  define M where "M = (\<lambda>(key, v). (key, if isSensitiveHTTPField key
      then (case v of JStr s \<Rightarrow> JStr (maskHTTPSensitiveValue s) | _ \<Rightarrow> v) else maskHTTPSensitiveInData v))"
  have "W (M kv) = W kv" if "kv \<in> set kvs" for kv
    using 1 [OF that] by (cases kv) (auto simp: W_def M_def split: json.split)
  then have "map (\<lambda>kv. W (M kv)) kvs = map W kvs" by simp
  moreover have "without_secrets (JObj xs) = JObj (map W xs)" for xs by (simp add: W_def)
  moreover have "maskHTTPSensitiveInData (JObj kvs) = JObj (map M kvs)" by (simp add: M_def)
  ultimately show ?case by (simp add: comp_def del: without_secrets.simps maskHTTPSensitiveInData.simps)
qed simp_all


text \<open>JSON that knows one body and its masked text.\<close>

definition one_body :: "(string \<times> json) list" where "one_body = [(''user'', JStr ''ann''), (''token'', JStr ''t'')]"

definition one_marshal :: "json \<Rightarrow> string option" where
  "one_marshal j = (if j = JObj [(''user'', JStr ''ann''), (''token'', JStr ''***'')] then Some ''masked'' else None)"

definition one_unmarshal :: "string \<Rightarrow> (string \<times> json) list option" where
  "one_unmarshal t = (if t = ''body'' then Some one_body
     else if t = ''masked'' then Some [(''user'', JStr ''ann''), (''token'', JStr ''***'')] else None)"


section \<open>HTTP\<close>

record HTTPLoggerConfig =
  hc_Tag :: string
  hc_SkipPaths :: "string list"
  hc_LogRequestHeaders :: bool
  hc_LogRequestBody :: bool
  hc_LogResponseHeaders :: bool
  hc_LogResponseBody :: bool
  hc_MaskSensitiveData :: bool
  hc_MaxBodyBytes :: int
  hc_RequestIDKey :: string

definition DefaultHTTPLoggerConfig :: HTTPLoggerConfig where
  "DefaultHTTPLoggerConfig = \<lparr>hc_Tag = ''http.access'', hc_SkipPaths = [''/health'', ''/healthz'', ''/metrics'', ''/favicon.ico''],
     hc_LogRequestHeaders = True, hc_LogRequestBody = True, hc_LogResponseHeaders = True, hc_LogResponseBody = True,
     hc_MaskSensitiveData = True, hc_MaxBodyBytes = 16 * 1024, hc_RequestIDKey = ''X-Request-ID''\<rparr>"

definition withDefaults :: "HTTPLoggerConfig \<Rightarrow> HTTPLoggerConfig" where
  "withDefaults cfg =
     (let r1 = (if hc_Tag cfg = [] then cfg\<lparr>hc_Tag := ''http.access''\<rparr> else cfg);
          r2 = (if hc_MaxBodyBytes r1 \<le> 0 then r1\<lparr>hc_MaxBodyBytes := 16 * 1024\<rparr> else r1)
      in if hc_RequestIDKey r2 = [] then r2\<lparr>hc_RequestIDKey := ''X-Request-ID''\<rparr> else r2)"

definition buildSkipPathsMap :: "string list \<Rightarrow> string set" where
  "buildSkipPathsMap paths = set (filter (\<lambda>p. p \<noteq> []) paths)"

text \<open>A body that is read: its bytes, and the error that ends it, if it does not end well.\<close>

record http_request =
  hq_method :: string
  hq_path :: string
  hq_query :: string
  hq_client_ip :: string
  hq_user_agent :: string
  hq_headers :: "(string \<times> string list) list"
  hq_keys :: "string \<rightharpoonup> string"
  hq_body :: "(string \<times> string option) option"
  hq_ctx :: req_ctx

definition readAndRestoreHTTPRequestBody :: "http_request \<Rightarrow> int \<Rightarrow> string \<times> http_request" where
  "readAndRestoreHTTPRequestBody r maxSize =
     (case hq_body r of
        None \<Rightarrow> ([], r)
      | Some (content, err) \<Rightarrow>
          if length content < nat maxSize \<and> err \<noteq> None then ([], r\<lparr>hq_body := Some ([], err)\<rparr>)
          else (take (nat maxSize) content, r\<lparr>hq_body := Some (take (nat maxSize) content, None)\<rparr>))"

text \<open>What a handler does with its response, and the writer that captures it.\<close>

datatype write_op = WriteHeader int | WriteBody string

record capture_writer =
  cw_body :: "string option"
  cw_status :: int
  cw_limit :: int
  cw_capture :: bool
  cw_passed :: "write_op list"

definition newHTTPBodyCaptureWriter :: "bool \<Rightarrow> int \<Rightarrow> capture_writer" where
  "newHTTPBodyCaptureWriter capture limit = \<lparr>cw_body = (if capture then Some [] else None), cw_status = 200,
     cw_limit = limit, cw_capture = capture, cw_passed = []\<rparr>"

definition cw_Write :: "string \<Rightarrow> capture_writer \<Rightarrow> capture_writer" where
  "cw_Write data w =
     (let w1 =
        (case cw_body w of
           Some b \<Rightarrow>
             if cw_capture w \<and> 0 < length data then
               (if cw_limit w \<le> 0 \<or> int (length b) < cw_limit w then
                  (let remaining = (if cw_limit w > 0 then min (cw_limit w - int (length b)) (int (length data)) else int (length data))
                   in if remaining > 0 then w\<lparr>cw_body := Some (b @ take (nat remaining) data)\<rparr> else w)
                else w)
             else w
         | None \<Rightarrow> w)
      in w1\<lparr>cw_passed := cw_passed w1 @ [WriteBody data]\<rparr>)"

definition cw_WriteHeader :: "int \<Rightarrow> capture_writer \<Rightarrow> capture_writer" where
  "cw_WriteHeader code w = w\<lparr>cw_status := code, cw_passed := cw_passed w @ [WriteHeader code]\<rparr>"

definition cw_Body :: "capture_writer \<Rightarrow> string" where
  "cw_Body w = (if \<not> cw_capture w then [] else case cw_body w of None \<Rightarrow> [] | Some b \<Rightarrow> b)"

fun cw_do :: "write_op \<Rightarrow> capture_writer \<Rightarrow> capture_writer" where
  "cw_do (WriteHeader code) w = cw_WriteHeader code w"
| "cw_do (WriteBody data) w = cw_Write data w"

definition headers_field :: "string \<Rightarrow> (string \<Rightarrow> string \<Rightarrow> string) \<Rightarrow> (string \<times> string list) list \<Rightarrow> Field" where
  "headers_field key show_value hs =
     MapF key (concat (map (\<lambda>(name, vs). case vs of [] \<Rightarrow> [] | v # _ \<Rightarrow> [(name, show_value name v)]) hs))"

definition logHTTPRequestStart :: "http_request \<Rightarrow> HTTPLoggerConfig \<Rightarrow> string \<Rightarrow> instant \<Rightarrow> log_entry" where
  "logHTTPRequestStart r config requestID now =
     log_HTTP ''HTTP Request Started''
       ([TextF ''event'' ''request_start'', TextF ''request_id'' requestID, TextF ''method'' (hq_method r),
         TextF ''path'' (hq_path r), TextF ''query'' (hq_query r), TextF ''client_ip'' (hq_client_ip r),
         TextF ''user_agent'' (hq_user_agent r), TimeF ''timestamp'' now]
        @ (if hc_LogRequestHeaders config then
             [headers_field ''request_headers''
               (\<lambda>name v. if hc_MaskSensitiveData config \<and> isSensitiveHTTPHeader name then maskHTTPSensitiveValue v else v) (hq_headers r)]
           else [])
        @ TraceFields (Some (rc_log (hq_ctx r))))"

definition logHTTPRequestEnd ::
    "(string \<Rightarrow> string) \<Rightarrow> http_request \<Rightarrow> HTTPLoggerConfig \<Rightarrow> string \<Rightarrow> duration \<Rightarrow> int \<Rightarrow> string \<Rightarrow> string
     \<Rightarrow> (string \<times> string list) list \<Rightarrow> string \<Rightarrow> instant \<Rightarrow> log_entry" where
  "logHTTPRequestEnd mask_json r config requestID latency statusCode requestBody responseBody respHeaders errs now =
     (let shown = (\<lambda>body. if hc_MaskSensitiveData config then mask_json body else body);
          fs = [TextF ''event'' ''request_end'', TextF ''request_id'' requestID, TextF ''method'' (hq_method r),
             TextF ''path'' (hq_path r), IntF ''status_code'' statusCode, IntF ''duration_ms'' (trunc_div latency millisecond),
             IntF ''response_size'' (int (length responseBody)), TimeF ''timestamp'' now]
           @ (if hc_LogRequestBody config \<and> 0 < length requestBody then [TextF ''request_body'' (shown requestBody)] else [])
           @ (if hc_LogResponseHeaders config then [headers_field ''response_headers'' (\<lambda>name v. v) respHeaders] else [])
           @ (if hc_LogResponseBody config \<and> 0 < length responseBody then [TextF ''response_body'' (shown responseBody)] else [])
           @ (if errs \<noteq> [] then [TextF ''errors'' errs] else [])
           @ TraceFields (Some (rc_log (hq_ctx r)))
      in if statusCode \<ge> 500 then log_HTTPError ''HTTP Request Completed with Server Error'' fs
         else if statusCode \<ge> 400 then log_HTTPWarn ''HTTP Request Completed with Client Error'' fs
         else log_HTTPDebug ''HTTP Request Completed Successfully'' fs)"

text \<open>
  What the rest of the chain answers: the operations on the response, its headers, the text
  of the request's errors, and whether it returned.
\<close>

record handled =
  hd_ops :: "write_op list"
  hd_headers :: "(string \<times> string list) list"
  hd_errors :: string
  hd_returned :: bool

definition HTTPLoggerWithConfig ::
    "(string \<Rightarrow> string) \<Rightarrow> HTTPLoggerConfig \<Rightarrow> (http_request \<Rightarrow> 's \<Rightarrow> handled \<times> 's) \<Rightarrow> instant \<times> instant \<Rightarrow> http_request \<Rightarrow> 's
     \<Rightarrow> write_op list \<times> log_entry list \<times> 's" where
  "HTTPLoggerWithConfig mask_json config next_h clocks r s =
     (let cfg = withDefaults config in
      if hq_path r \<in> buildSkipPathsMap (hc_SkipPaths cfg) then (case next_h r s of (h, s') \<Rightarrow> (hd_ops h, [], s'))
      else
        (let requestID = (case hq_keys r (hc_RequestIDKey cfg) of None \<Rightarrow> [] | Some v \<Rightarrow> v);
             reqLogger = NewRequestLogger (Some (rc_log (hq_ctx r)))
               [TextF ''method'' (hq_method r), TextF ''path'' (hq_path r), TextF ''client_ip'' (hq_client_ip r),
                TextF ''request_id'' requestID];
             r1 = r\<lparr>hq_ctx := WithLogger (hq_ctx r) reqLogger\<rparr>;
             started = logHTTPRequestStart r1 cfg requestID (fst clocks)
         in case (if hc_LogRequestBody cfg \<and> hq_body r1 \<noteq> None then readAndRestoreHTTPRequestBody r1 (hc_MaxBodyBytes cfg) else ([], r1)) of
              (requestBody, r2) \<Rightarrow>
                (case next_h r2 s of
                   (h, s') \<Rightarrow>
                     (let w = fold cw_do (hd_ops h) (newHTTPBodyCaptureWriter (hc_LogResponseBody cfg) (hc_MaxBodyBytes cfg)) in
                      if hd_returned h then
                        (cw_passed w,
                         [started, logHTTPRequestEnd mask_json r2 cfg requestID (time_sub (snd clocks) (fst clocks)) (cw_status w) requestBody
                            (cw_Body w) (hd_headers h) (hd_errors h) (snd clocks)], s')
                      else (cw_passed w, [started], s')))))"


section \<open>Properties of the access log\<close>

definition final_status :: "write_op list \<Rightarrow> int" where
  "final_status ops = fold (\<lambda>op st. case op of WriteHeader c \<Rightarrow> c | WriteBody d \<Rightarrow> st) ops 200"

definition written :: "write_op list \<Rightarrow> string" where
  "written ops = concat (map (\<lambda>op. case op of WriteHeader c \<Rightarrow> [] | WriteBody d \<Rightarrow> d) ops)"

definition captured :: "int \<Rightarrow> write_op list \<Rightarrow> capture_writer \<Rightarrow> bool" where
  "captured limit ops w \<longleftrightarrow> cw_passed w = ops \<and> cw_status w = final_status ops \<and> cw_limit w = limit
     \<and> (if cw_capture w then cw_body w = Some (take (nat limit) (written ops)) else cw_body w = None)"

lemma captured_step:
  assumes "0 < limit" and "captured limit ops w"
  shows "captured limit (ops @ [op]) (cw_do op w)"
proof (cases op)
  case (WriteHeader c)
  with assms show ?thesis by (simp add: captured_def cw_WriteHeader_def final_status_def written_def)
next
  case (WriteBody d)
  have ops: "final_status (ops @ [op]) = final_status ops" "written (ops @ [op]) = written ops @ d"
    using WriteBody by (simp_all add: final_status_def written_def)
  show ?thesis
  proof (cases "cw_capture w")
    case False
    with assms ops WriteBody show ?thesis by (simp add: captured_def cw_Write_def Let_def)
  next
    case True
    let ?b = "take (nat limit) (written ops)"
    have body: "cw_body w = Some ?b" using assms(2) True by (simp add: captured_def)
    have "cw_body (cw_Write d w) = Some (take (nat limit) (written ops @ d))"
    proof (cases "int (length (written ops)) < limit")
      case True
      then have b: "?b = written ops" by simp
      have "take (nat limit) (written ops @ d) = written ops @ take (nat limit - length (written ops)) d" using b by simp
      moreover have "nat (min (limit - int (length (written ops))) (int (length d)))
          = min (nat limit - length (written ops)) (length d)"
        using True by (simp add: min_def nat_diff_distrib nat_le_iff)
      moreover have "take (min n (length d)) d = take n d" for n by (simp add: min_def)
      ultimately show ?thesis using assms True body b \<open>cw_capture w\<close>
        by (auto simp: cw_Write_def captured_def Let_def)
    next
      case False
      then have "int (length ?b) = limit" using assms(1) by auto
      with False body assms show ?thesis by (auto simp: cw_Write_def captured_def Let_def)
    qed
    moreover have "cw_passed (cw_Write d w) = ops @ [WriteBody d]" "cw_status (cw_Write d w) = cw_status w"
      "cw_limit (cw_Write d w) = cw_limit w" "cw_capture (cw_Write d w) = cw_capture w"
      using assms(2) by (auto simp: captured_def cw_Write_def Let_def split: option.split)
    ultimately show ?thesis using assms(2) ops WriteBody True by (simp add: captured_def)
  qed
qed

lemma captured_all:
  assumes "0 < limit"
  shows "captured limit ops (fold cw_do ops (newHTTPBodyCaptureWriter capture limit))"
proof (induction ops rule: rev_induct)
  case Nil
  show ?case by (simp add: captured_def newHTTPBodyCaptureWriter_def final_status_def written_def)
next
  case (snoc op ops)
  with captured_step [OF assms snoc, of op] show ?case by simp
qed

lemma withDefaults_positive: "0 < hc_MaxBodyBytes (withDefaults cfg)"
  by (simp add: withDefaults_def Let_def)

text \<open>
  The access log passes a response on unchanged and writes two records for a request that
  returns, the second at a level by its final status, and one for a request that panics; paths
  that are skipped have none. But the handler does not see the request as it came: when bodies
  are logged it is given at most the logged number of bytes of the body, and no error.
\<close>
theorem access_log_of_a_request:
  assumes "hq_path r \<notin> buildSkipPathsMap (hc_SkipPaths config)" and "hq_body r = Some (content, None)"
    and "hc_LogRequestBody config"
  shows "\<exists>r2 h s'. next_h r2 s = (h, s')
    \<and> hq_body r2 = Some (take (nat (hc_MaxBodyBytes (withDefaults config))) content, None)
    \<and> fst (HTTPLoggerWithConfig mask_json config next_h clocks r s) = hd_ops h
    \<and> snd (snd (HTTPLoggerWithConfig mask_json config next_h clocks r s)) = s'
    \<and> (let es = fst (snd (HTTPLoggerWithConfig mask_json config next_h clocks r s)); st = final_status (hd_ops h) in
        length es = (if hd_returned h then 2 else 1) \<and> le_level (hd es) = InfoLevel
        \<and> (hd_returned h \<longrightarrow> le_level (last es) = (if 500 \<le> st then ErrorLevel else if 400 \<le> st then WarnLevel else DebugLevel)))"
proof -
  let ?cfg = "withDefaults config"
  have same: "hc_SkipPaths ?cfg = hc_SkipPaths config" "hc_LogRequestBody ?cfg = hc_LogRequestBody config"
    by (simp_all add: withDefaults_def Let_def)
  let ?id = "case hq_keys r (hc_RequestIDKey ?cfg) of None \<Rightarrow> [] | Some v \<Rightarrow> v"
  let ?l = "NewRequestLogger (Some (rc_log (hq_ctx r))) [TextF ''method'' (hq_method r), TextF ''path'' (hq_path r),
      TextF ''client_ip'' (hq_client_ip r), TextF ''request_id'' ?id]"
  let ?r1 = "r\<lparr>hq_ctx := WithLogger (hq_ctx r) ?l\<rparr>"
  let ?body = "take (nat (hc_MaxBodyBytes ?cfg)) content"
  let ?r2 = "?r1\<lparr>hq_body := Some (?body, None)\<rparr>"
  obtain h s' where h: "next_h ?r2 s = (h, s')" by force
  let ?w = "fold cw_do (hd_ops h) (newHTTPBodyCaptureWriter (hc_LogResponseBody ?cfg) (hc_MaxBodyBytes ?cfg))"
  let ?start = "logHTTPRequestStart ?r1 ?cfg ?id (fst clocks)"
  let ?fin = "logHTTPRequestEnd mask_json ?r2 ?cfg ?id (time_sub (snd clocks) (fst clocks)) (cw_status ?w) ?body
      (cw_Body ?w) (hd_headers h) (hd_errors h) (snd clocks)"
  have w: "cw_passed ?w = hd_ops h" "cw_status ?w = final_status (hd_ops h)"
    using captured_all [OF withDefaults_positive [of config], where ops = "hd_ops h" and capture = "hc_LogResponseBody ?cfg"] by (simp_all add: captured_def)
  have run: "HTTPLoggerWithConfig mask_json config next_h clocks r s =
      (hd_ops h, if hd_returned h then [?start, ?fin] else [?start], s')"
    using assms same h w by (simp add: HTTPLoggerWithConfig_def readAndRestoreHTTPRequestBody_def Let_def)
  have "le_level ?start = InfoLevel" by (simp add: logHTTPRequestStart_def typed_defs)
  moreover have "le_level ?fin = (if 500 \<le> cw_status ?w then ErrorLevel else if 400 \<le> cw_status ?w then WarnLevel else DebugLevel)"
    unfolding logHTTPRequestEnd_def Let_def typed_defs by simp
  ultimately show ?thesis using h run w by (intro exI [of _ ?r2] exI [of _ h] exI [of _ s']) (simp add: Let_def)
qed


definition sample_request :: http_request where
  "sample_request = \<lparr>hq_method = ''POST'', hq_path = ''/upload'', hq_query = [], hq_client_ip = ''10.0.0.1'', hq_user_agent = [],
     hq_headers = [], hq_keys = Map.empty, hq_body = Some (''0123456789'', None),
     hq_ctx = \<lparr>rc_log = Background, rc_logger = None\<rparr>\<rparr>"

text \<open>A handler that answers the body it is given.\<close>

definition echo :: "http_request \<Rightarrow> unit \<Rightarrow> handled \<times> unit" where
  "echo r u = (\<lparr>hd_ops = [WriteBody (case hq_body r of None \<Rightarrow> [] | Some (b, _) \<Rightarrow> b)], hd_headers = [], hd_errors = [],
     hd_returned = True\<rparr>, u)"

lemma access_log_of_a_request_witness:
  "fst (HTTPLoggerWithConfig id (DefaultHTTPLoggerConfig\<lparr>hc_MaxBodyBytes := 4\<rparr>) echo (0, 5) sample_request ()) = [WriteBody ''0123'']"
proof -
  let ?c = "DefaultHTTPLoggerConfig\<lparr>hc_MaxBodyBytes := 4\<rparr>"
  have "hq_path sample_request \<notin> buildSkipPathsMap (hc_SkipPaths ?c)"
    by (simp add: sample_request_def DefaultHTTPLoggerConfig_def buildSkipPathsMap_def)
  moreover have "hq_body sample_request = Some (''0123456789'', None)" "hc_LogRequestBody ?c"
    by (simp_all add: sample_request_def DefaultHTTPLoggerConfig_def)
  moreover have "hc_MaxBodyBytes (withDefaults ?c) = 4" by (simp add: withDefaults_def DefaultHTTPLoggerConfig_def Let_def)
  ultimately show ?thesis
    using access_log_of_a_request [where r = sample_request and config = ?c and content = "''0123456789''" and next_h = echo
        and s = "()" and mask_json = id and clocks = "(0, 5)"]
    by (auto simp: echo_def)
qed

section \<open>gRPC\<close>

record GRPCServerLoggerConfig =
  gc_LogRequestPayload :: bool
  gc_LogResponsePayload :: bool
  gc_MaxPayloadSize :: nat
  gc_SkipMethods :: "string list"

definition DefaultGRPCServerLoggerConfig :: GRPCServerLoggerConfig where
  "DefaultGRPCServerLoggerConfig = \<lparr>gc_LogRequestPayload = True, gc_LogResponsePayload = True, gc_MaxPayloadSize = 2048,
     gc_SkipMethods = [''/grpc.health.v1.Health/Check'', ''/grpc.health.v1.Health/Watch'']\<rparr>"

text \<open>What a call brings: its metadata, if any, and the address of the peer.\<close>

record grpc_call =
  gi_metadata :: "(string \<Rightarrow> string list) option"
  gi_peer :: "string option"
  gi_ctx :: req_ctx

definition first_value :: "(string \<Rightarrow> string list) option \<Rightarrow> string \<Rightarrow> string" where
  "first_value md k = (case md of None \<Rightarrow> [] | Some m \<Rightarrow> (case m k of [] \<Rightarrow> [] | v # _ \<Rightarrow> v))"

text \<open>\<open>ids\<close> are the generated trace, span and request identifiers.\<close>

definition extractOrGenerateTraceIDs :: "string \<times> string \<times> string \<Rightarrow> grpc_call \<Rightarrow> string \<times> string \<times> string" where
  "extractOrGenerateTraceIDs ids c =
     (case ids of (new_trace, new_span, new_request) \<Rightarrow>
        (let traceID = first_value (gi_metadata c) ''x-trace-id''; requestID = first_value (gi_metadata c) ''x-request-id''
         in (if traceID = [] then new_trace else traceID, new_span, if requestID = [] then new_request else requestID)))"

definition extractGRPCClientIP :: "grpc_call \<Rightarrow> string" where
  "extractGRPCClientIP c =
     (case gi_peer c of
        Some addr \<Rightarrow> (let idx = last_index addr CHR '':'' in if idx \<noteq> - 1 then take (nat idx) addr else addr)
      | None \<Rightarrow>
          (case gi_metadata c of
             None \<Rightarrow> ''unknown''
           | Some md \<Rightarrow>
               (case md ''x-forwarded-for'' of
                  v # _ \<Rightarrow> trim_space (hd (split_on CHR '','' v))
                | [] \<Rightarrow> (case md ''x-real-ip'' of v # _ \<Rightarrow> v | [] \<Rightarrow> ''unknown''))))"

definition splitGRPCMethodName :: "string \<Rightarrow> string \<times> string" where
  "splitGRPCMethodName fullMethod =
     (let name = (if has_prefix fullMethod ''/'' then drop 1 fullMethod else fullMethod); idx = last_index name CHR ''/''
      in if idx \<ge> 0 then (take (nat idx) name, drop (Suc (nat idx)) name) else (name, []))"

text \<open>A payload is nil, or what marshalling it to JSON gives, which may fail.\<close>

definition formatGRPCPayload :: "(string option) option \<Rightarrow> nat \<Rightarrow> string" where
  "formatGRPCPayload payload maxSize =
     (case payload of
        None \<Rightarrow> []
      | Some None \<Rightarrow> []
      | Some (Some result) \<Rightarrow> if length result > maxSize then take maxSize result @ ''...'' else result)"

definition payload_pair :: "bool \<Rightarrow> string \<Rightarrow> (string option) option \<Rightarrow> nat \<Rightarrow> (string \<times> go_value) list" where
  "payload_pair wanted key payload maxSize =
     (if wanted \<and> payload \<noteq> None \<and> formatGRPCPayload payload maxSize \<noteq> []
      then [(key, VText (formatGRPCPayload payload maxSize))] else [])"

definition call_logger :: "string \<times> string \<times> string \<Rightarrow> string \<Rightarrow> grpc_call \<Rightarrow> RequestLogger \<times> req_ctx" where
  "call_logger ids fullMethod c =
     (case extractOrGenerateTraceIDs ids c of
        (t, sp, r) \<Rightarrow>
          (let lc = WithTraceContext (rc_log (gi_ctx c)) t sp r;
               reqLogger = NewRequestLogger (Some lc)
                 [TextF ''grpc.service'' (fst (splitGRPCMethodName fullMethod)), TextF ''grpc.method'' (snd (splitGRPCMethodName fullMethod)),
                  TextF ''client_ip'' (extractGRPCClientIP c)]
           in (reqLogger, WithLogger ((gi_ctx c)\<lparr>rc_log := lc\<rparr>) reqLogger)))"

text \<open>
  \<open>handler\<close> answers the response or an error, each with what the log shows of it: the payload
  of a response, the code and the message of an error.
\<close>

definition UnaryServerLoggingInterceptorWithConfig ::
    "(Field \<Rightarrow> raw_field) \<Rightarrow> GRPCServerLoggerConfig \<Rightarrow> string \<times> string \<times> string \<Rightarrow> duration \<Rightarrow> string
     \<Rightarrow> (req_ctx \<Rightarrow> 's \<Rightarrow> ((string \<times> string) + (string option) option) \<times> 's) \<Rightarrow> (string option) option \<Rightarrow> grpc_call \<Rightarrow> 's
     \<Rightarrow> ((string \<times> string) + (string option) option) \<times> kv_entry list \<times> 's" where
  "UnaryServerLoggingInterceptorWithConfig raw config ids latency fullMethod handler req c s =
     (if fullMethod \<in> set (gc_SkipMethods config) then (case handler (gi_ctx c) s of (r, s') \<Rightarrow> (r, [], s'))
      else case call_logger ids fullMethod c of
        (l, ctx) \<Rightarrow>
          (let started = rl_Infow raw l ''gRPC request started''
                 ([(''event'', VText ''request_start''), (''grpc.full_method'', VText fullMethod),
                   (''client_ip'', VText (extractGRPCClientIP c))]
                  @ payload_pair (gc_LogRequestPayload config) ''request'' req (gc_MaxPayloadSize config));
               ended = [(''event'', VText ''request_end''), (''grpc.full_method'', VText fullMethod),
                 (''duration_ms'', VInt (trunc_div latency millisecond))]
           in case handler ctx s of
                (Inl (code, msg), s') \<Rightarrow>
                  (Inl (code, msg), [started, rl_Errorw raw l ''gRPC request failed''
                     (ended @ [(''grpc.code'', VText code), (''error'', VText msg), (''result'', VText ''failed'')])], s')
              | (Inr resp, s') \<Rightarrow>
                  (Inr resp, [started, rl_Infow raw l ''gRPC request completed''
                     (ended @ [(''grpc.code'', VText ''OK''), (''result'', VText ''success'')]
                      @ payload_pair (gc_LogResponsePayload config) ''response'' resp (gc_MaxPayloadSize config))], s')))"

text \<open>A stream: the handler sends and receives messages, whose errors are recorded, then ends.\<close>

datatype stream_op = SendMsg "string option" | RecvMsg "string option"

definition loggingServerStream :: "(Field \<Rightarrow> raw_field) \<Rightarrow> RequestLogger \<Rightarrow> string \<Rightarrow> stream_op \<Rightarrow> kv_entry list" where
  "loggingServerStream raw l fullMethod op =
     (case op of
        SendMsg None \<Rightarrow> [] | RecvMsg None \<Rightarrow> []
      | SendMsg (Some e) \<Rightarrow> [rl_Warnw raw l ''gRPC stream send error'' [(''grpc.full_method'', VText fullMethod), (''error'', VText e)]]
      | RecvMsg (Some e) \<Rightarrow> [rl_Debugw raw l ''gRPC stream receive'' [(''grpc.full_method'', VText fullMethod), (''error'', VText e)]])"

definition StreamServerLoggingInterceptorWithConfig ::
    "(Field \<Rightarrow> raw_field) \<Rightarrow> GRPCServerLoggerConfig \<Rightarrow> string \<times> string \<times> string \<Rightarrow> duration \<Rightarrow> string \<Rightarrow> bool \<Rightarrow> bool
     \<Rightarrow> (req_ctx \<Rightarrow> 's \<Rightarrow> stream_op list \<times> (string \<times> string) option \<times> 's) \<Rightarrow> grpc_call \<Rightarrow> 's
     \<Rightarrow> (string \<times> string) option \<times> kv_entry list \<times> 's" where
  "StreamServerLoggingInterceptorWithConfig raw config ids latency fullMethod client_stream server_stream handler c s =
     (if fullMethod \<in> set (gc_SkipMethods config) then (case handler (gi_ctx c) s of (_, err, s') \<Rightarrow> (err, [], s'))
      else case call_logger ids fullMethod c of
        (l, ctx) \<Rightarrow>
          (let started = rl_Infow raw l ''gRPC stream started''
                 [(''event'', VText ''request_start''), (''grpc.full_method'', VText fullMethod),
                  (''client_ip'', VText (extractGRPCClientIP c)), (''is_client_stream'', VBool client_stream),
                  (''is_server_stream'', VBool server_stream)];
               ms = VInt (trunc_div latency millisecond)
           in case handler ctx s of
                (ops, err, s') \<Rightarrow>
                  (err, started # concat (map (loggingServerStream raw l fullMethod) ops) @
                    [case err of
                       Some (code, msg) \<Rightarrow> rl_Errorw raw l ''gRPC stream failed''
                         [(''event'', VText ''request_end''), (''grpc.full_method'', VText fullMethod), (''grpc.code'', VText code),
                          (''error'', VText msg), (''duration_ms'', ms), (''result'', VText ''failed'')]
                     | None \<Rightarrow> rl_Infow raw l ''gRPC stream completed''
                         [(''event'', VText ''request_end''), (''grpc.full_method'', VText fullMethod), (''grpc.code'', VText ''OK''),
                          (''duration_ms'', ms), (''result'', VText ''success'')]], s')))"

definition carries :: "kv_entry \<Rightarrow> (string \<times> go_value) list \<Rightarrow> bool" where
  "carries e kvs \<longleftrightarrow> (\<exists>rest. kv_pairs e = kvs @ rest)"

lemma logw_carries:
  "carries (rl_logw level raw l msg kvs) (fieldsToKV raw (rl_fields l))"
  by (auto simp: carries_def rl_logw_def prependFields_def)

text \<open>
  The interceptors answer what the handler answers and write a first and a last record,
  the last one an error exactly when the call failed; every record, also those of the messages
  of a stream, begins with the fields of the call's logger, which the handler finds in its
  context.
\<close>
theorem call_records_agree:
  assumes "fullMethod \<notin> set (gc_SkipMethods config)" and "call_logger ids fullMethod c = (l, ctx)"
    and "UnaryServerLoggingInterceptorWithConfig raw config ids latency fullMethod handler req c s = (r, es, s')"
    and "StreamServerLoggingInterceptorWithConfig raw config ids latency fullMethod cs ss stream c t = (err, fs, t')"
  shows "handler ctx s = (r, s') \<and> (\<exists>ops. stream ctx t = (ops, err, t')) \<and> ctx_L ctx = l
    \<and> length es = 2 \<and> 2 \<le> length fs
    \<and> list_all (\<lambda>e. carries e (fieldsToKV raw (rl_fields l))) (es @ fs)
    \<and> (kv_level (last es) = ErrorLevel \<longleftrightarrow> (\<exists>e. r = Inl e)) \<and> (kv_level (last fs) = ErrorLevel \<longleftrightarrow> err \<noteq> None)"
proof -
  note logs = rl_Infow_def rl_Errorw_def rl_Warnw_def rl_Debugw_def
  let ?K = "fieldsToKV raw (rl_fields l)"
  have level: "kv_level (rl_logw level raw l msg kvs) = level" for level msg kvs by (simp add: rl_logw_def)
  have "ctx_L ctx = l"
    using assms(2) by (auto simp: call_logger_def ctx_L_def WithLogger_def Let_def split: prod.splits)
  moreover have "handler ctx s = (r, s') \<and> length es = 2 \<and> list_all (\<lambda>e. carries e ?K) es
      \<and> (kv_level (last es) = ErrorLevel \<longleftrightarrow> (\<exists>e. r = Inl e))"
  proof -
    obtain x u where x: "handler ctx s = (x, u)" by force
    show ?thesis
    proof (cases x)
      case (Inl e)
      obtain code msg where "e = (code, msg)" by force
      with assms(1-3) x Inl show ?thesis
        by (auto simp: UnaryServerLoggingInterceptorWithConfig_def Let_def logs logw_carries level)
    next
      case (Inr p)
      with assms(1-3) x show ?thesis
        by (auto simp: UnaryServerLoggingInterceptorWithConfig_def Let_def logs logw_carries level)
    qed
  qed
  moreover have "(\<exists>ops. stream ctx t = (ops, err, t')) \<and> 2 \<le> length fs \<and> list_all (\<lambda>e. carries e ?K) fs
      \<and> (kv_level (last fs) = ErrorLevel \<longleftrightarrow> err \<noteq> None)"
  proof -
    obtain ops x u where x: "stream ctx t = (ops, x, u)" by (metis prod_cases3)
    have msgs: "list_all (\<lambda>e. carries e ?K) (concat (map (loggingServerStream raw l fullMethod) ops))"
      by (auto simp: list_all_iff loggingServerStream_def logs logw_carries split: stream_op.splits option.splits)
    obtain k1 k2 m lv where fs: "fs = rl_logw InfoLevel raw l ''gRPC stream started'' k1
        # concat (map (loggingServerStream raw l fullMethod) ops) @ [rl_logw lv raw l m k2]"
      and lv: "lv = ErrorLevel \<longleftrightarrow> err \<noteq> None" and same: "x = err" "u = t'"
    proof (cases x)
      case None
      with assms(1,2,4) x that show ?thesis by (auto simp: StreamServerLoggingInterceptorWithConfig_def Let_def logs)
    next
      case (Some e)
      obtain code msg where "e = (code, msg)" by force
      with assms(1,2,4) x that Some show ?thesis by (auto simp: StreamServerLoggingInterceptorWithConfig_def Let_def logs)
    qed
    from fs msgs lv same x show ?thesis by (simp add: logw_carries level)
  qed
  ultimately show ?thesis by simp
qed

lemma call_records_agree_witness:
  "length (fst (snd (UnaryServerLoggingInterceptorWithConfig sample_raw DefaultGRPCServerLoggerConfig (''t'', ''s'', ''r'') 5
     ''/pkg.Service/Get'' (\<lambda>ctx (u::unit). (Inr None, u)) None
     \<lparr>gi_metadata = None, gi_peer = Some ''10.0.0.1:99'', gi_ctx = \<lparr>rc_log = Background, rc_logger = None\<rparr>\<rparr> ()))) = 2"
proof -
  let ?c = "\<lparr>gi_metadata = None, gi_peer = Some ''10.0.0.1:99'', gi_ctx = \<lparr>rc_log = Background, rc_logger = None\<rparr>\<rparr>"
  let ?m = "''/pkg.Service/Get''" and ?ids = "(''t'', ''s'', ''r'')"
  obtain l ctx where l: "call_logger ?ids ?m ?c = (l, ctx)" by force
  obtain r es s' where u: "UnaryServerLoggingInterceptorWithConfig sample_raw DefaultGRPCServerLoggerConfig ?ids 5 ?m
      (\<lambda>ctx (u::unit). (Inr None, u)) None ?c () = (r, es, s')" by (metis prod_cases3)
  obtain err fs t' where st: "StreamServerLoggingInterceptorWithConfig sample_raw DefaultGRPCServerLoggerConfig ?ids 5 ?m
      True True (\<lambda>ctx (u::unit). ([], None, u)) ?c () = (err, fs, t')" by (metis prod_cases3)
  have "?m \<notin> set (gc_SkipMethods DefaultGRPCServerLoggerConfig)" by (simp add: DefaultGRPCServerLoggerConfig_def)
  from call_records_agree [OF this l u st] u show ?thesis by simp
qed

text \<open>
  The parts of a method's name: of a path with a leading slash the service and the method,
  whatever slashes the service has; and the address of a client is the peer's without its port,
  so that the forwarded address is looked at only where there is no peer.
\<close>
theorem method_and_client:
  assumes "CHR ''/'' \<notin> set meth" and "CHR '':'' \<notin> set port"
  shows "splitGRPCMethodName (''/'' @ service @ ''/'' @ meth) = (service, meth)
    \<and> extractGRPCClientIP (c\<lparr>gi_peer := Some (host @ '':'' @ port)\<rparr>) = host"
proof -
  have "last_index (service @ CHR ''/'' # meth) CHR ''/'' = int (length service)" by (rule last_index_split [OF assms(1)])
  moreover have "last_index (host @ CHR '':'' # port) CHR '':'' = int (length host)" by (rule last_index_split [OF assms(2)])
  ultimately show ?thesis by (simp add: splitGRPCMethodName_def extractGRPCClientIP_def has_prefix_def Let_def)
qed

lemma method_and_client_witness: "splitGRPCMethodName ''/a.B/C'' = (''a.B'', ''C'')"
  using method_and_client [of "''C''" "''1''" "''a.B''"] by simp

end
