(* ===== verification/Logger_Stores.thy ===== *)
theory Logger_Stores
  imports Logger_Request
begin

text \<open>
  The hooks of \<open>pkg/logger\<close> that record what a service asks its stores: Redis commands
  (\<open>redis.go\<close>), the SQL of gorm (\<open>gorm.go\<close>) and the commands of MongoDB (\<open>mongo.go\<close>).

  A hook answers what the operation it wraps answers, and the records it writes. The clients
  of the three stores are not part of the code: a command is the record of what the hook reads
  of it, and the time an operation takes is an argument. Letters are compared as ASCII.
\<close>

definition default_slow :: duration where "default_slow = 200 * millisecond"

definition elapsed_ms :: "duration \<Rightarrow> Field" where
  "elapsed_ms d = FloatF ''elapsed_ms'' (of_int d / 1000000)"

text \<open>\<open>strings.ToUpper\<close> and \<open>strings.EqualFold\<close> on ASCII.\<close>

definition upper_char :: "char \<Rightarrow> char" where
  "upper_char c = (if 97 \<le> byte_of c \<and> byte_of c \<le> 122 then char_of (byte_of c - 32) else c)"

definition to_upper :: "string \<Rightarrow> string" where "to_upper s = map upper_char s"

definition equal_fold :: "string \<Rightarrow> string \<Rightarrow> bool" where "equal_fold s t \<longleftrightarrow> to_lower s = to_lower t"

definition cut_off :: "nat \<Rightarrow> string \<Rightarrow> string \<Rightarrow> string" where
  "cut_off n mark s = (if n < length s then take n s @ mark else s)"

lemma length_cut_off: "length (cut_off n mark s) \<le> n + length mark"
  by (simp add: cut_off_def)

section \<open>Redis\<close>

record RedisHook =
  rh_enabled :: bool
  rh_slow :: duration

definition DefaultRedisHookConfig :: RedisHook where
  "DefaultRedisHookConfig = \<lparr>rh_enabled = True, rh_slow = default_slow\<rparr>"

definition NewRedisHook :: "bool \<Rightarrow> duration \<Rightarrow> RedisHook" where
  "NewRedisHook enabled slow = \<lparr>rh_enabled = enabled, rh_slow = (if slow \<le> 0 then default_slow else slow)\<rparr>"

definition NewRedisHookWithConfig :: "RedisHook \<Rightarrow> RedisHook" where
  "NewRedisHookWithConfig config = NewRedisHook (rh_enabled config) (rh_slow config)"

text \<open>A command: its name, and its arguments as \<open>fmt\<close> shows them, the name first.\<close>

record redis_command =
  rd_name :: string
  rd_args :: "string list"

datatype redis_error = RedisNil | RedisErr string

fun redis_error_text :: "redis_error \<Rightarrow> string" where
  "redis_error_text RedisNil = ''redis: nil''"
| "redis_error_text (RedisErr s) = s"

definition formatRedisCommand :: "redis_command \<Rightarrow> string" where
  "formatRedisCommand cmd =
     (case rd_args cmd of
        [] \<Rightarrow> rd_name cmd
      | _ # args \<Rightarrow>
          (let cmdName = to_upper (rd_name cmd); needMask = cmdName \<in> {''AUTH'', ''HELLO''};
               parts = cmdName # map (\<lambda>arg. if needMask then ''***'' else cut_off 100 ''...'' arg) args
           in cut_off 500 ''...'' (strings_Join parts '' '')))"

definition logCommand :: "RedisHook \<Rightarrow> log_ctx option \<Rightarrow> redis_command \<Rightarrow> redis_error option \<Rightarrow> duration \<Rightarrow> log_entry" where
  "logCommand h ctx cmd err elapsed =
     (let fs = [TextF ''command'' (formatRedisCommand cmd), elapsed_ms elapsed] @ TraceFields ctx in
      case err of
        Some (RedisErr e) \<Rightarrow> log_RedisError ''Redis command failed'' (fs @ [TextF ''error'' e])
      | _ \<Rightarrow>
          if elapsed > rh_slow h then
            log_RedisWarn ''Redis slow command'' (fs @ [TextF ''event'' ''slow_command'', DurationF ''slow_threshold'' (rh_slow h)])
          else log_RedisDebug ''Redis command executed'' fs)"

definition logPipeline :: "RedisHook \<Rightarrow> log_ctx option \<Rightarrow> redis_command list \<Rightarrow> redis_error option \<Rightarrow> duration \<Rightarrow> log_entry" where
  "logPipeline h ctx cmds err elapsed =
     (let cmdCount = length cmds;
          fs = [IntF ''command_count'' (int cmdCount), elapsed_ms elapsed] @ TraceFields ctx
            @ (if 0 < cmdCount \<and> cmdCount \<le> 10 then [TextF ''commands'' (strings_Join (map rd_name cmds) '', '')] else []) in
      case err of
        Some e \<Rightarrow> log_RedisError ''Redis pipeline failed'' (fs @ [TextF ''error'' (redis_error_text e)])
      | None \<Rightarrow>
          if elapsed > rh_slow h then
            log_RedisWarn ''Redis slow pipeline'' (fs @ [TextF ''event'' ''slow_pipeline'', DurationF ''slow_threshold'' (rh_slow h)])
          else log_RedisDebug ''Redis pipeline executed'' fs)"

text \<open>The hooks, around the operation \<open>next\<close> on the world.\<close>

definition DialHook ::
    "RedisHook \<Rightarrow> duration \<Rightarrow> (string \<Rightarrow> string \<Rightarrow> 'w \<Rightarrow> (string + 'c) \<times> 'w) \<Rightarrow> string \<Rightarrow> string \<Rightarrow> 'w
     \<Rightarrow> (string + 'c) \<times> log_entry list \<times> 'w" where
  "DialHook h elapsed next_h network addr w =
     (case next_h network addr w of (r, w') \<Rightarrow>
        if \<not> rh_enabled h then (r, [], w')
        else
          (let fs = [TextF ''network'' network, TextF ''addr'' addr, elapsed_ms elapsed] in
           case r of
             Inl e \<Rightarrow> (r, [log_RedisError ''Redis dial failed'' (fs @ [TextF ''error'' e])], w')
           | Inr _ \<Rightarrow> (r, [log_RedisDebug ''Redis dial success'' fs], w')))"

definition ProcessHook ::
    "RedisHook \<Rightarrow> duration \<Rightarrow> (redis_command \<Rightarrow> 'w \<Rightarrow> redis_error option \<times> 'w) \<Rightarrow> log_ctx option \<Rightarrow> redis_command \<Rightarrow> 'w
     \<Rightarrow> redis_error option \<times> log_entry list \<times> 'w" where
  "ProcessHook h elapsed next_h ctx cmd w =
     (case next_h cmd w of (err, w') \<Rightarrow>
        if \<not> rh_enabled h then (err, [], w') else (err, [logCommand h ctx cmd err elapsed], w'))"

definition ProcessPipelineHook ::
    "RedisHook \<Rightarrow> duration \<Rightarrow> (redis_command list \<Rightarrow> 'w \<Rightarrow> redis_error option \<times> 'w) \<Rightarrow> log_ctx option
     \<Rightarrow> redis_command list \<Rightarrow> 'w \<Rightarrow> redis_error option \<times> log_entry list \<times> 'w" where
  "ProcessPipelineHook h elapsed next_h ctx cmds w =
     (case next_h cmds w of (err, w') \<Rightarrow>
        if \<not> rh_enabled h then (err, [], w') else (err, [logPipeline h ctx cmds err elapsed], w'))"

text \<open>
  What a Redis command shows in the log. Its text has at most 503 bytes; the arguments of
  \<open>AUTH\<close> and \<open>HELLO\<close>, the credentials, do not show but for their number. Other commands carry
  credentials too: the password of \<open>CONFIG SET requirepass\<close> is written.
\<close>
theorem command_texts_hide_credentials:
  "rd_args c \<noteq> [] \<Longrightarrow> length (formatRedisCommand c) \<le> 503"
  "rd_name c = rd_name d \<Longrightarrow> length (rd_args c) = length (rd_args d) \<Longrightarrow> to_upper (rd_name c) \<in> {''AUTH'', ''HELLO''}
    \<Longrightarrow> rd_args c \<noteq> [] \<Longrightarrow> formatRedisCommand c = formatRedisCommand d"
  "formatRedisCommand \<lparr>rd_name = ''config'', rd_args = [''config'', ''set'', ''requirepass'', ''s3cret'']\<rparr>
    = ''CONFIG set requirepass s3cret''"
proof -
  assume "rd_args c \<noteq> []"
  then obtain a args where "rd_args c = a # args" by (cases "rd_args c") auto
  then show "length (formatRedisCommand c) \<le> 503"
    using length_cut_off [of 500 "''...''"] by (simp add: formatRedisCommand_def Let_def)
next
  assume n: "rd_name c = rd_name d" and l: "length (rd_args c) = length (rd_args d)"
    and m: "to_upper (rd_name c) \<in> {''AUTH'', ''HELLO''}" and ne: "rd_args c \<noteq> []"
  from ne l obtain a args b brgs where c: "rd_args c = a # args" and d: "rd_args d = b # brgs"
    by (cases "rd_args c"; cases "rd_args d") auto
  have "map (\<lambda>arg. ''***'') args = map (\<lambda>arg. ''***'') brgs" using l c d by (simp add: map_replicate_const)
  then show "formatRedisCommand c = formatRedisCommand d" using n m unfolding formatRedisCommand_def c d by (auto simp: Let_def)
next
  show "formatRedisCommand \<lparr>rd_name = ''config'', rd_args = [''config'', ''set'', ''requirepass'', ''s3cret'']\<rparr>
    = ''CONFIG set requirepass s3cret''" by code_simp
qed

lemma command_texts_hide_credentials_witness:
  "length (formatRedisCommand \<lparr>rd_name = ''get'', rd_args = [''get'', ''k'']\<rparr>) \<le> 503"
  "formatRedisCommand \<lparr>rd_name = ''auth'', rd_args = [''auth'', ''p1'']\<rparr> = formatRedisCommand \<lparr>rd_name = ''auth'', rd_args = [''auth'', ''p2'']\<rparr>"
proof -
  show "length (formatRedisCommand \<lparr>rd_name = ''get'', rd_args = [''get'', ''k'']\<rparr>) \<le> 503"
    by (rule command_texts_hide_credentials(1)) simp
  have "to_upper ''auth'' \<in> {''AUTH'', ''HELLO''}" by code_simp
  then show "formatRedisCommand \<lparr>rd_name = ''auth'', rd_args = [''auth'', ''p1'']\<rparr>
      = formatRedisCommand \<lparr>rd_name = ''auth'', rd_args = [''auth'', ''p2'']\<rparr>"
    by (intro command_texts_hide_credentials(2)) simp_all
qed

text \<open>
  The hooks do not change what a command, a pipeline or a dial answers, nor what it does,
  and write one record, an error when the operation failed. They do not agree on \<open>redis.Nil\<close>,
  the answer for a key that does not exist: for a command it is no failure, for a pipeline,
  whose answer is the first error of its commands, the same answer is logged as an error.
\<close>
theorem hooks_do_not_interfere:
  assumes "rh_enabled h" and "run cmd w = (err, w')" and "run_all cmds w = (err, w')" and "dial network addr w = (r, w')"
  shows "ProcessHook h elapsed run ctx cmd w = (err, [logCommand h ctx cmd err elapsed], w')"
    and "ProcessPipelineHook h elapsed run_all ctx cmds w = (err, [logPipeline h ctx cmds err elapsed], w')"
    and "\<exists>e. DialHook h elapsed dial network addr w = (r, [e], w') \<and> (le_level e = ErrorLevel \<longleftrightarrow> (\<exists>x. r = Inl x))"
    and "le_level (logCommand h ctx cmd err elapsed) = ErrorLevel \<longleftrightarrow> err \<noteq> None \<and> err \<noteq> Some RedisNil"
    and "le_level (logPipeline h ctx cmds err elapsed) = ErrorLevel \<longleftrightarrow> err \<noteq> None"
    and "err = None \<Longrightarrow> le_level (logCommand h ctx cmd err elapsed) = le_level (logPipeline h ctx cmds err elapsed)"
proof -
  show "\<exists>e. DialHook h elapsed dial network addr w = (r, [e], w') \<and> (le_level e = ErrorLevel \<longleftrightarrow> (\<exists>x. r = Inl x))"
    using assms by (cases r) (simp_all add: DialHook_def typed_defs)
  show "le_level (logCommand h ctx cmd err elapsed) = ErrorLevel \<longleftrightarrow> err \<noteq> None \<and> err \<noteq> Some RedisNil"
    by (cases err; cases "the err") (simp_all add: logCommand_def typed_defs Let_def)
  show "le_level (logPipeline h ctx cmds err elapsed) = ErrorLevel \<longleftrightarrow> err \<noteq> None"
    by (cases err) (simp_all add: logPipeline_def typed_defs Let_def)
  show "err = None \<Longrightarrow> le_level (logCommand h ctx cmd err elapsed) = le_level (logPipeline h ctx cmds err elapsed)"
    by (simp add: logPipeline_def logCommand_def typed_defs Let_def)
qed (use assms in \<open>simp_all add: ProcessHook_def ProcessPipelineHook_def\<close>)

lemma hooks_do_not_interfere_witness:
  "ProcessHook DefaultRedisHookConfig 5 (\<lambda>_ w. (Some RedisNil, Suc w)) None \<lparr>rd_name = ''get'', rd_args = [''get'', ''k'']\<rparr> 0
    = (Some RedisNil, [logCommand DefaultRedisHookConfig None \<lparr>rd_name = ''get'', rd_args = [''get'', ''k'']\<rparr> (Some RedisNil) 5], 1)"
proof -
  have "rh_enabled DefaultRedisHookConfig" by (simp add: DefaultRedisHookConfig_def)
  from hooks_do_not_interfere(1) [OF this, where run = "\<lambda>_ w. (Some RedisNil, Suc w)" and run_all = "\<lambda>_ w. (Some RedisNil, Suc w)"
      and dial = "\<lambda>_ _ w. (Inr (), Suc w)"]
  show ?thesis by simp
qed

section \<open>gorm\<close>

definition GormSilent :: int where "GormSilent = 1"
definition GormError :: int where "GormError = 2"
definition GormWarn :: int where "GormWarn = 3"
definition GormInfo :: int where "GormInfo = 4"

record GormConfig =
  gl_SlowThreshold :: duration
  gl_Colorful :: bool
  gl_LogLevel :: int

definition DefaultGormConfig :: GormConfig where
  "DefaultGormConfig = \<lparr>gl_SlowThreshold = default_slow, gl_Colorful = False, gl_LogLevel = GormInfo\<rparr>"

definition NewGormLogger :: "int \<Rightarrow> GormConfig" where
  "NewGormLogger level = \<lparr>gl_SlowThreshold = default_slow, gl_Colorful = False, gl_LogLevel = level\<rparr>"

definition LogMode :: "GormConfig \<Rightarrow> int \<Rightarrow> GormConfig" where
  "LogMode l level = l\<lparr>gl_LogLevel := level\<rparr>"

text \<open>
  \<open>gormFileWithLineNum\<close>: of the frames 4 to 14 of the stack, the first known one outside a
  test: its file with its directory, and its line. \<open>short\<close> keeps the last directory of a path
  (the functions of \<open>path/filepath\<close>).
\<close>

definition gormFileWithLineNum :: "(string \<Rightarrow> string) \<Rightarrow> (nat \<Rightarrow> (string \<times> int) option) \<Rightarrow> string" where
  "gormFileWithLineNum short caller =
     (case filter (\<lambda>f. \<not> has_suffix (fst f) ''_test.go'') (List.map_filter caller [4..<15]) of
        [] \<Rightarrow> []
      | (file, line) # _ \<Rightarrow> short file @ '':'' @ int_text line)"

definition logWithLevel :: "string \<Rightarrow> log_ctx option \<Rightarrow> int \<Rightarrow> string \<Rightarrow> log_entry" where
  "logWithLevel caller ctx level formatted =
     (let fs = [TextF ''caller'' caller, TextF ''message'' formatted] @ TraceFields ctx in
      if level = GormError then log_SQLError ''GORM error'' fs
      else if level = GormWarn then log_SQLWarn ''GORM warning'' fs
      else log_SQL ''GORM info'' fs)"

text \<open>The message is formatted (\<open>fmt\<close>, the argument \<open>sprintf\<close>) only when there is data.\<close>

definition format_message :: "(string \<Rightarrow> string list \<Rightarrow> string) \<Rightarrow> string \<Rightarrow> string list \<Rightarrow> string" where
  "format_message sprintf msg data = (if 0 < length data then sprintf msg data else msg)"

definition gl_Info where
  "gl_Info sprintf caller l ctx msg data =
     (if gl_LogLevel l \<ge> GormInfo then Some (logWithLevel caller ctx GormInfo (format_message sprintf msg data)) else None)"

definition gl_Warn where
  "gl_Warn sprintf caller l ctx msg data =
     (if gl_LogLevel l \<ge> GormWarn then Some (logWithLevel caller ctx GormWarn (format_message sprintf msg data)) else None)"

definition gl_Error where
  "gl_Error sprintf caller l ctx msg data =
     (if gl_LogLevel l \<ge> GormError then Some (logWithLevel caller ctx GormError (format_message sprintf msg data)) else None)"

definition gl_traceFields :: "string \<Rightarrow> log_ctx option \<Rightarrow> string \<Rightarrow> int \<Rightarrow> duration \<Rightarrow> Field list" where
  "gl_traceFields caller ctx sql rows elapsed =
     [TextF ''caller'' caller, TextF ''sql'' sql, elapsed_ms elapsed]
     @ [if rows \<ge> 0 then IntF ''rows'' rows else TextF ''rows'' ''-1''] @ TraceFields ctx"

definition gl_Trace ::
    "string \<Rightarrow> GormConfig \<Rightarrow> log_ctx option \<Rightarrow> duration \<Rightarrow> string \<times> int \<Rightarrow> string option \<Rightarrow> log_entry option" where
  "gl_Trace caller l ctx elapsed statement err =
     (let fs = gl_traceFields caller ctx (fst statement) (snd statement) elapsed in
      if gl_LogLevel l \<le> 0 then None
      else if err \<noteq> None \<and> gl_LogLevel l \<ge> GormError then
        Some (log_SQLError ''GORM trace failed'' (fs @ [TextF ''error'' (the err)]))
      else if elapsed > gl_SlowThreshold l \<and> gl_SlowThreshold l \<noteq> 0 \<and> gl_LogLevel l \<ge> GormWarn then
        Some (log_SQLWarn ''GORM slow query''
          (fs @ [TextF ''event'' ''slow_query'', DurationF ''slow_threshold'' (gl_SlowThreshold l)]))
      else if gl_LogLevel l \<ge> GormInfo then Some (log_SQLDebug ''GORM trace'' fs)
      else None)"

text \<open>
  The levels of the SQL log. A record written at a level is written unchanged at every
  higher one, the levels up to silent write nothing, the level of errors only failed
  statements, that of warnings also slow ones, and from the level of information on there is
  one record per statement. Every error is a failed statement, that of a query without a row
  included, and a failed statement is never reported as slow.
\<close>
theorem sql_levels:
  "gl_Trace caller l ctx elapsed st err = Some e \<Longrightarrow> gl_LogLevel l \<le> level \<Longrightarrow> gl_Trace caller (LogMode l level) ctx elapsed st err = Some e"
  "gl_LogLevel l \<le> GormSilent \<Longrightarrow> gl_Trace caller l ctx elapsed st err = None \<and> gl_Info sp caller l ctx msg data = None
    \<and> gl_Warn sp caller l ctx msg data = None \<and> gl_Error sp caller l ctx msg data = None"
  "gl_LogLevel l = GormError \<Longrightarrow> gl_Trace caller l ctx elapsed st err \<noteq> None \<longleftrightarrow> err \<noteq> None"
  "gl_LogLevel l = GormWarn \<Longrightarrow> gl_Trace caller l ctx elapsed st err \<noteq> None
    \<longleftrightarrow> err \<noteq> None \<or> gl_SlowThreshold l \<noteq> 0 \<and> gl_SlowThreshold l < elapsed"
  "gl_LogLevel l \<ge> GormInfo \<Longrightarrow> gl_Trace caller l ctx elapsed st err \<noteq> None"
  "gl_Trace caller l ctx elapsed st (Some x) = Some e \<Longrightarrow> le_level e = ErrorLevel"
proof -
  note levels = GormSilent_def GormError_def GormWarn_def GormInfo_def
  show "gl_Trace caller l ctx elapsed st err = Some e \<Longrightarrow> gl_LogLevel l \<le> level \<Longrightarrow> gl_Trace caller (LogMode l level) ctx elapsed st err = Some e"
    by (auto simp add: gl_Trace_def LogMode_def levels Let_def split: if_splits)
  show "gl_LogLevel l \<le> GormSilent \<Longrightarrow> gl_Trace caller l ctx elapsed st err = None \<and> gl_Info sp caller l ctx msg data = None
    \<and> gl_Warn sp caller l ctx msg data = None \<and> gl_Error sp caller l ctx msg data = None"
    by (simp add: gl_Trace_def gl_Info_def gl_Warn_def gl_Error_def levels Let_def)
  show "gl_LogLevel l = GormError \<Longrightarrow> gl_Trace caller l ctx elapsed st err \<noteq> None \<longleftrightarrow> err \<noteq> None"
    by (simp add: gl_Trace_def levels Let_def)
  show "gl_LogLevel l = GormWarn \<Longrightarrow> gl_Trace caller l ctx elapsed st err \<noteq> None
    \<longleftrightarrow> err \<noteq> None \<or> gl_SlowThreshold l \<noteq> 0 \<and> gl_SlowThreshold l < elapsed"
    by (auto simp add: gl_Trace_def levels Let_def)
  show "gl_LogLevel l \<ge> GormInfo \<Longrightarrow> gl_Trace caller l ctx elapsed st err \<noteq> None"
    by (simp add: gl_Trace_def levels Let_def)
  show "gl_Trace caller l ctx elapsed st (Some x) = Some e \<Longrightarrow> le_level e = ErrorLevel"
    by (simp add: gl_Trace_def levels Let_def typed_defs split: if_splits) (metis log_entry.select_convs(1))
qed

lemma sql_levels_witness:
  "\<exists>e. gl_Trace ''a.go:1'' (NewGormLogger GormInfo) None 5 (''SELECT 1'', 1) (Some ''record not found'') = Some e \<and> le_level e = ErrorLevel"
proof -
  have e: "gl_Trace ''a.go:1'' (NewGormLogger GormInfo) None 5 (''SELECT 1'', 1) (Some ''record not found'')
    = Some (log_SQLError ''GORM trace failed'' (gl_traceFields ''a.go:1'' None ''SELECT 1'' 1 5 @ [TextF ''error'' ''record not found'']))"
    by (simp add: gl_Trace_def NewGormLogger_def GormInfo_def GormError_def Let_def)
  from sql_levels(6) [OF this] e show ?thesis by blast
qed

section \<open>MongoDB\<close>

subsection \<open>The hook\<close>

record MongoHook =
  mh_enabled :: bool
  mh_slowThreshold :: duration
  mh_logCommandDetail :: bool
  mh_logReplyDetail :: bool
  mh_logHeartbeat :: bool
  mh_logStarted :: bool
  mh_ignoredCommands :: "string list"
  mh_slowReadThreshold :: duration
  mh_slowWriteThreshold :: duration

definition default_ignored :: "string list" where
  "default_ignored = [''hello'', ''isMaster'', ''ismaster'', ''ping'', ''saslStart'', ''saslContinue'']"

text \<open>A configuration has the fields of the hook it configures.\<close>

definition DefaultMongoHookConfig :: MongoHook where
  "DefaultMongoHookConfig = \<lparr>mh_enabled = True, mh_slowThreshold = default_slow, mh_logCommandDetail = True,
     mh_logReplyDetail = False, mh_logHeartbeat = False, mh_logStarted = False, mh_ignoredCommands = default_ignored,
     mh_slowReadThreshold = 0, mh_slowWriteThreshold = 0\<rparr>"

definition NewMongoHook :: "bool \<Rightarrow> duration \<Rightarrow> MongoHook" where
  "NewMongoHook enabled slow = \<lparr>mh_enabled = enabled, mh_slowThreshold = (if slow \<le> 0 then default_slow else slow),
     mh_logCommandDetail = True, mh_logReplyDetail = False, mh_logHeartbeat = False, mh_logStarted = False,
     mh_ignoredCommands = default_ignored, mh_slowReadThreshold = 0, mh_slowWriteThreshold = 0\<rparr>"

definition NewMongoHookWithConfig :: "MongoHook \<Rightarrow> MongoHook" where
  "NewMongoHookWithConfig config = config\<lparr>
     mh_slowThreshold := (if mh_slowThreshold config \<le> 0 then default_slow else mh_slowThreshold config),
     mh_ignoredCommands := (if length (mh_ignoredCommands config) = 0 then default_ignored else mh_ignoredCommands config)\<rparr>"

definition isIgnoredCommand :: "MongoHook \<Rightarrow> string \<Rightarrow> bool" where
  "isIgnoredCommand h name = list_ex (\<lambda>ignored. equal_fold name ignored) (mh_ignoredCommands h)"

definition isWriteCommand :: "string \<Rightarrow> bool" where
  "isWriteCommand name =
     list_ex (\<lambda>w. to_lower name = w) [''insert'', ''update'', ''delete'', ''findAndModify'', ''findandmodify'']"

definition getSlowThreshold :: "MongoHook \<Rightarrow> string \<Rightarrow> duration" where
  "getSlowThreshold h name =
     (if isWriteCommand name \<and> mh_slowWriteThreshold h > 0 then mh_slowWriteThreshold h
      else if \<not> isWriteCommand name \<and> mh_slowReadThreshold h > 0 then mh_slowReadThreshold h
      else mh_slowThreshold h)"

subsection \<open>What is shown of a command\<close>

text \<open>
  A command: its elements in order, of which the hook reads texts and the lengths of arrays,
  and its text. \<open>Lookup\<close> of the driver finds the first element of a name.
\<close>

datatype bson = BString string | BArray nat | BOther

record raw_command =
  rw_elements :: "(string \<times> bson) list"
  rw_text :: string

definition lookup_bson :: "raw_command option \<Rightarrow> string \<Rightarrow> bson" where
  "lookup_bson cmd key =
     (case cmd of None \<Rightarrow> BOther | Some c \<Rightarrow> (case map_of (rw_elements c) key of None \<Rightarrow> BOther | Some v \<Rightarrow> v))"

definition extractCollectionName :: "raw_command option \<Rightarrow> string \<Rightarrow> string" where
  "extractCollectionName cmd name = (case lookup_bson cmd name of BString s \<Rightarrow> s | _ \<Rightarrow> [])"

definition count_part :: "bson \<Rightarrow> string list" where
  "count_part v = (case v of BArray n \<Rightarrow> [''count:'' @ nat_text n] | _ \<Rightarrow> [])"

definition extractSafeMetadata :: "raw_command \<Rightarrow> string \<Rightarrow> string" where
  "extractSafeMetadata cmd name =
     (let el = lookup_bson (Some cmd); lower = to_lower name;
          parts = (case el name of BString s \<Rightarrow> [''collection:'' @ s] | _ \<Rightarrow> [])
            @ (if lower = ''insert'' then count_part (el ''documents'')
               else if lower = ''update'' \<or> lower = ''delete'' then
                 (case el ''updates'' of BArray n \<Rightarrow> count_part (BArray n) | _ \<Rightarrow> count_part (el ''deletes''))
               else [])
      in if length parts > 0 then ''{'' @ strings_Join parts '', '' @ ''}'' else ''{metadata: not available}'')"

definition authCommands :: "string list" where
  "authCommands = [''saslStart'', ''saslContinue'', ''authenticate'', ''getnonce'']"

definition sanitizeCommand :: "raw_command \<Rightarrow> string \<Rightarrow> string" where
  "sanitizeCommand cmd name =
     (if list_ex (equal_fold name) authCommands then ''[REDACTED: authentication command]''
      else if isWriteCommand name then extractSafeMetadata cmd name
      else cut_off 500 ''... [truncated]'' (rw_text cmd))"

definition sanitizeReply :: string where
  "sanitizeReply = ''[summary: ok, affected docs info available]''"

subsection \<open>The monitors\<close>

record commandInfo =
  ci_database :: string
  ci_collection :: string
  ci_query :: string
  ci_ctx :: "log_ctx option"

type_synonym command_cache = "int \<rightharpoonup> commandInfo"

record started_event =
  se_RequestID :: int
  se_DatabaseName :: string
  se_CommandName :: string
  se_ConnectionID :: string
  se_Command :: "raw_command option"

record finished_event =
  fe_RequestID :: int
  fe_CommandName :: string
  fe_ConnectionID :: string
  fe_Duration :: duration

text \<open>An event has its context; a success says whether it has a reply, a failure its text.\<close>

datatype command_event =
    Started "log_ctx option" started_event
  | Succeeded "log_ctx option" finished_event bool
  | Failed "log_ctx option" finished_event string

definition logCommandStarted ::
    "MongoHook \<Rightarrow> log_ctx option \<Rightarrow> started_event \<Rightarrow> command_cache \<Rightarrow> command_cache \<times> log_entry list" where
  "logCommandStarted h ctx e cache =
     (if isIgnoredCommand h (se_CommandName e) then (cache, [])
      else
        (let collection = extractCollectionName (se_Command e) (se_CommandName e);
             query = (if mh_logCommandDetail h then map_option (\<lambda>cmd. sanitizeCommand cmd (se_CommandName e)) (se_Command e) else None);
             cache' = (case query of
                 None \<Rightarrow> cache
               | Some q \<Rightarrow> cache(se_RequestID e \<mapsto>
                   \<lparr>ci_database = se_DatabaseName e, ci_collection = collection, ci_query = q, ci_ctx = ctx\<rparr>))
         in if \<not> mh_logStarted h then (cache', [])
            else
              (cache', [log_MongoDebug ''MongoDB command started''
                 ([IntF ''request_id'' (se_RequestID e), TextF ''database'' (se_DatabaseName e),
                   TextF ''command'' (se_CommandName e), TextF ''connection_id'' (se_ConnectionID e)]
                  @ (if collection \<noteq> [] then [TextF ''collection'' collection] else [])
                  @ TraceFields ctx
                  @ (case query of None \<Rightarrow> [] | Some q \<Rightarrow> [TextF ''query'' q]))])))"

text \<open>What the records of an end have of the start, if it is remembered.\<close>

definition start_fields :: "log_ctx option \<Rightarrow> commandInfo option \<Rightarrow> Field list" where
  "start_fields ctx info =
     (case info of
        None \<Rightarrow> TraceFields ctx
      | Some i \<Rightarrow>
          TextF ''database'' (ci_database i)
          # (if ci_collection i \<noteq> [] then [TextF ''collection'' (ci_collection i)] else [])
          @ (if ci_query i \<noteq> [] then [TextF ''query'' (ci_query i)] else [])
          @ TraceFields (ci_ctx i))"

definition end_fields :: "finished_event \<Rightarrow> Field list" where
  "end_fields e = [IntF ''request_id'' (fe_RequestID e), TextF ''command'' (fe_CommandName e),
     TextF ''connection_id'' (fe_ConnectionID e), elapsed_ms (fe_Duration e)]"

definition logCommandSucceeded ::
    "MongoHook \<Rightarrow> log_ctx option \<Rightarrow> finished_event \<Rightarrow> bool \<Rightarrow> command_cache \<Rightarrow> command_cache \<times> log_entry list" where
  "logCommandSucceeded h ctx e has_reply cache =
     (if isIgnoredCommand h (fe_CommandName e) then (cache, [])
      else
        (let slow = getSlowThreshold h (fe_CommandName e);
             fs = end_fields e @ start_fields ctx (cache (fe_RequestID e))
               @ (if mh_logReplyDetail h \<and> fe_Duration e > slow \<and> has_reply then [TextF ''reply'' sanitizeReply] else [])
         in (cache(fe_RequestID e := None),
             [if fe_Duration e > slow then
                log_MongoWarn ''MongoDB slow command'' (fs @ [TextF ''event'' ''slow_command'', DurationF ''slow_threshold'' slow])
              else log_MongoDebug ''MongoDB command succeeded'' fs])))"

definition logCommandFailed ::
    "MongoHook \<Rightarrow> log_ctx option \<Rightarrow> finished_event \<Rightarrow> string \<Rightarrow> command_cache \<Rightarrow> command_cache \<times> log_entry list" where
  "logCommandFailed h ctx e failure cache =
     (cache(fe_RequestID e := None),
      [log_MongoError ''MongoDB command failed''
         (end_fields e @ [TextF ''error'' failure] @ start_fields ctx (cache (fe_RequestID e)))])"

fun monitor :: "MongoHook \<Rightarrow> command_event \<Rightarrow> command_cache \<Rightarrow> command_cache \<times> log_entry list" where
  "monitor h (Started ctx e) cache = logCommandStarted h ctx e cache"
| "monitor h (Succeeded ctx e r) cache = logCommandSucceeded h ctx e r cache"
| "monitor h (Failed ctx e failure) cache = logCommandFailed h ctx e failure cache"

definition CommandMonitor :: "MongoHook \<Rightarrow> (command_event \<Rightarrow> command_cache \<Rightarrow> command_cache \<times> log_entry list) option" where
  "CommandMonitor h = (if \<not> mh_enabled h then None else Some (monitor h))"

datatype pool_event_type =
    PoolCreated | PoolCleared | PoolClosedEvent | ConnectionCreated | ConnectionReady | ConnectionClosed
  | GetStarted | GetSucceeded | GetFailed | OtherPoolEvent

record pool_event =
  pv_Type :: pool_event_type
  pv_Address :: string
  pv_ConnectionID :: nat
  pv_Reason :: string

definition logPoolEvent :: "pool_event \<Rightarrow> log_entry list" where
  "logPoolEvent e =
     (let address = TextF ''address'' (pv_Address e); connection = UintF ''connection_id'' (pv_ConnectionID e);
          reason = TextF ''reason'' (pv_Reason e) in
      case pv_Type e of
        PoolCreated \<Rightarrow> [log_Mongo ''MongoDB connection pool created'' [address]]
      | PoolCleared \<Rightarrow> [log_Mongo ''MongoDB connection pool cleared'' [address]]
      | PoolClosedEvent \<Rightarrow> [log_Mongo ''MongoDB connection pool closed'' [address]]
      | ConnectionCreated \<Rightarrow> [log_MongoDebug ''MongoDB connection created'' [address, connection]]
      | ConnectionReady \<Rightarrow> [log_MongoDebug ''MongoDB connection ready'' [address, connection]]
      | ConnectionClosed \<Rightarrow> [log_MongoDebug ''MongoDB connection closed'' [address, connection, reason]]
      | GetStarted \<Rightarrow> []
      | GetSucceeded \<Rightarrow> [log_MongoDebug ''MongoDB connection get succeeded'' [address, connection]]
      | GetFailed \<Rightarrow> [log_MongoWarn ''MongoDB connection get failed'' [address, reason]]
      | OtherPoolEvent \<Rightarrow> [])"

definition PoolMonitor :: "MongoHook \<Rightarrow> (pool_event \<Rightarrow> log_entry list) option" where
  "PoolMonitor h = (if \<not> mh_enabled h then None else Some logPoolEvent)"

datatype heartbeat = HeartbeatStarted string | HeartbeatSucceeded string duration | HeartbeatFailed string duration string

fun log_heartbeat :: "MongoHook \<Rightarrow> heartbeat \<Rightarrow> log_entry list" where
  "log_heartbeat h (HeartbeatStarted conn) =
     (if mh_logHeartbeat h then [log_MongoDebug ''MongoDB heartbeat started'' [TextF ''connection_id'' conn]] else [])"
| "log_heartbeat h (HeartbeatSucceeded conn d) =
     (if mh_logHeartbeat h then
        [log_MongoDebug ''MongoDB heartbeat succeeded''
           [TextF ''connection_id'' conn, FloatF ''duration_ms'' (of_int d / 1000000)]]
      else [])"
| "log_heartbeat h (HeartbeatFailed conn d failure) =
     [log_MongoWarn ''MongoDB heartbeat failed''
        [TextF ''connection_id'' conn, FloatF ''duration_ms'' (of_int d / 1000000), TextF ''error'' failure]]"

definition ServerMonitor :: "MongoHook \<Rightarrow> (heartbeat \<Rightarrow> log_entry list) option" where
  "ServerMonitor h = (if \<not> mh_enabled h then None else Some (log_heartbeat h))"

subsection \<open>Properties\<close>

text \<open>The settings a hook is made with are sound: every command has a positive threshold.\<close>

definition hook_ok :: "MongoHook \<Rightarrow> bool" where
  "hook_ok h \<longleftrightarrow> 0 < mh_slowThreshold h \<and> mh_ignoredCommands h \<noteq> []"

text \<open>
  Every way to make a hook gives a sound one, whatever the configuration: some command is
  ignored and the threshold of every command is positive; the default configuration gives the
  default hook. A monitor is there exactly when the hook is enabled, and a heartbeat that
  failed is recorded whatever the settings are.
\<close>
theorem mongo_hooks_are_sound:
  "hook_ok (NewMongoHook enabled slow) \<and> hook_ok (NewMongoHookWithConfig config)
    \<and> (NewMongoHookWithConfig DefaultMongoHookConfig = NewMongoHook True slow0 \<longleftrightarrow> slow0 \<le> 0 \<or> slow0 = default_slow)
    \<and> 0 < getSlowThreshold (NewMongoHookWithConfig config) name
    \<and> (CommandMonitor h = None \<longleftrightarrow> \<not> mh_enabled h) \<and> (PoolMonitor h = None \<longleftrightarrow> \<not> mh_enabled h)
    \<and> (ServerMonitor h = None \<longleftrightarrow> \<not> mh_enabled h) \<and> length (log_heartbeat h (HeartbeatFailed c d failure)) = 1"
proof -
  have "0 < default_slow" by (simp add: default_slow_def millisecond_def)
  then show ?thesis
    by (auto simp: hook_ok_def NewMongoHook_def NewMongoHookWithConfig_def DefaultMongoHookConfig_def default_ignored_def
        getSlowThreshold_def CommandMonitor_def PoolMonitor_def ServerMonitor_def)
qed

text \<open>
  What the text of a MongoDB command shows. That of an authentication shows nothing; that
  of a write depends on the name of its collection and the number of its statements only, not
  on its data; any other command is shown as it is, with the values it asks for, up to 500
  bytes and a mark.
\<close>
theorem command_texts_are_sanitized:
  "to_lower name \<in> set (map to_lower authCommands) \<Longrightarrow> sanitizeCommand c name = sanitizeCommand d name"
  "isWriteCommand name \<Longrightarrow> list_all (\<lambda>k. lookup_bson (Some c) k = lookup_bson (Some d) k) [name, ''documents'', ''updates'', ''deletes'']
    \<Longrightarrow> sanitizeCommand c name = sanitizeCommand d name"
  "to_lower name \<notin> set (map to_lower authCommands) \<Longrightarrow> \<not> isWriteCommand name
    \<Longrightarrow> sanitizeCommand c name = cut_off 500 ''... [truncated]'' (rw_text c) \<and> length (sanitizeCommand c name) \<le> 515"
proof -
  have auth: "list_ex (equal_fold name) authCommands \<longleftrightarrow> to_lower name \<in> set (map to_lower authCommands)"
    by (auto simp: authCommands_def equal_fold_def)
  show "to_lower name \<in> set (map to_lower authCommands) \<Longrightarrow> sanitizeCommand c name = sanitizeCommand d name"
    unfolding sanitizeCommand_def auth by simp
  show "isWriteCommand name \<Longrightarrow> list_all (\<lambda>k. lookup_bson (Some c) k = lookup_bson (Some d) k) [name, ''documents'', ''updates'', ''deletes'']
    \<Longrightarrow> sanitizeCommand c name = sanitizeCommand d name"
    by (cases "lookup_bson (Some d) ''updates''") (simp_all add: sanitizeCommand_def extractSafeMetadata_def Let_def)
  show "to_lower name \<notin> set (map to_lower authCommands) \<Longrightarrow> \<not> isWriteCommand name
    \<Longrightarrow> sanitizeCommand c name = cut_off 500 ''... [truncated]'' (rw_text c) \<and> length (sanitizeCommand c name) \<le> 515"
    using length_cut_off [of 500 "''... [truncated]''" "rw_text c"] unfolding sanitizeCommand_def auth by simp
qed

lemma command_texts_are_sanitized_witness:
  "sanitizeCommand \<lparr>rw_elements = [(''saslStart'', BOther)], rw_text = ''a''\<rparr> ''saslstart''
    = sanitizeCommand \<lparr>rw_elements = [], rw_text = ''b''\<rparr> ''saslstart''"
  "sanitizeCommand \<lparr>rw_elements = [(''insert'', BString ''users''), (''documents'', BArray 2)], rw_text = ''a''\<rparr> ''insert''
    = sanitizeCommand \<lparr>rw_elements = [(''insert'', BString ''users''), (''documents'', BArray 2)], rw_text = ''b''\<rparr> ''insert''"
proof -
  have "to_lower ''saslstart'' \<in> set (map to_lower authCommands)" by code_simp
  then show "sanitizeCommand \<lparr>rw_elements = [(''saslStart'', BOther)], rw_text = ''a''\<rparr> ''saslstart''
    = sanitizeCommand \<lparr>rw_elements = [], rw_text = ''b''\<rparr> ''saslstart''" by (rule command_texts_are_sanitized(1))
  have "isWriteCommand ''insert''" by code_simp
  then show "sanitizeCommand \<lparr>rw_elements = [(''insert'', BString ''users''), (''documents'', BArray 2)], rw_text = ''a''\<rparr> ''insert''
    = sanitizeCommand \<lparr>rw_elements = [(''insert'', BString ''users''), (''documents'', BArray 2)], rw_text = ''b''\<rparr> ''insert''"
    by (rule command_texts_are_sanitized(2)) (simp add: lookup_bson_def)
qed

text \<open>
  The events of a hook, the latest first: the cache they leave, the command of a request that
  has started and not ended, and what the driver keeps of the events: a request's number is not
  used again before its end, and the end names the command of the start.
\<close>

fun cache_after :: "MongoHook \<Rightarrow> command_event list \<Rightarrow> command_cache" where
  "cache_after h [] = Map.empty"
| "cache_after h (e # es) = fst (monitor h e (cache_after h es))"

fun pending :: "command_event list \<Rightarrow> int \<Rightarrow> (log_ctx option \<times> started_event) option" where
  "pending [] i = None"
| "pending (Started ctx e # es) i = (if se_RequestID e = i then Some (ctx, e) else pending es i)"
| "pending (Succeeded ctx e r # es) i = (if fe_RequestID e = i then None else pending es i)"
| "pending (Failed ctx e f # es) i = (if fe_RequestID e = i then None else pending es i)"

fun driver_order :: "command_event list \<Rightarrow> bool" where
  "driver_order [] \<longleftrightarrow> True"
| "driver_order (Started ctx e # es) \<longleftrightarrow> pending es (se_RequestID e) = None \<and> driver_order es"
| "driver_order (Succeeded ctx e r # es) \<longleftrightarrow>
     (\<exists>s. map_option snd (pending es (fe_RequestID e)) = Some s \<and> se_CommandName s = fe_CommandName e) \<and> driver_order es"
| "driver_order (Failed ctx e f # es) \<longleftrightarrow>
     (\<exists>s. map_option snd (pending es (fe_RequestID e)) = Some s \<and> se_CommandName s = fe_CommandName e) \<and> driver_order es"

definition remembered :: "MongoHook \<Rightarrow> (log_ctx option \<times> started_event) option \<Rightarrow> commandInfo option" where
  "remembered h p =
     (case p of
        None \<Rightarrow> None
      | Some (ctx, e) \<Rightarrow>
          if isIgnoredCommand h (se_CommandName e) \<or> \<not> mh_logCommandDetail h then None
          else map_option (\<lambda>cmd. \<lparr>ci_database = se_DatabaseName e, ci_collection = extractCollectionName (Some cmd) (se_CommandName e),
                 ci_query = sanitizeCommand cmd (se_CommandName e), ci_ctx = ctx\<rparr>) (se_Command e))"

lemma started_cache:
  "fst (logCommandStarted h ctx e cache) = (case remembered h (Some (ctx, e)) of None \<Rightarrow> cache | Some i \<Rightarrow> cache(se_RequestID e \<mapsto> i))"
  by (cases "se_Command e") (simp_all add: logCommandStarted_def remembered_def Let_def)

lemma ended_cache:
  "fst (logCommandSucceeded h ctx e r cache) = (if isIgnoredCommand h (fe_CommandName e) then cache else cache(fe_RequestID e := None))"
  "fst (logCommandFailed h ctx e f cache) = cache(fe_RequestID e := None)"
  by (simp_all add: logCommandSucceeded_def logCommandFailed_def Let_def)

lemma cache_holds_pending:
  "driver_order es \<Longrightarrow> cache_after h es i = remembered h (pending es i)"
proof (induction es rule: driver_order.induct)
  case 1
  then show ?case by (simp add: remembered_def)
next
  case (2 ctx e es)
  then show ?case by (cases "i = se_RequestID e") (auto simp: started_cache remembered_def split: option.split)
next
  case (3 ctx e r es)
  then obtain c s where p: "pending es (fe_RequestID e) = Some (c, s)" "se_CommandName s = fe_CommandName e" by auto
  show ?case
  proof (cases "i = fe_RequestID e \<and> isIgnoredCommand h (fe_CommandName e)")
    case True
    then show ?thesis using 3 p by (simp add: ended_cache remembered_def)
  next
    case False
    then show ?thesis using 3 by (auto simp: ended_cache remembered_def)
  qed
next
  case (4 ctx e f es)
  then show ?case by (auto simp: ended_cache remembered_def)
qed

text \<open>
  C13: The cache of commands holds, at every moment, exactly the commands that are under way,
  that are not ignored and whose detail is wanted, each with its database, collection and
  sanitized text: it does not grow with the commands that have ended.
\<close>
theorem cache_holds_pending_commands:
  assumes "driver_order es"
  shows "cache_after h es i = remembered h (pending es i)"
  using cache_holds_pending [OF assms] .

definition sample_find :: started_event where
  "sample_find = \<lparr>se_RequestID = 7, se_DatabaseName = ''db'', se_CommandName = ''find'', se_ConnectionID = ''c'',
     se_Command = Some \<lparr>rw_elements = [(''find'', BString ''users'')], rw_text = ''{find: users}''\<rparr>\<rparr>"

definition sample_found :: finished_event where
  "sample_found = \<lparr>fe_RequestID = 7, fe_CommandName = ''find'', fe_ConnectionID = ''c'', fe_Duration = 5\<rparr>"

lemma cache_holds_pending_commands_witness:
  "cache_after DefaultMongoHookConfig [Succeeded None sample_found True, Started None sample_find] 7 = None"
  using cache_holds_pending_commands [of "[Succeeded None sample_found True, Started None sample_find]" DefaultMongoHookConfig 7]
  by (simp add: sample_find_def sample_found_def remembered_def)

text \<open>
  The record of the end of a command tells its beginning: its database, its sanitized text,
  and the trace of the context the command was started in, not the one the event is given; and
  it is a warning exactly when the command took longer than its threshold.
\<close>
theorem ends_tell_their_start:
  assumes "driver_order (Succeeded ctx e r # es)" and "pending es (fe_RequestID e) = Some (c, s)"
    and "se_Command s = Some cmd" and "mh_logCommandDetail h" and "\<not> isIgnoredCommand h (fe_CommandName e)"
    and "sanitizeCommand cmd (se_CommandName s) \<noteq> []"
  shows "\<exists>x. snd (monitor h (Succeeded ctx e r) (cache_after h es)) = [x]
    \<and> set ([TextF ''database'' (se_DatabaseName s), TextF ''query'' (sanitizeCommand cmd (se_CommandName s))] @ TraceFields c)
      \<subseteq> set (le_fields x)
    \<and> le_level x = (if fe_Duration e > getSlowThreshold h (fe_CommandName e) then WarnLevel else DebugLevel)
    \<and> cache_after h (Succeeded ctx e r # es) (fe_RequestID e) = None"
proof -
  have order: "driver_order es" and name: "se_CommandName s = fe_CommandName e" using assms by auto
  have "cache_after h es (fe_RequestID e) = remembered h (Some (c, s))"
    using cache_holds_pending [OF order] assms(2) by simp
  then show ?thesis using assms name
    by (auto simp: logCommandSucceeded_def remembered_def start_fields_def typed_defs Let_def)
qed

lemma ends_tell_their_start_witness:
  "\<exists>x. snd (monitor DefaultMongoHookConfig (Succeeded None sample_found True)
      (cache_after DefaultMongoHookConfig [Started (Some Background) sample_find])) = [x]
    \<and> TextF ''query'' ''{find: users}'' \<in> set (le_fields x)"
proof -
  let ?h = DefaultMongoHookConfig and ?cmd = "\<lparr>rw_elements = [(''find'', BString ''users'')], rw_text = ''{find: users}''\<rparr>"
  have q: "sanitizeCommand ?cmd ''find'' = ''{find: users}''" by code_simp
  have ig: "\<not> isIgnoredCommand ?h ''find''" by code_simp
  have order: "driver_order [Succeeded None sample_found True, Started (Some Background) sample_find]"
    by (simp add: sample_find_def sample_found_def)
  have p: "pending [Started (Some Background) sample_find] (fe_RequestID sample_found) = Some (Some Background, sample_find)"
    by (simp add: sample_find_def sample_found_def)
  have c: "se_Command sample_find = Some ?cmd" and d: "mh_logCommandDetail ?h"
    and i: "\<not> isIgnoredCommand ?h (fe_CommandName sample_found)" and n: "se_CommandName sample_find = ''find''"
    using ig by (simp_all add: sample_find_def sample_found_def DefaultMongoHookConfig_def)
  have "sanitizeCommand ?cmd (se_CommandName sample_find) \<noteq> []" unfolding n q by simp
  from ends_tell_their_start [OF order p c d i this]
  show ?thesis unfolding n q by auto
qed

end
