(* ===== verification/Database_Registry.thy ===== *)
theory Database_Registry
  imports Database_Url Redis_Runtime Logger_Stores
begin

text \<open>
  The databases of \<open>pkg/database\<close>: the interface of a connection and its three drivers
  (\<open>connections.go\<close>, \<open>mysql.go\<close>, \<open>mongo.go\<close>, \<open>redis.go\<close>), the registry of connections
  (\<open>registry.go\<close>) and the registry of named Redis profiles (\<open>redis_profile_registry.go\<close>).

  gorm and the MongoDB client are records of functions on a world \<open>'w\<close>, as the client of
  Redis is in \<open>Redis_Runtime\<close>. A connection is a value that its operations return changed;
  the registry keeps it under its type. Errors are their texts. The timeouts of the contexts
  the drivers make are the libraries' matter.
\<close>

section \<open>Connections and the registry\<close>

text \<open>The interface \<open>DatabaseConnection\<close>, a table of methods.\<close>

record ('c, 'k, 'w) driver =
  dv_Connect :: "'c \<Rightarrow> 'w \<Rightarrow> (string option \<times> 'c) \<times> 'w"
  dv_Close :: "'c \<Rightarrow> 'w \<Rightarrow> string option \<times> 'w"
  dv_HealthCheck :: "'c \<Rightarrow> 'w \<Rightarrow> string option \<times> 'w"
  dv_GetClient :: "'c \<Rightarrow> 'k"

record ('c, 'g) db_registry =
  dr_connections :: "string \<rightharpoonup> 'c"
  dr_configs :: "string \<rightharpoonup> 'g"

definition dr_New :: "('c, 'g) db_registry" where
  "dr_New = \<lparr>dr_connections = Map.empty, dr_configs = Map.empty\<rparr>"

definition dr_Register :: "string \<Rightarrow> 'g \<Rightarrow> 'c \<Rightarrow> ('c, 'g) db_registry \<Rightarrow> string option \<times> ('c, 'g) db_registry" where
  "dr_Register dbType config connection r =
     (if dr_connections r dbType \<noteq> None then
        (Some (''database connection for type '' @ dbType @ '' already registered''), r)
      else
        (None, \<lparr>dr_connections = (dr_connections r)(dbType \<mapsto> connection), dr_configs = (dr_configs r)(dbType \<mapsto> config)\<rparr>))"

definition dr_GetConnection :: "('c, 'g) db_registry \<Rightarrow> string \<Rightarrow> string + 'c" where
  "dr_GetConnection r dbType =
     (case dr_connections r dbType of
        None \<Rightarrow> Inl (''database connection for type '' @ dbType @ '' not found'')
      | Some c \<Rightarrow> Inr c)"

definition dr_GetClient :: "('c, 'k, 'w) driver \<Rightarrow> ('c, 'g) db_registry \<Rightarrow> string \<Rightarrow> string + 'k" where
  "dr_GetClient drv r dbType =
     (case dr_GetConnection r dbType of Inl err \<Rightarrow> Inl err | Inr c \<Rightarrow> Inr (dv_GetClient drv c))"

definition put_conn :: "string \<Rightarrow> 'c \<Rightarrow> ('c, 'g) db_registry \<Rightarrow> ('c, 'g) db_registry" where
  "put_conn t c r = r\<lparr>dr_connections := (dr_connections r)(t \<mapsto> c)\<rparr>"

text \<open>The loops over the connections, in the order they are visited.\<close>

fun dr_Init :: "('c, 'k, 'w) driver \<Rightarrow> string list \<Rightarrow> ('c, 'g) db_registry \<Rightarrow> 'w \<Rightarrow> (string option \<times> ('c, 'g) db_registry) \<times> 'w" where
  "dr_Init drv [] r w = ((None, r), w)"
| "dr_Init drv (t # ts) r w =
     (case dr_connections r t of
        None \<Rightarrow> dr_Init drv ts r w
      | Some c \<Rightarrow>
          (case dv_Connect drv c w of
             ((Some err, c'), w') \<Rightarrow> ((Some (''failed to connect to '' @ t @ '': '' @ err), put_conn t c' r), w')
           | ((None, c'), w') \<Rightarrow> dr_Init drv ts (put_conn t c' r) w'))"

fun dr_Close :: "('c, 'k, 'w) driver \<Rightarrow> string list \<Rightarrow> ('c, 'g) db_registry \<Rightarrow> string option \<Rightarrow> 'w \<Rightarrow> string option \<times> 'w" where
  "dr_Close drv [] r lastErr w = (lastErr, w)"
| "dr_Close drv (t # ts) r lastErr w =
     (case dr_connections r t of
        None \<Rightarrow> dr_Close drv ts r lastErr w
      | Some c \<Rightarrow>
          (case dv_Close drv c w of
             (Some err, w') \<Rightarrow> dr_Close drv ts r (Some (''failed to close '' @ t @ '' connection: '' @ err)) w'
           | (None, w') \<Rightarrow> dr_Close drv ts r lastErr w'))"

fun dr_HealthCheck :: "('c, 'k, 'w) driver \<Rightarrow> string list \<Rightarrow> ('c, 'g) db_registry \<Rightarrow> 'w \<Rightarrow> string option \<times> 'w" where
  "dr_HealthCheck drv [] r w = (None, w)"
| "dr_HealthCheck drv (t # ts) r w =
     (case dr_connections r t of
        None \<Rightarrow> dr_HealthCheck drv ts r w
      | Some c \<Rightarrow>
          (case dv_HealthCheck drv c w of
             (Some err, w') \<Rightarrow> (Some (''health check failed for '' @ t @ '': '' @ err), w')
           | (None, w') \<Rightarrow> dr_HealthCheck drv ts r w'))"

section \<open>The contract of a driver\<close>

text \<open>
  What the registry relies on: a connection that was made has a client, an attempt that failed
  changes nothing about the one there was, and without a client there is nothing to close and
  no health.
\<close>

locale database_driver =
  fixes drv :: "('c, 'k, 'w) driver"
    and connected :: "'c \<Rightarrow> bool"
  assumes made: "dv_Connect drv c w = ((None, c'), w') \<Longrightarrow> connected c'"
    and failed: "dv_Connect drv c w = ((Some err, c'), w') \<Longrightarrow> c' = c"
    and sick: "\<not> connected c \<Longrightarrow> \<exists>err. dv_HealthCheck drv c w = (Some err, w)"
    and closed: "\<not> connected c \<Longrightarrow> dv_Close drv c w = (None, w)"
begin

lemma Init_others: "dr_Init drv ts r w = ((err, r'), w') \<Longrightarrow> t \<notin> set ts \<Longrightarrow> dr_connections r' t = dr_connections r t"
  by (induction ts arbitrary: r w) (auto simp: put_conn_def split: option.splits prod.splits)

lemma Init_keeps_connected:
  "dr_Init drv ts r w = ((err, r'), w') \<Longrightarrow> dr_connections r t = Some c \<Longrightarrow> connected c
     \<Longrightarrow> \<exists>c'. dr_connections r' t = Some c' \<and> connected c'"
proof (induction ts arbitrary: r w c)
  case (Cons u ts)
  show ?case
  proof (cases "dr_connections r u")
    case None
    with Cons show ?thesis by auto
  next
    case (Some d)
    obtain e d' w1 where step: "dv_Connect drv d w = ((e, d'), w1)" by (metis prod.exhaust)
    have conn: "\<exists>c'. dr_connections (put_conn u d' r) t = Some c' \<and> connected c'"
    proof (cases "u = t")
      case True
      have "connected d" using True Some Cons.prems(2,3) by simp
      then have "connected d'" using made [of d w d' w1] failed [of d w _ d' w1] step by (cases e) auto
      then show ?thesis using True by (simp add: put_conn_def)
    next
      case False
      then show ?thesis using Cons.prems by (simp add: put_conn_def)
    qed
    show ?thesis
    proof (cases e)
      case None
      with Cons.prems Some step have "dr_Init drv ts (put_conn u d' r) w1 = ((err, r'), w')" by simp
      with Cons.IH conn show ?thesis by blast
    next
      case (Some x)
      with Cons.prems \<open>dr_connections r u = Some d\<close> step have "r' = put_conn u d' r" by simp
      with conn show ?thesis by simp
    qed
  qed
qed auto

lemma Init_success:
  "dr_Init drv ts r w = ((None, r'), w') \<Longrightarrow> t \<in> set ts \<Longrightarrow> dr_connections r t = Some c
     \<Longrightarrow> \<exists>c'. dr_connections r' t = Some c' \<and> connected c'"
proof (induction ts arbitrary: r w c)
  case (Cons u ts)
  show ?case
  proof (cases "dr_connections r u")
    case None
    with Cons show ?thesis by auto
  next
    case (Some d)
    obtain e d' w1 where step: "dv_Connect drv d w = ((e, d'), w1)" by (metis prod.exhaust)
    with Cons.prems Some have e: "e = None" and rest: "dr_Init drv ts (put_conn u d' r) w1 = ((None, r'), w')"
      by (auto split: option.splits)
    have d': "connected d'" using made step e by simp
    show ?thesis
    proof (cases "u = t")
      case True
      then have "dr_connections (put_conn u d' r) t = Some d'" by (simp add: put_conn_def)
      from Init_keeps_connected [OF rest this d'] show ?thesis .
    next
      case False
      then have "dr_connections (put_conn u d' r) t = Some c" "t \<in> set ts" using Cons.prems by (simp_all add: put_conn_def)
      with Cons.IH [OF rest] show ?thesis by blast
    qed
  qed
qed simp

lemma Init_failure:
  "dr_Init drv ts r w = ((Some err, r'), w') \<Longrightarrow>
     \<exists>t us vs c. ts = us @ t # vs \<and> dr_connections r' t = Some c \<and> (\<exists>e. err = ''failed to connect to '' @ t @ '': '' @ e)
       \<and> (\<forall>v \<in> set vs - set (t # us). dr_connections r' v = dr_connections r v)"
proof (induction ts arbitrary: r w)
  case (Cons t ts)
  show ?case
  proof (cases "dr_connections r t")
    case None
    with Cons.prems have "dr_Init drv ts r w = ((Some err, r'), w')" by simp
    from Cons.IH [OF this] obtain s us vs c where *: "ts = us @ s # vs" "dr_connections r' s = Some c"
      "\<exists>e. err = ''failed to connect to '' @ s @ '': '' @ e" "\<forall>v \<in> set vs - set (s # us). dr_connections r' v = dr_connections r v"
      by blast
    then show ?thesis by (intro exI [of _ s] exI [of _ "t # us"] exI [of _ vs] exI [of _ c]) auto
  next
    case (Some c)
    obtain e c' w1 where step: "dv_Connect drv c w = ((e, c'), w1)" by (metis prod.exhaust)
    show ?thesis
    proof (cases e)
      case None
      with Cons.prems Some step have "dr_Init drv ts (put_conn t c' r) w1 = ((Some err, r'), w')" by simp
      from Cons.IH [OF this] obtain s us vs d where *: "ts = us @ s # vs" "dr_connections r' s = Some d"
        "\<exists>e. err = ''failed to connect to '' @ s @ '': '' @ e"
        "\<forall>v \<in> set vs - set (s # us). dr_connections r' v = dr_connections (put_conn t c' r) v"
        by blast
      then show ?thesis by (intro exI [of _ s] exI [of _ "t # us"] exI [of _ vs] exI [of _ d]) (auto simp: put_conn_def)
    next
      case (Some x)
      with Cons.prems \<open>dr_connections r t = Some c\<close> step
      have "err = ''failed to connect to '' @ t @ '': '' @ x" "r' = put_conn t c' r" by auto
      then show ?thesis by (intro exI [of _ t] exI [of _ "[]"] exI [of _ ts] exI [of _ c']) (auto simp: put_conn_def)
    qed
  qed
qed auto

lemma healthy_is_connected:
  "dr_HealthCheck drv ts r w = (None, w') \<Longrightarrow> t \<in> set ts \<Longrightarrow> dr_connections r t = Some c \<Longrightarrow> connected c"
proof (induction ts arbitrary: w)
  case (Cons u ts)
  show ?case
  proof (cases "dr_connections r u")
    case None
    with Cons show ?thesis by auto
  next
    case (Some d)
    obtain e w1 where step: "dv_HealthCheck drv d w = (e, w1)" by force
    with Cons.prems Some have e: "e = None" and rest: "dr_HealthCheck drv ts r w1 = (None, w')" by (auto split: option.splits)
    have "connected d" using sick [of d w] step e by auto
    with Cons.IH [OF rest] Cons.prems Some show ?thesis by auto
  qed
qed simp

lemma close_nothing:
  "(\<And>t c. dr_connections r t = Some c \<Longrightarrow> \<not> connected c) \<Longrightarrow> dr_Close drv ts r lastErr w = (lastErr, w)"
  by (induction ts) (auto simp: closed split: option.splits)

end

section \<open>The drivers\<close>

text \<open>What the code uses of gorm and of the client of MongoDB.\<close>

record ('db, 'sql, 'w) gorm_lib =
  gm_Open :: "string \<Rightarrow> 'w \<Rightarrow> (string + 'db) \<times> 'w"
  gm_DB :: "'db \<Rightarrow> string + 'sql"
  gm_SetMaxOpenConns :: "'sql \<Rightarrow> int \<Rightarrow> 'w \<Rightarrow> 'w"
  gm_SetConnMaxLifetime :: "'sql \<Rightarrow> duration \<Rightarrow> 'w \<Rightarrow> 'w"
  gm_SetMaxIdleConns :: "'sql \<Rightarrow> int \<Rightarrow> 'w \<Rightarrow> 'w"
  gm_Close :: "'sql \<Rightarrow> 'w \<Rightarrow> string option \<times> 'w"
  gm_Ping :: "'sql \<Rightarrow> 'w \<Rightarrow> string option \<times> 'w"

record ('mc, 'w) mongo_lib =
  mg_Connect :: "string \<Rightarrow> MongoHook option \<Rightarrow> 'w \<Rightarrow> (string + 'mc) \<times> 'w"
  mg_Ping :: "'mc \<Rightarrow> 'w \<Rightarrow> string option \<times> 'w"
  mg_Disconnect :: "'mc \<Rightarrow> 'w \<Rightarrow> string option \<times> 'w"

record 'db MySQLConn =
  mq_config :: MySQLConfig
  mq_client :: "'db option"

definition NewMySQLConnection :: "MySQLConfig \<Rightarrow> 'db MySQLConn" where
  "NewMySQLConnection config = \<lparr>mq_config = config, mq_client = None\<rparr>"

definition mysql_Connect :: "('db, 'sql, 'w) gorm_lib \<Rightarrow> 'db MySQLConn \<Rightarrow> 'w \<Rightarrow> (string option \<times> 'db MySQLConn) \<times> 'w" where
  "mysql_Connect lib m w =
     (case gm_Open lib (mysql_dsn (mq_config m)) w of
        (Inl err, w1) \<Rightarrow> ((Some (''failed to connect to MySQL: '' @ err), m), w1)
      | (Inr db, w1) \<Rightarrow>
          (case gm_DB lib db of
             Inl err \<Rightarrow> ((Some (''failed to get underlying sql.DB: '' @ err), m), w1)
           | Inr sql \<Rightarrow>
               (let w2 = gm_SetMaxOpenConns lib sql (my_MaxOpenConnections (mq_config m)) w1;
                    w3 = gm_SetConnMaxLifetime lib sql (my_MaxConnectionLifeTime (mq_config m)) w2;
                    w4 = gm_SetMaxIdleConns lib sql (my_MaxIdleConnections (mq_config m)) w3
                in ((None, m\<lparr>mq_client := Some db\<rparr>), w4))))"

definition mysql_Close :: "('db, 'sql, 'w) gorm_lib \<Rightarrow> 'db MySQLConn \<Rightarrow> 'w \<Rightarrow> string option \<times> 'w" where
  "mysql_Close lib m w =
     (case mq_client m of
        None \<Rightarrow> (None, w)
      | Some db \<Rightarrow> (case gm_DB lib db of Inr sql \<Rightarrow> gm_Close lib sql w | Inl err \<Rightarrow> (None, w)))"

definition mysql_HealthCheck :: "('db, 'sql, 'w) gorm_lib \<Rightarrow> 'db MySQLConn \<Rightarrow> 'w \<Rightarrow> string option \<times> 'w" where
  "mysql_HealthCheck lib m w =
     (case mq_client m of
        None \<Rightarrow> (Some ''MySQL client is nil'', w)
      | Some db \<Rightarrow>
          (case gm_DB lib db of
             Inr sql \<Rightarrow> gm_Ping lib sql w
           | Inl err \<Rightarrow> (Some ''failed to get MySQL sql.DB for health check'', w)))"

record 'mc MongoConn =
  mo_config :: MongoConfig
  mo_client :: "'mc option"

definition NewMongoDBConnection :: "MongoConfig \<Rightarrow> 'mc MongoConn" where
  "NewMongoDBConnection config = \<lparr>mo_config = config, mo_client = None\<rparr>"

text \<open>The hook the driver asks for when logging is on; what it does not name is empty.\<close>

definition mongo_hook :: "MongoConfig \<Rightarrow> MongoHook" where
  "mongo_hook c = NewMongoHookWithConfig \<lparr>mh_enabled = True,
     mh_slowThreshold = (if mc_SlowThreshold c \<le> 0 then 200 * millisecond else mc_SlowThreshold c),
     mh_logCommandDetail = mc_LogCommandDetail c, mh_logReplyDetail = mc_LogReplyDetail c, mh_logHeartbeat = False,
     mh_logStarted = mc_LogStarted c, mh_ignoredCommands = [], mh_slowReadThreshold = 0, mh_slowWriteThreshold = 0\<rparr>"

definition mongo_Connect :: "('mc, 'w) mongo_lib \<Rightarrow> 'mc MongoConn \<Rightarrow> 'w \<Rightarrow> (string option \<times> 'mc MongoConn) \<times> 'w" where
  "mongo_Connect lib m w =
     (let hook = (if mc_EnableLogger (mo_config m) then Some (mongo_hook (mo_config m)) else None) in
      case mg_Connect lib (BuildURL (Some (mo_config m))) hook w of
        (Inl err, w1) \<Rightarrow> ((Some (''failed to connect to MongoDB: '' @ err), m), w1)
      | (Inr client, w1) \<Rightarrow>
          (case mg_Ping lib client w1 of
             (Some err, w2) \<Rightarrow> ((Some (''failed to ping MongoDB: '' @ err), m), w2)
           | (None, w2) \<Rightarrow> ((None, m\<lparr>mo_client := Some client\<rparr>), w2)))"

definition mongo_Close :: "('mc, 'w) mongo_lib \<Rightarrow> 'mc MongoConn \<Rightarrow> 'w \<Rightarrow> string option \<times> 'w" where
  "mongo_Close lib m w = (case mo_client m of None \<Rightarrow> (None, w) | Some client \<Rightarrow> mg_Disconnect lib client w)"

definition mongo_HealthCheck :: "('mc, 'w) mongo_lib \<Rightarrow> 'mc MongoConn \<Rightarrow> 'w \<Rightarrow> string option \<times> 'w" where
  "mongo_HealthCheck lib m w =
     (case mo_client m of None \<Rightarrow> (Some ''MongoDB client is nil'', w) | Some client \<Rightarrow> mg_Ping lib client w)"

text \<open>A Redis connection has a handle of \<open>Redis_Runtime\<close>; a nil connection and a nil handle are alike.\<close>

type_synonym 'rc RedisConn = "'rc Handle option"

definition NewRedisConnection :: "Config option \<Rightarrow> 'rc RedisConn" where
  "NewRedisConnection config = Some (NewHandle [] config)"

definition redis_Connect :: "('rc, 'w) dialer \<Rightarrow> 'rc RedisConn \<Rightarrow> 'w \<Rightarrow> (string option \<times> 'rc RedisConn) \<times> 'w" where
  "redis_Connect net r w = (if r = None then ((Some ''redis connection is nil'', r), w) else h_Connect net r w)"

definition redis_Close :: "('rc, 'w) dialer \<Rightarrow> 'rc RedisConn \<Rightarrow> 'w \<Rightarrow> string option \<times> 'w" where
  "redis_Close net r w = (if r = None then (None, w) else h_Close net r w)"

definition redis_HealthCheck :: "('rc, 'w) dialer \<Rightarrow> 'rc RedisConn \<Rightarrow> 'w \<Rightarrow> string option \<times> 'w" where
  "redis_HealthCheck net r w = (if r = None then (Some ''redis connection is nil'', w) else h_HealthCheck net r w)"

definition redis_Client :: "'rc RedisConn \<Rightarrow> 'rc option" where
  "redis_Client r = (if r = None then None else handle_Client r)"

definition redis_Config :: "'rc RedisConn \<Rightarrow> Config option" where
  "redis_Config r = (if r = None then None else handle_Config r)"

section \<open>The three together\<close>

datatype ('db, 'mc, 'rc) db_conn = MySQLConnection "'db MySQLConn" | MongoDBConnection "'mc MongoConn" | RedisConnection "'rc RedisConn"

fun db_Type :: "('db, 'mc, 'rc) db_conn \<Rightarrow> string" where
  "db_Type (MySQLConnection m) = ''mysql''"
| "db_Type (MongoDBConnection m) = ''mongodb''"
| "db_Type (RedisConnection r) = ''redis''"

text \<open>
  What \<open>GetClient\<close> answers, an interface: the pointers of gorm and MongoDB are put into it
  even when they are nil, and then the interface is not nil.
\<close>

datatype ('db, 'mc, 'rc) any_client = NilClient | GormClient "'db option" | MongoClient "'mc option" | RedisClient 'rc

fun db_GetClient :: "('db, 'mc, 'rc) db_conn \<Rightarrow> ('db, 'mc, 'rc) any_client" where
  "db_GetClient (MySQLConnection m) = GormClient (mq_client m)"
| "db_GetClient (MongoDBConnection m) = MongoClient (mo_client m)"
| "db_GetClient (RedisConnection r) = (case redis_Client r of None \<Rightarrow> NilClient | Some c \<Rightarrow> RedisClient c)"

record ('db, 'sql, 'mc, 'rc, 'w) db_libs =
  lib_gorm :: "('db, 'sql, 'w) gorm_lib"
  lib_mongo :: "('mc, 'w) mongo_lib"
  lib_redis :: "('rc, 'w) dialer"

definition same_conn :: "('c \<Rightarrow> 'd) \<Rightarrow> (string option \<times> 'c) \<times> 'w \<Rightarrow> (string option \<times> 'd) \<times> 'w" where
  "same_conn mk r = ((fst (fst r), mk (snd (fst r))), snd r)"

fun db_Connect ::
    "('db, 'sql, 'mc, 'rc, 'w) db_libs \<Rightarrow> ('db, 'mc, 'rc) db_conn \<Rightarrow> 'w \<Rightarrow> (string option \<times> ('db, 'mc, 'rc) db_conn) \<times> 'w" where
  "db_Connect libs (MySQLConnection m) w = same_conn MySQLConnection (mysql_Connect (lib_gorm libs) m w)"
| "db_Connect libs (MongoDBConnection m) w = same_conn MongoDBConnection (mongo_Connect (lib_mongo libs) m w)"
| "db_Connect libs (RedisConnection r) w = same_conn RedisConnection (redis_Connect (lib_redis libs) r w)"

fun db_Close :: "('db, 'sql, 'mc, 'rc, 'w) db_libs \<Rightarrow> ('db, 'mc, 'rc) db_conn \<Rightarrow> 'w \<Rightarrow> string option \<times> 'w" where
  "db_Close libs (MySQLConnection m) w = mysql_Close (lib_gorm libs) m w"
| "db_Close libs (MongoDBConnection m) w = mongo_Close (lib_mongo libs) m w"
| "db_Close libs (RedisConnection r) w = redis_Close (lib_redis libs) r w"

fun db_HealthCheck :: "('db, 'sql, 'mc, 'rc, 'w) db_libs \<Rightarrow> ('db, 'mc, 'rc) db_conn \<Rightarrow> 'w \<Rightarrow> string option \<times> 'w" where
  "db_HealthCheck libs (MySQLConnection m) w = mysql_HealthCheck (lib_gorm libs) m w"
| "db_HealthCheck libs (MongoDBConnection m) w = mongo_HealthCheck (lib_mongo libs) m w"
| "db_HealthCheck libs (RedisConnection r) w = redis_HealthCheck (lib_redis libs) r w"

definition db_driver ::
    "('db, 'sql, 'mc, 'rc, 'w) db_libs \<Rightarrow> (('db, 'mc, 'rc) db_conn, ('db, 'mc, 'rc) any_client, 'w) driver" where
  "db_driver libs = \<lparr>dv_Connect = db_Connect libs, dv_Close = db_Close libs, dv_HealthCheck = db_HealthCheck libs,
     dv_GetClient = db_GetClient\<rparr>"

fun db_connected :: "('db, 'mc, 'rc) db_conn \<Rightarrow> bool" where
  "db_connected (MySQLConnection m) \<longleftrightarrow> mq_client m \<noteq> None"
| "db_connected (MongoDBConnection m) \<longleftrightarrow> mo_client m \<noteq> None"
| "db_connected (RedisConnection r) \<longleftrightarrow> redis_Client r \<noteq> None"

lemma mysql_Connect_result:
  "mysql_Connect lib m w = ((e, m'), w') \<Longrightarrow> (e = None \<longrightarrow> mq_client m' \<noteq> None) \<and> (e \<noteq> None \<longrightarrow> m' = m)"
  by (auto simp: mysql_Connect_def Let_def split: prod.splits sum.splits)

lemma mongo_Connect_result:
  "mongo_Connect lib m w = ((e, m'), w') \<Longrightarrow> (e = None \<longrightarrow> mo_client m' \<noteq> None) \<and> (e \<noteq> None \<longrightarrow> m' = m)"
  by (auto simp: mongo_Connect_def Let_def split: prod.splits sum.splits option.splits)

lemma redis_Connect_result:
  assumes "redis_Connect net r w = ((e, r'), w')"
  shows "(e = None \<longrightarrow> redis_Client r' \<noteq> None) \<and> (e \<noteq> None \<longrightarrow> r' = r)"
proof (cases r)
  case None
  then show ?thesis using assms by (auto simp: redis_Connect_def)
next
  case (Some h)
  then have "h_Connect net (Some h) w = ((e, r'), w')" using assms by (simp add: redis_Connect_def)
  from h_Connect_handle [OF this] Some show ?thesis by (auto simp: redis_Client_def handle_Client_def)
qed

lemma db_Connect_result:
  assumes "db_Connect libs c w = ((e, c'), w')"
  shows "(e = None \<longrightarrow> db_connected c') \<and> (e \<noteq> None \<longrightarrow> c' = c)"
proof (cases c)
  case (MySQLConnection m)
  obtain e1 m1 w1 where r: "mysql_Connect (lib_gorm libs) m w = ((e1, m1), w1)" by (metis prod.exhaust)
  with assms MySQLConnection mysql_Connect_result [OF r] show ?thesis by (auto simp: same_conn_def)
next
  case (MongoDBConnection m)
  obtain e1 m1 w1 where r: "mongo_Connect (lib_mongo libs) m w = ((e1, m1), w1)" by (metis prod.exhaust)
  with assms MongoDBConnection mongo_Connect_result [OF r] show ?thesis by (auto simp: same_conn_def)
next
  case (RedisConnection m)
  obtain e1 m1 w1 where r: "redis_Connect (lib_redis libs) m w = ((e1, m1), w1)" by (metis prod.exhaust)
  with assms RedisConnection redis_Connect_result [OF r] show ?thesis by (auto simp: same_conn_def)
qed

lemma db_unconnected:
  assumes "\<not> db_connected c"
  shows "\<exists>err. db_HealthCheck libs c w = (Some err, w)" and "db_Close libs c w = (None, w)"
proof -
  show "\<exists>err. db_HealthCheck libs c w = (Some err, w)"
    using assms by (cases c) (auto simp: mysql_HealthCheck_def mongo_HealthCheck_def redis_HealthCheck_def redis_Client_def
        handle_Client_def h_HealthCheck_def split: option.splits if_splits)
  show "db_Close libs c w = (None, w)"
    using assms by (cases c) (auto simp: mysql_Close_def mongo_Close_def redis_Close_def redis_Client_def h_Close_def split: if_splits)
qed

lemma db_driver_laws:
  "dv_Connect (db_driver libs) c w = ((None, c'), w') \<Longrightarrow> db_connected c'"
  "dv_Connect (db_driver libs) c w = ((Some err, c'), w') \<Longrightarrow> c' = c"
  "\<not> db_connected c \<Longrightarrow> \<exists>err. dv_HealthCheck (db_driver libs) c w = (Some err, w)"
  "\<not> db_connected c \<Longrightarrow> dv_Close (db_driver libs) c w = (None, w)"
  using db_Connect_result [of libs c w None c' w'] db_Connect_result [of libs c w "Some err" c' w'] db_unconnected [of c libs w]
  by (simp_all add: db_driver_def)

interpretation databases: database_driver "db_driver libs" db_connected for libs
  by unfold_locales (fact db_driver_laws)+

section \<open>Properties\<close>

definition registered :: "(string \<times> 'g \<times> 'c) list \<Rightarrow> ('c, 'g) db_registry" where
  "registered cs = fold (\<lambda>(t, g, c) r. snd (dr_Register t g c r)) cs dr_New"

lemma Register_map_add:
  "dr_connections (snd (dr_Register t g c r)) = (\<lambda>u. if u = t \<and> dr_connections r t = None then Some c else dr_connections r u)"
  by (auto simp: dr_Register_def)

text \<open>
  Of the connections registered for a type the first is kept, the others are refused and
  change nothing; a type that was never registered has neither connection nor client, and a
  type that was has both, before it is connected too.
\<close>
theorem first_registration_wins:
  "dr_connections (registered cs) t = map_of (map (\<lambda>(t, g, c). (t, c)) cs) t
   \<and> (fst (dr_Register t g c (registered cs)) = None \<longleftrightarrow> map_of (map (\<lambda>(t, g, c). (t, c)) cs) t = None)
   \<and> (dr_GetClient drv (registered cs) t = (case map_of (map (\<lambda>(t, g, c). (t, c)) cs) t of
        None \<Rightarrow> Inl (''database connection for type '' @ t @ '' not found'') | Some d \<Rightarrow> Inr (dv_GetClient drv d)))"
proof -
  have fold: "dr_connections (fold (\<lambda>(t, g, c) r. snd (dr_Register t g c r)) cs r)
      = (\<lambda>t. case dr_connections r t of Some c \<Rightarrow> Some c | None \<Rightarrow> map_of (map (\<lambda>(t, g, c). (t, c)) cs) t)" for r
  proof (induction cs arbitrary: r)
    case Nil
    show ?case by (rule ext) (simp split: option.split)
  next
    case (Cons x cs)
    obtain u g c where "x = (u, g, c)" by (metis prod_cases3)
    then show ?case by (simp add: Cons.IH Register_map_add) (rule ext, simp split: option.split)
  qed
  have "dr_connections (registered cs) t = map_of (map (\<lambda>(t, g, c). (t, c)) cs) t"
    unfolding registered_def fold by (simp add: dr_New_def)
  then show ?thesis by (simp add: dr_Register_def dr_GetClient_def dr_GetConnection_def split: option.split)
qed

text \<open>
  C36: Connecting all databases either makes every one, or stops at the first that fails, names
  it, and leaves those behind it as they were; those before it stay connected, as nothing is
  closed. A check of health that finds nothing has found every database connected.
\<close>
theorem Init_connects_or_stops:
  assumes "enumerates order (dr_connections r)" and "dr_Init (db_driver libs) order r w = ((err, r'), w')"
  shows "(case err of
      None \<Rightarrow> (\<forall>t c. dr_connections r t = Some c \<longrightarrow> (\<exists>c'. dr_connections r' t = Some c' \<and> db_connected c'))
    | Some e \<Rightarrow> (\<exists>t us vs x. order = us @ t # vs \<and> e = ''failed to connect to '' @ t @ '': '' @ x
        \<and> (\<forall>v \<in> set vs. dr_connections r' v = dr_connections r v)))
    \<and> (\<forall>t c. dr_connections r t = Some c \<and> db_connected c \<longrightarrow> (\<exists>c'. dr_connections r' t = Some c' \<and> db_connected c'))
    \<and> (\<forall>t c v v'. dr_HealthCheck (db_driver libs) order r v = (None, v') \<and> dr_connections r t = Some c \<longrightarrow> db_connected c)"
proof (intro conjI allI impI)
  have listed: "t \<in> set order" if "dr_connections r t = Some c" for t c using enumerates_Some [OF assms(1)] that by blast
  show "case err of
      None \<Rightarrow> (\<forall>t c. dr_connections r t = Some c \<longrightarrow> (\<exists>c'. dr_connections r' t = Some c' \<and> db_connected c'))
    | Some e \<Rightarrow> (\<exists>t us vs x. order = us @ t # vs \<and> e = ''failed to connect to '' @ t @ '': '' @ x
        \<and> (\<forall>v \<in> set vs. dr_connections r' v = dr_connections r v))"
  proof (cases err)
    case None
    then show ?thesis using databases.Init_success [OF assms(2) [unfolded None]] listed by simp
  next
    case (Some e)
    from databases.Init_failure [OF assms(2) [unfolded Some]] obtain t us vs x where *: "order = us @ t # vs"
      "e = ''failed to connect to '' @ t @ '': '' @ x" "\<forall>v \<in> set vs - set (t # us). dr_connections r' v = dr_connections r v"
      by blast
    moreover from *(1) enumerates_distinct [OF assms(1)] have "set vs - set (t # us) = set vs" by auto
    ultimately show ?thesis using Some by auto
  qed
  fix t c
  show "\<exists>c'. dr_connections r' t = Some c' \<and> db_connected c'" if "dr_connections r t = Some c \<and> db_connected c"
    using databases.Init_keeps_connected [OF assms(2)] that by blast
  show "db_connected c" if "dr_HealthCheck (db_driver libs) order r v = (None, v') \<and> dr_connections r t = Some c" for v v'
    using databases.healthy_is_connected [of libs order r v v' t c] listed that by blast
qed

text \<open>A library that counts the clients that are open; its servers do not answer a ping, or do.\<close>

definition counting_mongo :: "bool \<Rightarrow> (unit, nat) mongo_lib" where
  "counting_mongo answers = \<lparr>mg_Connect = (\<lambda>url hook n. (Inr (), Suc n)),
     mg_Ping = (\<lambda>c n. (if answers then None else Some ''server selection timeout'', n)),
     mg_Disconnect = (\<lambda>c n. (None, n - 1))\<rparr>"

definition counting_libs :: "bool \<Rightarrow> (unit, unit, unit, unit, nat) db_libs" where
  "counting_libs answers = \<lparr>
     lib_gorm = \<lparr>gm_Open = (\<lambda>dsn n. (Inl ''refused'', n)), gm_DB = Inr, gm_SetMaxOpenConns = (\<lambda>_ _ n. n),
       gm_SetConnMaxLifetime = (\<lambda>_ _ n. n), gm_SetMaxIdleConns = (\<lambda>_ _ n. n), gm_Close = (\<lambda>_ n. (None, n)),
       gm_Ping = (\<lambda>_ n. (None, n))\<rparr>,
     lib_mongo = counting_mongo answers,
     lib_redis = \<lparr>d_new = (\<lambda>_ _ n. ((), n)), d_ping = (\<lambda>_ n. (None, n)), d_close = (\<lambda>_ n. (None, n))\<rparr>\<rparr>"

lemma Init_connects_or_stops_witness:
  "\<exists>r'. dr_Init (db_driver (counting_libs True)) [''mongodb''] (registered [(''mongodb'', (), MongoDBConnection (NewMongoDBConnection sample_mongo))]) 0
      = ((None, r'), 1) \<and> (\<exists>c'. dr_connections r' ''mongodb'' = Some c' \<and> db_connected c')"
proof -
  let ?c = "MongoDBConnection (NewMongoDBConnection sample_mongo) :: (unit, unit, unit) db_conn"
  let ?r = "registered [(''mongodb'', (), ?c)]"
  have conns: "dr_connections ?r = [''mongodb'' \<mapsto> ?c]" by (simp add: registered_def dr_Register_def dr_New_def)
  have "enumerates [''mongodb''] (dr_connections ?r)" unfolding conns by simp
  moreover obtain r' where init: "dr_Init (db_driver (counting_libs True)) [''mongodb''] ?r 0 = ((None, r'), 1)"
    by (simp add: conns db_driver_def counting_libs_def counting_mongo_def same_conn_def mongo_Connect_def Let_def)
  ultimately have "\<forall>t c. dr_connections ?r t = Some c \<longrightarrow> (\<exists>c'. dr_connections r' t = Some c' \<and> db_connected c')"
    using Init_connects_or_stops [where libs = "counting_libs True" and order = "[''mongodb'']" and r = ?r and err = None] by auto
  with init conns show ?thesis by auto
qed

text \<open>Closing asks every connection, in order, and remembers the last complaint.\<close>

definition close_one ::
    "('c, 'k, 'w) driver \<Rightarrow> ('c, 'g) db_registry \<Rightarrow> string \<Rightarrow> 'w \<Rightarrow> 'w" where
  "close_one drv r t w = (case dr_connections r t of None \<Rightarrow> w | Some c \<Rightarrow> snd (dv_Close drv c w))"

fun complaints :: "('c, 'k, 'w) driver \<Rightarrow> ('c, 'g) db_registry \<Rightarrow> string list \<Rightarrow> 'w \<Rightarrow> (string \<times> string) list" where
  "complaints drv r [] w = []"
| "complaints drv r (t # ts) w =
     (case dr_connections r t of
        None \<Rightarrow> []
      | Some c \<Rightarrow> (case fst (dv_Close drv c w) of None \<Rightarrow> [] | Some e \<Rightarrow> [(t, e)]))
     @ complaints drv r ts (close_one drv r t w)"

text \<open>
  Closing the registry closes every connection, whatever the others answer, and returns the
  last failure, if there was one; so nothing is lost but the earlier errors.
\<close>
theorem Close_closes_all:
  "dr_Close drv ts r None w =
     (if complaints drv r ts w = [] then None
      else (case last (complaints drv r ts w) of (t, e) \<Rightarrow> Some (''failed to close '' @ t @ '' connection: '' @ e)),
      fold (close_one drv r) ts w)"
proof -
  have "dr_Close drv ts r lastErr w =
     (if complaints drv r ts w = [] then lastErr
      else (case last (complaints drv r ts w) of (t, e) \<Rightarrow> Some (''failed to close '' @ t @ '' connection: '' @ e)),
      fold (close_one drv r) ts w)" for lastErr
    by (induction ts arbitrary: lastErr w) (auto simp: close_one_def split: option.split prod.split)
  then show ?thesis .
qed

section \<open>Clients that are left behind\<close>

fun connect_again :: "('mc, 'w) mongo_lib \<Rightarrow> nat \<Rightarrow> 'mc MongoConn \<times> 'w \<Rightarrow> 'mc MongoConn \<times> 'w" where
  "connect_again lib 0 s = s"
| "connect_again lib (Suc k) s =
     (case mongo_Connect lib (fst s) (snd s) of ((e, m), w) \<Rightarrow> connect_again lib k (m, w))"

text \<open>
  Every attempt to connect to MongoDB opens a client, and one that is given up, because the
  server does not answer or because the connection is made once more, is never closed: after
  some attempts that many clients are open, and closing the connection closes the last of them
  at most.
\<close>
theorem mongo_clients_leak:
  "snd (connect_again (counting_mongo answers) k (m, n)) = n + k
   \<and> snd (mongo_Close (counting_mongo answers) (fst (connect_again (counting_mongo answers) (Suc k) (NewMongoDBConnection c, n)))
        (snd (connect_again (counting_mongo answers) (Suc k) (NewMongoDBConnection c, n)))) = (if answers then n + k else n + Suc k)"
proof -
  have step: "mongo_Connect (counting_mongo a) m n =
      (if a then ((None, m\<lparr>mo_client := Some ()\<rparr>), Suc n) else ((Some ''failed to ping MongoDB: server selection timeout'', m), Suc n))" for a m n
    by (simp add: mongo_Connect_def counting_mongo_def Let_def)
  have count: "snd (connect_again (counting_mongo answers) k (m, n)) = n + k" for k m n
    by (cases answers; induction k arbitrary: m n) (simp_all add: step)
  have client: "mo_client (fst (connect_again (counting_mongo answers) k (m, n)))
      = (if answers \<and> k \<noteq> 0 then Some () else mo_client m)" for k m n
    by (cases answers; induction k arbitrary: m n) (simp_all add: step)
  show ?thesis unfolding count mongo_Close_def client
    by (simp add: NewMongoDBConnection_def) (simp add: counting_mongo_def)
qed

section \<open>Named Redis profiles\<close>

text \<open>The registry of \<open>Redis_Runtime\<close> behind a pointer that may be nil.\<close>

definition NewNamedRedisRegistry :: "Config option \<Rightarrow> (string \<rightharpoonup> Config option) \<Rightarrow> 'rc Registry option" where
  "NewNamedRedisRegistry defaultConfig profiles = Some (rt_New defaultConfig profiles True)"

definition nr_HasConnections :: "string list \<Rightarrow> 'rc Registry option \<Rightarrow> bool" where
  "nr_HasConnections names r \<longleftrightarrow> r \<noteq> None \<and> HasConnections names r"

definition nr_Connect where
  "nr_Connect net visits r w = (if r = None then ((None, None, []), w) else rt_Connect net visits r w)"

definition nr_Close where
  "nr_Close net names r w = (if r = None then (None, w) else rt_Close net names r w)"

definition nr_HealthCheck where
  "nr_HealthCheck net visits r w = (if r = None then ((None, None, []), w) else rt_HealthCheck net visits r w)"

definition nr_ProfileStatus :: "'rc Registry option \<Rightarrow> string \<Rightarrow> ProfileStatus" where
  "nr_ProfileStatus r name =
     (if r = None \<or> name = [] then \<lparr>st_Name = name, st_State = ProfileMissing, st_Err = None, st_NextRetryAt = 0\<rparr>
      else rt_Status r name)"

definition nr_ProfileStatuses :: "'rc Registry option \<Rightarrow> string list \<Rightarrow> (string \<rightharpoonup> ProfileStatus) option" where
  "nr_ProfileStatuses r names = (if r = None then None else Statuses r names)"

definition nr_GetConnection :: "'rc Registry option \<Rightarrow> string \<Rightarrow> string + 'rc RedisConn" where
  "nr_GetConnection r name =
     (if r = None then Inl ''redis registry is nil''
      else (case Bind r name of Inl err \<Rightarrow> Inl err | Inr handle \<Rightarrow> Inr (Some handle)))"

definition nr_GetClient :: "'rc Registry option \<Rightarrow> string \<Rightarrow> string + 'rc" where
  "nr_GetClient r name = (if r = None then Inl ''redis registry is nil'' else Client r name)"

definition nr_Profiles :: "'rc Registry option \<Rightarrow> string list \<Rightarrow> RedisProfile list" where
  "nr_Profiles r names = (if r = None then [] else Profiles r names)"

text \<open>
  A named registry is consistent. The client it gives for a name is the client of the
  connection it gives, and there is none exactly when there is no connection or the connection
  has no client. A name that is not configured gives what the empty name gives, the default
  connection; a profile that is known to be unavailable gives nothing, never the default.
\<close>
theorem named_registry_is_consistent:
  fixes r :: "'rc Registry option"
  shows "(nr_GetClient r name = Inr c \<longleftrightarrow> (\<exists>conn. nr_GetConnection r name = Inr conn \<and> redis_Client conn = Some c))
   \<and> (nr_ProfileStatus (NewNamedRedisRegistry d ps :: 'rc Registry option) name = \<lparr>st_Name = name, st_State = ProfileMissing, st_Err = None, st_NextRetryAt = 0\<rparr>
        \<longrightarrow> nr_GetConnection (NewNamedRedisRegistry d ps :: 'rc Registry option) name = nr_GetConnection (NewNamedRedisRegistry d ps) [])
   \<and> (st_State (nr_ProfileStatus r name) = ProfileUnavailable \<longrightarrow> (\<exists>e. nr_GetConnection r name = Inl e))"
proof (intro conjI impI)
  show "nr_GetClient r name = Inr c \<longleftrightarrow> (\<exists>conn. nr_GetConnection r name = Inr conn \<and> redis_Client conn = Some c)"
    by (auto simp: nr_GetClient_def nr_GetConnection_def Client_def redis_Client_def handle_Client_def split: sum.split option.split)
next
  let ?n = "NewNamedRedisRegistry d ps :: 'rc Registry option"
  assume s: "nr_ProfileStatus ?n name = \<lparr>st_Name = name, st_State = ProfileMissing, st_Err = None, st_NextRetryAt = 0\<rparr>"
  show "nr_GetConnection ?n name = nr_GetConnection ?n []"
  proof (cases "name = []")
    case False
    then have "r_profiles (rt_New d ps True :: 'rc Registry) name = None"
      using s by (auto simp: nr_ProfileStatus_def NewNamedRedisRegistry_def rt_Status_def Let_def split: option.splits)
    then show ?thesis using False
      by (simp add: nr_GetConnection_def NewNamedRedisRegistry_def Bind_def ByProfile_def rt_Status_def rt_New_def Let_def)
  qed simp
next
  assume u: "st_State (nr_ProfileStatus r name) = ProfileUnavailable"
  then obtain x p e where "r = Some x" "name \<noteq> []" "r_profiles x name = Some p" "np_lastErr p = Some e"
    by (auto simp: nr_ProfileStatus_def rt_Status_def Let_def split: if_splits option.splits)
  then show "\<exists>e. nr_GetConnection r name = Inl e"
    by (simp add: nr_GetConnection_def Bind_def ByProfile_def rt_Status_def Let_def)
qed

end
