(* ===== verification/Event_Messaging.thy ===== *)
theory Event_Messaging
  imports Outbox_Core Messaging_Broker
begin

text \<open>
  Events on the message bus: \<open>BuildMessage\<close> of \<open>pkg/eventmessaging/message.go\<close>, which joins the
  codec of the events (\<open>Outbox_Core\<close>) with the messages (\<open>Messaging_Core\<close>), and the way of an
  event through both and the transports (\<open>Messaging_Broker\<close>).
\<close>

text \<open>
  A nil encoder is \<open>None\<close>. The identity of a nil event can not be asked for: if an encoder
  accepts one the code panics, and the answer is \<open>None\<close>.
\<close>

type_synonym encoder = "DomainEvent option \<Rightarrow> codec_error + string"

definition BuildMessage ::
    "(DomainEvent \<Rightarrow> string + string) \<Rightarrow> (instant \<Rightarrow> string) \<Rightarrow> DomainEvent option \<Rightarrow> string \<Rightarrow> encoder option list
     \<Rightarrow> (codec_error + Message) option" where
  "BuildMessage json_marshal format_time evt source encoders =
     (let encoder = (case encoders of Some f # _ \<Rightarrow> f | _ \<Rightarrow> EncodeDomainEvent json_marshal) in
      case encoder evt of
        Inl err \<Rightarrow> Some (Inl err)
      | Inr payload \<Rightarrow>
          (case evt of
             None \<Rightarrow> None
           | Some e \<Rightarrow> Some (Inr ((NewMessage (EventID e) payload)\<lparr>m_Metadata := MetadataFromEvent format_time evt source\<rparr>))))"

text \<open>What is asked of JSON: an event that was written is read back.\<close>

definition event_json :: "(DomainEvent \<Rightarrow> string + string) \<Rightarrow> (string \<Rightarrow> string + Envelope) \<Rightarrow> bool" where
  "event_json marshal unmarshal \<longleftrightarrow> (\<forall>e payload. marshal e = Inr payload \<longrightarrow>
     unmarshal payload = Inr \<lparr>env_ID = EventID e, env_EventType = EventType e, env_OccurredAt = OccurredAt e,
       env_AggregateType = AggregateType e, env_AggregateID = AggregateID e, env_Data = Data e\<rparr>)"

text \<open>The same of the envelope of a message, which NSQ carries.\<close>

definition wire_json :: "(wireMessageEnvelope \<Rightarrow> string + string) \<Rightarrow> (string \<Rightarrow> string + wireMessageEnvelope) \<Rightarrow> bool" where
  "wire_json marshal unmarshal \<longleftrightarrow> (\<forall>env payload. marshal env = Inr payload \<longrightarrow> unmarshal payload = Inr env)"

lemma event_jsonD:
  "event_json marshal unmarshal \<Longrightarrow> marshal e = Inr payload \<Longrightarrow> DecodeDomainEvent unmarshal payload = Inr e"
  by (simp add: event_json_def DecodeDomainEvent_def DecodeEnvelope_def)

lemma BuildMessage_default:
  assumes "BuildMessage marshal format_time (Some e) source [] = Some (Inr msg)"
  shows "marshal e = Inr (m_Payload msg)" and "m_UUID msg = EventID e" and "m_Metadata msg ''event_type'' = Some (EventType e)"
    and "m_Metadata msg ''source'' = Some source" and "m_Metadata msg ''occurred_at'' = Some (format_time (OccurredAt e))"
  using assms by (auto simp: BuildMessage_def EncodeDomainEvent_def NewMessage_def MetadataFromEvent_def split: sum.splits)


definition user_created :: DomainEvent where
  "user_created = \<lparr>EventID = ''id'', EventType = ''t'', OccurredAt = 0, AggregateType = [], AggregateID = [], Data = ''x''\<rparr>"

definition one_event :: "DomainEvent \<Rightarrow> string + string" where
  "one_event e = (if e = user_created then Inr ''x'' else Inl ''unsupported'')"

definition one_message :: "wireMessageEnvelope \<Rightarrow> string + string" where
  "one_message env = (if env = \<lparr>env_Type = messageEnvelopeType, env_UUID = ''id'',
     env_Metadata = MetadataFromEvent (\<lambda>_. ''0'') (Some user_created) ''s'', env_Payload = ''x''\<rparr> then Inr ''w'' else Inl ''unsupported'')"


end
