(* ===== verification/Errors_Stack.thy ===== *)
theory Errors_Stack
  imports Errors_Format
begin

text \<open>
  The printing of stacks and of the errors that carry them: \<open>pkg/errors/stack.go\<close> and the
  \<open>Format\<close> methods of \<open>errors.go\<close> (\<open>fundamental\<close>, \<open>withStack\<close>, \<open>withMessage\<close>). A frame is a
  number, \<open>func_at\<close> is \<open>runtime.FuncForPC\<close>, as in \<open>Errors_Core\<close>; \<open>withCode.Format\<close> is that of
  \<open>Errors_Format\<close>.
\<close>

section \<open>Names and paths\<close>

definition first_index :: "string \<Rightarrow> char \<Rightarrow> int" where
  "first_index s c = (if c \<in> set s then int (length (takeWhile (\<lambda>x. x \<noteq> c) s)) else - 1)"

definition funcname :: "string \<Rightarrow> string" where
  "funcname name =
     (let n = drop (nat (last_index name CHR ''/'' + 1)) name
      in drop (nat (first_index n CHR ''.'' + 1)) n)"

text \<open>\<open>path.Base\<close>.\<close>

definition path_Base :: "string \<Rightarrow> string" where
  "path_Base s =
     (if s = [] then ''.''
      else
        (let t = rev (dropWhile (\<lambda>c. c = CHR ''/'') (rev s)); u = drop (nat (last_index t CHR ''/'' + 1)) t
         in if u = [] then ''/'' else u))"

section \<open>Frames and stacks\<close>

definition frame_source :: "func_table \<Rightarrow> bool \<Rightarrow> nat \<Rightarrow> string" where
  "frame_source func_at pl f =
     (if pl then frame_name func_at f @ [CHR 0x0A, CHR 0x09] @ frame_file func_at f
      else path_Base (frame_file func_at f))"

definition frame_Format :: "func_table \<Rightarrow> bool \<Rightarrow> char \<Rightarrow> nat \<Rightarrow> string" where
  "frame_Format func_at pl verb f =
     (if verb = CHR ''s'' then frame_source func_at pl f
      else if verb = CHR ''d'' then int_text (frame_line func_at f)
      else if verb = CHR ''n'' then funcname (frame_name func_at f)
      else if verb = CHR ''v'' then frame_source func_at pl f @ '':'' @ int_text (frame_line func_at f)
      else [])"

definition frame_MarshalText :: "func_table \<Rightarrow> nat \<Rightarrow> string" where
  "frame_MarshalText func_at f =
     (let name = frame_name func_at f in
      if name = ''unknown'' then name
      else name @ '' '' @ frame_file func_at f @ '':'' @ int_text (frame_line func_at f))"

fun slice_loop :: "(nat \<Rightarrow> string) \<Rightarrow> nat \<Rightarrow> nat list \<Rightarrow> string" where
  "slice_loop show_frame i [] = []"
| "slice_loop show_frame i (f # fs) = (if i > 0 then '' '' else []) @ show_frame f @ slice_loop show_frame (i + 1) fs"

definition formatSlice :: "func_table \<Rightarrow> bool \<Rightarrow> char \<Rightarrow> nat list \<Rightarrow> string" where
  "formatSlice func_at pl verb st = ''['' @ slice_loop (frame_Format func_at pl verb) 0 st @ '']''"

text \<open>\<open>#v\<close> prints the frames as Go would write the slice.\<close>

definition trace_Format :: "func_table \<Rightarrow> bool \<Rightarrow> bool \<Rightarrow> char \<Rightarrow> nat list \<Rightarrow> string" where
  "trace_Format func_at pl sharp verb st =
     (if verb = CHR ''v'' then
        if pl then concat (map (\<lambda>f. CHR 0x0A # frame_Format func_at pl verb f) st)
        else if sharp then ''[]errors.Frame{'' @ strings_Join (map (frame_Format func_at pl verb) st) '', '' @ ''}''
        else formatSlice func_at pl verb st
      else if verb = CHR ''s'' then formatSlice func_at pl verb st
      else [])"

definition stack_Format :: "func_table \<Rightarrow> bool \<Rightarrow> char \<Rightarrow> nat list \<Rightarrow> string" where
  "stack_Format func_at pl verb s =
     (if verb = CHR ''v'' \<and> pl then concat (map (\<lambda>pc. CHR 0x0A # frame_Format func_at True CHR ''v'' pc) s) else [])"

definition StackTrace :: "nat list \<Rightarrow> nat list" where "StackTrace s = map (\<lambda>i. s ! i) [0 ..< length s]"

text \<open>\<open>callers\<close>: of the frames that \<open>runtime.Callers\<close> sees the first 32.\<close>

definition callers :: "nat list \<Rightarrow> nat list" where "callers running = take 32 running"

lemma StackTrace_id [simp]: "StackTrace s = s"
  by (simp add: StackTrace_def map_nth)

lemma slice_loop_join: "slice_loop sh (Suc i) fs = concat (map (\<lambda>f. '' '' @ sh f) fs)"
  by (induction fs arbitrary: i) auto

lemma strings_Join_concat: "strings_Join (x # xs) sep = x @ concat (map (\<lambda>y. sep @ y) xs)"
  by (induction xs arbitrary: x) simp_all

text \<open>
  The name of a function is printed without the path of its package and without the
  package; a method keeps its receiver. The frames of a stack are printed in order, each once,
  separated by blanks; a stack keeps at most the 32 innermost frames, and its trace is all of
  them; a frame without a function has the text \<open>unknown\<close>.
\<close>
theorem stacks_are_printed_in_order:
  "CHR ''/'' \<notin> set (pkg @ f) \<Longrightarrow> CHR ''.'' \<notin> set pkg
     \<Longrightarrow> funcname (dir @ ''/'' @ pkg @ ''.'' @ f) = f \<and> funcname (pkg @ ''.'' @ f) = f"
  "formatSlice func_at pl verb st = ''['' @ strings_Join (map (frame_Format func_at pl verb) st) '' '' @ '']''"
  "length (callers running) = min 32 (length running) \<and> (\<exists>rest. running = StackTrace (callers running) @ rest)"
  "func_at (f0 - 1) = None \<Longrightarrow> frame_MarshalText func_at f0 = ''unknown''
     \<and> frame_Format func_at False CHR ''v'' f0 = ''unknown:0''"
proof -
  assume slash: "CHR ''/'' \<notin> set (pkg @ f)" and dot: "CHR ''.'' \<notin> set pkg"
  let ?n = "pkg @ ''.'' @ f"
  have "CHR ''/'' \<notin> set ?n" using slash by simp
  then have tails: "last_index (dir @ CHR ''/'' # ?n) CHR ''/'' = int (length dir)" "last_index ?n CHR ''/'' = - 1"
    by (rule last_index_split, rule last_index_none)
  have "first_index ?n CHR ''.'' = int (length pkg)"
  proof -
    have "takeWhile (\<lambda>x. x \<noteq> CHR ''.'') pkg = pkg" using dot by (auto simp: takeWhile_eq_all_conv)
    then show ?thesis by (simp add: first_index_def takeWhile_tail)
  qed
  with tails show "funcname (dir @ ''/'' @ pkg @ ''.'' @ f) = f \<and> funcname (pkg @ ''.'' @ f) = f"
    by (simp add: funcname_def Let_def nat_add_distrib)
next
  show "formatSlice func_at pl verb st = ''['' @ strings_Join (map (frame_Format func_at pl verb) st) '' '' @ '']''"
  proof (cases st)
    case (Cons a fs)
    then show ?thesis by (simp only: formatSlice_def list.map strings_Join_concat)
        (simp add: slice_loop_join [of _ 0, simplified] comp_def)
  qed (simp add: formatSlice_def)
next
  show "length (callers running) = min 32 (length running) \<and> (\<exists>rest. running = StackTrace (callers running) @ rest)"
    by (simp add: callers_def min.commute) (rule exI [of _ "drop 32 running"], simp)
next
  have "int_text 0 = ''0''" "path_Base ''unknown'' = ''unknown''" by code_simp+
  then show "func_at (f0 - 1) = None \<Longrightarrow> frame_MarshalText func_at f0 = ''unknown''
     \<and> frame_Format func_at False CHR ''v'' f0 = ''unknown:0''"
    by (simp add: frame_MarshalText_def frame_Format_def frame_source_def frame_name_def frame_file_def frame_line_def)
qed

lemma stacks_are_printed_in_order_witness:
  "funcname ''github.com/x/errors.(*stack).Format'' = ''(*stack).Format''"
  "frame_MarshalText (\<lambda>_. None) 5 = ''unknown''"
  using stacks_are_printed_in_order(1) [of "''errors''" "''(*stack).Format''" "''github.com/x''"]
    stacks_are_printed_in_order(4) [of "\<lambda>_. None" 5] by simp_all

section \<open>Errors\<close>

text \<open>The verbs the errors print; \<open>%q\<close> of a text is \<open>strconv.Quote\<close>.\<close>

datatype verb = Verb_s | Verb_v | Verb_plus_v | Verb_q

definition fundamental_Format :: "func_table \<Rightarrow> verb \<Rightarrow> site \<Rightarrow> string \<Rightarrow> string" where
  "fundamental_Format func_at v s m =
     (case v of
        Verb_plus_v \<Rightarrow> m @ stack_Format func_at True CHR ''v'' (pcs s)
      | Verb_q \<Rightarrow> quote m
      | _ \<Rightarrow> m)"

definition withStack_Format :: "func_table \<Rightarrow> verb \<Rightarrow> string option \<Rightarrow> string \<Rightarrow> site \<Rightarrow> string option" where
  "withStack_Format func_at v cause_text msg s =
     (case v of
        Verb_plus_v \<Rightarrow> map_option (\<lambda>t. t @ stack_Format func_at True CHR ''v'' (pcs s)) cause_text
      | Verb_q \<Rightarrow> Some (quote msg)
      | _ \<Rightarrow> Some msg)"

definition withMessage_Format :: "verb \<Rightarrow> string option \<Rightarrow> string \<Rightarrow> string option" where
  "withMessage_Format v cause_text m =
     (case v of
        Verb_plus_v \<Rightarrow> map_option (\<lambda>t. t @ [CHR 0x0A] @ m) cause_text
      | _ \<Rightarrow> Some m)"

text \<open>What \<open>fmt\<close> prints of an error, \<open>None\<close> where \<open>withCode.Format\<close> panics.\<close>

fun err_text :: "(json_object list \<Rightarrow> string) \<Rightarrow> registry \<Rightarrow> func_table \<Rightarrow> verb \<Rightarrow> gerr \<Rightarrow> string option" where
  "err_text marshal codes func_at v (fundamental s m) = Some (fundamental_Format func_at v s m)"
| "err_text marshal codes func_at v (withStack s e) =
     withStack_Format func_at v (err_text marshal codes func_at Verb_plus_v e) (Error codes (withStack s e)) s"
| "err_text marshal codes func_at v (withMessage s e m) =
     withMessage_Format v (err_text marshal codes func_at Verb_plus_v e) m"
| "err_text marshal codes func_at v (withCode s m c cause) =
     Format marshal codes func_at \<lparr>flag_sharp = False, flag_minus = False, flag_plus = (v = Verb_plus_v)\<rparr>
       (case v of Verb_s \<Rightarrow> CHR ''s'' | Verb_q \<Rightarrow> CHR ''q'' | _ \<Rightarrow> CHR ''v'') (withCode s m c cause)"
| "err_text marshal codes func_at v e = Some (if v = Verb_q then quote (Error codes e) else Error codes e)"

definition wrap_all :: "(site \<times> site \<times> string) list \<Rightarrow> gerr option \<Rightarrow> gerr option" where
  "wrap_all ws e = fold (\<lambda>(s1, s, m) e. Wrap s1 s e m) ws e"

lemma wrap_all_plain:
  assumes "\<not> is_withCode e"
  shows "\<exists>e'. wrap_all ws (Some e) = Some e' \<and> \<not> is_withCode e'
    \<and> err_text marshal codes func_at Verb_plus_v e'
      = map_option (\<lambda>t. t @ concat (map (\<lambda>(s1, s, m). CHR 0x0A # m @ stack_Format func_at True CHR ''v'' (pcs s)) ws))
          (err_text marshal codes func_at Verb_plus_v e)
    \<and> (ws \<noteq> [] \<longrightarrow> Error codes e' = snd (snd (last ws)) \<and> err_text marshal codes func_at Verb_s e' = Some (snd (snd (last ws)))
         \<and> err_text marshal codes func_at Verb_v e' = Some (snd (snd (last ws))))"
proof (induction ws rule: rev_induct)
  case Nil
  show ?case using assms by (simp add: wrap_all_def option.map_ident)
next
  case (snoc w ws)
  obtain s1 s m where w: "w = (s1, s, m)" by (metis prod_cases3)
  from snoc.IH obtain e' where e': "wrap_all ws (Some e) = Some e'" "\<not> is_withCode e'"
    "err_text marshal codes func_at Verb_plus_v e'
      = map_option (\<lambda>t. t @ concat (map (\<lambda>(s1, s, m). CHR 0x0A # m @ stack_Format func_at True CHR ''v'' (pcs s)) ws))
          (err_text marshal codes func_at Verb_plus_v e)" by blast
  have "wrap_all (ws @ [w]) (Some e) = Some (withStack s (withMessage s1 e' m))"
    using e'(1) Wrap_plain [OF e'(2)] w by (simp add: wrap_all_def)
  then show ?case using e'(3) w
    by (simp add: withStack_Format_def withMessage_Format_def option.map_comp comp_def)
qed



end
