(* ===== verification/Posix_Shutdown.thy ===== *)
theory Posix_Shutdown
  imports Process_Runtime
begin

text \<open>
  The shutdown manager for POSIX signals (\<open>pkg/shutdown/shutdownmanagers/posixsignal\<close>), which
  the graceful shutdown of \<open>Process_Runtime\<close> is started by. A signal is its text. What the
  manager does besides is the list of its effects: log records, the flush of the log, the exit
  of the process, after which nothing happens.
\<close>

datatype effect = Logged string string | Flushed | Exited int | Called string

record PosixSignalManager =
  px_signals :: "string list"
  px_flushFn :: bool
  px_exitFn :: bool
  px_lastSignal :: "string option"

type_synonym px_state = "PosixSignalManager \<times> effect list"

definition NewPosixSignalManager :: "string list \<Rightarrow> PosixSignalManager" where
  "NewPosixSignalManager sig = \<lparr>px_signals = (if length sig = 0 then [''interrupt'', ''terminated''] else sig),
     px_flushFn = True, px_exitFn = True, px_lastSignal = None\<rparr>"

definition SignalName :: "PosixSignalManager \<Rightarrow> string" where
  "SignalName m = (case px_lastSignal m of None \<Rightarrow> ''unknown'' | Some sig \<Rightarrow> sig)"

definition setLastSignal :: "string \<Rightarrow> PosixSignalManager \<Rightarrow> PosixSignalManager" where
  "setLastSignal sig m = m\<lparr>px_lastSignal := Some sig\<rparr>"

definition px_ShutdownStart :: "px_state \<Rightarrow> string option \<times> px_state" where
  "px_ShutdownStart s = (case s of (m, es) \<Rightarrow> (None, m, es @ [Logged ''starting graceful shutdown'' (SignalName m)]))"

definition px_ShutdownFinish :: "px_state \<Rightarrow> string option \<times> px_state" where
  "px_ShutdownFinish s =
     (case s of (m, es) \<Rightarrow>
        (None, m, es @ [Logged ''graceful shutdown completed, flushing logs before exit'' (SignalName m)]
           @ (if px_flushFn m then [Flushed] else []) @ (if px_exitFn m then [Exited 0] else [])))"

text \<open>\<open>Start\<close> only starts the goroutine that waits.\<close>

definition px_manager :: "px_state ShutdownManager" where
  "px_manager = \<lparr>sm_Name = ''PosixSignalManager'', sm_Start = \<lambda>s. (None, s),
     sm_ShutdownStart = px_ShutdownStart, sm_ShutdownFinish = px_ShutdownFinish\<rparr>"

text \<open>
  The goroutine of \<open>Start\<close>: of the signals that arrive it takes the first it listens to and
  starts the shutdown; \<open>order\<close> is that of the callbacks.
\<close>

definition px_wait :: "px_state GracefulShutdown \<Rightarrow> nat list \<Rightarrow> string list \<Rightarrow> px_state \<Rightarrow> px_state \<times> string list" where
  "px_wait gs order arriving s =
     (case find (\<lambda>sig. sig \<in> set (px_signals (fst s))) arriving of
        None \<Rightarrow> (s, [])
      | Some sig \<Rightarrow>
          (let m = setLastSignal sig (fst s)
           in StartShutdown gs px_manager order (m, snd s @ [Logged ''received shutdown signal'' (SignalName m)])))"

text \<open>A callback that notes that it was called and answers as given.\<close>

definition px_callback :: "string \<times> string option \<Rightarrow> string \<Rightarrow> px_state \<Rightarrow> string option \<times> px_state" where
  "px_callback d name s = (snd d, fst s, snd s @ [Called (fst d)])"

lemma run_px_callbacks:
  "run_callbacks gs name (map px_callback ds) (m, es)
     = ((m, es @ map (\<lambda>d. Called (fst d)) ds), concat (map (\<lambda>d. ReportError gs (snd d)) ds))"
  by (induction ds arbitrary: es) (simp_all add: px_callback_def)



end
