(* ===== verification/Log_Adapters.thy ===== *)
theory Log_Adapters
  imports Log_Fields
begin

text \<open>
  The adapters that let other logging interfaces write to zap: \<open>pkg/log/distribution/logger.go\<close>
  (logrus and the standard logger), \<open>klog/logger.go\<close>, \<open>logrus/hook.go\<close> and \<open>cronlog/log.go\<close>.
  A record is a level, a message and fields; a panic of the adapter itself is \<open>None\<close>.
  \<open>fmt\<close> is an argument: \<open>sprint\<close>, \<open>sprintf\<close>.
\<close>

section \<open>distribution\<close>

text \<open>The methods: a family, and whether it formats, ends the line or does neither.\<close>

datatype dist_family = DPrint | DTrace | DDebug | DInfo | DWarn | DWarning | DError | DFatal | DPanic
datatype dist_form = FPlain | FLn | FFormat string

fun dist_level :: "dist_family \<Rightarrow> Level" where
  "dist_level DPrint = InfoLevel"
| "dist_level DTrace = DebugLevel"
| "dist_level DDebug = DebugLevel"
| "dist_level DInfo = InfoLevel"
| "dist_level DWarn = WarnLevel"
| "dist_level DWarning = WarnLevel"
| "dist_level DError = ErrorLevel"
| "dist_level DFatal = FatalLevel"
| "dist_level DPanic = PanicLevel"

definition dist_log ::
    "(string list \<Rightarrow> string) \<Rightarrow> (string \<Rightarrow> string list \<Rightarrow> string) \<Rightarrow> dist_family \<Rightarrow> dist_form \<Rightarrow> string list \<Rightarrow> log_entry" where
  "dist_log sprint sprintf family form args =
     entry (dist_level family) (case form of FFormat f \<Rightarrow> sprintf f args | _ \<Rightarrow> sprint args) []"

section \<open>klog\<close>

text \<open>\<open>Write\<close> of the four outputs drops the last byte, the newline; an empty write is out of range.\<close>

definition klog_Write :: "Level \<Rightarrow> string \<Rightarrow> (log_entry \<times> nat) option" where
  "klog_Write level p =
     (if length p = 0 then None else Some (entry level (take (length p - 1) p) [], length p))"

fun klog_output :: "string \<Rightarrow> Level option" where
  "klog_output severity =
     (if severity = ''INFO'' then Some InfoLevel
      else if severity = ''WARNING'' then Some WarnLevel
      else if severity = ''FATAL'' then Some FatalLevel
      else if severity = ''ERROR'' then Some ErrorLevel
      else None)"

section \<open>logrus\<close>

datatype logrus_level = LPanic | LFatal | LError | LWarn | LInfo | LDebug | LTrace

text \<open>A value of an entry's data: an error, or anything else.\<close>

datatype logrus_value = ErrValue string | OtherValue string

fun logrus_zap :: "logrus_level \<Rightarrow> Level" where
  "logrus_zap LPanic = PanicLevel"
| "logrus_zap LFatal = FatalLevel"
| "logrus_zap LError = ErrorLevel"
| "logrus_zap LWarn = WarnLevel"
| "logrus_zap LInfo = InfoLevel"
| "logrus_zap LDebug = DebugLevel"
| "logrus_zap LTrace = DebugLevel"

text \<open>The fields of the data, in the order the map is visited; \<open>error\<close> must hold an error.\<close>

fun hook_fields :: "(string \<times> logrus_value) list \<Rightarrow> Field list option" where
  "hook_fields [] = Some []"
| "hook_fields ((key, ErrValue e) # data) = map_option (Cons (AnyF key e)) (hook_fields data)"
| "hook_fields ((key, OtherValue v) # data) =
     (if key = ''error'' then None else map_option (Cons (AnyF key v)) (hook_fields data))"

definition Fire :: "(Level \<Rightarrow> bool) \<Rightarrow> logrus_level \<Rightarrow> string \<Rightarrow> (string \<times> logrus_value) list \<Rightarrow> log_entry list option" where
  "Fire enabled level msg data =
     (case hook_fields data of
        None \<Rightarrow> None
      | Some fs \<Rightarrow> Some (if enabled (logrus_zap level) then [entry (logrus_zap level) msg fs] else []))"

text \<open>\<open>WithError\<close> of \<open>distribution\<close>: the data of the entry it makes. A nil error is no error.\<close>

definition WithError :: "string option \<Rightarrow> (string \<times> logrus_value) list" where
  "WithError err = [(''error'', case err of None \<Rightarrow> OtherValue ''<nil>'' | Some e \<Rightarrow> ErrValue e)]"

section \<open>cronlog\<close>

text \<open>
  \<open>err\<close> is \<open>None\<close> for a nil error, whose text can not be asked for; \<open>sugar\<close> is what zap makes of
  keys and values.
\<close>

definition cron_Info :: "(arg list \<Rightarrow> Field list) \<Rightarrow> string \<Rightarrow> arg list \<Rightarrow> log_entry" where
  "cron_Info sugar msg args = entry InfoLevel msg (sugar args)"

definition cron_Error ::
    "(arg list \<Rightarrow> Field list) \<Rightarrow> (string \<Rightarrow> string list \<Rightarrow> string) \<Rightarrow> string option \<Rightarrow> string \<Rightarrow> string list \<Rightarrow> log_entry option" where
  "cron_Error sugar sprintf err msg args =
     (case err of
        None \<Rightarrow> None
      | Some e \<Rightarrow> Some (entry ErrorLevel (sprintf msg args) (sugar [ArgText ''error'', ArgText e])))"

section \<open>Properties\<close>

lemma hook_fields_None: "hook_fields data = None \<longleftrightarrow> (\<exists>v. (''error'', OtherValue v) \<in> set data)"
  by (induction data rule: hook_fields.induct) auto

lemma hook_fields_keys: "hook_fields data = Some fs \<Longrightarrow> map field_key fs = map fst data"
  by (induction data arbitrary: fs rule: hook_fields.induct) (auto split: if_splits)

text \<open>
  What the adapters write. The hook of logrus writes one record with a field for each entry
  of the data, if its level is enabled; levels are never confused except that traces become
  debug records. But it panics exactly when the entry named \<open>error\<close> is not an error, so a nil error
  given to \<open>WithError\<close> makes the next record panic. An output of klog drops the newline and reports
  the whole line as written; an empty write panics.
\<close>
theorem adapters_write_records:
  "Fire enabled lv msg data = None \<longleftrightarrow> (\<exists>v. (''error'', OtherValue v) \<in> set data)"
  "Fire enabled lv msg data = Some es \<Longrightarrow> enabled (logrus_zap lv)
     \<Longrightarrow> \<exists>e. es = [e] \<and> le_level e = logrus_zap lv \<and> le_msg e = msg \<and> map field_key (le_fields e) = map fst data"
  "Fire enabled lv msg (WithError err) = None \<longleftrightarrow> err = None"
  "logrus_zap l1 = logrus_zap l2 \<Longrightarrow> l1 = l2 \<or> {l1, l2} = {LDebug, LTrace}"
  "klog_Write level (line @ [CHR 0x0A]) = Some (entry level line [], length line + 1) \<and> klog_Write level [] = None"
proof -
  show "Fire enabled lv msg data = None \<longleftrightarrow> (\<exists>v. (''error'', OtherValue v) \<in> set data)"
    unfolding Fire_def hook_fields_None [symmetric] by (simp split: option.split)
  show "Fire enabled lv msg data = Some es \<Longrightarrow> enabled (logrus_zap lv)
     \<Longrightarrow> \<exists>e. es = [e] \<and> le_level e = logrus_zap lv \<and> le_msg e = msg \<and> map field_key (le_fields e) = map fst data"
    using hook_fields_keys by (auto simp: Fire_def entry_def split: option.splits)
  show "Fire enabled lv msg (WithError err) = None \<longleftrightarrow> err = None"
    by (cases err) (simp_all add: WithError_def Fire_def)
  show "logrus_zap l1 = logrus_zap l2 \<Longrightarrow> l1 = l2 \<or> {l1, l2} = {LDebug, LTrace}"
    by (cases l1; cases l2) auto
  show "klog_Write level (line @ [CHR 0x0A]) = Some (entry level line [], length line + 1) \<and> klog_Write level [] = None"
    by (simp add: klog_Write_def)
qed

lemma adapters_write_records_witness:
  "\<exists>e. [entry InfoLevel ''m'' [AnyF ''k'' ''v'']] = [e] \<and> map field_key (le_fields e) = [''k'']"
proof -
  have "Fire (\<lambda>_. True) LInfo ''m'' [(''k'', OtherValue ''v'')] = Some [entry InfoLevel ''m'' [AnyF ''k'' ''v'']]"
    by (simp add: Fire_def)
  from adapters_write_records(2) [OF this] show ?thesis by auto
qed

end
