(* ===== verification/Tls_Credentials.thy ===== *)
theory Tls_Credentials
  imports Mtls_Config
begin

text \<open>
  \<open>pkg/grpc/mtls/credentials.go\<close> and the two constructors of TLS configurations at the end of
  \<open>pkg/grpc/interceptors/mtls.go\<close>: the credentials of a server, which take their configuration
  from a builder that reloads it, and the ways to a configuration without a builder.

  A configuration is never changed once it is made: a reload stores another one. So what
  \<open>credentials.NewTLS\<close> keeps of the configuration it is given is its value. A
  \<open>VerifyPeerCertificate\<close> that is not set refuses nothing, a version of 0 is no bound, and no
  cipher suites are those of \<open>crypto/tls\<close>.
\<close>

section \<open>Credentials of a server\<close>

record ('kp, 'ca) ServerCredentials =
  sc_config :: mtls_config
  sc_builder :: "('kp, 'ca) TLSConfigBuilder"

definition NewServerCredentials :: "('kp, 'ca) files \<Rightarrow> mtls_config \<Rightarrow> string + ('kp, 'ca) ServerCredentials" where
  "NewServerCredentials fs cfg =
     (case NewTLSConfigBuilder fs cfg of
        Inl err \<Rightarrow> Inl err
      | Inr builder \<Rightarrow> Inr \<lparr>sc_config = cfg, sc_builder = builder\<rparr>)"

definition server_TransportCredentials :: "('kp, 'ca) ServerCredentials \<Rightarrow> ('kp, 'ca) tls_config option" where
  "server_TransportCredentials s = GetTLSConfig (sc_builder s)"

definition GRPCServerOption :: "('kp, 'ca) ServerCredentials \<Rightarrow> ('kp, 'ca) tls_config option" where
  "GRPCServerOption s = server_TransportCredentials s"

definition sc_StartAutoReload :: "('kp, 'ca) ServerCredentials \<Rightarrow> reload_start" where
  "sc_StartAutoReload s = StartAutoReload (sc_builder s)"

text \<open>\<open>Stop\<close> closes the channel of the builder; closing it a second time panics, which is None.\<close>

definition sc_Stop :: "('kp, 'ca) ServerCredentials \<Rightarrow> ('kp, 'ca) ServerCredentials option" where
  "sc_Stop s =
     (if bld_stopped (sc_builder s) then None
      else Some (s\<lparr>sc_builder := (sc_builder s)\<lparr>bld_stopped := True\<rparr>\<rparr>))"

text \<open>
  The life of the credentials beside the servers made with their option: the builder reloads,
  another server is made, or the reloading is stopped.
\<close>

inductive server_step ::
    "('kp, 'ca) ServerCredentials \<times> ('kp, 'ca) tls_config option list
     \<Rightarrow> ('kp, 'ca) ServerCredentials \<times> ('kp, 'ca) tls_config option list \<Rightarrow> bool" where
  reload: "sc_StartAutoReload s = Ticking d \<Longrightarrow> \<not> bld_stopped (sc_builder s)
     \<Longrightarrow> server_step (s, servers) (s\<lparr>sc_builder := snd (buildTLSConfig fs (sc_builder s))\<rparr>, servers)"
| serve: "server_step (s, servers) (s, servers @ [GRPCServerOption s])"
| stopping: "sc_Stop s = Some s' \<Longrightarrow> server_step (s, servers) (s', servers)"

inductive_cases server_stepE: "server_step (s, servers) p"

section \<open>Configurations without a builder\<close>

definition read_cas :: "('kp, 'ca) files \<Rightarrow> string \<Rightarrow> string + 'ca list" where
  "read_cas fs caFile =
     (case ReadFile fs caFile of
        Inl err \<Rightarrow> Inl (''failed to read CA file: '' @ err)
      | Inr caCert \<Rightarrow>
          (case AppendCertsFromPEM fs [] caCert of
             (caPool, ok) \<Rightarrow> if \<not> ok then Inl ''failed to parse CA certificate'' else Inr caPool))"

definition NewMutualTLSConfig ::
    "('kp, 'ca) files \<Rightarrow> string \<Rightarrow> string \<Rightarrow> string \<Rightarrow> string + ('kp, 'ca) tls_config" where
  "NewMutualTLSConfig fs certFile keyFile caFile =
     (case LoadX509KeyPair fs certFile keyFile of
        Inl err \<Rightarrow> Inl (''failed to load server certificate: '' @ err)
      | Inr cert \<Rightarrow>
          (case read_cas fs caFile of
             Inl err \<Rightarrow> Inl err
           | Inr caPool \<Rightarrow>
               Inr \<lparr>tls_Certificates = [cert], tls_ClientCAs = caPool, tls_ClientAuth = RequireAndVerifyClientCert,
                 tls_MinVersion = VersionTLS12, tls_MaxVersion = VersionTLS13, tls_CipherSuites = [],
                 tls_VerifyPeerCertificate = (\<lambda>_. None)\<rparr>))"

definition NewClientTLSConfig ::
    "('kp, 'ca) files \<Rightarrow> string \<Rightarrow> string \<Rightarrow> string \<Rightarrow> string \<Rightarrow> string + ('kp, 'ca) client_tls" where
  "NewClientTLSConfig fs certFile keyFile caFile serverName =
     (case LoadX509KeyPair fs certFile keyFile of
        Inl err \<Rightarrow> Inl (''failed to load client certificate: '' @ err)
      | Inr cert \<Rightarrow>
          (case read_cas fs caFile of
             Inl err \<Rightarrow> Inl err
           | Inr caPool \<Rightarrow>
               Inr \<lparr>ctls_Certificates = [cert], ctls_RootCAs = Some caPool, ctls_ServerName = serverName,
                 ctls_InsecureSkipVerify = False, ctls_MinVersion = VersionTLS12\<rparr>))"

text \<open>Of the interceptors' package: the same from texts; \<open>X509KeyPair\<close> parses a key pair.\<close>

definition TLSClientConfig ::
    "('kp, 'ca) files \<Rightarrow> (string \<Rightarrow> string \<Rightarrow> string + 'kp) \<Rightarrow> string \<Rightarrow> string \<Rightarrow> string \<Rightarrow> string
     \<Rightarrow> string + ('kp, 'ca) client_tls" where
  "TLSClientConfig fs X509KeyPair caCert clientCert clientKey serverName =
     (case AppendCertsFromPEM fs [] caCert of
        (caCertPool, ok) \<Rightarrow>
          if \<not> ok then Inl ''failed to append CA certificate''
          else (case X509KeyPair clientCert clientKey of
              Inl err \<Rightarrow> Inl (''failed to load client certificate: '' @ err)
            | Inr cert \<Rightarrow>
                Inr \<lparr>ctls_Certificates = [cert], ctls_RootCAs = Some caCertPool, ctls_ServerName = serverName,
                  ctls_InsecureSkipVerify = False, ctls_MinVersion = VersionTLS12\<rparr>))"

definition TLSServerConfig ::
    "('kp, 'ca) files \<Rightarrow> (string \<Rightarrow> string \<Rightarrow> string + 'kp) \<Rightarrow> string \<Rightarrow> string \<Rightarrow> string \<Rightarrow> client_auth
     \<Rightarrow> string + ('kp, 'ca) tls_config" where
  "TLSServerConfig fs X509KeyPair caCert serverCert serverKey clientAuth =
     (case AppendCertsFromPEM fs [] caCert of
        (caCertPool, ok) \<Rightarrow>
          if \<not> ok then Inl ''failed to append CA certificate''
          else (case X509KeyPair serverCert serverKey of
              Inl err \<Rightarrow> Inl (''failed to load server certificate: '' @ err)
            | Inr cert \<Rightarrow>
                Inr \<lparr>tls_Certificates = [cert], tls_ClientCAs = caCertPool, tls_ClientAuth = clientAuth,
                  tls_MinVersion = VersionTLS12, tls_MaxVersion = 0, tls_CipherSuites = [],
                  tls_VerifyPeerCertificate = (\<lambda>_. None)\<rparr>))"

section \<open>Reloading and servers\<close>

lemma server_run_keeps_servers:
  assumes "server_step\<^sup>*\<^sup>* p q"
  shows "\<exists>more. snd q = snd p @ more"
  using assms
proof (induction rule: rtranclp_induct)
  case (step q r)
  from step(2,3) show ?case by (cases rule: server_step.cases) auto
qed simp

lemma server_step_builder_inv:
  assumes "server_step (s, servers) (s', servers')" and "builder_inv c (sc_builder s)"
  shows "builder_inv c (sc_builder s')"
  using assms(1)
proof cases
  case (reload d fs)
  from reload(3,4) have "reload_step (sc_builder s) (snd (buildTLSConfig fs (sc_builder s)))"
    by (auto simp: sc_StartAutoReload_def intro: tick)
  with reload assms(2) show ?thesis by (auto intro: go_inv)
next
  case serve
  with assms(2) show ?thesis by simp
next
  case stopping
  with assms(2) show ?thesis
    by (auto simp: sc_Stop_def builder_inv_def GetTLSConfig_def split: if_splits)
qed


definition server_inv :: "mtls_config \<Rightarrow> ('kp, 'ca) ServerCredentials \<times> ('kp, 'ca) tls_config option list \<Rightarrow> bool" where
  "server_inv c p \<longleftrightarrow> builder_inv c (sc_builder (fst p))
     \<and> (\<forall>offered \<in> set (snd p). \<exists>t. offered = Some t \<and> enforces c t)"

lemma server_step_inv:
  assumes "server_step p q" and "server_inv c p"
  shows "server_inv c q"
proof -
  obtain s servers s' servers' where p: "p = (s, servers)" and q: "q = (s', servers')"
    by (metis prod.collapse)
  from assms have b: "builder_inv c (sc_builder s')"
    unfolding p q server_inv_def by (auto dest: server_step_builder_inv)
  from assms(1) have "servers' = servers \<or> servers' = servers @ [GRPCServerOption s]"
    unfolding p q by (auto elim: server_stepE)
  with b assms(2) show ?thesis
    unfolding p q server_inv_def
    by (auto simp: GRPCServerOption_def server_TransportCredentials_def builder_inv_def)
qed

lemma server_run_inv:
  assumes "server_step\<^sup>*\<^sup>* p q" and "server_inv c p"
  shows "server_inv c q"
  using assms by (induction rule: rtranclp_induct) (auto intro: server_step_inv)

lemma NewServerCredentials_inv:
  assumes "NewServerCredentials fs c = Inr s"
  shows "server_inv c (s, [])"
proof -
  from assms obtain b where b: "NewTLSConfigBuilder fs c = Inr b" and s: "s = \<lparr>sc_config = c, sc_builder = b\<rparr>"
    by (auto simp: NewServerCredentials_def split: sum.splits)
  from b have "buildTLSConfig fs \<lparr>bld_config = c, bld_tlsConfig = None, bld_stopped = False\<rparr> = (None, b)"
    by (auto simp: NewTLSConfigBuilder_def split: option.splits prod.splits)
  with buildTLSConfig_result [where fs = fs and b = "\<lparr>bld_config = c, bld_tlsConfig = None, bld_stopped = False\<rparr>"]
  show ?thesis by (simp add: server_inv_def s)
qed


text \<open>
  The certificates are renewed, the builder has reloaded them and offers them; the server
  that was started before still shows the old ones.
\<close>
lemma renewed_certificate_is_not_served:
  assumes "NewServerCredentials fs c = Inr s" and "EnableAutoReload c" and "0 < ReloadInterval c"
    and "LoadX509KeyPair fs' (CertFile c) (KeyFile c) = Inr cert" and "loadCACertPool fs' c = Inr pool"
  shows "\<exists>s' t. server_step\<^sup>*\<^sup>* (s, [GRPCServerOption s]) (s', [GRPCServerOption s])
    \<and> server_TransportCredentials s' = Some t \<and> tls_Certificates t = [cert] \<and> tls_ClientCAs t = pool"
proof -
  from assms(1) have b: "bld_config (sc_builder s) = c \<and> \<not> bld_stopped (sc_builder s)"
    by (auto simp: NewServerCredentials_def NewTLSConfigBuilder_def buildTLSConfig_def Let_def
        split: sum.splits option.splits)
  let ?s' = "s\<lparr>sc_builder := snd (buildTLSConfig fs' (sc_builder s))\<rparr>"
  from b assms(2,3) have "server_step (s, [GRPCServerOption s]) (?s', [GRPCServerOption s])"
    by (intro reload [where d = "ReloadInterval c"]) (auto simp: sc_StartAutoReload_def StartAutoReload_def)
  moreover have "\<exists>t. server_TransportCredentials ?s' = Some t \<and> tls_Certificates t = [cert] \<and> tls_ClientCAs t = pool"
    using b assms(4,5) by (simp add: server_TransportCredentials_def GetTLSConfig_def buildTLSConfig_def Let_def)
  ultimately show ?thesis by blast
qed

section \<open>The ways to a configuration agree\<close>

lemma read_cas_client:
  "cli_CAFile cfg \<noteq> [] \<Longrightarrow> load_client_cas fs cfg =
     (case read_cas fs (cli_CAFile cfg) of Inl err \<Rightarrow> Inl err | Inr pool \<Rightarrow> Inr (Some pool))"
  by (simp add: load_client_cas_def read_cas_def AppendCertsFromPEM_def split: sum.split)

lemma client_constructors_agree:
  assumes "certFile \<noteq> []" and "keyFile \<noteq> []" and "caFile \<noteq> []"
  shows "NewClientCredentials fs \<lparr>cli_CertFile = certFile, cli_KeyFile = keyFile, cli_CAFile = caFile,
       cli_ServerName = serverName, cli_InsecureSkipVerify = False\<rparr>
     = NewClientTLSConfig fs certFile keyFile caFile serverName"
  using assms
  by (simp add: NewClientCredentials_def NewClientTLSConfig_def client_Validate_def read_cas_client split: sum.split)

definition quick_config :: "string \<Rightarrow> string \<Rightarrow> string \<Rightarrow> mtls_config" where
  "quick_config certFile keyFile caFile =
     mtls_DefaultConfig\<lparr>CertFile := certFile, KeyFile := keyFile, CAFile := caFile\<rparr>"

definition sample_mtls_config :: mtls_config where
  "sample_mtls_config = quick_config ''c'' ''k'' ''a''"

lemma sample_credentials:
  "\<exists>s t. NewServerCredentials sample_files sample_mtls_config = Inr s \<and> GRPCServerOption s = Some t
     \<and> tls_Certificates t = [''c'']"
  by (simp add: NewServerCredentials_def NewTLSConfigBuilder_def mtls_config_Validate_def mtls_DefaultConfig_def
      sample_mtls_config_def quick_config_def buildTLSConfig_def sample_files_def loadCACertPool_def load_ca_dir_def
      AppendCertsFromPEM_def GRPCServerOption_def server_TransportCredentials_def GetTLSConfig_def Let_def)


lemma server_constructors_agree:
  assumes "certFile \<noteq> []" and "keyFile \<noteq> []" and "caFile \<noteq> []"
  shows "(case NewTLSConfigBuilder fs (quick_config certFile keyFile caFile) of
      Inl err \<Rightarrow> \<exists>e. NewMutualTLSConfig fs certFile keyFile caFile = Inl e
    | Inr b \<Rightarrow> \<exists>t. GetTLSConfig b = Some t \<and> NewMutualTLSConfig fs certFile keyFile caFile =
        Inr (t\<lparr>tls_CipherSuites := [], tls_VerifyPeerCertificate := (\<lambda>_. None)\<rparr>))"
proof -
  have "loadCACertPool fs (quick_config certFile keyFile caFile) = read_cas fs caFile"
    using assms(3)
    by (simp add: loadCACertPool_def load_ca_dir_def quick_config_def mtls_DefaultConfig_def read_cas_def
        AppendCertsFromPEM_def split: sum.split)
  moreover have "mtls_config_Validate (quick_config certFile keyFile caFile) = None"
    using assms by (simp add: mtls_config_Validate_def quick_config_def mtls_DefaultConfig_def)
  ultimately show ?thesis
    by (simp add: NewTLSConfigBuilder_def buildTLSConfig_def NewMutualTLSConfig_def GetTLSConfig_def
        Let_def quick_config_def mtls_DefaultConfig_def split: sum.split)
qed

text \<open>\<open>tls.LoadX509KeyPair\<close> as it is documented: it reads the two files and parses their texts.\<close>

definition key_pairs_are_files :: "('kp, 'ca) files \<Rightarrow> (string \<Rightarrow> string \<Rightarrow> string + 'kp) \<Rightarrow> bool" where
  "key_pairs_are_files fs X509KeyPair \<longleftrightarrow> (\<forall>certFile keyFile certText keyText.
     ReadFile fs certFile = Inr certText \<longrightarrow> ReadFile fs keyFile = Inr keyText \<longrightarrow>
     LoadX509KeyPair fs certFile keyFile = X509KeyPair certText keyText)"

lemma client_texts_agree:
  assumes "key_pairs_are_files fs X509KeyPair"
    and "ReadFile fs certFile = Inr certText" and "ReadFile fs keyFile = Inr keyText"
    and "ReadFile fs caFile = Inr caText"
  shows "NewClientTLSConfig fs certFile keyFile caFile serverName = Inr t
     \<longleftrightarrow> TLSClientConfig fs X509KeyPair caText certText keyText serverName = Inr t"
  using assms
  by (auto simp: key_pairs_are_files_def NewClientTLSConfig_def TLSClientConfig_def read_cas_def
      AppendCertsFromPEM_def split: sum.splits if_splits)

lemma server_texts_agree:
  assumes "key_pairs_are_files fs X509KeyPair"
    and "ReadFile fs certFile = Inr certText" and "ReadFile fs keyFile = Inr keyText"
    and "ReadFile fs caFile = Inr caText"
  shows "NewMutualTLSConfig fs certFile keyFile caFile = Inr t
     \<longleftrightarrow> (\<exists>t'. TLSServerConfig fs X509KeyPair caText certText keyText RequireAndVerifyClientCert = Inr t'
          \<and> t = t'\<lparr>tls_MaxVersion := VersionTLS13\<rparr>)"
  using assms
  by (auto simp: key_pairs_are_files_def NewMutualTLSConfig_def TLSServerConfig_def read_cas_def
      AppendCertsFromPEM_def split: sum.splits if_splits)

text \<open>
  C35: The six ways to a TLS configuration agree on the same files. A client gets the same
  configuration, or the same error, from its credentials and from the quick constructor, and the
  same configuration from the texts of the files; a server gets from the quick constructor what
  the builder makes of the default settings, apart from the cipher suites and the policy, and
  what the texts give but for the bound of the version.
\<close>
theorem tls_configurations_agree:
  assumes "certFile \<noteq> []" and "keyFile \<noteq> []" and "caFile \<noteq> []"
    and "key_pairs_are_files fs X509KeyPair"
    and "ReadFile fs certFile = Inr certText" and "ReadFile fs keyFile = Inr keyText"
    and "ReadFile fs caFile = Inr caText"
  shows "NewClientCredentials fs \<lparr>cli_CertFile = certFile, cli_KeyFile = keyFile, cli_CAFile = caFile,
        cli_ServerName = serverName, cli_InsecureSkipVerify = False\<rparr>
      = NewClientTLSConfig fs certFile keyFile caFile serverName
    \<and> (\<forall>t. NewClientTLSConfig fs certFile keyFile caFile serverName = Inr t
         \<longleftrightarrow> TLSClientConfig fs X509KeyPair caText certText keyText serverName = Inr t)
    \<and> (case NewTLSConfigBuilder fs (quick_config certFile keyFile caFile) of
        Inl err \<Rightarrow> \<exists>e. NewMutualTLSConfig fs certFile keyFile caFile = Inl e
      | Inr b \<Rightarrow> \<exists>t. GetTLSConfig b = Some t \<and> NewMutualTLSConfig fs certFile keyFile caFile =
          Inr (t\<lparr>tls_CipherSuites := [], tls_VerifyPeerCertificate := (\<lambda>_. None)\<rparr>))
    \<and> (\<forall>t. NewMutualTLSConfig fs certFile keyFile caFile = Inr t
         \<longleftrightarrow> (\<exists>t'. TLSServerConfig fs X509KeyPair caText certText keyText RequireAndVerifyClientCert = Inr t'
              \<and> t = t'\<lparr>tls_MaxVersion := VersionTLS13\<rparr>))"
  using client_constructors_agree [OF assms(1-3)] client_texts_agree [OF assms(4-7)]
    server_constructors_agree [OF assms(1-3)] server_texts_agree [OF assms(4-7)]
  by blast

definition text_files :: "(string, string) files" where
  "text_files = sample_files\<lparr>LoadX509KeyPair := \<lambda>c k. Inr (c @ k), ReadFile := \<lambda>f. Inr f\<rparr>"

theorem tls_configurations_agree_witness:
  "\<exists>t. NewClientTLSConfig text_files ''c'' ''k'' ''a'' ''host'' = Inr t
     \<and> TLSClientConfig text_files (\<lambda>c k. Inr (c @ k)) ''a'' ''c'' ''k'' ''host'' = Inr t
     \<and> ctls_Certificates t = [''ck''] \<and> ctls_RootCAs t = Some [''a'']"
proof -
  have "key_pairs_are_files text_files (\<lambda>c k. Inr (c @ k))"
    by (simp add: key_pairs_are_files_def text_files_def)
  from tls_configurations_agree [where certFile = "''c''" and keyFile = "''k''" and caFile = "''a''"
      and serverName = "''host''" and certText = "''c''" and keyText = "''k''" and caText = "''a''", OF _ _ _ this]
  have "\<forall>t. NewClientTLSConfig text_files ''c'' ''k'' ''a'' ''host'' = Inr t
      \<longleftrightarrow> TLSClientConfig text_files (\<lambda>c k. Inr (c @ k)) ''a'' ''c'' ''k'' ''host'' = Inr t"
    by (simp add: text_files_def)
  moreover have "\<exists>t. NewClientTLSConfig text_files ''c'' ''k'' ''a'' ''host'' = Inr t
      \<and> ctls_Certificates t = [''ck''] \<and> ctls_RootCAs t = Some [''a'']"
    by (simp add: NewClientTLSConfig_def text_files_def sample_files_def read_cas_def AppendCertsFromPEM_def)
  ultimately show ?thesis by blast
qed

end
