(* ===== verification/Messaging_Trail.thy ===== *)
theory Messaging_Trail
  imports Messaging_Core
begin

text \<open>
  \<open>LoggerMiddleware\<close> and \<open>AuditMiddleware\<close> of \<open>pkg/messaging/middleware.go\<close>: what they write
  around a handler, alone and together with retrying and recovering. A line is kept as the
  values it is printed from; \<open>elapsed\<close> is \<open>time.Since(start)\<close>.
\<close>

section \<open>The middlewares\<close>

datatype log_line =
    Begins string string "16 word"
  | Fails string string duration msg_error
  | Succeeds string string duration

definition LoggerMiddleware :: "(log_line \<Rightarrow> 's \<Rightarrow> 's) option \<Rightarrow> duration \<Rightarrow> 's Middleware" where
  "LoggerMiddleware logger elapsed next_h ctx msg s =
     (let s1 = (case logger of
            Some Printf \<Rightarrow> Printf (Begins (m_Topic msg) (m_UUID msg) (m_Attempts msg)) s
          | None \<Rightarrow> s)
      in case next_h ctx msg s1 of
        (Returned err, m', s') \<Rightarrow>
          (Returned err, m',
           (case logger of
              None \<Rightarrow> s'
            | Some Printf \<Rightarrow>
                (case err of
                   Some e \<Rightarrow> Printf (Fails (m_Topic m') (m_UUID m') elapsed e) s'
                 | None \<Rightarrow> Printf (Succeeds (m_Topic m') (m_UUID m') elapsed) s')))
      | r \<Rightarrow> r)"

definition AuditMiddleware :: "(string \<Rightarrow> Message \<Rightarrow> msg_error option \<Rightarrow> 's \<Rightarrow> 's) \<Rightarrow> 's Middleware" where
  "AuditMiddleware Log next_h ctx msg s =
     (case next_h ctx msg (Log ''message.received'' msg None s) of
        (Returned err, m', s') \<Rightarrow>
          (Returned err, m',
           (if err \<noteq> None then Log ''message.failed'' m' err s' else Log ''message.processed'' m' None s'))
      | r \<Rightarrow> r)"

section \<open>Trails\<close>

text \<open>An audit logger that keeps what it is told beside the state of the handlers.\<close>

type_synonym trail = "(string \<times> Message \<times> msg_error option) list"

definition keep_Log :: "string \<Rightarrow> Message \<Rightarrow> msg_error option \<Rightarrow> 's \<times> trail \<Rightarrow> 's \<times> trail" where
  "keep_Log event msg err p = (fst p, snd p @ [(event, msg, err)])"

definition keep_Printf :: "log_line \<Rightarrow> 's \<times> log_line list \<Rightarrow> 's \<times> log_line list" where
  "keep_Printf line p = (fst p, snd p @ [line])"

definition beside :: "'s mhandler \<Rightarrow> ('s \<times> 't) mhandler" where
  "beside h ctx m p = (case h ctx m (fst p) of (r, m', s') \<Rightarrow> (r, m', (s', snd p)))"

definition wait_beside ::
    "(duration \<Rightarrow> 's \<Rightarrow> msg_error option \<times> 's) \<Rightarrow> duration \<Rightarrow> 's \<times> 't \<Rightarrow> msg_error option \<times> ('s \<times> 't)" where
  "wait_beside wait d p = (case wait d (fst p) of (e, s') \<Rightarrow> (e, (s', snd p)))"

text \<open>The events a result leaves behind after \<open>k\<close> attempts that failed.\<close>

definition closing :: "hresult \<Rightarrow> string list" where
  "closing r =
     (case r of
        Returned None \<Rightarrow> [''message.received'', ''message.processed'']
      | Returned (Some e) \<Rightarrow> []
      | _ \<Rightarrow> [''message.received''])"

definition attempts_trail :: "nat \<Rightarrow> hresult \<Rightarrow> string list" where
  "attempts_trail k r = concat (replicate k [''message.received'', ''message.failed'']) @ closing r"

lemma attempts_trail_Suc:
  "attempts_trail (Suc k) r = [''message.received'', ''message.failed''] @ attempts_trail k r"
  by (simp add: attempts_trail_def)

lemma audited_call:
  "AuditMiddleware keep_Log (beside h) ctx m (s, t) =
     (case h ctx m s of
        (Returned None, m', s') \<Rightarrow>
          (Returned None, m', (s', t @ [(''message.received'', m, None), (''message.processed'', m', None)]))
      | (Returned (Some e), m', s') \<Rightarrow>
          (Returned (Some e), m', (s', t @ [(''message.received'', m, None), (''message.failed'', m', Some e)]))
      | (r, m', s') \<Rightarrow> (r, m', (s', t @ [(''message.received'', m, None)])))"
  by (auto simp: AuditMiddleware_def keep_Log_def beside_def split: prod.split hresult.split option.split)

definition retry_trail_ok :: "hresult \<times> Message \<times> 's \<Rightarrow> string list \<Rightarrow> nat \<Rightarrow> hresult \<times> Message \<times> 's \<times> trail \<Rightarrow> bool" where
  "retry_trail_ok plain before n p \<longleftrightarrow>
     (case p of (r, m', s', t') \<Rightarrow> plain = (r, m', s') \<and> (\<exists>k \<le> n. map fst t' = before @ attempts_trail k r))"

lemma retry_trail_ok_more:
  assumes "retry_trail_ok plain (before @ [''message.received'', ''message.failed'']) n p"
  shows "retry_trail_ok plain before (Suc n) p"
proof -
  obtain r m' s' t' where p: "p = (r, m', s', t')" by (cases p) auto
  from assms obtain k where plain: "plain = (r, m', s')" and k: "k \<le> n"
    and t: "map fst t' = (before @ [''message.received'', ''message.failed'']) @ attempts_trail k r"
    unfolding retry_trail_ok_def p by auto
  from t have "map fst t' = before @ attempts_trail (Suc k) r" by (simp add: attempts_trail_Suc)
  with plain k show ?thesis unfolding retry_trail_ok_def p by auto
qed

lemma retry_loop_trail:
  "retry_trail_ok (retry_loop mx delay wait h ctx m s i err n) (map fst t) n
     (retry_loop mx delay (wait_beside wait) (AuditMiddleware keep_Log (beside h)) ctx m (s, t) i err n)"
proof (induction n arbitrary: m s t i err)
  case 0
  show ?case by (simp add: retry_trail_ok_def attempts_trail_def closing_def)
next
  case (Suc n)
  obtain r m' s' where h: "h ctx m s = (r, m', s')" by (cases "h ctx m s") auto
  consider "r = Returned None" | e where "r = Returned (Some e)" | p where "r = Panicked p" | p where "r = Crashed p"
    by (cases r) (auto elim: option.exhaust)
  then show ?case
  proof cases
    case 1
    then show ?thesis by (simp add: h audited_call retry_trail_ok_def attempts_trail_def closing_def)
  next
    case (2 e)
    let ?t = "t @ [(''message.received'', m, None), (''message.failed'', m', Some e)]"
    obtain w s'' where w: "wait (backoff delay i) s' = (w, s'')" by (cases "wait (backoff delay i) s'")
    have wb: "wait_beside wait (backoff delay i) (s', ?t) = (w, (s'', ?t))" by (simp add: wait_beside_def w)
    have stopped: "retry_trail_ok (Returned (Some x), m', z) (map fst t) (Suc n) (Returned (Some x), m', z, ?t)" for x z
      by (auto simp: retry_trail_ok_def attempts_trail_def closing_def intro: exI [of _ 1])
    show ?thesis
    proof (cases "n = 0 \<or> w \<noteq> None")
      case True
      with 2 stopped show ?thesis by (auto simp: h audited_call w wb split: option.split)
    next
      case False
      from Suc.IH [where m = m' and s = s'' and t = ?t and i = "Suc i" and err = "Some e"]
      have "retry_trail_ok (retry_loop mx delay wait h ctx m' s'' (Suc i) (Some e) n)
          (map fst t @ [''message.received'', ''message.failed'']) n
          (retry_loop mx delay (wait_beside wait) (AuditMiddleware keep_Log (beside h)) ctx m' (s'', ?t) (Suc i) (Some e) n)"
        by simp
      from retry_trail_ok_more [OF this] False 2 show ?thesis
        by (simp add: h audited_call w wb)
    qed
  qed (simp_all add: h audited_call retry_trail_ok_def attempts_trail_def closing_def)
qed

section \<open>Properties\<close>


text \<open>With recovery behind the audit every message that is received is closed, unless the program crashes.\<close>

lemma recovered_trail_is_closed:
  assumes "AuditMiddleware keep_Log (beside (RecoverMiddleware h)) ctx m (s, []) = (r, m', s', t)"
  shows "(\<exists>p. r = Crashed p) \<or> (\<exists>event \<in> {''message.processed'', ''message.failed''}.
    map fst t = [''message.received'', event])"
  using assms unfolding audited_call
  by (auto simp: RecoverMiddleware_def split: prod.splits hresult.splits option.splits)

text \<open>The logger: nil changes nothing, another one prints two lines around a call that returns.\<close>

lemma logger_lines:
  "LoggerMiddleware None elapsed h = h
   \<and> (case LoggerMiddleware (Some keep_Printf) elapsed (beside h) ctx m (s, []) of
       (r, m', s', lines) \<Rightarrow> h ctx m s = (r, m', s')
        \<and> lines = Begins (m_Topic m) (m_UUID m) (m_Attempts m) # (case r of
            Returned None \<Rightarrow> [Succeeds (m_Topic m') (m_UUID m') elapsed]
          | Returned (Some e) \<Rightarrow> [Fails (m_Topic m') (m_UUID m') elapsed e] | _ \<Rightarrow> []))"
proof -
  have "LoggerMiddleware None elapsed h ctx' m'' s'' = h ctx' m'' s''" for ctx' m'' s''
    by (simp add: LoggerMiddleware_def split: prod.split hresult.split)
  then have "LoggerMiddleware None elapsed h = h" by (intro ext)
  moreover have "case LoggerMiddleware (Some keep_Printf) elapsed (beside h) ctx m (s, []) of
       (r, m', s', lines) \<Rightarrow> h ctx m s = (r, m', s')
        \<and> lines = Begins (m_Topic m) (m_UUID m) (m_Attempts m) # (case r of
            Returned None \<Rightarrow> [Succeeds (m_Topic m') (m_UUID m') elapsed]
          | Returned (Some e) \<Rightarrow> [Fails (m_Topic m') (m_UUID m') elapsed e] | _ \<Rightarrow> [])"
    by (auto simp: LoggerMiddleware_def keep_Printf_def beside_def split: prod.split hresult.split option.split)
  ultimately show ?thesis ..
qed

end
