(* ===== verification/Lease_Service.thy ===== *)
theory Lease_Service
  imports Redis_Lease
begin

text \<open>
  How the services of \<open>Redis_Lease\<close> are made: the tokens of \<open>randomTokenSource\<close>, the options of
  \<open>pkg/redis/lease/service.go\<close> and of the manager in \<open>pkg/locklease/redisadapter/manager.go\<close>.

  Random bytes, clients, observers and token sources that a caller brings are values of type
  variables; a nil interface is None.
\<close>

section \<open>Tokens\<close>

text \<open>\<open>hex.EncodeToString\<close>.\<close>

definition hex_EncodeToString :: "8 word list \<Rightarrow> string" where
  "hex_EncodeToString bytes = concat (map (\<lambda>b. [hex_digit (unat b div 16), hex_digit (unat b mod 16)]) bytes)"

definition random_NewToken :: "string + 8 word list \<Rightarrow> string + string" where
  "random_NewToken rand_Read =
     (case rand_Read of
        Inl err \<Rightarrow> Inl (''generate lease token: '' @ err)
      | Inr buf \<Rightarrow> Inr (hex_EncodeToString buf))"

lemma hex_digit_inj: "m < 16 \<Longrightarrow> n < 16 \<Longrightarrow> hex_digit m = hex_digit n \<Longrightarrow> m = n"
  by (auto simp: hex_digit_def take_bit_eq_mod split: if_splits dest: arg_cong [where f = "of_char :: char \<Rightarrow> nat"])

lemma hex_byte_inj:
  assumes "hex_digit (unat a div 16) = hex_digit (unat b div 16)"
    and "hex_digit (unat a mod 16) = hex_digit (unat b mod 16)"
  shows "a = (b :: 8 word)"
proof -
  have lt: "unat x < 256" for x :: "8 word" using unsigned_less [of x] by simp
  have "unat a div 16 = unat b div 16"
    using hex_digit_inj [OF _ _ assms(1)] lt [of a] lt [of b] by (simp add: less_mult_imp_div_less)
  moreover have "unat a mod 16 = unat b mod 16"
    using hex_digit_inj [OF _ _ assms(2)] by simp
  ultimately have "unat a = unat b" by (metis div_mult_mod_eq)
  then show ?thesis by (rule unsigned_word_eqI)
qed

lemma length_hex: "length (hex_EncodeToString bytes) = 2 * length bytes"
  by (induction bytes) (simp_all add: hex_EncodeToString_def)

lemma hex_inj: "hex_EncodeToString bytes = hex_EncodeToString bytes' \<Longrightarrow> bytes = bytes'"
proof (induction bytes arbitrary: bytes')
  case Nil
  with length_hex [of bytes'] length_hex [of "[]"] show ?case by simp
next
  case (Cons b bytes)
  from Cons.prems length_hex [of bytes'] length_hex [of "b # bytes"] obtain b' rest where "bytes' = b' # rest"
    by (cases bytes') auto
  with Cons show ?case by (auto simp: hex_EncodeToString_def dest: hex_byte_inj)
qed

text \<open>
  The tokens of the random source have 32 characters, are accepted as lease tokens, and are
  different for different random bytes: two leases have the same token only when the system's
  randomness repeats. It fails only when the randomness does.
\<close>
theorem random_tokens_are_distinct:
  assumes "length buf = 16"
  shows "\<exists>token. random_NewToken (Inr buf) = Inr token \<and> length token = 32 \<and> NewLeaseToken token = Inr token
    \<and> (\<forall>buf'. random_NewToken (Inr buf') = Inr token \<longleftrightarrow> buf' = buf)"
proof -
  have "length (hex_EncodeToString buf) = 32" using assms by (simp add: length_hex)
  then show ?thesis
    by (auto simp: random_NewToken_def NewLeaseToken_def dest: hex_inj)
qed

theorem random_tokens_are_distinct_witness:
  "\<exists>token. random_NewToken (Inr (replicate 16 0xA7)) = Inr token
    \<and> token = concat (replicate 16 ''a7'')
    \<and> (\<forall>buf'. random_NewToken (Inr buf') = Inr token \<longleftrightarrow> buf' = replicate 16 0xA7)"
proof -
  have "length (replicate 16 (0xA7 :: 8 word)) = 16" by simp
  from random_tokens_are_distinct [OF this] obtain token
    where token: "random_NewToken (Inr (replicate 16 0xA7)) = Inr token"
      "\<forall>buf'. random_NewToken (Inr buf') = Inr token \<longleftrightarrow> buf' = replicate 16 0xA7" by blast
  have "random_NewToken (Inr (replicate 16 0xA7)) = Inr (concat (replicate 16 ''a7''))" by code_simp
  with token(1) have "token = concat (replicate 16 ''a7'')" by simp
  with token show ?thesis by blast
qed

section \<open>Options\<close>

datatype 'o lease_observer = NopLeaseObserver | LeaseObserver 'o
datatype 't token_source = RandomTokenSource | TokenSource 't

record ('c, 'o, 't) lease_service =
  svc_client :: 'c
  svc_observer :: "'o lease_observer"
  svc_tokenSource :: "'t token_source"

type_synonym ('c, 'o, 't) service_option = "('c, 'o, 't) lease_service \<Rightarrow> ('c, 'o, 't) lease_service"

definition lease_WithObserver :: "'o option \<Rightarrow> ('c, 'o, 't) service_option" where
  "lease_WithObserver observer s =
     (case observer of Some ob \<Rightarrow> s\<lparr>svc_observer := LeaseObserver ob\<rparr> | None \<Rightarrow> s)"

definition lease_WithTokenSource :: "'t option \<Rightarrow> ('c, 'o, 't) service_option" where
  "lease_WithTokenSource source s =
     (case source of Some src \<Rightarrow> s\<lparr>svc_tokenSource := TokenSource src\<rparr> | None \<Rightarrow> s)"

text \<open>A nil option is called like the others, which panics: None.\<close>

fun apply_options :: "('c, 'o, 't) service_option option list \<Rightarrow> ('c, 'o, 't) lease_service \<Rightarrow> ('c, 'o, 't) lease_service option" where
  "apply_options [] svc = Some svc"
| "apply_options (opt # opts) svc = (case opt of None \<Rightarrow> None | Some f \<Rightarrow> apply_options opts (f svc))"

definition NewService :: "'c \<Rightarrow> ('c, 'o, 't) service_option option list \<Rightarrow> ('c, 'o, 't) lease_service option" where
  "NewService client opts =
     apply_options opts \<lparr>svc_client = client, svc_observer = NopLeaseObserver, svc_tokenSource = RandomTokenSource\<rparr>"

record ('o, 't) managerOptions =
  mo_observer :: "'o option"
  mo_tokenSource :: "'t option"

definition manager_WithObserver :: "'o option \<Rightarrow> ('o, 't) managerOptions \<Rightarrow> ('o, 't) managerOptions" where
  "manager_WithObserver observer opts = opts\<lparr>mo_observer := observer\<rparr>"

definition manager_WithTokenSource :: "'t option \<Rightarrow> ('o, 't) managerOptions \<Rightarrow> ('o, 't) managerOptions" where
  "manager_WithTokenSource source opts = opts\<lparr>mo_tokenSource := source\<rparr>"

definition manager_options ::
    "(('o, 't) managerOptions \<Rightarrow> ('o, 't) managerOptions) option list \<Rightarrow> ('o, 't) managerOptions" where
  "manager_options opts =
     foldl (\<lambda>options opt. case opt of Some f \<Rightarrow> f options | None \<Rightarrow> options)
       \<lparr>mo_observer = None, mo_tokenSource = None\<rparr> opts"

definition manager_service ::
    "'c \<Rightarrow> (('o, 't) managerOptions \<Rightarrow> ('o, 't) managerOptions) option list \<Rightarrow> ('c, 'o, 't) lease_service option" where
  "manager_service client opts =
     (let options = manager_options opts;
          serviceOptions1 = (if mo_observer options \<noteq> None then [Some (lease_WithObserver (mo_observer options))] else []);
          serviceOptions = (if mo_tokenSource options \<noteq> None
            then serviceOptions1 @ [Some (lease_WithTokenSource (mo_tokenSource options))] else serviceOptions1)
      in NewService client serviceOptions)"

text \<open>
  The manager passes its options on, skips those that are nil and never panics; a nil observer
  takes back one given before, where the service's own option would leave it.
\<close>
lemma manager_options_reach_the_service:
  "manager_service client opts = Some \<lparr>svc_client = client,
      svc_observer = (case mo_observer (manager_options opts) of
         None \<Rightarrow> NopLeaseObserver | Some ob \<Rightarrow> LeaseObserver ob),
      svc_tokenSource = (case mo_tokenSource (manager_options opts) of
         None \<Rightarrow> RandomTokenSource | Some src \<Rightarrow> TokenSource src)\<rparr>
   \<and> manager_options (opts @ [None]) = manager_options opts
   \<and> mo_observer (manager_options (opts @ [Some (manager_WithObserver ob)])) = ob
   \<and> mo_tokenSource (manager_options (opts @ [Some (manager_WithTokenSource src)])) = src"
  by (auto simp: manager_service_def NewService_def Let_def lease_WithObserver_def lease_WithTokenSource_def
      manager_options_def manager_WithObserver_def manager_WithTokenSource_def split: option.split)

end
