(* ===== verification/Log_Levels.thy ===== *)
theory Log_Levels
  imports Log_Output
begin

text \<open>
  The calls that write a record at a level: the methods of the logger and the functions of the
  package in \<open>pkg/log/log.go\<close>, each plain, formatted and with keys and values, and the formatted
  functions of \<open>trace.go\<close> that take a context.

  zap is outside \<open>src/\<close>. As it is documented, a panic record is followed by a panic and a fatal one
  by \<open>os.Exit(1)\<close>, also where the level is disabled. Its sugared logger is the record \<open>sugar\<close>: the
  message of a format with its arguments, and the fields it makes of a list of arguments. \<open>std\<close> is
  the logger of the package.
\<close>

section \<open>What a call does\<close>

datatype log_effect = Wrote log_entry | Panics string | Exits int

definition zap_log :: "zapLogger \<Rightarrow> Level \<Rightarrow> string \<Rightarrow> Field list \<Rightarrow> log_effect list" where
  "zap_log l level msg fs =
     map Wrote (zl_emit l level msg fs)
     @ (case level of PanicLevel \<Rightarrow> [Panics msg] | FatalLevel \<Rightarrow> [Exits 1] | _ \<Rightarrow> [])"

record sugar =
  sg_message :: "string \<Rightarrow> arg list \<Rightarrow> string"
  sg_fields :: "arg list \<Rightarrow> Field list"

definition sugar_f :: "sugar \<Rightarrow> zapLogger \<Rightarrow> Level \<Rightarrow> string \<Rightarrow> arg list \<Rightarrow> log_effect list" where
  "sugar_f sg l level format v = zap_log l level (sg_message sg format v) []"

definition sugar_w :: "sugar \<Rightarrow> zapLogger \<Rightarrow> Level \<Rightarrow> string \<Rightarrow> arg list \<Rightarrow> log_effect list" where
  "sugar_w sg l level msg keysAndValues = zap_log l level msg (sg_fields sg keysAndValues)"

definition sugar_With :: "sugar \<Rightarrow> zapLogger \<Rightarrow> arg list \<Rightarrow> zapLogger" where
  "sugar_With sg l args = l\<lparr>zl_fields := zl_fields l @ sg_fields sg args\<rparr>"

section \<open>Methods\<close>

definition zl_Panic :: "zapLogger \<Rightarrow> string \<Rightarrow> Field list \<Rightarrow> log_effect list" where "zl_Panic l = zap_log l PanicLevel"
definition zl_Fatal :: "zapLogger \<Rightarrow> string \<Rightarrow> Field list \<Rightarrow> log_effect list" where "zl_Fatal l = zap_log l FatalLevel"

definition zl_Debugf :: "sugar \<Rightarrow> zapLogger \<Rightarrow> string \<Rightarrow> arg list \<Rightarrow> log_effect list" where
  "zl_Debugf sg l format v = sugar_f sg l DebugLevel format v"
definition zl_Infof :: "sugar \<Rightarrow> zapLogger \<Rightarrow> string \<Rightarrow> arg list \<Rightarrow> log_effect list" where
  "zl_Infof sg l format v = sugar_f sg l InfoLevel format v"
definition zl_Warnf :: "sugar \<Rightarrow> zapLogger \<Rightarrow> string \<Rightarrow> arg list \<Rightarrow> log_effect list" where
  "zl_Warnf sg l format v = sugar_f sg l WarnLevel format v"
definition zl_Errorf :: "sugar \<Rightarrow> zapLogger \<Rightarrow> string \<Rightarrow> arg list \<Rightarrow> log_effect list" where
  "zl_Errorf sg l format v = sugar_f sg l ErrorLevel format v"
definition zl_Panicf :: "sugar \<Rightarrow> zapLogger \<Rightarrow> string \<Rightarrow> arg list \<Rightarrow> log_effect list" where
  "zl_Panicf sg l format v = sugar_f sg l PanicLevel format v"
definition zl_Fatalf :: "sugar \<Rightarrow> zapLogger \<Rightarrow> string \<Rightarrow> arg list \<Rightarrow> log_effect list" where
  "zl_Fatalf sg l format v = sugar_f sg l FatalLevel format v"

definition zl_Debugw :: "sugar \<Rightarrow> zapLogger \<Rightarrow> string \<Rightarrow> arg list \<Rightarrow> log_effect list" where
  "zl_Debugw sg l msg keysAndValues = sugar_w sg l DebugLevel msg keysAndValues"
definition zl_Infow :: "sugar \<Rightarrow> zapLogger \<Rightarrow> string \<Rightarrow> arg list \<Rightarrow> log_effect list" where
  "zl_Infow sg l msg keysAndValues = sugar_w sg l InfoLevel msg keysAndValues"
definition zl_Warnw :: "sugar \<Rightarrow> zapLogger \<Rightarrow> string \<Rightarrow> arg list \<Rightarrow> log_effect list" where
  "zl_Warnw sg l msg keysAndValues = sugar_w sg l WarnLevel msg keysAndValues"
definition zl_Errorw :: "sugar \<Rightarrow> zapLogger \<Rightarrow> string \<Rightarrow> arg list \<Rightarrow> log_effect list" where
  "zl_Errorw sg l msg keysAndValues = sugar_w sg l ErrorLevel msg keysAndValues"
definition zl_Panicw :: "sugar \<Rightarrow> zapLogger \<Rightarrow> string \<Rightarrow> arg list \<Rightarrow> log_effect list" where
  "zl_Panicw sg l msg keysAndValues = sugar_w sg l PanicLevel msg keysAndValues"
definition zl_Fatalw :: "sugar \<Rightarrow> zapLogger \<Rightarrow> string \<Rightarrow> arg list \<Rightarrow> log_effect list" where
  "zl_Fatalw sg l msg keysAndValues = sugar_w sg l FatalLevel msg keysAndValues"

text \<open>The logger as a writer: the text is a record at info level, and all of it was written.\<close>

definition zl_Write :: "zapLogger \<Rightarrow> string \<Rightarrow> log_effect list \<times> int" where
  "zl_Write l p = (zap_log l InfoLevel p [], int (length p))"

text \<open>A logger of a level, or the disabled one, with a format.\<close>

fun info_Infof :: "(string \<Rightarrow> arg list \<Rightarrow> string) \<Rightarrow> InfoLogger \<Rightarrow> string \<Rightarrow> arg list \<Rightarrow> log_effect list" where
  "info_Infof Sprintf NoopInfoLogger format args = []"
| "info_Infof Sprintf (LevelLogger level l) format args =
     (if zl_enabled l level \<or> level = PanicLevel \<or> level = FatalLevel
      then zap_log l level (Sprintf format args) [] else [])"

section \<open>Functions of the package\<close>

definition pkg_Debug :: "zapLogger \<Rightarrow> string \<Rightarrow> Field list \<Rightarrow> log_effect list" where
  "pkg_Debug std msg fs = zap_log std DebugLevel msg fs"
definition pkg_Info :: "zapLogger \<Rightarrow> string \<Rightarrow> Field list \<Rightarrow> log_effect list" where
  "pkg_Info std msg fs = zap_log std InfoLevel msg fs"
definition pkg_Warn :: "zapLogger \<Rightarrow> string \<Rightarrow> Field list \<Rightarrow> log_effect list" where
  "pkg_Warn std msg fs = zap_log std WarnLevel msg fs"
definition pkg_Error :: "zapLogger \<Rightarrow> string \<Rightarrow> Field list \<Rightarrow> log_effect list" where
  "pkg_Error std msg fs = zap_log std ErrorLevel msg fs"
definition pkg_Panic :: "zapLogger \<Rightarrow> string \<Rightarrow> Field list \<Rightarrow> log_effect list" where
  "pkg_Panic std msg fs = zap_log std PanicLevel msg fs"
definition pkg_Fatal :: "zapLogger \<Rightarrow> string \<Rightarrow> Field list \<Rightarrow> log_effect list" where
  "pkg_Fatal std msg fs = zap_log std FatalLevel msg fs"

definition pkg_Debugf :: "sugar \<Rightarrow> zapLogger \<Rightarrow> string \<Rightarrow> arg list \<Rightarrow> log_effect list" where
  "pkg_Debugf sg std format v = sugar_f sg std DebugLevel format v"
definition pkg_Infof :: "sugar \<Rightarrow> zapLogger \<Rightarrow> string \<Rightarrow> arg list \<Rightarrow> log_effect list" where
  "pkg_Infof sg std format v = sugar_f sg std InfoLevel format v"
definition pkg_Warnf :: "sugar \<Rightarrow> zapLogger \<Rightarrow> string \<Rightarrow> arg list \<Rightarrow> log_effect list" where
  "pkg_Warnf sg std format v = sugar_f sg std WarnLevel format v"
definition pkg_Errorf :: "sugar \<Rightarrow> zapLogger \<Rightarrow> string \<Rightarrow> arg list \<Rightarrow> log_effect list" where
  "pkg_Errorf sg std format v = sugar_f sg std ErrorLevel format v"
definition pkg_Panicf :: "sugar \<Rightarrow> zapLogger \<Rightarrow> string \<Rightarrow> arg list \<Rightarrow> log_effect list" where
  "pkg_Panicf sg std format v = sugar_f sg std PanicLevel format v"
definition pkg_Fatalf :: "sugar \<Rightarrow> zapLogger \<Rightarrow> string \<Rightarrow> arg list \<Rightarrow> log_effect list" where
  "pkg_Fatalf sg std format v = sugar_f sg std FatalLevel format v"

definition pkg_Debugw :: "sugar \<Rightarrow> zapLogger \<Rightarrow> string \<Rightarrow> arg list \<Rightarrow> log_effect list" where
  "pkg_Debugw sg std msg keysAndValues = sugar_w sg std DebugLevel msg keysAndValues"
definition pkg_Infow :: "sugar \<Rightarrow> zapLogger \<Rightarrow> string \<Rightarrow> arg list \<Rightarrow> log_effect list" where
  "pkg_Infow sg std msg keysAndValues = sugar_w sg std InfoLevel msg keysAndValues"
definition pkg_Warnw :: "sugar \<Rightarrow> zapLogger \<Rightarrow> string \<Rightarrow> arg list \<Rightarrow> log_effect list" where
  "pkg_Warnw sg std msg keysAndValues = sugar_w sg std WarnLevel msg keysAndValues"
definition pkg_Errorw :: "sugar \<Rightarrow> zapLogger \<Rightarrow> string \<Rightarrow> arg list \<Rightarrow> log_effect list" where
  "pkg_Errorw sg std msg keysAndValues = sugar_w sg std ErrorLevel msg keysAndValues"
definition pkg_Panicw :: "sugar \<Rightarrow> zapLogger \<Rightarrow> string \<Rightarrow> arg list \<Rightarrow> log_effect list" where
  "pkg_Panicw sg std msg keysAndValues = sugar_w sg std PanicLevel msg keysAndValues"
definition pkg_Fatalw :: "sugar \<Rightarrow> zapLogger \<Rightarrow> string \<Rightarrow> arg list \<Rightarrow> log_effect list" where
  "pkg_Fatalw sg std msg keysAndValues = sugar_w sg std FatalLevel msg keysAndValues"

lemmas level_defs =
  zl_Panic_def zl_Fatal_def zl_Debugf_def zl_Infof_def zl_Warnf_def zl_Errorf_def zl_Panicf_def zl_Fatalf_def
  zl_Debugw_def zl_Infow_def zl_Warnw_def zl_Errorw_def zl_Panicw_def zl_Fatalw_def
  pkg_Debug_def pkg_Info_def pkg_Warn_def pkg_Error_def pkg_Panic_def pkg_Fatal_def
  pkg_Debugf_def pkg_Infof_def pkg_Warnf_def pkg_Errorf_def pkg_Panicf_def pkg_Fatalf_def
  pkg_Debugw_def pkg_Infow_def pkg_Warnw_def pkg_Errorw_def pkg_Panicw_def pkg_Fatalw_def
  sugar_f_def sugar_w_def

section \<open>Formatted records of a context\<close>

text \<open>
  The slice of fields is handed to \<open>With\<close> as one argument, a value that is neither a field nor a
  text: \<open>slice_text fields\<close> is that value as an argument.
\<close>

definition context_f ::
    "sugar \<Rightarrow> (Field list \<Rightarrow> string) \<Rightarrow> zapLogger \<Rightarrow> Level \<Rightarrow> log_ctx option \<Rightarrow> string \<Rightarrow> arg list \<Rightarrow> log_effect list" where
  "context_f sg slice_text std level ctx format v =
     (let fs = TraceFields ctx in
      if 0 < length fs then sugar_f sg (sugar_With sg std [ArgOther (slice_text fs)]) level format v
      else sugar_f sg std level format v)"

definition InfofContext ::
    "sugar \<Rightarrow> (Field list \<Rightarrow> string) \<Rightarrow> zapLogger \<Rightarrow> log_ctx option \<Rightarrow> string \<Rightarrow> arg list \<Rightarrow> log_effect list" where
  "InfofContext sg slice_text std ctx format v = context_f sg slice_text std InfoLevel ctx format v"
definition DebugfContext ::
    "sugar \<Rightarrow> (Field list \<Rightarrow> string) \<Rightarrow> zapLogger \<Rightarrow> log_ctx option \<Rightarrow> string \<Rightarrow> arg list \<Rightarrow> log_effect list" where
  "DebugfContext sg slice_text std ctx format v = context_f sg slice_text std DebugLevel ctx format v"
definition WarnfContext ::
    "sugar \<Rightarrow> (Field list \<Rightarrow> string) \<Rightarrow> zapLogger \<Rightarrow> log_ctx option \<Rightarrow> string \<Rightarrow> arg list \<Rightarrow> log_effect list" where
  "WarnfContext sg slice_text std ctx format v = context_f sg slice_text std WarnLevel ctx format v"
definition ErrorfContext ::
    "sugar \<Rightarrow> (Field list \<Rightarrow> string) \<Rightarrow> zapLogger \<Rightarrow> log_ctx option \<Rightarrow> string \<Rightarrow> arg list \<Rightarrow> log_effect list" where
  "ErrorfContext sg slice_text std ctx format v = context_f sg slice_text std ErrorLevel ctx format v"

section \<open>Properties\<close>

text \<open>Whether a call ends the program: the effects after which nothing runs.\<close>

definition ends :: "log_effect list \<Rightarrow> bool" where
  "ends es \<longleftrightarrow> list_ex (\<lambda>e. case e of Wrote r \<Rightarrow> False | _ \<Rightarrow> True) es"

lemma ends_zap_log: "ends (zap_log l level msg fs) \<longleftrightarrow> level = PanicLevel \<or> level = FatalLevel"
  by (cases level) (simp_all add: ends_def zap_log_def zl_emit_def)

lemma zap_log_last:
  "zap_log l PanicLevel msg fs = map Wrote (zl_emit l PanicLevel msg fs) @ [Panics msg]"
  "zap_log l FatalLevel msg fs = map Wrote (zl_emit l FatalLevel msg fs) @ [Exits 1]"
  by (simp_all add: zap_log_def)

text \<open>
  The calls at the levels of panic and fatal end the program whatever level the logger lets
  through, after writing their record; the other calls never do.
\<close>
lemma only_panic_and_fatal_end:
  "ends (zl_Panic l msg fs)" "ends (zl_Fatal l msg fs)" "ends (pkg_Panic std msg fs)" "ends (pkg_Fatal std msg fs)"
  "ends (zl_Panicf sg l msg v)" "ends (zl_Fatalf sg l msg v)" "ends (zl_Panicw sg l msg v)" "ends (zl_Fatalw sg l msg v)"
  "ends (pkg_Panicf sg l msg v)" "ends (pkg_Fatalf sg l msg v)" "ends (pkg_Panicw sg l msg v)" "ends (pkg_Fatalw sg l msg v)"
  "\<not> ends (zl_Errorf sg l msg v)" "\<not> ends (zl_Warnf sg l msg v)" "\<not> ends (zl_Infof sg l msg v)" "\<not> ends (zl_Debugf sg l msg v)"
  "\<not> ends (zl_Errorw sg l msg v)" "\<not> ends (zl_Warnw sg l msg v)" "\<not> ends (zl_Infow sg l msg v)" "\<not> ends (zl_Debugw sg l msg v)"
  "\<not> ends (pkg_Error std msg fs)" "\<not> ends (pkg_Warn std msg fs)" "\<not> ends (pkg_Info std msg fs)" "\<not> ends (pkg_Debug std msg fs)"
  "\<not> ends (pkg_Errorf sg l msg v)" "\<not> ends (pkg_Warnf sg l msg v)" "\<not> ends (pkg_Infof sg l msg v)" "\<not> ends (pkg_Debugf sg l msg v)"
  "\<not> ends (pkg_Errorw sg l msg v)" "\<not> ends (pkg_Warnw sg l msg v)" "\<not> ends (pkg_Infow sg l msg v)" "\<not> ends (pkg_Debugw sg l msg v)"
  by (simp_all add: level_defs ends_zap_log)

text \<open>zap makes no field of a single value that is neither a field nor a key: it complains and leaves it out.\<close>

definition drops_lone_values :: "sugar \<Rightarrow> bool" where
  "drops_lone_values sg \<longleftrightarrow> (\<forall>x. sg_fields sg [ArgOther x] = [])"

text \<open>
  The formatted functions that take a context write the record they would write without one:
  the identifiers of the trace are in the record of the plain functions and in none of the
  formatted ones.
\<close>
theorem formatted_records_lose_the_trace:
  assumes "drops_lone_values sg" and "zl_enabled std InfoLevel"
  shows "InfofContext sg slice_text std ctx format v = zl_Infof sg std format v
    \<and> DebugfContext sg slice_text std ctx format v = zl_Debugf sg std format v
    \<and> WarnfContext sg slice_text std ctx format v = zl_Warnf sg std format v
    \<and> ErrorfContext sg slice_text std ctx format v = zl_Errorf sg std format v
    \<and> le_fields (InfoContext ctx msg fs) = TraceFields ctx @ fs
    \<and> InfofContext sg slice_text std ctx format v = [Wrote (entry InfoLevel (sg_message sg format v) (zl_fields std))]"
proof -
  have "sugar_With sg std [ArgOther x] = std" for x
    using assms(1) by (simp add: sugar_With_def drops_lone_values_def)
  then have "context_f sg slice_text std level ctx format v = sugar_f sg std level format v" for level
    by (simp add: context_f_def Let_def)
  with assms(2) show ?thesis
    by (simp add: InfofContext_def DebugfContext_def WarnfContext_def ErrorfContext_def level_defs
        InfoContext_def entry_def zap_log_def zl_emit_def)
qed

definition sample_sugar :: sugar where
  "sample_sugar = \<lparr>sg_message = (\<lambda>format v. format @ concat (map arg_text v)), sg_fields = (\<lambda>args. fst (handleFields args []))\<rparr>"

theorem formatted_records_lose_the_trace_witness:
  "InfofContext sample_sugar (\<lambda>fs. ''slice'') \<lparr>zl_fields = [], zl_enabled = (\<lambda>_. True)\<rparr>
      (Some (WithTraceContext Background ''t'' ''s'' ''r'')) ''hello '' [ArgText ''you'']
      = [Wrote (entry InfoLevel ''hello you'' [])]
   \<and> le_fields (InfoContext (Some (WithTraceContext Background ''t'' ''s'' ''r'')) ''hello you'' [])
      = [TextF ''trace_id'' ''t'', TextF ''span_id'' ''s'', TextF ''request_id'' ''r'']"
proof -
  let ?std = "\<lparr>zl_fields = [], zl_enabled = (\<lambda>_. True)\<rparr>"
  have "drops_lone_values sample_sugar"
    by (simp add: drops_lone_values_def sample_sugar_def handleFields_def)
  moreover have "zl_enabled ?std InfoLevel" by simp
  ultimately have both: "InfofContext sample_sugar (\<lambda>fs. ''slice'') ?std ctx format v
        = [Wrote (entry InfoLevel (sg_message sample_sugar format v) (zl_fields ?std))]"
      "le_fields (InfoContext ctx msg fs) = TraceFields ctx @ fs" for ctx format v msg fs
    using formatted_records_lose_the_trace by blast+
  show ?thesis
    unfolding both
    by (simp add: sample_sugar_def WithTraceContext_def WithTraceID_def WithSpanID_def WithRequestID_def
        TraceFields_def ExtractTraceID_def ExtractSpanID_def ExtractRequestID_def text_or_empty_def Background_def
        Let_def)
qed

end
