(* ===== verification/Messaging_Dedup.thy ===== *)
theory Messaging_Dedup
  imports Messaging_Broker
begin

text \<open>
  Handling a message once although it is delivered again: \<open>DeduplicationMiddleware\<close> over the
  store of \<open>messaging/example/09-middleware-advanced\<close>, and the store and middleware of
  \<open>messaging/example/12-reliability\<close>. Both stores give the interface \<open>seen_within\<close>: what was
  marked less than a time to live ago is seen.

  A store keeps the reading of the clock beside its map; logging is left out. What follows is
  sequential: two handlers at work at once are the matter of \<open>concurrent_duplicates\<close>.
\<close>

section \<open>Stores\<close>

text \<open>The first example's store: when each identity expires. \<open>Exists\<close> does not look at the expiry.\<close>

record SimpleDeduplicationStore =
  sd_now :: instant
  sd_seen :: "string \<rightharpoonup> instant"

definition NewSimpleDeduplicationStore :: "instant \<Rightarrow> SimpleDeduplicationStore" where
  "NewSimpleDeduplicationStore now = \<lparr>sd_now = now, sd_seen = Map.empty\<rparr>"

definition sd_Exists :: "string \<Rightarrow> SimpleDeduplicationStore \<Rightarrow> bool" where
  "sd_Exists uuid s = (sd_seen s uuid \<noteq> None)"

definition sd_Mark :: "string \<Rightarrow> duration \<Rightarrow> SimpleDeduplicationStore \<Rightarrow> string option \<times> SimpleDeduplicationStore" where
  "sd_Mark uuid ttl s = (None, s\<lparr>sd_seen := (sd_seen s)(uuid \<mapsto> sd_now s + ttl)\<rparr>)"

definition sd_cleanup :: "SimpleDeduplicationStore \<Rightarrow> SimpleDeduplicationStore" where
  "sd_cleanup s = s\<lparr>sd_seen := (\<lambda>uuid. case sd_seen s uuid of
     None \<Rightarrow> None | Some expiry \<Rightarrow> if expiry < sd_now s then None else Some expiry)\<rparr>"

text \<open>The store as the middleware sees it, beside whatever else is in the state.\<close>

definition simple_store :: "(SimpleDeduplicationStore \<times> 'w) DeduplicationStore" where
  "simple_store = \<lparr>dd_Exists = (\<lambda>uuid s. sd_Exists uuid (fst s)),
     dd_Mark = (\<lambda>uuid ttl s. case sd_Mark uuid ttl (fst s) of (err, s') \<Rightarrow> (err, (s', snd s)))\<rparr>"

text \<open>The other example's store: when each identity was processed.\<close>

record IdempotencyStore =
  is_now :: instant
  is_processed :: "string \<rightharpoonup> instant"
  is_ttl :: duration

definition NewIdempotencyStore :: "instant \<Rightarrow> duration \<Rightarrow> IdempotencyStore" where
  "NewIdempotencyStore now ttl = \<lparr>is_now = now, is_processed = Map.empty, is_ttl = ttl\<rparr>"

definition IsProcessed :: "string \<Rightarrow> IdempotencyStore \<Rightarrow> bool" where
  "IsProcessed i s =
     (case is_processed s i of None \<Rightarrow> False | Some timestamp \<Rightarrow> time_sub (is_now s) timestamp < is_ttl s)"

definition MarkProcessed :: "string \<Rightarrow> IdempotencyStore \<Rightarrow> IdempotencyStore" where
  "MarkProcessed i s = s\<lparr>is_processed := (is_processed s)(i \<mapsto> is_now s)\<rparr>"

definition is_cleanup :: "IdempotencyStore \<Rightarrow> IdempotencyStore" where
  "is_cleanup s = s\<lparr>is_processed := (\<lambda>i. case is_processed s i of
     None \<Rightarrow> None | Some timestamp \<Rightarrow> if is_ttl s \<le> time_sub (is_now s) timestamp then None else Some timestamp)\<rparr>"

definition IdempotencyMiddleware :: "(IdempotencyStore \<times> 'w) Middleware" where
  "IdempotencyMiddleware next_h ctx msg s =
     (if IsProcessed (m_UUID msg) (fst s)
      then (case Ack msg of (err, m') \<Rightarrow> (Returned (map_option Plain err), m', s))
      else case next_h ctx msg s of
        (Returned None, m', s') \<Rightarrow> (Returned None, m', (MarkProcessed (m_UUID m') (fst s'), snd s'))
      | r \<Rightarrow> r)"

text \<open>Cleaning changes no answer of the second store.\<close>

lemma cleanup_changes_no_answer: "IsProcessed i (is_cleanup s) = IsProcessed i s"
  by (auto simp: IsProcessed_def is_cleanup_def split: option.split)

section \<open>The interface\<close>

text \<open>
  A run of a store: identities that are seen are skipped, others are handled, which takes time
  and fails or ends with the mark. The log holds what was handled, and when.
\<close>

inductive seen_step ::
    "('s \<Rightarrow> string \<Rightarrow> bool) \<Rightarrow> (string \<Rightarrow> 's \<Rightarrow> 's) \<Rightarrow> ('s \<Rightarrow> instant) \<Rightarrow> ('s \<Rightarrow> 's \<Rightarrow> bool)
     \<Rightarrow> 's \<times> (string \<times> instant) list \<Rightarrow> 's \<times> (string \<times> instant) list \<Rightarrow> bool"
  for seen mark clock passes where
  skipped: "seen s uuid \<Longrightarrow> seen_step seen mark clock passes (s, l) (s, l)"
| handled: "\<not> seen s uuid \<Longrightarrow> passes s s' \<Longrightarrow> seen_step seen mark clock passes (s, l) (mark uuid s', l @ [(uuid, clock s')])"
| passing: "passes s s' \<Longrightarrow> seen_step seen mark clock passes (s, l) (s', l)"

definition apart :: "duration \<Rightarrow> string \<times> instant \<Rightarrow> string \<times> instant \<Rightarrow> bool" where
  "apart ttl a b \<longleftrightarrow> (fst a = fst b \<longrightarrow> snd a + ttl \<le> snd b)"

locale seen_within =
  fixes ttl :: duration
    and seen :: "'s \<Rightarrow> string \<Rightarrow> bool"
    and mark :: "string \<Rightarrow> 's \<Rightarrow> 's"
    and clock :: "'s \<Rightarrow> instant"
    and passes :: "'s \<Rightarrow> 's \<Rightarrow> bool"
    and marked :: "'s \<Rightarrow> string \<rightharpoonup> instant"
  assumes recent_is_seen: "marked s uuid = Some t \<Longrightarrow> t \<le> clock s \<Longrightarrow> clock s < t + ttl \<Longrightarrow> seen s uuid"
    and mark_marks: "marked (mark uuid s) = (marked s)(uuid \<mapsto> clock s)"
    and mark_clock: "clock (mark uuid s) = clock s"
    and passes_clock: "passes s s' \<Longrightarrow> clock s \<le> clock s'"
    and passes_keeps: "passes s s' \<Longrightarrow> marked s uuid = Some t \<Longrightarrow> t \<le> clock s \<Longrightarrow> clock s' < t + ttl
      \<Longrightarrow> marked s' uuid = Some t"
begin

definition log_inv :: "'s \<times> (string \<times> instant) list \<Rightarrow> bool" where
  "log_inv p \<longleftrightarrow> sorted_wrt (apart ttl) (snd p)
     \<and> (\<forall>(uuid, t) \<in> set (snd p). t \<le> clock (fst p) \<and> (clock (fst p) < t + ttl \<longrightarrow> marked (fst p) uuid = Some t))"

lemma log_inv_passes:
  assumes "log_inv (s, l)" and "passes s s'"
  shows "log_inv (s', l)"
  using assms passes_clock [OF assms(2)] passes_keeps [OF assms(2)] by (fastforce simp: log_inv_def)

lemma log_inv_handled:
  assumes "log_inv (s, l)" and "\<not> seen s uuid" and "passes s s'"
  shows "log_inv (mark uuid s', l @ [(uuid, clock s')])"
proof -
  have old: "t + ttl \<le> clock s'" if "(uuid, t) \<in> set l" for t
  proof -
    from assms(1) that have "t \<le> clock s" "clock s < t + ttl \<longrightarrow> marked s uuid = Some t"
      by (auto simp: log_inv_def)
    with assms(2) recent_is_seen have "t + ttl \<le> clock s" by (meson not_le)
    with passes_clock [OF assms(3)] show ?thesis by simp
  qed
  from log_inv_passes [OF assms(1,3)] old show ?thesis
    by (fastforce simp: log_inv_def sorted_wrt_append apart_def mark_marks mark_clock)
qed

lemma log_inv_step:
  assumes "seen_step seen mark clock passes p q" and "log_inv p"
  shows "log_inv q"
  using assms by cases (auto intro: log_inv_passes log_inv_handled)

lemma log_inv_run:
  assumes "(seen_step seen mark clock passes)\<^sup>*\<^sup>* p q" and "log_inv p"
  shows "log_inv q"
  using assms by (induction rule: rtranclp_induct) (auto intro: log_inv_step)

lemma handled_apart:
  assumes "(seen_step seen mark clock passes)\<^sup>*\<^sup>* (s, []) (s', l)"
  shows "sorted_wrt (apart ttl) l"
  using log_inv_run [OF assms] by (simp add: log_inv_def)

end

text \<open>Time passes, or the store is cleaned.\<close>

definition sd_passes :: "SimpleDeduplicationStore \<Rightarrow> SimpleDeduplicationStore \<Rightarrow> bool" where
  "sd_passes s s' \<longleftrightarrow> s' = sd_cleanup s \<or> (\<exists>d \<ge> 0. s' = s\<lparr>sd_now := sd_now s + d\<rparr>)"

definition is_passes :: "IdempotencyStore \<Rightarrow> IdempotencyStore \<Rightarrow> bool" where
  "is_passes s s' \<longleftrightarrow> s' = is_cleanup s \<or> (\<exists>d \<ge> 0. s' = s\<lparr>is_now := is_now s + d\<rparr>)"

interpretation simple: seen_within ttl "\<lambda>s uuid. sd_Exists uuid s" "\<lambda>uuid s. snd (sd_Mark uuid ttl s)" sd_now sd_passes
    "\<lambda>s uuid. map_option (\<lambda>expiry. expiry - ttl) (sd_seen s uuid)" for ttl
  by unfold_locales
    (auto simp: sd_Exists_def sd_Mark_def sd_passes_def sd_cleanup_def fun_eq_iff split: option.splits)


interpretation idempotent: seen_within ttl "\<lambda>s uuid. IsProcessed uuid (s\<lparr>is_ttl := ttl\<rparr>)" MarkProcessed is_now
    "\<lambda>s s'. is_ttl s = ttl \<and> is_passes s s'" is_processed for ttl
proof
  show "IsProcessed uuid (s\<lparr>is_ttl := ttl\<rparr>)" if "is_processed s uuid = Some t" "t \<le> is_now s" "is_now s < t + ttl" for s uuid t
    using that time_sub_less [OF that(2,3)] by (simp add: IsProcessed_def)
  show "is_processed s' uuid = Some t" if "is_ttl s = ttl \<and> is_passes s s'" "is_processed s uuid = Some t"
      "t \<le> is_now s" "is_now s' < t + ttl" for s s' uuid t
    using that time_sub_less [OF that(3), of ttl] by (auto simp: is_passes_def is_cleanup_def not_le split: if_splits)
qed (auto simp: MarkProcessed_def is_passes_def is_cleanup_def)

section \<open>Runs of the middlewares\<close>

text \<open>
  What happens to a consumer: a message arrives, with the answer of the handler and the time it
  takes; time passes; the store is cleaned. The handler logs what it handled, and when.
\<close>

datatype arrival = Arrives Message hresult duration | Passes duration | Cleans

fun arrival_ok :: "arrival \<Rightarrow> bool" where
  "arrival_ok (Arrives m r took) = (0 \<le> took)"
| "arrival_ok (Passes d) = (0 \<le> d)"
| "arrival_ok Cleans = True"

definition sd_answers :: "hresult \<Rightarrow> duration \<Rightarrow> (SimpleDeduplicationStore \<times> (string \<times> instant) list) mhandler" where
  "sd_answers r took ctx m p =
     (let s' = (fst p)\<lparr>sd_now := sd_now (fst p) + took\<rparr>
      in (r, m, (s', if r = Returned None then snd p @ [(m_UUID m, sd_now s')] else snd p)))"

fun sd_event ::
    "msg_context \<Rightarrow> duration \<Rightarrow> arrival \<Rightarrow> SimpleDeduplicationStore \<times> (string \<times> instant) list
     \<Rightarrow> SimpleDeduplicationStore \<times> (string \<times> instant) list" where
  "sd_event ctx ttl (Arrives m r took) p =
     snd (snd (DeduplicationMiddleware simple_store ttl (sd_answers r took) ctx m p))"
| "sd_event ctx ttl (Passes d) p = ((fst p)\<lparr>sd_now := sd_now (fst p) + d\<rparr>, snd p)"
| "sd_event ctx ttl Cleans p = (sd_cleanup (fst p), snd p)"

definition is_answers :: "hresult \<Rightarrow> duration \<Rightarrow> (IdempotencyStore \<times> (string \<times> instant) list) mhandler" where
  "is_answers r took ctx m p =
     (let s' = (fst p)\<lparr>is_now := is_now (fst p) + took\<rparr>
      in (r, m, (s', if r = Returned None then snd p @ [(m_UUID m, is_now s')] else snd p)))"

fun is_event ::
    "msg_context \<Rightarrow> arrival \<Rightarrow> IdempotencyStore \<times> (string \<times> instant) list \<Rightarrow> IdempotencyStore \<times> (string \<times> instant) list" where
  "is_event ctx (Arrives m r took) p = snd (snd (IdempotencyMiddleware (is_answers r took) ctx m p))"
| "is_event ctx (Passes d) p = ((fst p)\<lparr>is_now := is_now (fst p) + d\<rparr>, snd p)"
| "is_event ctx Cleans p = (is_cleanup (fst p), snd p)"

abbreviation sd_step :: "duration \<Rightarrow> SimpleDeduplicationStore \<times> (string \<times> instant) list
     \<Rightarrow> SimpleDeduplicationStore \<times> (string \<times> instant) list \<Rightarrow> bool" where
  "sd_step ttl \<equiv> seen_step (\<lambda>s uuid. sd_Exists uuid s) (\<lambda>uuid s. snd (sd_Mark uuid ttl s)) sd_now sd_passes"

abbreviation is_step :: "duration \<Rightarrow> IdempotencyStore \<times> (string \<times> instant) list
     \<Rightarrow> IdempotencyStore \<times> (string \<times> instant) list \<Rightarrow> bool" where
  "is_step ttl \<equiv> seen_step (\<lambda>s uuid. IsProcessed uuid (s\<lparr>is_ttl := ttl\<rparr>)) MarkProcessed is_now
     (\<lambda>s s'. is_ttl s = ttl \<and> is_passes s s')"

lemma sd_event_step:
  assumes "arrival_ok ev"
  shows "sd_step ttl p (sd_event ctx ttl ev p)"
proof (cases ev)
  case (Arrives m r took)
  obtain s l where p: "p = (s, l)" by force
  from assms have pass: "sd_passes s (s\<lparr>sd_now := sd_now s + took\<rparr>)" by (auto simp: Arrives sd_passes_def)
  have seen: "sd_step ttl (s, l) (s, l)" if "sd_Exists (m_UUID m) s"
    using that by (rule skipped)
  have new: "sd_step ttl (s, l) (snd (sd_Mark (m_UUID m) ttl (s\<lparr>sd_now := sd_now s + took\<rparr>)),
      l @ [(m_UUID m, sd_now (s\<lparr>sd_now := sd_now s + took\<rparr>))])" if "\<not> sd_Exists (m_UUID m) s"
    using that pass by (rule handled)
  have failed: "sd_step ttl (s, l) (s\<lparr>sd_now := sd_now s + took\<rparr>, l)"
    using pass by (rule passing)
  show ?thesis
    using seen new failed
    by (cases r) (auto simp: Arrives p DeduplicationMiddleware_def simple_store_def sd_answers_def Let_def
        sd_Mark_def split: option.split)
next
  case (Passes d)
  with assms show ?thesis by (cases p) (auto simp: sd_passes_def intro!: passing)
next
  case Cleans
  then show ?thesis by (cases p) (auto simp: sd_passes_def intro!: passing)
qed


lemma is_event_step:
  assumes "arrival_ok ev" and "is_ttl (fst p) = ttl"
  shows "is_step ttl p (is_event ctx ev p) \<and> is_ttl (fst (is_event ctx ev p)) = ttl"
proof (cases ev)
  case (Arrives m r took)
  obtain s l where p: "p = (s, l)" by force
  with assms(2) have same: "s\<lparr>is_ttl := ttl\<rparr> = s" by auto
  from assms p have pass: "is_ttl s = ttl \<and> is_passes s (s\<lparr>is_now := is_now s + took\<rparr>)" by (auto simp: Arrives is_passes_def)
  have seen: "is_step ttl (s, l) (s, l)" if "IsProcessed (m_UUID m) s"
    using that by (intro skipped [of _ _ "m_UUID m"]) (simp add: same)
  have new: "is_step ttl (s, l) (MarkProcessed (m_UUID m) (s\<lparr>is_now := is_now s + took\<rparr>),
      l @ [(m_UUID m, is_now (s\<lparr>is_now := is_now s + took\<rparr>))])" if "\<not> IsProcessed (m_UUID m) s"
    using that pass by (intro handled) (simp_all add: same)
  have failed: "is_step ttl (s, l) (s\<lparr>is_now := is_now s + took\<rparr>, l)"
    using pass by (rule passing)
  show ?thesis
    using seen new failed pass
    by (cases r) (auto simp: Arrives p IdempotencyMiddleware_def is_answers_def Let_def MarkProcessed_def
        split: option.split prod.split)
next
  case (Passes d)
  with assms show ?thesis by (cases p) (auto simp: is_passes_def intro!: passing)
next
  case Cleans
  with assms show ?thesis by (cases p) (auto simp: is_passes_def is_cleanup_def intro!: passing)
qed

definition sd_run ::
    "msg_context \<Rightarrow> duration \<Rightarrow> arrival list \<Rightarrow> SimpleDeduplicationStore \<times> (string \<times> instant) list
     \<Rightarrow> SimpleDeduplicationStore \<times> (string \<times> instant) list" where
  "sd_run ctx ttl evs p = fold (sd_event ctx ttl) evs p"

definition is_run ::
    "msg_context \<Rightarrow> arrival list \<Rightarrow> IdempotencyStore \<times> (string \<times> instant) list \<Rightarrow> IdempotencyStore \<times> (string \<times> instant) list" where
  "is_run ctx evs p = fold (is_event ctx) evs p"

lemma sd_run_steps:
  "list_all arrival_ok evs \<Longrightarrow> (sd_step ttl)\<^sup>*\<^sup>* p (sd_run ctx ttl evs p)"
proof (induction evs arbitrary: p)
  case (Cons ev evs)
  from Cons.prems sd_event_step [of ev ttl p ctx] Cons.IH [of "sd_event ctx ttl ev p"] show ?case
    by (auto simp: sd_run_def intro: converse_rtranclp_into_rtranclp)
qed (simp add: sd_run_def)

lemma is_run_steps:
  "list_all arrival_ok evs \<Longrightarrow> is_ttl (fst p) = ttl \<Longrightarrow> (is_step ttl)\<^sup>*\<^sup>* p (is_run ctx evs p)"
proof (induction evs arbitrary: p)
  case (Cons ev evs)
  from Cons.prems is_event_step [of ev p ttl ctx] Cons.IH [of "is_event ctx ev p"] show ?case
    by (auto simp: is_run_def intro: converse_rtranclp_into_rtranclp)
qed (simp add: is_run_def)




text \<open>
  The check and the mark are two calls of the store: a second delivery that begins while the
  first one is handled is handled too.
\<close>
lemma concurrent_duplicates:
  fixes ctx m ttl now
  defines "alone \<equiv> sd_answers (Returned None) 0"
    and "p \<equiv> (NewSimpleDeduplicationStore now, [])"
  shows "snd (snd (snd (DeduplicationMiddleware simple_store ttl
      (\<lambda>ctx m q. alone ctx m (snd (snd (DeduplicationMiddleware simple_store ttl alone ctx m q)))) ctx m p)))
    = [(m_UUID m, now), (m_UUID m, now)]"
  by (simp add: alone_def p_def DeduplicationMiddleware_def simple_store_def sd_answers_def sd_Exists_def sd_Mark_def
      NewSimpleDeduplicationStore_def Let_def)

section \<open>Identities over NSQ\<close>

text \<open>Copies of one published message, each of which is handled at once.\<close>

definition copies ::
    "(string \<Rightarrow> string + wireMessageEnvelope) \<Rightarrow> string \<Rightarrow> string \<Rightarrow> nsq_message list \<Rightarrow> arrival list" where
  "copies unmarshal topic channel wires =
     map (\<lambda>w. Arrives (nsq_domain_message unmarshal topic channel w) (Returned None) 0) wires"

lemma is_run_copies_distinct:
  assumes "distinct (map m_UUID ms)" and "\<forall>m \<in> set ms. is_processed (fst p) (m_UUID m) = None"
  shows "map fst (snd (is_run ctx (map (\<lambda>m. Arrives m (Returned None) 0) ms) p)) = map fst (snd p) @ map m_UUID ms"
  using assms
proof (induction ms arbitrary: p)
  case (Cons m ms)
  let ?q = "is_event ctx (Arrives m (Returned None) 0) p"
  have q: "?q = (MarkProcessed (m_UUID m) (fst p), snd p @ [(m_UUID m, is_now (fst p))])"
    using Cons.prems(2) by (simp add: IdempotencyMiddleware_def IsProcessed_def is_answers_def Let_def)
  from Cons.prems(1) have "m_UUID m' \<noteq> m_UUID m" if "m' \<in> set ms" for m'
    using that by (metis distinct.simps(2) image_eqI list.set_map list.simps(9))
  with Cons.prems(2) have "\<forall>m' \<in> set ms. is_processed (fst ?q) (m_UUID m') = None"
    unfolding q by (simp add: MarkProcessed_def)
  from Cons.IH [OF _ this] Cons.prems(1) show ?case by (simp add: is_run_def q del: is_event.simps)
qed (simp add: is_run_def)

lemma is_run_copies_same:
  assumes "\<forall>m \<in> set ms. IsProcessed (m_UUID m) (fst p)"
  shows "is_run ctx (map (\<lambda>m. Arrives m (Returned None) 0) ms) p = p"
  using assms
proof (induction ms)
  case (Cons m ms)
  then have "is_event ctx (Arrives m (Returned None) 0) p = p"
    by (auto simp: IdempotencyMiddleware_def split: prod.split)
  with Cons show ?case by (simp add: is_run_def)
qed (simp add: is_run_def)

text \<open>
  What counts as a duplicate over NSQ is decided by the identity the publisher gives. With one,
  however often the message is published it is handled once; a message published with an empty
  identity, as the example does, gets the identity of every transmission, and each copy of it
  is handled.
\<close>
theorem identity_decides_duplicates:
  assumes "\<And>e p. marshal e = Inr p \<Longrightarrow> unmarshal p = Inr e"
    and "EncodeMessagePayload marshal (Some msg) = Inr payload"
    and "\<forall>w \<in> set wires. nsq_Body w = payload" and "distinct (map nsq_ID wires)" and "wires \<noteq> []" and "0 < ttl"
  shows "map fst (snd (is_run ctx (copies unmarshal topic channel wires) (NewIdempotencyStore now ttl, [])))
    = (if m_UUID msg = [] then map nsq_ID wires else [m_UUID msg])"
proof -
  let ?m = "nsq_domain_message unmarshal topic channel"
  have ids: "m_UUID (?m w) = (if m_UUID msg = [] then nsq_ID w else m_UUID msg)" if "w \<in> set wires" for w
    using nsq_message_arrives [where marshal = marshal and unmarshal = unmarshal, OF assms(1,2), of w topic channel]
      assms(3) that by (simp add: Let_def)
  have run: "copies unmarshal topic channel ws = map (\<lambda>m. Arrives m (Returned None) 0) (map ?m ws)" for ws
    by (simp add: copies_def)
  show ?thesis
  proof (cases "m_UUID msg = []")
    case True
    with ids have "map m_UUID (map ?m wires) = map nsq_ID wires" by (simp add: map_eq_conv)
    with assms(4) is_run_copies_distinct [of "map ?m wires" "(NewIdempotencyStore now ttl, [])" ctx] True show ?thesis
      by (simp add: run NewIdempotencyStore_def del: map_map)
  next
    case False
    from assms(5) obtain w ws where ws: "wires = w # ws" by (cases wires) auto
    let ?p = "is_event ctx (Arrives (?m w) (Returned None) 0) (NewIdempotencyStore now ttl, [])"
    have uuid: "m_UUID (?m v) = m_UUID msg" if "v \<in> set wires" for v using ids [OF that] False by simp
    then have p: "?p = (MarkProcessed (m_UUID msg) (NewIdempotencyStore now ttl), [(m_UUID msg, now)])"
      by (simp add: ws IdempotencyMiddleware_def IsProcessed_def NewIdempotencyStore_def is_answers_def Let_def)
    have "\<forall>m \<in> set (map ?m ws). IsProcessed (m_UUID m) (fst ?p)"
      using uuid assms(6) unfolding p by (auto simp: ws IsProcessed_def MarkProcessed_def NewIdempotencyStore_def)
    from is_run_copies_same [OF this, of ctx] False show ?thesis
      by (simp add: run ws is_run_def p del: is_event.simps)
  qed
qed

definition anonymous_marshal :: "wireMessageEnvelope \<Rightarrow> string + string" where
  "anonymous_marshal e = (if env_Type e = messageEnvelopeType \<and> env_UUID e = [] \<and> env_Metadata e = Map.empty
     then Inr (env_Payload e) else Inl ''unsupported'')"

definition anonymous_unmarshal :: "string \<Rightarrow> string + wireMessageEnvelope" where
  "anonymous_unmarshal p = Inr \<lparr>env_Type = messageEnvelopeType, env_UUID = [], env_Metadata = Map.empty, env_Payload = p\<rparr>"

theorem identity_decides_duplicates_witness:
  "map fst (snd (is_run \<lparr>mctx_trace_id = None\<rparr> (copies anonymous_unmarshal ''t'' ''c''
      [\<lparr>nsq_ID = ''1'', nsq_Body = ''order'', nsq_Attempts = 1, nsq_Timestamp = 0\<rparr>,
       \<lparr>nsq_ID = ''2'', nsq_Body = ''order'', nsq_Attempts = 1, nsq_Timestamp = 0\<rparr>])
      (NewIdempotencyStore 0 5, []))) = [''1'', ''2'']"
proof -
  have rt: "anonymous_unmarshal p = Inr e" if "anonymous_marshal e = Inr p" for e p
    using that by (cases e) (auto simp: anonymous_marshal_def anonymous_unmarshal_def split: if_splits)
  have enc: "EncodeMessagePayload anonymous_marshal (Some (NewMessage [] ''order'')) = Inr ''order''"
    by (simp add: EncodeMessagePayload_def NewMessage_def anonymous_marshal_def)
  from identity_decides_duplicates [OF rt enc, where wires = "[\<lparr>nsq_ID = ''1'', nsq_Body = ''order'', nsq_Attempts = 1, nsq_Timestamp = 0\<rparr>,
       \<lparr>nsq_ID = ''2'', nsq_Body = ''order'', nsq_Attempts = 1, nsq_Timestamp = 0\<rparr>]" and ttl = 5 and now = 0
       and topic = "''t''" and channel = "''c''" and ctx = "\<lparr>mctx_trace_id = None\<rparr>"]
  show ?thesis by (simp add: NewMessage_def del: is_event.simps)
qed

end
