(* ===== verification/Messaging_Reliability.thy ===== *)
theory Messaging_Reliability
  imports Go_Floats Messaging_Guards
begin

text \<open>
  The reliability kit of \<open>messaging/example/12-reliability\<close>: errors that may be retried, retries
  by kind of error and with a growing delay, and a circuit breaker with a fallback; and the
  limiter and the breaker of \<open>messaging/example/09-middleware-advanced\<close>.

  The sentinels and reasons, Chinese in the code, are named in English; a sentinel is known by
  its name. Sleeping is a function on the state, what \<open>rand\<close> answers an argument. Logging is
  left out.
\<close>

section \<open>Kinds of errors\<close>

definition ErrTemporary :: msg_error where "ErrTemporary = Plain ''temporary error''"
definition ErrPermanent :: msg_error where "ErrPermanent = Plain ''permanent error''"
definition ErrTimeout :: msg_error where "ErrTimeout = Plain ''timeout error''"

text \<open>\<open>errors.Is\<close> for a sentinel, through the errors that wrap another.\<close>

fun msg_Is :: "msg_error \<Rightarrow> msg_error \<Rightarrow> bool" where
  "msg_Is (RetriesExhausted n err) target = (case err of None \<Rightarrow> False | Some e \<Rightarrow> msg_Is e target)"
| "msg_Is (RateWaitFailed e) target = msg_Is e target"
| "msg_Is (BreakerTripped e) target = msg_Is e target"
| "msg_Is e target = (e = target)"

definition ErrorClassifier :: "msg_error option \<Rightarrow> bool \<times> string" where
  "ErrorClassifier err =
     (case err of
        None \<Rightarrow> (False, [])
      | Some e \<Rightarrow>
          if msg_Is e ErrPermanent then (False, ''permanent, must not be retried'')
          else if msg_Is e ErrTimeout then (True, ''timeout, may be retried'')
          else if msg_Is e ErrTemporary then (True, ''temporary, may be retried'')
          else (False, ''unknown, not retried''))"

section \<open>Retries by kind of error\<close>

text \<open>The last argument counts the attempts left.\<close>

fun smart_loop ::
    "(duration \<Rightarrow> 's \<Rightarrow> 's) \<Rightarrow> duration \<Rightarrow> 's mhandler \<Rightarrow> msg_context \<Rightarrow> Message \<Rightarrow> 's \<Rightarrow> msg_error option \<Rightarrow> nat
     \<Rightarrow> hresult \<times> Message \<times> 's" where
  "smart_loop sleep delay next_h ctx msg s lastErr 0 = (Returned lastErr, msg, s)"
| "smart_loop sleep delay next_h ctx msg s lastErr (Suc n) =
     (case next_h ctx msg s of
        (Returned None, m', s') \<Rightarrow> (Returned None, m', s')
      | (Returned (Some e), m', s') \<Rightarrow>
          if \<not> fst (ErrorClassifier (Some e)) then (Returned (Some e), m', s')
          else smart_loop sleep delay next_h ctx m' (if n \<noteq> 0 then sleep delay s' else s') (Some e) n
      | r \<Rightarrow> r)"

definition SmartRetryMiddleware :: "(duration \<Rightarrow> 's \<Rightarrow> 's) \<Rightarrow> int \<Rightarrow> duration \<Rightarrow> 's Middleware" where
  "SmartRetryMiddleware sleep maxRetries delay next_h ctx msg s =
     smart_loop sleep delay next_h ctx msg s None (nat maxRetries)"

section \<open>Retries with a growing delay\<close>

text \<open>\<open>rand.Int63n\<close> panics, which is None, when its bound is not positive.\<close>

definition rand_Int63n :: "(int \<Rightarrow> int) \<Rightarrow> int \<Rightarrow> int option" where
  "rand_Int63n rnd n = (if n \<le> 0 then None else Some (rnd n))"

definition ExponentialBackoff :: "(int \<Rightarrow> int) \<Rightarrow> duration \<Rightarrow> duration \<Rightarrow> rat \<Rightarrow> int \<Rightarrow> duration option" where
  "ExponentialBackoff rnd baseDelay maxDelay factor attempt =
     (let delay = of_int baseDelay * (factor * of_int (attempt - 1));
          delay' = (if of_int maxDelay < delay then of_int maxDelay else delay)
      in case rand_Int63n rnd (trunc_float (delay' / 10)) of
           None \<Rightarrow> None
         | Some jitter \<Rightarrow> Some (trunc_float delay' + jitter))"

fun exponential_loop ::
    "(duration \<Rightarrow> 's \<Rightarrow> 's) \<Rightarrow> (int \<Rightarrow> duration option) \<Rightarrow> 's mhandler \<Rightarrow> msg_context \<Rightarrow> Message \<Rightarrow> 's \<Rightarrow> int \<Rightarrow> nat
     \<Rightarrow> hresult \<times> Message \<times> 's" where
  "exponential_loop sleep wait_for next_h ctx msg s attempt 0 =
     (Returned (Some (Plain ''maximum of retries reached'')), msg, s)"
| "exponential_loop sleep wait_for next_h ctx msg s attempt (Suc n) =
     (case next_h ctx msg s of
        (Returned None, m', s') \<Rightarrow> (Returned None, m', s')
      | (Returned (Some e), m', s') \<Rightarrow>
          if n = 0 then exponential_loop sleep wait_for next_h ctx m' s' (attempt + 1) n
          else (case wait_for attempt of
                  None \<Rightarrow> (Panicked ''invalid argument to Int63n'', m', s')
                | Some delay \<Rightarrow> exponential_loop sleep wait_for next_h ctx m' (sleep delay s') (attempt + 1) n)
      | r \<Rightarrow> r)"

definition ExponentialRetryMiddleware :: "(duration \<Rightarrow> 's \<Rightarrow> 's) \<Rightarrow> (int \<Rightarrow> int) \<Rightarrow> int \<Rightarrow> 's Middleware" where
  "ExponentialRetryMiddleware sleep rnd maxRetries next_h ctx msg s =
     exponential_loop sleep (ExponentialBackoff rnd (100 * millisecond) (5 * second) 2) next_h ctx msg s 1 (nat maxRetries)"

section \<open>What the retries do\<close>

text \<open>A handler that answers from a script, and how long was slept.\<close>

record script =
  sp_left :: "msg_error option list"
  sp_calls :: nat
  sp_slept :: "duration list"

definition plays :: "script mhandler" where
  "plays ctx m s =
     (case sp_left s of
        [] \<Rightarrow> (Returned None, m, s\<lparr>sp_calls := Suc (sp_calls s)\<rparr>)
      | r # rs \<Rightarrow> (Returned r, m, s\<lparr>sp_left := rs, sp_calls := Suc (sp_calls s)\<rparr>))"

definition sleeps :: "duration \<Rightarrow> script \<Rightarrow> script" where
  "sleeps d s = s\<lparr>sp_slept := sp_slept s @ [d]\<rparr>"

definition may_retry :: "msg_error option \<Rightarrow> bool" where
  "may_retry r \<longleftrightarrow> fst (ErrorClassifier r)"

lemma plays_step:
  "plays ctx m \<lparr>sp_left = r # rs, sp_calls = c, sp_slept = ds\<rparr>
     = (Returned r, m, \<lparr>sp_left = rs, sp_calls = Suc c, sp_slept = ds\<rparr>)"
  by (simp add: plays_def)

lemma smart_loop_again:
  assumes "may_retry (Some e)"
  shows "smart_loop sleeps delay plays ctx m \<lparr>sp_left = Some e # rs, sp_calls = c, sp_slept = ds\<rparr> lastErr (Suc n)
    = smart_loop sleeps delay plays ctx m
        \<lparr>sp_left = rs, sp_calls = Suc c, sp_slept = (if n = 0 then ds else ds @ [delay])\<rparr> (Some e) n"
  using assms by (simp add: plays_step sleeps_def may_retry_def)

lemma smart_loop_script:
  assumes "n \<le> length rs"
  shows "smart_loop sleeps delay plays ctx m \<lparr>sp_left = rs, sp_calls = c, sp_slept = ds\<rparr> lastErr n =
    (let k = length (takeWhile may_retry (take n rs)) in
     if k < n then (Returned (rs ! k), m, \<lparr>sp_left = drop (Suc k) rs, sp_calls = c + Suc k, sp_slept = ds @ replicate k delay\<rparr>)
     else (Returned (if n = 0 then lastErr else rs ! (n - 1)), m,
           \<lparr>sp_left = drop n rs, sp_calls = c + n, sp_slept = ds @ replicate (n - 1) delay\<rparr>))"
  using assms
proof (induction n arbitrary: rs c ds lastErr)
  case 0
  then show ?case by (simp add: Let_def)
next
  case (Suc n)
  from Suc.prems obtain r rs' where rs: "rs = r # rs'" by (cases rs) auto
  show ?case
  proof (cases "may_retry r")
    case False
    then show ?thesis
      by (cases r) (auto simp: rs plays_step may_retry_def Let_def)
  next
    case True
    then obtain e where r: "r = Some e" by (cases r) (auto simp: may_retry_def ErrorClassifier_def)
    have again: "may_retry (Some e)" using True by (simp add: r)
    from Suc.prems have "n \<le> length rs'" by (simp add: rs)
    note IH = Suc.IH [OF this]
    show ?thesis
      unfolding rs r smart_loop_again [OF again] IH using again
      by (cases n) (simp_all add: Let_def)
  qed
qed

text \<open>
  Retries by kind of error stop at the first answer that is no retryable error, and give it
  back; the handler is called no more often than allowed, with one delay between two calls; when
  every attempt fails the last error is given back. With no attempts allowed the handler is not
  called at all, and the message counts as handled.
\<close>
theorem smart_retry_stops_at_the_first_verdict:
  assumes "nat maxRetries \<le> length answers"
  shows "SmartRetryMiddleware sleeps maxRetries delay plays ctx m \<lparr>sp_left = answers, sp_calls = 0, sp_slept = []\<rparr> =
    (let n = nat maxRetries; k = length (takeWhile may_retry (take n answers)) in
     if n = 0 then (Returned None, m, \<lparr>sp_left = answers, sp_calls = 0, sp_slept = []\<rparr>)
     else if k < n then (Returned (answers ! k), m, \<lparr>sp_left = drop (Suc k) answers, sp_calls = Suc k, sp_slept = replicate k delay\<rparr>)
     else (Returned (last (take n answers)), m, \<lparr>sp_left = drop n answers, sp_calls = n, sp_slept = replicate (n - 1) delay\<rparr>))"
proof -
  have "last (take n answers) = answers ! (n - 1)" if "n \<noteq> 0" "n \<le> length answers" for n
    using that by (subst last_conv_nth) auto
  with assms show ?thesis
    unfolding SmartRetryMiddleware_def smart_loop_script [OF assms] by (auto simp: Let_def)
qed

theorem smart_retry_stops_at_the_first_verdict_witness:
  "SmartRetryMiddleware sleeps 3 7 plays \<lparr>mctx_trace_id = None\<rparr> (NewMessage ''a'' [])
      \<lparr>sp_left = [Some ErrTemporary, Some ErrPermanent, None], sp_calls = 0, sp_slept = []\<rparr>
   = (Returned (Some ErrPermanent), NewMessage ''a'' [], \<lparr>sp_left = [None], sp_calls = 2, sp_slept = [7]\<rparr>)"
proof -
  have "nat 3 \<le> length [Some ErrTemporary, Some ErrPermanent, None]" by simp
  from smart_retry_stops_at_the_first_verdict [OF this, where delay = 7 and ctx = "\<lparr>mctx_trace_id = None\<rparr>" and m = "NewMessage ''a'' []"]
  show ?thesis
    by (simp add: Let_def may_retry_def ErrorClassifier_def ErrTemporary_def ErrPermanent_def ErrTimeout_def numeral_eq_Suc)
qed

text \<open>
  The delay grows with the number of the attempt, not exponentially; and the delay before the
  second attempt is 0, so that \<open>rand.Int63n\<close> panics.
\<close>
lemma backoff_is_linear:
  assumes "of_int maxDelay \<ge> of_int baseDelay * (factor * of_int (attempt - 1))"
    and "ExponentialBackoff (\<lambda>_. 0) baseDelay maxDelay factor attempt = Some d"
  shows "d = trunc_float (of_int baseDelay * factor * of_int (attempt - 1))"
  using assms by (auto simp: ExponentialBackoff_def rand_Int63n_def Let_def mult.assoc split: if_splits)

lemma first_delay_panics: "ExponentialBackoff rnd baseDelay maxDelay factor 1 = None" if "0 \<le> maxDelay"
  using that by (simp add: ExponentialBackoff_def rand_Int63n_def Let_def)

text \<open>
  The retries with a growing delay never make a second attempt. A handler that fails at once
  makes the middleware panic, unless only one attempt is allowed; a success or a panic of the
  first attempt is given back.
\<close>
theorem exponential_retry_never_retries:
  "ExponentialRetryMiddleware sleep rnd maxRetries h ctx m s =
     (if maxRetries \<le> 0 then (Returned (Some (Plain ''maximum of retries reached'')), m, s)
      else case h ctx m s of
        (Returned (Some e), m', s') \<Rightarrow>
          if maxRetries = 1 then (Returned (Some (Plain ''maximum of retries reached'')), m', s')
          else (Panicked ''invalid argument to Int63n'', m', s')
      | r \<Rightarrow> r)"
proof (cases "nat maxRetries")
  case (Suc n)
  have "ExponentialBackoff rnd (100 * millisecond) (5 * second) 2 1 = None"
    by (rule first_delay_panics) (simp add: second_def)
  moreover from Suc have "n = 0 \<longleftrightarrow> maxRetries = 1" "0 < maxRetries" by auto
  ultimately show ?thesis
    unfolding ExponentialRetryMiddleware_def Suc
    by (auto split: prod.split hresult.split option.split)
qed (simp add: ExponentialRetryMiddleware_def)


section \<open>A breaker with a fallback\<close>

record AdvancedCircuitBreaker =
  ab_state :: string
  ab_failures :: int
  ab_successes :: int
  ab_threshold :: int
  ab_timeout :: duration
  ab_openTime :: instant

definition NewAdvancedCircuitBreaker :: "int \<Rightarrow> duration \<Rightarrow> AdvancedCircuitBreaker" where
  "NewAdvancedCircuitBreaker threshold timeout = \<lparr>ab_state = ''closed'', ab_failures = 0, ab_successes = 0,
     ab_threshold = threshold, ab_timeout = timeout, ab_openTime = 0\<rparr>"

definition ab_enter :: "instant \<Rightarrow> AdvancedCircuitBreaker \<Rightarrow> AdvancedCircuitBreaker" where
  "ab_enter now1 cb =
     (if ab_state cb = ''open'' \<and> ab_timeout cb \<le> time_sub now1 (ab_openTime cb)
      then cb\<lparr>ab_state := ''half-open'', ab_successes := 0\<rparr> else cb)"

definition ab_finish :: "instant \<Rightarrow> msg_error option \<Rightarrow> AdvancedCircuitBreaker \<Rightarrow> AdvancedCircuitBreaker" where
  "ab_finish now2 err cb =
     (if err \<noteq> None then
        (let cb1 = cb\<lparr>ab_failures := ab_failures cb + 1\<rparr>
         in if ab_threshold cb1 \<le> ab_failures cb1 then cb1\<lparr>ab_state := ''open'', ab_openTime := now2\<rparr> else cb1)
      else if ab_state cb = ''half-open'' then
        (let cb1 = cb\<lparr>ab_successes := ab_successes cb + 1\<rparr>
         in if 2 \<le> ab_successes cb1 then cb1\<lparr>ab_state := ''closed'', ab_failures := 0\<rparr> else cb1)
      else cb\<lparr>ab_failures := 0\<rparr>)"

text \<open>\<open>now1\<close> is the clock before, \<open>now2\<close> after the handler, which runs without the lock.\<close>

definition ab_Execute ::
    "instant \<Rightarrow> instant \<Rightarrow> 's mhandler \<Rightarrow> msg_context \<Rightarrow> Message \<Rightarrow> 's mhandler \<Rightarrow> AdvancedCircuitBreaker \<Rightarrow> 's
     \<Rightarrow> hresult \<times> Message \<times> AdvancedCircuitBreaker \<times> 's" where
  "ab_Execute now1 now2 fallback ctx msg handler cb s =
     (let cb1 = ab_enter now1 cb in
      if ab_state cb1 = ''open'' then (case fallback ctx msg s of (r, m', s') \<Rightarrow> (r, m', cb1, s'))
      else case handler ctx msg s of
        (Returned err, m', s') \<Rightarrow> (Returned err, m', ab_finish now2 err cb1, s')
      | (r, m', s') \<Rightarrow> (r, m', cb1, s'))"

text \<open>The three states it stands for: failures in a row, since when it is open, successes on trial.\<close>

datatype phase = ClosedAfter int | OpenSince instant | OnTrial int

fun phase_enter :: "duration \<Rightarrow> instant \<Rightarrow> phase \<Rightarrow> phase" where
  "phase_enter timeout now (OpenSince t) = (if timeout \<le> time_sub now t then OnTrial 0 else OpenSince t)"
| "phase_enter timeout now ph = ph"

fun phase_finish :: "int \<Rightarrow> instant \<Rightarrow> bool \<Rightarrow> phase \<Rightarrow> phase" where
  "phase_finish threshold now failed (ClosedAfter n) =
     (if \<not> failed then ClosedAfter 0 else if threshold \<le> n + 1 then OpenSince now else ClosedAfter (n + 1))"
| "phase_finish threshold now failed (OnTrial k) =
     (if failed then OpenSince now else if k = 0 then OnTrial 1 else ClosedAfter 0)"
| "phase_finish threshold now failed (OpenSince t) = OpenSince t"

definition ab_phase :: "AdvancedCircuitBreaker \<Rightarrow> phase" where
  "ab_phase cb = (if ab_state cb = ''open'' then OpenSince (ab_openTime cb)
     else if ab_state cb = ''half-open'' then OnTrial (ab_successes cb) else ClosedAfter (ab_failures cb))"

definition ab_inv :: "AdvancedCircuitBreaker \<Rightarrow> bool" where
  "ab_inv cb \<longleftrightarrow> ab_state cb \<in> {''closed'', ''open'', ''half-open''}
     \<and> (ab_state cb = ''closed'' \<longrightarrow> ab_failures cb < ab_threshold cb)
     \<and> (ab_state cb \<noteq> ''closed'' \<longrightarrow> ab_threshold cb \<le> ab_failures cb)
     \<and> (ab_state cb = ''half-open'' \<longrightarrow> ab_successes cb = 0 \<or> ab_successes cb = 1) \<and> 0 < ab_threshold cb"

lemma ab_enter_inv [go_inv]: "ab_inv cb \<Longrightarrow> ab_inv (ab_enter now cb)"
  by (auto simp: ab_inv_def ab_enter_def)

lemma ab_finish_inv [go_inv]: "ab_inv cb \<Longrightarrow> ab_state cb \<noteq> ''open'' \<Longrightarrow> ab_inv (ab_finish now err cb)"
  by (auto simp: ab_inv_def ab_finish_def Let_def)

lemma ab_enter_phase: "ab_phase (ab_enter now cb) = phase_enter (ab_timeout cb) now (ab_phase cb)"
  by (auto simp: ab_phase_def ab_enter_def)

lemma ab_finish_phase:
  assumes "ab_inv cb" and "ab_state cb \<noteq> ''open''"
  shows "ab_phase (ab_finish now err cb) = phase_finish (ab_threshold cb) now (err \<noteq> None) (ab_phase cb)"
  using assms by (auto simp: ab_inv_def ab_phase_def ab_finish_def Let_def)

lemma ab_open_phase: "ab_state cb = ''open'' \<longleftrightarrow> (\<exists>t. ab_phase cb = OpenSince t)"
  by (auto simp: ab_phase_def)

text \<open>A run of calls: the readings of the clock and the answer, with what was called logged.\<close>

definition ab_step ::
    "instant \<times> instant \<times> msg_error option \<Rightarrow> AdvancedCircuitBreaker \<times> bool list \<Rightarrow> AdvancedCircuitBreaker \<times> bool list" where
  "ab_step c st =
     (case c of (now1, now2, answer) \<Rightarrow>
        snd (snd (ab_Execute now1 now2 (\<lambda>ctx m l. (Returned None, m, l @ [False])) \<lparr>mctx_trace_id = None\<rparr> (NewMessage [] [])
          (\<lambda>ctx m l. (Returned answer, m, l @ [True])) (fst st) (snd st))))"

definition phase_step ::
    "int \<Rightarrow> duration \<Rightarrow> instant \<times> instant \<times> msg_error option \<Rightarrow> phase \<times> bool list \<Rightarrow> phase \<times> bool list" where
  "phase_step threshold timeout c st =
     (case c of (now1, now2, answer) \<Rightarrow>
        (case phase_enter timeout now1 (fst st) of
           OpenSince t \<Rightarrow> (OpenSince t, snd st @ [False])
         | ph \<Rightarrow> (phase_finish threshold now2 (answer \<noteq> None) ph, snd st @ [True])))"

lemma ab_settings:
  "ab_threshold (ab_enter now cb) = ab_threshold cb" "ab_timeout (ab_enter now cb) = ab_timeout cb"
  "ab_threshold (ab_finish now err cb) = ab_threshold cb" "ab_timeout (ab_finish now err cb) = ab_timeout cb"
  by (simp_all add: ab_enter_def ab_finish_def Let_def)

lemma ab_step_refines:
  assumes "ab_inv (fst st)"
  shows "ab_inv (fst (ab_step c st)) \<and> ab_threshold (fst (ab_step c st)) = ab_threshold (fst st)
    \<and> ab_timeout (fst (ab_step c st)) = ab_timeout (fst st)
    \<and> (ab_phase (fst (ab_step c st)), snd (ab_step c st))
        = phase_step (ab_threshold (fst st)) (ab_timeout (fst st)) c (ab_phase (fst st), snd st)"
proof -
  obtain now1 now2 answer where c: "c = (now1, now2, answer)" by (cases c) auto
  let ?cb = "ab_enter now1 (fst st)"
  have inv: "ab_inv ?cb" using assms by (rule go_inv)
  show ?thesis
  proof (cases "ab_state ?cb = ''open''")
    case True
    then obtain t where "ab_phase ?cb = OpenSince t" by (auto simp: ab_open_phase)
    with True inv show ?thesis
      by (simp add: c ab_step_def ab_Execute_def phase_step_def ab_settings flip: ab_enter_phase)
  next
    case False
    then have "\<forall>t. ab_phase ?cb \<noteq> OpenSince t" by (auto simp: ab_open_phase)
    with False ab_finish_phase [OF inv False, of now2 answer] ab_finish_inv [OF inv False, of now2 answer] show ?thesis
      by (cases "ab_phase ?cb")
        (simp_all add: c ab_step_def ab_Execute_def phase_step_def ab_settings flip: ab_enter_phase)
  qed
qed

text \<open>
  C24: The breaker with a fallback is the automaton of three states, call for call. Closed, it
  counts failures in a row and opens at the threshold; open, it answers with the fallback until
  the timeout is over; on trial, one failure opens it again and two successes close it.
\<close>
theorem breaker_refines_three_states:
  assumes "0 < threshold"
  shows "(case fold ab_step calls (NewAdvancedCircuitBreaker threshold timeout, []) of (cb, l) \<Rightarrow> (ab_phase cb, l))
    = fold (phase_step threshold timeout) calls (ClosedAfter 0, [])"
proof -
  have "(ab_phase (fst (fold ab_step calls st)), snd (fold ab_step calls st))
      = fold (phase_step (ab_threshold (fst st)) (ab_timeout (fst st))) calls (ab_phase (fst st), snd st)"
    if "ab_inv (fst st)" for st
    using that
  proof (induction calls arbitrary: st)
    case (Cons c calls)
    from ab_step_refines [OF Cons.prems, of c] Cons.IH [of "ab_step c st"] show ?case by simp
  qed simp
  from this [of "(NewAdvancedCircuitBreaker threshold timeout, [])"] assms show ?thesis
    by (simp add: NewAdvancedCircuitBreaker_def ab_inv_def ab_phase_def case_prod_beta)
qed

theorem breaker_refines_three_states_witness:
  "(case fold ab_step [(1, 1, Some BreakerOpen), (2, 2, Some BreakerOpen), (3, 3, None), (20, 20, None), (21, 21, None)]
       (NewAdvancedCircuitBreaker 2 10, []) of (cb, l) \<Rightarrow> (ab_phase cb, l))
    = (ClosedAfter 0, [True, True, False, True, True])"
proof -
  have "(0 :: int) < 2" by simp
  from breaker_refines_three_states [OF this, of "[(1, 1, Some BreakerOpen), (2, 2, Some BreakerOpen), (3, 3, None), (20, 20, None), (21, 21, None)]" 10]
  show ?thesis by (simp add: phase_step_def time_sub_def min_duration_def max_duration_def)
qed


section \<open>The limiter and the breaker of the other example\<close>

record SimpleRateLimiter =
  sl_tokens :: int
  sl_rate :: int
  sl_period :: duration
  sl_lastRefill :: instant

definition sl_Allow :: "instant \<Rightarrow> SimpleRateLimiter \<Rightarrow> bool \<times> SimpleRateLimiter" where
  "sl_Allow now l =
     (let l1 = (if sl_period l \<le> time_sub now (sl_lastRefill l)
           then l\<lparr>sl_tokens := sl_rate l, sl_lastRefill := now\<rparr> else l)
      in if 0 < sl_tokens l1 then (True, l1\<lparr>sl_tokens := sl_tokens l1 - 1\<rparr>) else (False, l1))"

text \<open>
  \<open>Wait\<close> asks again every 10 milliseconds: for each time the reading of the clock, and the error
  of the context if it is done by then. None as result: it still waits.
\<close>

fun sl_Wait :: "(instant \<times> msg_error option) list \<Rightarrow> SimpleRateLimiter \<Rightarrow> msg_error option option \<times> SimpleRateLimiter" where
  "sl_Wait [] l = (None, l)"
| "sl_Wait ((now, cancelled) # polls) l =
     (case sl_Allow now l of
        (True, l') \<Rightarrow> (Some None, l')
      | (False, l') \<Rightarrow> (case cancelled of Some err \<Rightarrow> (Some (Some err), l') | None \<Rightarrow> sl_Wait polls l'))"

fun sl_admitted :: "instant list \<Rightarrow> SimpleRateLimiter \<Rightarrow> int" where
  "sl_admitted [] l = 0"
| "sl_admitted (now # ts) l =
     (case sl_Allow now l of (ok, l') \<Rightarrow> (if ok then 1 else 0) + sl_admitted ts l')"

lemma admitted_without_refill:
  assumes "\<forall>t \<in> set ts. sl_lastRefill l \<le> t \<and> t < sl_lastRefill l + sl_period l"
  shows "sl_admitted ts l \<le> max 0 (sl_tokens l)"
  using assms
proof (induction ts arbitrary: l)
  case (Cons t ts)
  from Cons.prems have "time_sub t (sl_lastRefill l) < sl_period l" by (intro time_sub_less) simp_all
  with Cons.prems Cons.IH [of l] Cons.IH [of "l\<lparr>sl_tokens := sl_tokens l - 1\<rparr>"] show ?case
    by (auto simp: sl_Allow_def Let_def)
qed simp

text \<open>
  The limiter refills all at once, so that in a window as long as its period it admits no
  more than it holds at the beginning and one refill: at most twice its rate.
\<close>
theorem limiter_bounds_a_window:
  assumes "sorted ts" and "\<forall>t \<in> set ts. a \<le> t \<and> t < a + sl_period l"
  shows "sl_admitted ts l \<le> max 0 (sl_tokens l) + max 0 (sl_rate l)"
  using assms
proof (induction ts arbitrary: l)
  case (Cons t ts)
  show ?case
  proof (cases "sl_period l \<le> time_sub t (sl_lastRefill l)")
    case True
    let ?l = "l\<lparr>sl_lastRefill := t, sl_tokens := sl_rate l - (if 0 < sl_rate l then 1 else 0)\<rparr>"
    have held: "sl_admitted ts ?l \<le> max 0 (sl_tokens ?l)"
      using Cons.prems by (intro admitted_without_refill) fastforce
    have swap: "l\<lparr>sl_tokens := x, sl_lastRefill := t\<rparr> = l\<lparr>sl_lastRefill := t, sl_tokens := x\<rparr>" for x
      by (cases l) simp
    from True held show ?thesis by (auto simp: sl_Allow_def Let_def swap split: if_splits)
  next
    case False
    from Cons.prems have prems: "sorted ts" "\<forall>t \<in> set ts. a \<le> t \<and> t < a + sl_period l" by simp_all
    from False prems Cons.IH [of l] Cons.IH [of "l\<lparr>sl_tokens := sl_tokens l - 1\<rparr>"] show ?thesis
      by (auto simp: sl_Allow_def Let_def)
  qed
qed simp

theorem limiter_bounds_a_window_witness:
  "sl_admitted [9, 9, 9, 10, 10, 10, 18] \<lparr>sl_tokens = 2, sl_rate = 2, sl_period = 10, sl_lastRefill = 0\<rparr> = 4
   \<and> sl_admitted [9, 9, 9, 10, 10, 10, 18] \<lparr>sl_tokens = 2, sl_rate = 2, sl_period = 10, sl_lastRefill = 0\<rparr> \<le> 2 + 2"
proof
  show "sl_admitted [9, 9, 9, 10, 10, 10, 18] \<lparr>sl_tokens = 2, sl_rate = 2, sl_period = 10, sl_lastRefill = 0\<rparr> = 4"
    by (simp add: sl_Allow_def time_sub_def min_duration_def max_duration_def)
  show "sl_admitted [9, 9, 9, 10, 10, 10, 18] \<lparr>sl_tokens = 2, sl_rate = 2, sl_period = 10, sl_lastRefill = 0\<rparr> \<le> 2 + 2"
    using limiter_bounds_a_window [where ts = "[9, 9, 9, 10, 10, 10, 18]" and a = 9
        and l = "\<lparr>sl_tokens = 2, sl_rate = 2, sl_period = 10, sl_lastRefill = 0\<rparr>"] by simp
qed

text \<open>The breaker; its state is empty until it opens, which is closed.\<close>

record ExampleCircuitBreaker =
  eb_state :: string
  eb_failures :: int
  eb_threshold :: int
  eb_timeout :: duration
  eb_openTime :: instant

definition eb_Call ::
    "instant \<Rightarrow> instant \<Rightarrow> ('s \<Rightarrow> hresult \<times> 's) \<Rightarrow> ExampleCircuitBreaker \<Rightarrow> 's \<Rightarrow> hresult \<times> ExampleCircuitBreaker \<times> 's" where
  "eb_Call now1 now2 fn cb s =
     (let cb1 = (if eb_state cb = ''open'' \<and> eb_timeout cb \<le> time_sub now1 (eb_openTime cb)
           then cb\<lparr>eb_state := ''half-open'', eb_failures := 0\<rparr> else cb)
      in if eb_state cb1 = ''open'' then (Returned (Some (Plain ''circuit breaker is open'')), cb1, s)
         else case fn s of
           (Returned (Some err), s') \<Rightarrow>
             let cb2 = cb1\<lparr>eb_failures := eb_failures cb1 + 1\<rparr>
             in (Returned (Some err),
                 (if eb_threshold cb2 \<le> eb_failures cb2 then cb2\<lparr>eb_state := ''open'', eb_openTime := now2\<rparr> else cb2), s')
         | (Returned None, s') \<Rightarrow>
             (Returned None, (if eb_state cb1 = ''half-open'' then cb1\<lparr>eb_state := ''closed''\<rparr> else cb1)\<lparr>eb_failures := 0\<rparr>, s')
         | (r, s') \<Rightarrow> (r, cb1, s'))"

definition eb_State :: "ExampleCircuitBreaker \<Rightarrow> string" where "eb_State cb = eb_state cb"

text \<open>
  A trial begins with no failures, so that the first failure of a trial does not open the
  breaker again unless the threshold is 1: it takes as many failures as a closed breaker does.
\<close>
lemma trial_tolerates_failures:
  assumes "eb_state cb = ''open''" and "eb_timeout cb \<le> time_sub now1 (eb_openTime cb)"
  shows "eb_State (fst (snd (eb_Call now1 now2 (\<lambda>s. (Returned (Some err), s)) cb s)))
    = (if eb_threshold cb \<le> 1 then ''open'' else ''half-open'')"
  using assms by (simp add: eb_Call_def eb_State_def Let_def)

end
