(* ===== verification/Messaging_Batching.thy ===== *)
theory Messaging_Batching
  imports Messaging_Core
begin

text \<open>
  Batches that are handled later than their messages are delivered: the middleware of
  \<open>messaging/example/10-middleware-custom\<close> and the processor of \<open>messaging/example/15-performance\<close>.

  A message waits in a batch while the transport settles it, so messages live in a heap and a
  batch holds their addresses. The timer is an event of its own; logging is left out.
\<close>

section \<open>The middleware\<close>

record 's batch_world =
  bw_heap :: "nat \<Rightarrow> Message"
  bw_batch :: "nat list"
  bw_timerSet :: bool
  bw_rest :: 's

definition newline :: char where "newline = CHR 0x0A"

definition batch_message :: "Message list \<Rightarrow> Message" where
  "batch_message ms =
     (NewMessage [] (concat (map (\<lambda>m. m_Payload m @ [newline]) ms)))
       \<lparr>m_Metadata := [''batch_size'' \<mapsto> nat_text (length ms)]\<rparr>"

definition on_heap :: "(Message \<Rightarrow> string option \<times> Message) \<Rightarrow> nat \<Rightarrow> (nat \<Rightarrow> Message) \<Rightarrow> nat \<Rightarrow> Message" where
  "on_heap f p h = h(p := snd (f (h p)))"

definition processBatch :: "'s mhandler \<Rightarrow> 's batch_world \<Rightarrow> hresult \<times> 's batch_world" where
  "processBatch next_h w =
     (if bw_batch w = [] then (Returned None, w)
      else let currentBatch = bw_batch w; w1 = w\<lparr>bw_batch := [], bw_timerSet := False\<rparr> in
        case next_h \<lparr>mctx_trace_id = None\<rparr> (batch_message (map (bw_heap w1) currentBatch)) (bw_rest w1) of
          (Returned (Some err), m', s') \<Rightarrow>
            (Returned None, w1\<lparr>bw_heap := fold (on_heap Nack) currentBatch (bw_heap w1), bw_rest := s'\<rparr>)
        | (Returned None, m', s') \<Rightarrow>
            (Returned None, w1\<lparr>bw_heap := fold (on_heap Ack) currentBatch (bw_heap w1), bw_rest := s'\<rparr>)
        | (r, m', s') \<Rightarrow> (r, w1\<lparr>bw_rest := s'\<rparr>))"

definition custom_BatchMiddleware :: "int \<Rightarrow> 's mhandler \<Rightarrow> nat \<Rightarrow> 's batch_world \<Rightarrow> hresult \<times> 's batch_world" where
  "custom_BatchMiddleware batchSize next_h p w =
     (let w1 = w\<lparr>bw_batch := bw_batch w @ [p], bw_timerSet := True\<rparr> in
      if batchSize \<le> int (length (bw_batch w1)) then processBatch next_h w1 else (Returned None, w1))"

text \<open>The transport settles the message when the middleware has answered.\<close>

definition deliver_batched :: "int \<Rightarrow> 's mhandler \<Rightarrow> nat \<Rightarrow> 's batch_world \<Rightarrow> 's batch_world" where
  "deliver_batched batchSize next_h p w =
     (case custom_BatchMiddleware batchSize next_h p w of
        (r, w') \<Rightarrow> w'\<lparr>bw_heap := (bw_heap w')(p := settle_delivery r (bw_heap w' p))\<rparr>)"

section \<open>What becomes of the messages of a batch\<close>

definition fresh :: "Message \<Rightarrow> bool" where
  "fresh m \<longleftrightarrow> settle_inv m \<and> \<not> m_settled m"

lemma settled_stays:
  "m_settled m \<Longrightarrow> snd (Ack m) = m" "m_settled m \<Longrightarrow> snd (Nack m) = m" "m_settled m \<Longrightarrow> settle_delivery r m = m"
  by (auto simp: Ack_def Nack_def settle_def settle_delivery_def IsSettled_def split: hresult.split option.split)

lemma fresh_settles:
  assumes "fresh m"
  shows "m_settled (snd (Ack m)) \<and> m_calls (snd (Ack m)) = [CalledAck]"
    "m_settled (snd (Nack m)) \<and> m_calls (snd (Nack m)) = [CalledNack]"
    "m_settled (settle_delivery (Returned None) m) \<and> m_calls (settle_delivery (Returned None) m) = [CalledAck]"
  using assms
  by (auto simp: fresh_def settle_inv_def Ack_def Nack_def settle_def settle_delivery_def IsSettled_def Let_def)

lemma fold_on_heap_settled:
  assumes "\<forall>p \<in> set ps. m_settled (h p)" and "\<And>m. m_settled m \<Longrightarrow> snd (f m) = m"
  shows "fold (on_heap f) ps h = h"
  using assms by (induction ps arbitrary: h) (auto simp: on_heap_def)

text \<open>Before the batch is full its messages are acknowledged one by one, and nothing else happens.\<close>

lemma waiting_messages:
  assumes "distinct ps" and "\<forall>p \<in> set ps. fresh (bw_heap w p)" and "bw_batch w = []" and "int (length ps) < batchSize"
  shows "let w' = fold (deliver_batched batchSize next_h) ps w in
      bw_batch w' = ps \<and> bw_rest w' = bw_rest w
      \<and> (\<forall>p \<in> set ps. m_settled (bw_heap w' p) \<and> m_calls (bw_heap w' p) = [CalledAck])
      \<and> (\<forall>p. p \<notin> set ps \<longrightarrow> bw_heap w' p = bw_heap w p)"
  using assms
proof (induction ps rule: rev_induct)
  case Nil
  then show ?case by simp
next
  case (snoc p ps)
  let ?w = "fold (deliver_batched batchSize next_h) ps w"
  from snoc have IH: "bw_batch ?w = ps" "bw_rest ?w = bw_rest w"
    "\<forall>q \<in> set ps. m_settled (bw_heap ?w q) \<and> m_calls (bw_heap ?w q) = [CalledAck]"
    "\<forall>q. q \<notin> set ps \<longrightarrow> bw_heap ?w q = bw_heap w q"
    by (simp_all add: Let_def)
  from snoc.prems IH(4) have p: "fresh (bw_heap ?w p)" "p \<notin> set ps" by auto
  from snoc.prems(4) have "\<not> batchSize \<le> int (length (ps @ [p]))" by simp
  then have "deliver_batched batchSize next_h p ?w = ?w\<lparr>bw_batch := ps @ [p], bw_timerSet := True,
      bw_heap := (bw_heap ?w)(p := settle_delivery (Returned None) (bw_heap ?w p))\<rparr>"
    by (simp add: deliver_batched_def custom_BatchMiddleware_def IH(1) Let_def)
  with IH p fresh_settles(3) [OF p(1)] show ?case by (auto simp: Let_def)
qed

text \<open>The message that fills the batch is settled with it, the others already are.\<close>

lemma filling_message:
  assumes "bw_batch w = ps" and "\<forall>p \<in> set ps. m_settled (bw_heap w p)" and "batchSize \<le> int (length ps) + 1"
    and "\<And>ctx m s. \<exists>m' s'. next_h ctx m s = (Returned err, m', s')"
  shows "\<exists>s'. custom_BatchMiddleware batchSize next_h q w = (Returned None, w\<lparr>bw_batch := [], bw_timerSet := False,
      bw_heap := (bw_heap w)(q := snd ((if err = None then Ack else Nack) (bw_heap w q))), bw_rest := s'\<rparr>)"
proof -
  have stay: "fold (on_heap Ack) ps (bw_heap w) = bw_heap w" "fold (on_heap Nack) ps (bw_heap w) = bw_heap w"
    using assms(2) by (simp_all add: fold_on_heap_settled settled_stays)
  obtain m' s' where "next_h \<lparr>mctx_trace_id = None\<rparr> (batch_message (map (bw_heap w) (ps @ [q]))) (bw_rest w) = (Returned err, m', s')"
    using assms(4) by blast
  with stay assms(1,3) show ?thesis
    by (cases err) (auto simp: custom_BatchMiddleware_def processBatch_def on_heap_def Let_def)
qed

text \<open>
  C25: The middleware answers before it handles: every message of a batch but the one that fills it
  is acknowledged when it is delivered, and what becomes of the batch changes nothing of
  that. When the batch fails only its last message is rejected and delivered again, the
  others are lost.
\<close>
theorem failed_batch_loses_its_messages:
  assumes "distinct (ps @ [q])" and "\<forall>p \<in> set (ps @ [q]). fresh (bw_heap w p)" and "bw_batch w = []"
    and "batchSize = int (length ps) + 1"
    and "\<And>ctx m s. \<exists>m' s'. next_h ctx m s = (Returned err, m', s')"
  shows "let w' = fold (deliver_batched batchSize next_h) (ps @ [q]) w in
      bw_batch w' = [] \<and> (\<forall>p \<in> set ps. m_calls (bw_heap w' p) = [CalledAck])
      \<and> m_calls (bw_heap w' q) = [if err = None then CalledAck else CalledNack]"
proof -
  let ?w = "fold (deliver_batched batchSize next_h) ps w"
  from assms waiting_messages [of ps w batchSize next_h]
  have w: "bw_batch ?w = ps" "\<forall>p \<in> set ps. m_settled (bw_heap ?w p) \<and> m_calls (bw_heap ?w p) = [CalledAck]"
    "\<forall>p. p \<notin> set ps \<longrightarrow> bw_heap ?w p = bw_heap w p"
    by (simp_all add: Let_def)
  from assms(1,2) w(3) have q: "fresh (bw_heap ?w q)" "q \<notin> set ps" by auto
  let ?f = "if err = None then Ack else Nack"
  have settled: "\<forall>p \<in> set ps. m_settled (bw_heap ?w p)" using w(2) by blast
  have full: "batchSize \<le> int (length ps) + 1" using assms(4) by simp
  from filling_message [where next_h = next_h and err = err and q = q, OF w(1) settled full assms(5)] obtain s' where
    "custom_BatchMiddleware batchSize next_h q ?w = (Returned None, ?w\<lparr>bw_batch := [], bw_timerSet := False,
      bw_heap := (bw_heap ?w)(q := snd (?f (bw_heap ?w q))), bw_rest := s'\<rparr>)" by blast
  then have "bw_heap (deliver_batched batchSize next_h q ?w) = (bw_heap ?w)(q := snd (?f (bw_heap ?w q)))
      \<and> bw_batch (deliver_batched batchSize next_h q ?w) = []"
    using fresh_settles [OF q(1)] by (auto simp: deliver_batched_def settled_stays)
  with w(2) q(2) fresh_settles [OF q(1)] show ?thesis by (auto simp: Let_def)
qed


definition unread :: "nat \<Rightarrow> Message" where
  "unread p = (NewMessage (nat_text p) ''x'')\<lparr>m_ack := Some None, m_nack := Some None\<rparr>"

theorem failed_batch_loses_its_messages_witness:
  "let w' = fold (deliver_batched 3 (\<lambda>ctx m s. (Returned (Some (Plain ''db down'')), m, s))) [0, 1, 2]
       \<lparr>bw_heap = unread, bw_batch = [], bw_timerSet = False, bw_rest = ()\<rparr>
   in map (\<lambda>p. m_calls (bw_heap w' p)) [0, 1, 2] = [[CalledAck], [CalledAck], [CalledNack]]"
proof -
  have fresh: "\<forall>p \<in> set ([0, 1] @ [2]). fresh (bw_heap \<lparr>bw_heap = unread, bw_batch = [], bw_timerSet = False, bw_rest = ()\<rparr> p)"
    by (simp add: fresh_def unread_def settle_inv_def NewMessage_def)
  from failed_batch_loses_its_messages [OF _ fresh, where batchSize = 3 and err = "Some (Plain ''db down'')"
      and next_h = "\<lambda>ctx m s. (Returned (Some (Plain ''db down'')), m, s)"]
  show ?thesis by (simp add: Let_def)
qed

section \<open>The processor\<close>

text \<open>It holds messages until the batch is full, the ticker fires or it is closed.\<close>

record 's BatchProcessor =
  bp_batch :: "Message list"
  bp_batchSize :: int
  bp_ticking :: bool
  bp_rest :: 's

definition NewBatchProcessor :: "int \<Rightarrow> duration \<Rightarrow> 's \<Rightarrow> 's BatchProcessor option" where
  "NewBatchProcessor batchSize flushInterval s =
     (if flushInterval \<le> 0 then None
      else Some \<lparr>bp_batch = [], bp_batchSize = batchSize, bp_ticking = True, bp_rest = s\<rparr>)"

definition bp_Flush ::
    "(Message list \<Rightarrow> 's \<Rightarrow> msg_error option \<times> 's) \<Rightarrow> 's BatchProcessor \<Rightarrow> msg_error option \<times> 's BatchProcessor" where
  "bp_Flush processor bp =
     (if bp_batch bp = [] then (None, bp)
      else case processor (bp_batch bp) (bp_rest bp) of (err, s') \<Rightarrow> (err, bp\<lparr>bp_batch := [], bp_rest := s'\<rparr>))"

definition bp_Add ::
    "(Message list \<Rightarrow> 's \<Rightarrow> msg_error option \<times> 's) \<Rightarrow> Message \<Rightarrow> 's BatchProcessor \<Rightarrow> msg_error option \<times> 's BatchProcessor" where
  "bp_Add processor msg bp =
     (let bp1 = bp\<lparr>bp_batch := bp_batch bp @ [msg]\<rparr>
      in if bp_batchSize bp1 \<le> int (length (bp_batch bp1)) then bp_Flush processor bp1 else (None, bp1))"

definition bp_Close :: "(Message list \<Rightarrow> 's \<Rightarrow> msg_error option \<times> 's) \<Rightarrow> 's BatchProcessor \<Rightarrow> 's BatchProcessor" where
  "bp_Close processor bp = snd (bp_Flush processor (bp\<lparr>bp_ticking := False\<rparr>))"

datatype batch_event = Added Message | Ticked

definition logs_batches :: "(Message list \<Rightarrow> msg_error option) \<Rightarrow> Message list \<Rightarrow> Message list list \<Rightarrow> msg_error option \<times> Message list list" where
  "logs_batches answer ms l = (answer ms, l @ [ms])"

fun bp_event :: "(Message list \<Rightarrow> msg_error option) \<Rightarrow> batch_event \<Rightarrow> Message list list BatchProcessor \<Rightarrow> Message list list BatchProcessor" where
  "bp_event answer (Added m) bp = snd (bp_Add (logs_batches answer) m bp)"
| "bp_event answer Ticked bp = snd (bp_Flush (logs_batches answer) bp)"

fun added :: "batch_event list \<Rightarrow> Message list" where
  "added [] = []"
| "added (Added m # evs) = m # added evs"
| "added (Ticked # evs) = added evs"

lemma bp_event_keeps:
  "concat (bp_rest (bp_event answer ev bp)) @ bp_batch (bp_event answer ev bp)
     = concat (bp_rest bp) @ bp_batch bp @ added [ev]"
  "[] \<notin> set (bp_rest bp) \<Longrightarrow> [] \<notin> set (bp_rest (bp_event answer ev bp))"
  by (cases ev; auto simp: bp_Add_def bp_Flush_def logs_batches_def Let_def)+

text \<open>
  Whatever the processor answers, each message that was added is in exactly one batch once
  it is closed, in the order of adding, and no batch is empty.
\<close>
lemma closed_processor_has_handled_all:
  assumes "NewBatchProcessor batchSize flushInterval [] = Some bp"
  shows "concat (bp_rest (bp_Close (logs_batches answer) (fold (bp_event answer) evs bp))) = added evs
    \<and> [] \<notin> set (bp_rest (bp_Close (logs_batches answer) (fold (bp_event answer) evs bp)))"
proof -
  have added_Cons: "added (ev # evs) = added [ev] @ added evs" for ev evs by (cases ev) auto
  have "concat (bp_rest (fold (bp_event answer) evs bp)) @ bp_batch (fold (bp_event answer) evs bp)
      = concat (bp_rest bp) @ bp_batch bp @ added evs
    \<and> [] \<notin> set (bp_rest (fold (bp_event answer) evs bp))" if "[] \<notin> set (bp_rest bp)" for bp
    using that
  proof (induction evs arbitrary: bp)
    case (Cons ev evs)
    from Cons.IH [of "bp_event answer ev bp"] bp_event_keeps [where ev = ev and bp = bp and answer = answer] Cons.prems
    show ?case by (simp add: added_Cons [of ev evs] del: bp_event.simps added.simps)
  qed simp
  from this [of bp] assms show ?thesis
    by (auto simp: NewBatchProcessor_def bp_Close_def bp_Flush_def logs_batches_def split: if_splits)
qed

end
