(* ===== verification/Messaging_Custom.thy ===== *)
theory Messaging_Custom
  imports Messaging_Broker
begin

text \<open>
  The middlewares a user of \<open>pkg/messaging\<close> is shown how to write: authentication and auditing
  (\<open>example/10-middleware-custom\<close>; its batching is in Messaging_Batching), and the collector of
  metrics and the tracing (\<open>example/11-observability\<close>).

  The MD5 sum is the argument \<open>hash\<close>, the text of an error \<open>Error\<close>, a random number an argument;
  the clock is read at \<open>start\<close> and again at \<open>now\<close>. The log lines of the tracing are kept as
  the values they are printed from.
\<close>

section \<open>Authentication\<close>

definition calculateSignature :: "(string \<Rightarrow> nat list) \<Rightarrow> string \<Rightarrow> string \<Rightarrow> string" where
  "calculateSignature hash payload key = concat (map (\<lambda>b. [hex_digit (b div 16), hex_digit (b mod 16)]) (hash (payload @ key)))"

definition custom_AuthMiddleware :: "(string \<Rightarrow> nat list) \<Rightarrow> string \<Rightarrow> 's Middleware" where
  "custom_AuthMiddleware hash secretKey next_h ctx msg s =
     (let signature = (case m_Metadata msg ''signature'' of Some t \<Rightarrow> t | None \<Rightarrow> []) in
      if signature = [] then (case Nack msg of (err, m') \<Rightarrow> (Returned (map_option Plain err), m', s))
      else
        let expected = calculateSignature hash (m_Payload msg) secretKey in
        if signature \<noteq> expected then (case Nack msg of (err, m') \<Rightarrow> (Returned (map_option Plain err), m', s))
        else next_h ctx msg s)"

definition has_signature :: "(string \<Rightarrow> nat list) \<Rightarrow> string \<Rightarrow> Message \<Rightarrow> bool" where
  "has_signature hash key m \<longleftrightarrow> (\<exists>t. t \<noteq> [] \<and> m_Metadata m ''signature'' = Some t \<and> t = calculateSignature hash (m_Payload m) key)"

lemma custom_AuthMiddleware_signed:
  "custom_AuthMiddleware hash key next_h ctx m s =
     (if has_signature hash key m then next_h ctx m s else (Returned (map_option Plain (fst (Nack m))), snd (Nack m), s))"
  by (auto simp: custom_AuthMiddleware_def has_signature_def Let_def split: option.splits prod.splits)

text \<open>What is hashed does not say where the payload ends and the key begins.\<close>

lemma signature_moves_to_the_key:
  "calculateSignature hash (payload @ tail) key = calculateSignature hash payload (tail @ key)"
  by (simp add: calculateSignature_def)

text \<open>The deliveries of one message, one after the other.\<close>

fun nsq_deliveries ::
    "(string \<Rightarrow> string + wireMessageEnvelope) \<Rightarrow> string \<Rightarrow> string \<Rightarrow> 's mhandler \<Rightarrow> nsq_message list \<Rightarrow> 's
     \<Rightarrow> Message list \<times> 's" where
  "nsq_deliveries unmarshal topic channel h [] s = ([], s)"
| "nsq_deliveries unmarshal topic channel h (w # ws) s =
     (case nsq_deliver unmarshal topic channel h w s of
        (r, m, s') \<Rightarrow> (case nsq_deliveries unmarshal topic channel h ws s' of (ms, s'') \<Rightarrow> (m # ms, s'')))"

lemma nacked_delivery:
  assumes "h \<lparr>mctx_trace_id = None\<rparr> (nsq_domain_message unmarshal topic channel w) s
      = (Returned (map_option Plain (fst (Nack (nsq_domain_message unmarshal topic channel w)))),
         snd (Nack (nsq_domain_message unmarshal topic channel w)), s)"
  shows "\<exists>m. nsq_deliver unmarshal topic channel h w s = (Returned None, m, s) \<and> m_calls m = [CalledNack]"
proof -
  have "Nack (nsq_domain_message unmarshal topic channel w)
      = (None, (nsq_domain_message unmarshal topic channel w)\<lparr>m_settled := True, m_calls := [CalledNack]\<rparr>)"
    by (simp add: nsq_domain_message_def DecodeMessagePayload_def NewMessage_def SetAckFunc_def SetNackFunc_def
        Nack_def settle_def Let_def split: sum.split option.split)
  with assms show ?thesis
    by (simp add: nsq_deliver_def settle_delivery_def IsSettled_def)
qed

lemma same_body_same_content:
  "nsq_Body w' = nsq_Body w \<Longrightarrow> m_Payload (nsq_domain_message unmarshal t c w') = m_Payload (nsq_domain_message unmarshal t c w)
     \<and> m_Metadata (nsq_domain_message unmarshal t c w') = m_Metadata (nsq_domain_message unmarshal t c w)"
  by (simp add: nsq_domain_message_def DecodeMessagePayload_def NewMessage_def SetAckFunc_def SetNackFunc_def Let_def
      split: sum.split option.split)

text \<open>
  A message that is not signed with the key never reaches the handler, however often NSQ
  delivers it: every delivery gives it back, which has it delivered again, and nothing changes
  from one delivery to the next. A signed message is handled as without the middleware.
\<close>
theorem unsigned_message_is_given_back:
  assumes "\<forall>w \<in> set ws. nsq_Body w = body"
    and "has_signature hash key (nsq_domain_message unmarshal topic channel \<lparr>nsq_ID = i, nsq_Body = body, nsq_Attempts = a, nsq_Timestamp = t\<rparr>) = ok"
  shows "(\<not> ok \<longrightarrow> (\<exists>ms. nsq_deliveries unmarshal topic channel (custom_AuthMiddleware hash key h) ws s = (ms, s)
        \<and> map m_calls ms = replicate (length ws) [CalledNack]))
    \<and> (ok \<longrightarrow> nsq_deliveries unmarshal topic channel (custom_AuthMiddleware hash key h) ws s
        = nsq_deliveries unmarshal topic channel h ws s)"
proof -
  have same: "has_signature hash key (nsq_domain_message unmarshal topic channel w) = ok" if "w \<in> set ws" for w
    using same_body_same_content [of w "\<lparr>nsq_ID = i, nsq_Body = body, nsq_Attempts = a, nsq_Timestamp = t\<rparr>"] assms that
    by (simp add: has_signature_def)
  show ?thesis
  proof (intro conjI impI)
    assume "\<not> ok"
    with same have "\<forall>w \<in> set ws. \<not> has_signature hash key (nsq_domain_message unmarshal topic channel w)" by blast
    then show "\<exists>ms. nsq_deliveries unmarshal topic channel (custom_AuthMiddleware hash key h) ws s = (ms, s)
        \<and> map m_calls ms = replicate (length ws) [CalledNack]"
    proof (induction ws)
      case (Cons w ws)
      then obtain ms where "nsq_deliveries unmarshal topic channel (custom_AuthMiddleware hash key h) ws s = (ms, s)"
        "map m_calls ms = replicate (length ws) [CalledNack]" by auto
      moreover have "\<exists>m. nsq_deliver unmarshal topic channel (custom_AuthMiddleware hash key h) w s = (Returned None, m, s)
          \<and> m_calls m = [CalledNack]"
        by (rule nacked_delivery) (use Cons.prems in \<open>simp add: custom_AuthMiddleware_signed\<close>)
      ultimately show ?case by auto
    qed simp
  next
    assume ok
    with same have "\<forall>w \<in> set ws. has_signature hash key (nsq_domain_message unmarshal topic channel w)" by blast
    then show "nsq_deliveries unmarshal topic channel (custom_AuthMiddleware hash key h) ws s
        = nsq_deliveries unmarshal topic channel h ws s"
      by (induction ws arbitrary: s)
         (auto simp: nsq_deliver_def custom_AuthMiddleware_signed split: prod.split)
  qed
qed

definition bare_envelope :: "string \<Rightarrow> string + wireMessageEnvelope" where
  "bare_envelope p = Inl ''not an envelope''"

lemma unsigned_message_is_given_back_witness:
  "\<exists>ms. nsq_deliveries bare_envelope ''t'' ''c'' (custom_AuthMiddleware (\<lambda>p. [length p]) ''key'' (\<lambda>ctx m s. (Returned None, m, Suc s)))
      [\<lparr>nsq_ID = ''1'', nsq_Body = ''x'', nsq_Attempts = 1, nsq_Timestamp = 0\<rparr>,
       \<lparr>nsq_ID = ''1'', nsq_Body = ''x'', nsq_Attempts = 2, nsq_Timestamp = 5\<rparr>] 0 = (ms, 0)
    \<and> map m_calls ms = [[CalledNack], [CalledNack]]"
proof -
  have "\<not> has_signature (\<lambda>p. [length p]) ''key'' (nsq_domain_message bare_envelope ''t'' ''c''
      \<lparr>nsq_ID = ''1'', nsq_Body = ''x'', nsq_Attempts = 1, nsq_Timestamp = 0\<rparr>)"
    by (simp add: has_signature_def nsq_domain_message_def bare_envelope_def DecodeMessagePayload_def NewMessage_def
        SetAckFunc_def SetNackFunc_def Let_def)
  with unsigned_message_is_given_back [where ws = "[\<lparr>nsq_ID = ''1'', nsq_Body = ''x'', nsq_Attempts = 1, nsq_Timestamp = 0\<rparr>,
      \<lparr>nsq_ID = ''1'', nsq_Body = ''x'', nsq_Attempts = 2, nsq_Timestamp = 5\<rparr>]" and body = "''x''" and i = "''1''" and a = 1 and t = 0
      and hash = "\<lambda>p. [length p]" and key = "''key''" and unmarshal = bare_envelope and topic = "''t''" and channel = "''c''"
      and h = "\<lambda>ctx m s. (Returned None, m, Suc s)" and s = 0]
  show ?thesis by simp
qed

section \<open>Auditing\<close>

record AuditRecord =
  ar_Timestamp :: instant
  ar_Topic :: string
  ar_MessageID :: string
  ar_User :: string
  ar_Action :: string
  ar_Duration :: int
  ar_Success :: bool
  ar_Error :: string

definition metadata_at :: "Message \<Rightarrow> string \<Rightarrow> string" where
  "metadata_at m k = (case m_Metadata m k of Some t \<Rightarrow> t | None \<Rightarrow> [])"

definition Milliseconds :: "duration \<Rightarrow> int" where
  "Milliseconds d = trunc_div d millisecond"

definition custom_AuditMiddleware ::
    "(msg_error \<Rightarrow> string) \<Rightarrow> (AuditRecord \<Rightarrow> 's \<Rightarrow> 's) \<Rightarrow> instant \<Rightarrow> instant \<Rightarrow> 's Middleware" where
  "custom_AuditMiddleware Error Encode start now next_h ctx msg s =
     (let topic = metadata_at msg ''topic''; user = metadata_at msg ''user''; action = metadata_at msg ''action'' in
      case next_h ctx msg s of
        (Returned err, m', s') \<Rightarrow>
          let record0 = \<lparr>ar_Timestamp = start, ar_Topic = topic, ar_MessageID = m_UUID m', ar_User = user,
                ar_Action = action, ar_Duration = Milliseconds (time_sub now start), ar_Success = (err = None), ar_Error = []\<rparr>;
              record1 = (case err of None \<Rightarrow> record0 | Some e \<Rightarrow> record0\<lparr>ar_Error := Error e\<rparr>)
          in (Returned err, m', Encode record1 s')
      | r \<Rightarrow> r)"

section \<open>A collector of metrics\<close>

text \<open>A counter or gauge that is pointed to is the value itself: no two names share one.\<close>

record MetricsCollector =
  mc_counters :: "string \<rightharpoonup> 64 word"
  mc_gauges :: "string \<rightharpoonup> 64 word"

definition mc_IncCounter :: "string \<Rightarrow> MetricsCollector \<Rightarrow> MetricsCollector" where
  "mc_IncCounter name m =
     (let v = (case mc_counters m name of None \<Rightarrow> 0 | Some v \<Rightarrow> v)
      in m\<lparr>mc_counters := (mc_counters m)(name \<mapsto> v + 1)\<rparr>)"

definition mc_SetGauge :: "string \<Rightarrow> 64 word \<Rightarrow> MetricsCollector \<Rightarrow> MetricsCollector" where
  "mc_SetGauge name value m = m\<lparr>mc_gauges := (mc_gauges m)(name \<mapsto> value)\<rparr>"

definition mc_Export :: "MetricsCollector \<Rightarrow> string \<rightharpoonup> 64 word" where
  "mc_Export m = mc_counters m ++ mc_gauges m"

definition collector_start :: MetricsCollector where
  "collector_start = \<lparr>mc_counters = Map.empty, mc_gauges = Map.empty\<rparr>"

definition observed_MetricsMiddleware :: "duration \<Rightarrow> 's mhandler \<Rightarrow> (MetricsCollector \<times> 's) mhandler" where
  "observed_MetricsMiddleware elapsed next_h ctx msg cs =
     (let c1 = mc_IncCounter ''messages_processing'' (mc_IncCounter ''messages_total'' (fst cs)) in
      case next_h ctx msg (snd cs) of
        (Returned err, m', s') \<Rightarrow>
          let c2 = mc_SetGauge ''message_duration_ms'' (word_of_int (Milliseconds elapsed)) c1;
              c3 = mc_IncCounter (if err \<noteq> None then ''messages_failed'' else ''messages_success'') c2
          in (Returned err, m', (mc_IncCounter ''messages_processing_done'' c3, s'))
      | (r, m', s') \<Rightarrow> (r, m', (c1, s')))"

text \<open>
  Messages are handled one after the other, each with the time it takes; whether a handler
  returns and what is taken from its answer.
\<close>

fun observed_run :: "'s mhandler \<Rightarrow> (duration \<times> Message) list \<Rightarrow> MetricsCollector \<times> 's \<Rightarrow> hresult list \<times> MetricsCollector \<times> 's" where
  "observed_run h [] cs = ([], cs)"
| "observed_run h ((d, m) # ms) cs =
     (case observed_MetricsMiddleware d h \<lparr>mctx_trace_id = None\<rparr> m cs of
        (r, m', cs') \<Rightarrow> (case observed_run h ms cs' of (rs, cs'') \<Rightarrow> (r # rs, cs'')))"

definition counter :: "string \<Rightarrow> MetricsCollector \<Rightarrow> 64 word" where
  "counter name m = (case mc_counters m name of None \<Rightarrow> 0 | Some v \<Rightarrow> v)"

lemma counter_rules [simp]:
  "counter n (mc_IncCounter k m) = (if n = k then counter n m + 1 else counter n m)"
  "counter n (mc_SetGauge k v m) = counter n m"
  "counter n collector_start = 0"
  by (auto simp: counter_def mc_IncCounter_def mc_SetGauge_def collector_start_def)

definition failed :: "hresult \<Rightarrow> bool" where "failed r \<longleftrightarrow> (\<exists>e. r = Returned (Some e))"
definition succeeded :: "hresult \<Rightarrow> bool" where "succeeded r \<longleftrightarrow> r = Returned None"

lemma observed_call:
  assumes "observed_MetricsMiddleware d h ctx m cs = (r, m', cs')"
  shows "counter ''messages_total'' (fst cs') = counter ''messages_total'' (fst cs) + 1
    \<and> counter ''messages_processing'' (fst cs') = counter ''messages_processing'' (fst cs) + 1
    \<and> counter ''messages_processing_done'' (fst cs')
        = counter ''messages_processing_done'' (fst cs) + (if failed r \<or> succeeded r then 1 else 0)
    \<and> counter ''messages_failed'' (fst cs') = counter ''messages_failed'' (fst cs) + (if failed r then 1 else 0)
    \<and> counter ''messages_success'' (fst cs') = counter ''messages_success'' (fst cs) + (if succeeded r then 1 else 0)"
  using assms by (auto simp: observed_MetricsMiddleware_def failed_def succeeded_def Let_def split: prod.splits hresult.splits)

lemma observed_run_counts:
  assumes "observed_run h ms cs = (rs, cs')"
  shows "length rs = length ms
    \<and> counter ''messages_total'' (fst cs') = counter ''messages_total'' (fst cs) + of_nat (length ms)
    \<and> counter ''messages_processing'' (fst cs') = counter ''messages_processing'' (fst cs) + of_nat (length ms)
    \<and> counter ''messages_processing_done'' (fst cs')
        = counter ''messages_processing_done'' (fst cs) + of_nat (length (filter (\<lambda>r. failed r \<or> succeeded r) rs))
    \<and> counter ''messages_failed'' (fst cs') = counter ''messages_failed'' (fst cs) + of_nat (length (filter failed rs))
    \<and> counter ''messages_success'' (fst cs') = counter ''messages_success'' (fst cs) + of_nat (length (filter succeeded rs))"
  using assms
proof (induction ms arbitrary: cs rs)
  case (Cons dm ms)
  obtain d m where dm: "dm = (d, m)" by fastforce
  obtain r m' c1 where one: "observed_MetricsMiddleware d h \<lparr>mctx_trace_id = None\<rparr> m cs = (r, m', c1)"
    using prod_cases3 by blast
  obtain rs1 c2 where more: "observed_run h ms c1 = (rs1, c2)" by (cases "observed_run h ms c1") blast
  from Cons.prems dm one more have res: "rs = r # rs1" "cs' = c2" by simp_all
  from Cons.IH [of c1 rs1] more res observed_call [OF one] show ?case by (simp add: algebra_simps)
qed simp

text \<open>
  What the collector says after any messages: all are counted, the failed and the successful
  ones apart, a panicking handler's as neither. The counter of the messages at work is
  never taken back: it is the counter of all messages, at work or not.
\<close>
theorem collector_counts_the_messages:
  assumes "observed_run h ms (collector_start, s) = (rs, c, s')"
  shows "length rs = length ms \<and> counter ''messages_total'' c = of_nat (length ms)
    \<and> counter ''messages_processing'' c = counter ''messages_total'' c
    \<and> counter ''messages_processing_done'' c = counter ''messages_failed'' c + counter ''messages_success'' c
    \<and> counter ''messages_failed'' c = of_nat (length (filter failed rs))
    \<and> counter ''messages_success'' c = of_nat (length (filter succeeded rs))"
proof -
  have split: "length (filter (\<lambda>r. failed r \<or> succeeded r) rs) = length (filter failed rs) + length (filter succeeded rs)"
    by (induction rs) (auto simp: failed_def succeeded_def)
  from observed_run_counts [OF assms] show ?thesis by (simp add: split)
qed

lemma collector_counts_the_messages_witness:
  "counter ''messages_processing'' (fst (snd (observed_run (\<lambda>ctx m s. (Returned None, m, s))
     [(5, NewMessage ''a'' ''x''), (7, NewMessage ''b'' ''y'')] (collector_start, ())))) = 2"
proof -
  obtain rs c s' where "observed_run (\<lambda>ctx m s. (Returned None, m, s))
     [(5, NewMessage ''a'' ''x''), (7, NewMessage ''b'' ''y'')] (collector_start, ()) = (rs, c, s')"
    using prod_cases3 by blast
  with collector_counts_the_messages [OF this] show ?thesis by simp
qed

section \<open>Tracing\<close>

record TraceContext =
  tc_TraceID :: string
  tc_SpanID :: string
  tc_ParentID :: string

datatype trace_line = TraceStarted TraceContext | SpanEnded int bool

fun hex_text :: "nat \<Rightarrow> string" where
  "hex_text n = (if n < 16 then [hex_digit n] else hex_text (n div 16) @ [hex_digit (n mod 16)])"

declare hex_text.simps [simp del]

definition generateID :: "nat \<Rightarrow> string" where
  "generateID random = (let t = hex_text random in replicate (16 - length t) CHR ''0'' @ t)"

text \<open>The two random numbers are drawn in the order of the code: for the trace when it has none, for the span.\<close>

definition observed_TracingMiddleware ::
    "(trace_line \<Rightarrow> 's \<Rightarrow> 's) \<Rightarrow> nat \<Rightarrow> nat \<Rightarrow> duration \<Rightarrow> 's Middleware" where
  "observed_TracingMiddleware Printf random1 random2 elapsed next_h ctx msg s =
     (let traceID = (if metadata_at msg ''trace_id'' = [] then generateID random1 else metadata_at msg ''trace_id'');
          trace = \<lparr>tc_TraceID = traceID, tc_SpanID = generateID random2, tc_ParentID = metadata_at msg ''span_id''\<rparr> in
      case next_h ctx msg (Printf (TraceStarted trace) s) of
        (Returned err, m', s') \<Rightarrow> (Returned err, m', Printf (SpanEnded (Milliseconds elapsed) (err \<noteq> None)) s')
      | r \<Rightarrow> r)"

lemma hex_text_length: "n < 16 ^ Suc k \<Longrightarrow> length (hex_text n) \<le> Suc k"
proof (induction k arbitrary: n)
  case (Suc k)
  show ?case
  proof (cases "n < 16")
    case False
    from Suc.prems have "n div 16 < 16 ^ Suc k" by (simp add: less_mult_imp_div_less)
    with Suc.IH False show ?thesis by (simp add: hex_text.simps [of n])
  qed (simp add: hex_text.simps)
qed (simp add: hex_text.simps)

text \<open>A random number of 63 bits is written with 16 digits.\<close>

lemma generateID_length:
  assumes "random < 2 ^ 63"
  shows "length (generateID random) = 16"
proof -
  have "random < 16 ^ Suc 15" using assms by simp
  from hex_text_length [OF this] show ?thesis by (simp add: generateID_def Let_def)
qed

text \<open>
  The handler is called with the message and the context as they came: an identity the
  middleware makes up is printed and reaches nobody, unlike the one of \<open>TracingMiddleware\<close> in
  \<open>middleware.go\<close>, which is put into the message.
\<close>

lemma made_up_trace_reaches_nobody:
  "fst (observed_TracingMiddleware (\<lambda>l s. s) r1 r2 d next_h ctx msg s) = fst (next_h ctx msg s)
     \<and> snd (observed_TracingMiddleware (\<lambda>l s. s) r1 r2 d next_h ctx msg s) = snd (next_h ctx msg s)"
  by (auto simp: observed_TracingMiddleware_def Let_def split: prod.split hresult.split)

end
