(* ===== verification/Messaging_Drain.thy ===== *)
theory Messaging_Drain
  imports Messaging_Core
begin

text \<open>
  The shutdown manager of \<open>pkg/messaging/example/13-graceful-shutdown\<close>: \<open>WrapHandler\<close> counts
  the messages at work, \<open>Shutdown\<close> cancels the context, waits for the count to reach zero or a
  timer, and runs the hooks. The two run in goroutines of their own, and every access to the
  context, to the wait group or to the counter is one step of \<open>drain_step\<close>.

  A message's goroutine is a \<open>task\<close>: it has arrived, has passed the check of the context, has
  joined the wait group, is with the handler, has left the counter, or is gone. The wait
  group's counter is an unbounded \<open>int\<close> (Go's panics below zero, which no run reaches), the
  manager's own counter an \<open>int32\<close>. What a handler does to its message plays no part here, it
  may also panic: the deferred \<open>TaskDone\<close> runs either way. The hooks are of any type.
\<close>

section \<open>The manager\<close>

datatype task = Arrived | Refused | Passed | Joined | Working | Leaving | Gone

datatype 'h closer = Serving | Announced | Hooking bool "'h list" | Closed bool | Broken

record 'h drain =
  sm_wg :: int
  sm_done :: bool
  sm_shutdownHooks :: "'h list"
  sm_processingMsgs :: "32 word"
  dr_tasks :: "task list"
  dr_closer :: "'h closer"
  dr_ran :: "'h list"

definition NewShutdownManager :: "'h drain" where
  "NewShutdownManager = \<lparr>sm_wg = 0, sm_done = False, sm_shutdownHooks = [], sm_processingMsgs = 0,
     dr_tasks = [], dr_closer = Serving, dr_ran = []\<rparr>"

definition RegisterHook :: "'h \<Rightarrow> 'h drain \<Rightarrow> 'h drain" where
  "RegisterHook hook sm = sm\<lparr>sm_shutdownHooks := sm_shutdownHooks sm @ [hook]\<rparr>"

definition wg_Add :: "int \<Rightarrow> 'h drain \<Rightarrow> 'h drain" where
  "wg_Add n sm = sm\<lparr>sm_wg := sm_wg sm + n\<rparr>"

definition count_Add :: "32 word \<Rightarrow> 'h drain \<Rightarrow> 'h drain" where
  "count_Add n sm = sm\<lparr>sm_processingMsgs := sm_processingMsgs sm + n\<rparr>"

definition AddTask :: "'h drain \<Rightarrow> 'h drain" where
  "AddTask sm = count_Add 1 (wg_Add 1 sm)"

definition TaskDone :: "'h drain \<Rightarrow> 'h drain" where
  "TaskDone sm = wg_Add (- 1) (count_Add (- 1) sm)"

definition ProcessingCount :: "'h drain \<Rightarrow> 32 word" where
  "ProcessingCount sm = sm_processingMsgs sm"

section \<open>The goroutines\<close>

definition move :: "nat \<Rightarrow> task \<Rightarrow> 'h drain \<Rightarrow> 'h drain" where
  "move i t sm = sm\<lparr>dr_tasks := (dr_tasks sm)[i := t]\<rparr>"

definition is_at :: "'h drain \<Rightarrow> nat \<Rightarrow> task \<Rightarrow> bool" where
  "is_at sm i t \<longleftrightarrow> i < length (dr_tasks sm) \<and> dr_tasks sm ! i = t"

text \<open>The steps of one call of the wrapped handler.\<close>

inductive task_step :: "nat \<Rightarrow> 'h drain \<Rightarrow> 'h drain \<Rightarrow> bool" for i where
  refused: "is_at sm i Arrived \<Longrightarrow> sm_done sm \<Longrightarrow> task_step i sm (move i Refused sm)"
| passes: "is_at sm i Arrived \<Longrightarrow> \<not> sm_done sm \<Longrightarrow> task_step i sm (move i Passed sm)"
| joins: "is_at sm i Passed \<Longrightarrow> task_step i sm (move i Joined (wg_Add 1 sm))"
| begins: "is_at sm i Joined \<Longrightarrow> task_step i sm (move i Working (count_Add 1 sm))"
| ends: "is_at sm i Working \<Longrightarrow> task_step i sm (move i Leaving (count_Add (- 1) sm))"
| leaves: "is_at sm i Leaving \<Longrightarrow> task_step i sm (move i Gone (wg_Add (- 1) sm))"

text \<open>
  The steps of \<open>Shutdown\<close>. The hooks are read once, after the waiting; an error of a hook is
  logged, a panic ends the call.
\<close>

inductive closer_step :: "'h drain \<Rightarrow> 'h drain \<Rightarrow> bool" where
  cancels: "dr_closer sm = Serving \<Longrightarrow> closer_step sm (sm\<lparr>sm_done := True, dr_closer := Announced\<rparr>)"
| all_done: "dr_closer sm = Announced \<Longrightarrow> sm_wg sm = 0
    \<Longrightarrow> closer_step sm (sm\<lparr>dr_closer := Hooking True (sm_shutdownHooks sm)\<rparr>)"
| timeout: "dr_closer sm = Announced \<Longrightarrow> closer_step sm (sm\<lparr>dr_closer := Hooking False (sm_shutdownHooks sm)\<rparr>)"
| runs_hook: "dr_closer sm = Hooking d (h # hs)
    \<Longrightarrow> closer_step sm (sm\<lparr>dr_closer := Hooking d hs, dr_ran := dr_ran sm @ [h]\<rparr>)"
| hook_panics: "dr_closer sm = Hooking d (h # hs) \<Longrightarrow> closer_step sm (sm\<lparr>dr_closer := Broken, dr_ran := dr_ran sm @ [h]\<rparr>)"
| closed: "dr_closer sm = Hooking d [] \<Longrightarrow> closer_step sm (sm\<lparr>dr_closer := Closed d\<rparr>)"

inductive drain_step :: "'h drain \<Rightarrow> 'h drain \<Rightarrow> bool" where
  arrives: "drain_step sm (sm\<lparr>dr_tasks := dr_tasks sm @ [Arrived]\<rparr>)"
| task: "task_step i sm sm' \<Longrightarrow> drain_step sm sm'"
| registers: "drain_step sm (RegisterHook h sm)"
| closer: "closer_step sm sm' \<Longrightarrow> drain_step sm sm'"

abbreviation drain_run :: "'h drain \<Rightarrow> 'h drain \<Rightarrow> bool" where
  "drain_run \<equiv> drain_step\<^sup>*\<^sup>*"

lemmas drain_ops = move_def wg_Add_def count_Add_def RegisterHook_def is_at_def

text \<open>A call that nothing interrupts is \<open>AddTask\<close>, the handler and the deferred \<open>TaskDone\<close>.\<close>

lemma task_runs_operations:
  assumes "is_at sm i Passed"
  shows "(task_step i)\<^sup>*\<^sup>* sm (move i Working (AddTask sm))"
    and "is_at sm' i Working \<Longrightarrow> (task_step i)\<^sup>*\<^sup>* sm' (move i Gone (TaskDone sm'))"
proof -
  have "task_step i sm (move i Joined (wg_Add 1 sm))" using assms by (rule joins)
  moreover have "task_step i (move i Joined (wg_Add 1 sm)) (move i Working (count_Add 1 (move i Joined (wg_Add 1 sm))))"
    by (rule begins) (use assms in \<open>simp add: drain_ops\<close>)
  moreover have "move i Working (count_Add 1 (move i Joined (wg_Add 1 sm))) = move i Working (AddTask sm)"
    by (simp add: drain_ops AddTask_def)
  ultimately show "(task_step i)\<^sup>*\<^sup>* sm (move i Working (AddTask sm))" by (metis r_into_rtranclp rtranclp.rtrancl_into_rtrancl)
next
  assume w: "is_at sm' i Working"
  have "task_step i sm' (move i Leaving (count_Add (- 1) sm'))" using w by (rule ends)
  moreover have "task_step i (move i Leaving (count_Add (- 1) sm'))
      (move i Gone (wg_Add (- 1) (move i Leaving (count_Add (- 1) sm'))))"
    by (rule leaves) (use w in \<open>simp add: drain_ops\<close>)
  moreover have "move i Gone (wg_Add (- 1) (move i Leaving (count_Add (- 1) sm'))) = move i Gone (TaskDone sm')"
    by (simp add: drain_ops TaskDone_def)
  ultimately show "(task_step i)\<^sup>*\<^sup>* sm' (move i Gone (TaskDone sm'))"
    by (metis r_into_rtranclp rtranclp.rtrancl_into_rtrancl)
qed

section \<open>The counters\<close>

definition joined :: "task \<Rightarrow> bool" where
  "joined t \<longleftrightarrow> t \<in> {Joined, Working, Leaving}"

definition drain_inv :: "'h drain \<Rightarrow> bool" where
  "drain_inv sm \<longleftrightarrow> sm_wg sm = int (length (filter joined (dr_tasks sm)))
     \<and> sm_processingMsgs sm = of_nat (length (filter (\<lambda>t. t = Working) (dr_tasks sm)))
     \<and> (dr_closer sm \<noteq> Serving \<longrightarrow> sm_done sm)"

lemma length_filter_update:
  "i < length xs \<Longrightarrow> length (filter P (xs[i := x])) + (if P (xs ! i) then 1 else 0)
     = length (filter P xs) + (if P x then 1 else 0)"
proof (induction xs arbitrary: i)
  case (Cons y ys) then show ?case by (cases i) auto
qed simp

lemma filter_update_from:
  assumes "i < length xs" and "xs ! i = y"
  shows "\<not> P y \<Longrightarrow> P x \<Longrightarrow> length (filter P (xs[i := x])) = Suc (length (filter P xs))"
    and "P y \<Longrightarrow> \<not> P x \<Longrightarrow> length (filter P xs) = Suc (length (filter P (xs[i := x])))"
    and "P y = P x \<Longrightarrow> length (filter P (xs[i := x])) = length (filter P xs)"
  using length_filter_update [OF assms(1), of P x] assms(2) by (auto split: if_splits)

lemma task_step_inv:
  assumes "task_step i sm sm'" and "drain_inv sm"
  shows "drain_inv sm'"
  using assms
proof (induction rule: task_step.induct)
  case (ends sm)
  then have "length (filter (\<lambda>t. t = Working) (dr_tasks sm)) = Suc (length (filter (\<lambda>t. t = Working) ((dr_tasks sm)[i := Leaving])))"
    by (intro filter_update_from(2)) (auto simp: is_at_def)
  with ends show ?case by (auto simp: drain_inv_def drain_ops joined_def filter_update_from(3))
next
  case (leaves sm)
  then have "length (filter joined (dr_tasks sm)) = Suc (length (filter joined ((dr_tasks sm)[i := Gone])))"
    by (intro filter_update_from(2)) (auto simp: is_at_def joined_def)
  with leaves show ?case by (auto simp: drain_inv_def drain_ops filter_update_from(3))
qed (auto simp: drain_inv_def drain_ops joined_def filter_update_from)

lemma closer_step_inv: "closer_step sm sm' \<Longrightarrow> drain_inv sm \<Longrightarrow> drain_inv sm'"
  by (induction rule: closer_step.induct) (auto simp: drain_inv_def)

lemma drain_step_inv: "drain_step sm sm' \<Longrightarrow> drain_inv sm \<Longrightarrow> drain_inv sm'"
  by (erule drain_step.cases)
     (simp_all add: task_step_inv closer_step_inv, simp_all add: drain_inv_def RegisterHook_def joined_def)

lemma drain_run_inv: "drain_run NewShutdownManager sm \<Longrightarrow> drain_inv sm"
  by (induction rule: rtranclp_induct) (simp_all add: drain_step_inv, simp add: drain_inv_def NewShutdownManager_def)

inductive_cases task_stepE: "task_step i sm sm'"
inductive_cases closer_stepE: "closer_step sm sm'"
inductive_cases drain_stepE: "drain_step sm sm'"

text \<open>What no step takes back: the end of the context and the tasks' number.\<close>

lemma done_stays: "drain_step sm sm' \<Longrightarrow> sm_done sm \<Longrightarrow> sm_done sm'"
  by (auto elim!: drain_stepE task_stepE closer_stepE simp: drain_ops)

definition entering :: "task \<Rightarrow> bool" where
  "entering t \<longleftrightarrow> t = Passed \<or> joined t"

lemma task_enters_before:
  "task_step i sm sm' \<Longrightarrow> sm_done sm \<Longrightarrow> is_at sm' j t \<Longrightarrow> entering t \<Longrightarrow> \<exists>t'. is_at sm j t' \<and> entering t'"
  by (induction rule: task_step.induct) (auto simp: drain_ops entering_def joined_def nth_list_update split: if_splits)

lemma closer_tasks: "closer_step sm sm' \<Longrightarrow> dr_tasks sm' = dr_tasks sm"
  by (induction rule: closer_step.induct) auto

lemma enters_before:
  assumes "drain_step sm sm'" and "sm_done sm" and "is_at sm' j t" and "entering t"
  shows "\<exists>t'. is_at sm j t' \<and> entering t'"
  using assms
proof (induction rule: drain_step.induct)
  case (arrives sm)
  then show ?case by (auto simp: is_at_def entering_def joined_def nth_append less_Suc_eq)
next
  case (task i sm sm')
  then show ?case by (rule task_enters_before)
next
  case (registers h sm)
  then show ?case by (auto simp: is_at_def RegisterHook_def)
next
  case (closer sm sm')
  then show ?case by (auto simp: is_at_def closer_tasks)
qed

lemma enters_before_run:
  "drain_run sm sm' \<Longrightarrow> sm_done sm \<Longrightarrow> sm_done sm' \<and> (\<forall>j t. is_at sm' j t \<longrightarrow> entering t \<longrightarrow> (\<exists>t'. is_at sm j t' \<and> entering t'))"
proof (induction rule: rtranclp_induct)
  case (step sm' sm'')
  with done_stays [OF step(2)] enters_before [OF step(2)] show ?case by blast
qed auto

text \<open>A manager with one hook and one message at most, by its stages.\<close>

definition stage :: "bool \<Rightarrow> task list \<Rightarrow> string closer \<Rightarrow> string list \<Rightarrow> string drain" where
  "stage d ts c hs = \<lparr>sm_wg = int (length (filter joined ts)), sm_done = d, sm_shutdownHooks = [''bus''],
     sm_processingMsgs = of_nat (length (filter (\<lambda>t. t = Working) ts)), dr_tasks = ts, dr_closer = c, dr_ran = hs\<rparr>"

lemma stages:
  "drain_step NewShutdownManager (stage False [] Serving [])"
  "drain_step (stage False [] Serving []) (stage False [Arrived] Serving [])"
  "drain_step (stage False [Arrived] Serving []) (stage False [Passed] Serving [])"
  "drain_step (stage False ts Serving []) (stage True ts Announced [])"
  "drain_step (stage d [Passed] c hs) (stage d [Joined] c hs)"
  "drain_step (stage d [Joined] c hs) (stage d [Working] c hs)"
  "closer_step (stage True [Passed] Announced []) (stage True [Passed] (Hooking True [''bus'']) [])"
  "drain_step (stage True ts (Hooking True [''bus'']) []) (stage True ts (Hooking True []) [''bus''])"
  "drain_step (stage True ts (Hooking True []) hs) (stage True ts (Closed True) hs)"
  using registers [of NewShutdownManager "''bus''"] arrives [of "stage False [] Serving []"]
    task [OF passes [of "stage False [Arrived] Serving []" 0]] closer [OF cancels [of "stage False ts Serving []"]]
    task [OF joins [of "stage d [Passed] c hs" 0]] task [OF begins [of "stage d [Joined] c hs" 0]]
    all_done [of "stage True [Passed] Announced []"]
    closer [OF runs_hook [of "stage True ts (Hooking True [''bus'']) []"]]
    closer [OF closed [of "stage True ts (Hooking True []) hs"]]
  by (simp_all add: stage_def drain_ops NewShutdownManager_def joined_def)

lemma stage_runs:
  "drain_run NewShutdownManager (stage True [Passed] Announced [])"
  "drain_run (stage True [Passed] c hs) (stage True [Working] c hs)"
  by (meson stages r_into_rtranclp rtranclp.rtrancl_into_rtrancl)+

text \<open>
  C23: When the waiting has ended because all tasks were done, and not by the timer, no handler is
  at work, and whatever handler works later belongs to a message that had already passed the
  check of the context at that moment: messages that come later are refused.
\<close>
theorem drained_shutdown_admits_no_more:
  assumes "drain_run NewShutdownManager sm" and "closer_step sm sm1" and "dr_closer sm = Announced"
    and "dr_closer sm1 = Hooking True hs" and "drain_run sm1 sm'" and "is_at sm' i Working"
  shows "is_at sm i Passed \<and> filter joined (dr_tasks sm) = []"
proof -
  from assms(2-4) have zero: "sm_wg sm = 0" by (auto elim: closer_stepE)
  from drain_run_inv [OF assms(1)] zero assms(3) have none: "filter joined (dr_tasks sm) = []" and d: "sm_done sm"
    by (auto simp: drain_inv_def)
  have "drain_run sm sm'" using assms(2,5) by (meson converse_rtranclp_into_rtranclp closer)
  from enters_before_run [OF this d] assms(6) obtain t where t: "is_at sm i t" "entering t"
    by (auto simp: entering_def joined_def)
  with none have "\<not> joined t" by (auto simp: is_at_def filter_empty_conv)
  with t none show ?thesis by (auto simp: entering_def)
qed

lemma drained_shutdown_admits_no_more_witness:
  "is_at (stage True [Passed] Announced []) 0 Passed \<and> filter joined (dr_tasks (stage True [Passed] Announced [])) = []"
  by (rule drained_shutdown_admits_no_more [OF stage_runs(1) stages(7) _ _ stage_runs(2)])
     (simp_all add: stage_def is_at_def)

text \<open>
  The waiting does not keep the hooks from a handler at work: between the check of the
  context and \<open>AddTask\<close> a message is not yet counted, so the wait may end, every hook run and
  \<open>Shutdown\<close> return, with no timeout, while that message's handler begins.
\<close>
theorem handler_works_after_shutdown:
  "drain_run NewShutdownManager (stage True [Working] (Closed True) [''bus''])"
proof -
  have "drain_run (stage True [Passed] Announced []) (stage True [Passed] (Closed True) [''bus''])"
    using stages(8,9) closer [OF stages(7)] by (meson r_into_rtranclp rtranclp.rtrancl_into_rtrancl)
  with stage_runs show ?thesis by (meson rtranclp_trans)
qed

section \<open>The hooks\<close>

text \<open>\<open>hs\<close> are the hooks registered when \<open>Shutdown\<close> cancels the context.\<close>

definition hook_inv :: "'h list \<Rightarrow> 'h drain \<Rightarrow> bool" where
  "hook_inv hs sm \<longleftrightarrow> (\<exists>l. sm_shutdownHooks sm = hs @ l)
     \<and> (case dr_closer sm of
          Serving \<Rightarrow> False
        | Announced \<Rightarrow> dr_ran sm = []
        | Hooking d rest \<Rightarrow> \<exists>l m. dr_ran sm @ rest = hs @ l \<and> sm_shutdownHooks sm = dr_ran sm @ rest @ m
        | Closed d \<Rightarrow> \<exists>l m. dr_ran sm = hs @ l \<and> sm_shutdownHooks sm = dr_ran sm @ m
        | Broken \<Rightarrow> True)"

lemma task_step_keeps:
  "task_step i sm sm' \<Longrightarrow> dr_closer sm' = dr_closer sm \<and> dr_ran sm' = dr_ran sm \<and> sm_shutdownHooks sm' = sm_shutdownHooks sm
     \<and> sm_done sm' = sm_done sm"
  by (induction rule: task_step.induct) (auto simp: drain_ops)

lemma closer_step_hooks: "closer_step sm sm' \<Longrightarrow> hook_inv hs sm \<Longrightarrow> hook_inv hs sm'"
  by (induction rule: closer_step.induct) (auto simp: hook_inv_def)

lemma registers_hooks: "hook_inv hs sm \<Longrightarrow> hook_inv hs (RegisterHook h sm)"
  by (auto simp: hook_inv_def RegisterHook_def split: closer.splits) (metis append_assoc)

lemma hook_inv_same:
  "dr_closer sm' = dr_closer sm \<Longrightarrow> dr_ran sm' = dr_ran sm \<Longrightarrow> sm_shutdownHooks sm' = sm_shutdownHooks sm
     \<Longrightarrow> hook_inv hs sm \<Longrightarrow> hook_inv hs sm'"
  by (auto simp: hook_inv_def split: closer.splits)

lemma drain_step_hooks: "drain_step sm sm' \<Longrightarrow> hook_inv hs sm \<Longrightarrow> hook_inv hs sm'"
proof (induction rule: drain_step.induct)
  case (task i sm sm')
  with task_step_keeps [OF task(1)] show ?case by (auto intro: hook_inv_same [of sm' sm])
qed (auto simp: closer_step_hooks registers_hooks intro: hook_inv_same)

lemma nothing_ran_yet:
  "drain_run NewShutdownManager sm \<Longrightarrow> dr_closer sm \<in> {Serving, Announced} \<Longrightarrow> dr_ran sm = []"
proof (induction rule: rtranclp_induct)
  case (step sm sm')
  then show ?case by (auto elim!: drain_stepE closer_stepE simp: RegisterHook_def dest!: task_step_keeps)
qed (simp add: NewShutdownManager_def)

text \<open>
  When \<open>Shutdown\<close> returns it has run every hook registered before it began, each once and in
  the order of registration, whether the tasks were done or the timer fired; a hook registered
  after they were read is not run.
\<close>
theorem shutdown_runs_the_hooks_in_order:
  assumes "drain_run NewShutdownManager sm" and "dr_closer sm = Announced" and "drain_run sm sm'"
    and "dr_closer sm' = Closed d"
  shows "\<exists>later unread. dr_ran sm' = sm_shutdownHooks sm @ later \<and> sm_shutdownHooks sm' = dr_ran sm' @ unread"
proof -
  from assms(1,2) nothing_ran_yet have "hook_inv (sm_shutdownHooks sm) sm" by (auto simp: hook_inv_def)
  with assms(3) have "hook_inv (sm_shutdownHooks sm) sm'"
    by (induction rule: rtranclp_induct) (auto intro: drain_step_hooks)
  with assms(4) show ?thesis by (auto simp: hook_inv_def)
qed

lemma shutdown_runs_the_hooks_in_order_witness:
  "\<exists>later unread. dr_ran (stage True [Passed] (Closed True) [''bus'']) = [''bus''] @ later
    \<and> [''bus''] = dr_ran (stage True [Passed] (Closed True) [''bus'']) @ unread"
proof -
  have "drain_run (stage True [Passed] Announced []) (stage True [Passed] (Closed True) [''bus''])"
    using stages(8,9) closer [OF stages(7)] by (meson r_into_rtranclp rtranclp.rtrancl_into_rtrancl)
  from shutdown_runs_the_hooks_in_order [OF stage_runs(1) _ this, of True] show ?thesis by (simp add: stage_def)
qed

section \<open>The end\<close>

fun task_weight :: "task \<Rightarrow> nat" where
  "task_weight Arrived = 1"
| "task_weight Refused = 0"
| "task_weight Passed = 4"
| "task_weight Joined = 3"
| "task_weight Working = 2"
| "task_weight Leaving = 1"
| "task_weight Gone = 0"

definition open_work :: "'h drain \<Rightarrow> nat" where
  "open_work sm = sum_list (map task_weight (dr_tasks sm))"

lemma weight_update:
  "i < length ts \<Longrightarrow> task_weight t < task_weight (ts ! i)
     \<Longrightarrow> sum_list (map task_weight (ts[i := t])) < sum_list (map task_weight ts)"
  by (induction ts arbitrary: i) (auto split: nat.splits simp: less_Suc_eq_0_disj)

lemma task_advances:
  assumes "is_at sm i t" and "task_weight t > 0" and "sm_done sm"
  shows "\<exists>sm'. task_step i sm sm' \<and> open_work sm' < open_work sm"
proof -
  have "open_work (move i t' sm'') < open_work sm" if "dr_tasks sm'' = dr_tasks sm" "task_weight t' < task_weight t" for t' sm''
    using assms(1) that by (simp add: open_work_def drain_ops weight_update)
  moreover have "dr_tasks (wg_Add n sm) = dr_tasks sm" "dr_tasks (count_Add k sm) = dr_tasks sm" for n k
    by (simp_all add: drain_ops)
  ultimately show ?thesis using assms
    by (cases t) (simp_all, (meson task_step.intros zero_less_one less_numeral_extra lessI | fastforce intro!: task_step.intros)+)
qed

text \<open>Whatever is under way when it is called, \<open>Shutdown\<close> can return with every task done.\<close>

lemma work_can_end:
  "sm_done sm \<Longrightarrow> \<exists>sm'. drain_run sm sm' \<and> open_work sm' = 0 \<and> dr_closer sm' = dr_closer sm"
proof (induction "open_work sm" arbitrary: sm rule: less_induct)
  case less
  show ?case
  proof (cases "open_work sm = 0")
    case False
    then obtain t where "t \<in> set (dr_tasks sm)" "task_weight t > 0" by (auto simp: open_work_def)
    then obtain i where "is_at sm i t" by (auto simp: is_at_def in_set_conv_nth)
    with task_advances \<open>task_weight t > 0\<close> less(2) obtain sm1 where s: "task_step i sm sm1" "open_work sm1 < open_work sm"
      by blast
    with task_step_keeps [OF s(1)] less obtain sm' where "drain_run sm1 sm'" "open_work sm' = 0" "dr_closer sm' = dr_closer sm"
      by metis
    with s(1) show ?thesis by (meson converse_rtranclp_into_rtranclp task)
  qed auto
qed

end
