(* ===== verification/Messaging_Bridge.thy ===== *)
theory Messaging_Bridge
  imports Messaging_Broker
begin

text \<open>
  The bridge of \<open>pkg/messaging/example/14-multi-provider\<close>: a handler on one bus that publishes
  what it is given to another. A bus is of any type \<open>'b\<close>, as the interface \<open>EventBus\<close> is;
  the buses are made by \<open>bus_New\<close>, and what closing one does is an argument. The bridging of
  an NSQ topic to RabbitMQ, which the example runs, is composed of both transports' models.
\<close>

section \<open>The bridge\<close>

record 'b MessageBridge =
  mb_sourceBus :: 'b
  mb_targetBus :: 'b
  mb_sourceName :: string
  mb_targetName :: string

datatype bridge_error = SourceBusFailed bus_error | TargetBusFailed bus_error

definition NewMessageBridge ::
    "Provider list \<Rightarrow> ('b, 's) factoryRegistry \<Rightarrow> ('b \<Rightarrow> 's \<Rightarrow> string option \<times> 's) \<Rightarrow> Config option \<Rightarrow> Config option
     \<Rightarrow> string \<Rightarrow> string \<Rightarrow> 's \<Rightarrow> (bridge_error + 'b MessageBridge) \<times> 's" where
  "NewMessageBridge order reg close sourceConfig targetConfig sourceName targetName s =
     (case bus_New order reg sourceConfig s of
        (Inl err, s1) \<Rightarrow> (Inl (SourceBusFailed err), s1)
      | (Inr sourceBus, s1) \<Rightarrow>
          (case bus_New order reg targetConfig s1 of
             (Inl err, s2) \<Rightarrow> (Inl (TargetBusFailed err), snd (close sourceBus s2))
           | (Inr targetBus, s2) \<Rightarrow>
               (Inr \<lparr>mb_sourceBus = sourceBus, mb_targetBus = targetBus, mb_sourceName = sourceName,
                     mb_targetName = targetName\<rparr>, s2)))"

text \<open>The handler that \<open>Start\<close> adds to the source's router; \<open>Publish\<close> is the target's.\<close>

definition bridge_handler :: "(string \<Rightarrow> string \<Rightarrow> 's \<Rightarrow> 'e option \<times> 's) \<Rightarrow> string \<Rightarrow> 's mhandler" where
  "bridge_handler Publish targetTopic ctx msg s =
     (case Publish targetTopic (m_Payload msg) s of
        (Some err, s') \<Rightarrow> (case Nack msg of (e, m') \<Rightarrow> (Returned (map_option Plain e), m', s'))
      | (None, s') \<Rightarrow> (case Ack msg of (e, m') \<Rightarrow> (Returned (map_option Plain e), m', s')))"

definition bridge_Stop :: "('b \<Rightarrow> 's \<Rightarrow> 's) \<Rightarrow> ('b \<Rightarrow> 's \<Rightarrow> string option \<times> 's) \<Rightarrow> 'b MessageBridge \<Rightarrow> 's \<Rightarrow> 's" where
  "bridge_Stop stopRouter close b s =
     snd (close (mb_targetBus b) (snd (close (mb_sourceBus b) (stopRouter (mb_sourceBus b) s))))"

section \<open>Its buses\<close>

text \<open>\<open>live\<close> are the buses that are open.\<close>

definition bus_books :: "('b, 's) factoryRegistry \<Rightarrow> ('b \<Rightarrow> 's \<Rightarrow> 's) \<Rightarrow> ('b \<Rightarrow> 's \<Rightarrow> string option \<times> 's) \<Rightarrow> ('s \<Rightarrow> 'b set) \<Rightarrow> bool" where
  "bus_books reg stopRouter close live \<longleftrightarrow>
     (\<forall>p f c s. reg p = Some f \<longrightarrow>
        (case f c s of (Inl e, s') \<Rightarrow> live s' = live s | (Inr b, s') \<Rightarrow> b \<notin> live s \<and> live s' = insert b (live s)))
     \<and> (\<forall>b s. live (stopRouter b s) = live s) \<and> (\<forall>b s. live (snd (close b s)) = live s - {b})"

lemma bus_booksD:
  assumes "bus_books reg stopRouter close live"
  shows "live (stopRouter b s) = live s" "live (snd (close b s)) = live s - {b}"
    and "bus_New order reg config s = (Inl err, s') \<Longrightarrow> live s' = live s"
    and "bus_New order reg config s = (Inr b, s') \<Longrightarrow> b \<notin> live s \<and> live s' = insert b (live s)"
  using assms by (auto simp: bus_books_def bus_New_def split: option.splits prod.splits sum.splits) fastforce+

text \<open>
  No bus leaks: a bridge that cannot be made leaves no bus open, the source's is closed when
  the target's fails, and stopping a bridge closes the two it has opened.
\<close>
theorem bridge_leaks_no_bus:
  assumes "bus_books reg stopRouter close live"
    and "NewMessageBridge order reg close sourceConfig targetConfig sourceName targetName s = (r, s')"
  shows "case r of Inl err \<Rightarrow> live s' = live s
    | Inr b \<Rightarrow> live s' = live s \<union> {mb_sourceBus b, mb_targetBus b} \<and> live (bridge_Stop stopRouter close b s') = live s"
proof (cases "bus_New order reg sourceConfig s")
  case (Pair r1 s1)
  note source = Pair
  note live = bus_booksD [OF assms(1)]
  show ?thesis
  proof (cases r1)
    case (Inl err)
    with source live(3) [of order sourceConfig s err s1] assms(2) show ?thesis by (auto simp: NewMessageBridge_def)
  next
    case (Inr b1)
    with source live(4) have one: "b1 \<notin> live s" "live s1 = insert b1 (live s)" by blast+
    show ?thesis
    proof (cases "bus_New order reg targetConfig s1")
      case (Pair r2 s2)
      note target = Pair
      show ?thesis
      proof (cases r2)
        case (Inl err)
        with target live(3) have "live s2 = live s1" by blast
        with Inl target source \<open>r1 = Inr b1\<close> one live(2) assms(2) show ?thesis by (auto simp: NewMessageBridge_def)
      next
        case (Inr b2)
        with target live(4) have "b2 \<notin> live s1" "live s2 = insert b2 (live s1)" by blast+
        with Inr target source \<open>r1 = Inr b1\<close> one live(1,2) assms(2) show ?thesis
          by (auto simp: NewMessageBridge_def bridge_Stop_def)
      qed
    qed
  qed
qed

text \<open>One provider, whose buses are numbered, and which opens one at most.\<close>

definition sample_provider :: "(nat, nat set) factoryRegistry" where
  "sample_provider = [''nsq'' \<mapsto> (\<lambda>c s. if s = {} then (Inr 0, {0}) else (Inl ''refused'', s))]"

definition config_for :: "string \<Rightarrow> Config" where
  "config_for p = DefaultConfig\<lparr>cfg_Provider := p\<rparr>"

lemma bridge_leaks_no_bus_witness:
  "snd (NewMessageBridge [''nsq''] sample_provider (\<lambda>b s. (None, s - {b})) (Some (config_for ''nsq'')) (Some (config_for ''nsq''))
     ''NSQ'' ''NSQ'' {}) = {}"
proof -
  let ?close = "\<lambda>b s. (None :: string option, s - {b :: nat})"
  have books: "bus_books sample_provider (\<lambda>b s. s) ?close id"
    by (auto simp: bus_books_def sample_provider_def split: if_splits)
  let ?run = "NewMessageBridge [''nsq''] sample_provider ?close (Some (config_for ''nsq'')) (Some (config_for ''nsq'')) ''NSQ'' ''NSQ'' {}"
  have "fst ?run = Inl (TargetBusFailed (FactoryFailed ''refused''))"
    by (simp add: NewMessageBridge_def bus_New_def sample_provider_def config_for_def)
  then have "?run = (Inl (TargetBusFailed (FactoryFailed ''refused'')), snd ?run)" by (metis prod.collapse)
  from bridge_leaks_no_bus [OF books this] show ?thesis by simp
qed

section \<open>What crosses it\<close>

text \<open>The target's publisher, with the state of its library; \<open>sent\<close> is what the library has published.\<close>

definition amqp_target :: "'s amqp_lib \<Rightarrow> string \<Rightarrow> string \<Rightarrow> amqp_publisher \<times> 's \<Rightarrow> amqp_error option \<times> amqp_publisher \<times> 's" where
  "amqp_target lib topic body ps = amqp_pub_Publish lib topic body (fst ps) (snd ps)"

definition amqp_sends :: "'s amqp_lib \<Rightarrow> ('s \<Rightarrow> (string \<times> amqp_publishing) list) \<Rightarrow> bool" where
  "amqp_sends lib sent \<longleftrightarrow>
     (\<forall>ch t s. sent (snd (am_ExchangeDeclare lib ch t s)) = sent s)
     \<and> (\<forall>ch t p s. case am_Publish lib ch t p s of
          (None, s') \<Rightarrow> sent s' = sent s @ [(t, p)] | (Some e, s') \<Rightarrow> sent s' = sent s)"

lemma amqp_target_sends:
  assumes "amqp_sends lib sent" and "amqp_target lib topic body ps = (err, ps')"
  shows "sent (snd ps') = sent (snd ps)
    @ (if err = None then [(topic, \<lparr>ap_MessageId = [], ap_Body = body, ap_Headers = Map.empty\<rparr>)] else [])"
proof -
  have ex: "sent s' = sent s" if "am_ExchangeDeclare lib ch t s = (e, s')" for ch t s e s'
    using assms(1) that by (metis amqp_sends_def snd_conv)
  have pub: "sent s' = sent s @ (if e = None then [(t, p)] else [])" if "am_Publish lib ch t p s = (e, s')" for ch t p s e s'
    using assms(1) that by (cases e) (fastforce simp: amqp_sends_def split: prod.splits option.splits)+
  from assms(2) show ?thesis
    by (auto simp: amqp_target_def amqp_pub_Publish_def amqp_publish_as_def ensureExchange_def
        split: prod.splits option.splits if_splits dest!: ex pub)
qed

text \<open>
  C26: The bridge from NSQ to RabbitMQ loses no payload: a message taken from NSQ is
  acknowledged when RabbitMQ has it and given back when it could not be published, once and
  never both. But only the payload crosses: the other side's handler sees a message with no
  metadata, under the delivery tag for an identity, whatever those of the published one were.
\<close>
theorem bridge_carries_the_payload_only:
  assumes "amqp_sends lib sent"
    and "\<And>e p. marshal e = Inr p \<Longrightarrow> unmarshal p = Inr e" and "EncodeMessagePayload marshal (Some msg) = Inr payload"
    and "nsq_Body wire = payload"
    and "nsq_deliver unmarshal sourceTopic channel (bridge_handler (amqp_target lib) targetTopic) wire ps = (r, m', ps')"
  shows "(\<exists>p. m_calls m' = [CalledAck] \<and> sent (snd ps') = sent (snd ps) @ [(targetTopic, p)]
      \<and> (\<forall>d. delivered_publishing p d \<longrightarrow>
          (let final = amqp_domain_message targetTopic queue d in m_Payload final = m_Payload msg
            \<and> m_Metadata final = Map.empty \<and> m_UUID final = nat_text (amqp_DeliveryTag d))))
    \<or> (m_calls m' = [CalledNack] \<and> sent (snd ps') = sent (snd ps))"
proof -
  let ?m = "nsq_domain_message unmarshal sourceTopic channel wire"
  have fresh: "Ack ?m = (None, ?m\<lparr>m_settled := True, m_calls := [CalledAck]\<rparr>)"
    "Nack ?m = (None, ?m\<lparr>m_settled := True, m_calls := [CalledNack]\<rparr>)"
    by (simp_all add: nsq_domain_message_def DecodeMessagePayload_def NewMessage_def SetAckFunc_def SetNackFunc_def
        Ack_def Nack_def settle_def Let_def split: sum.split option.split)
  from nsq_message_arrives [where marshal = marshal and unmarshal = unmarshal, OF assms(2-4)]
  have body: "m_Payload ?m = m_Payload msg" by (simp add: Let_def)
  obtain err ps1 where pub: "amqp_target lib targetTopic (m_Payload msg) ps = (err, ps1)"
    by (cases "amqp_target lib targetTopic (m_Payload msg) ps") blast
  note sends = amqp_target_sends [OF assms(1) pub]
  show ?thesis
  proof (cases err)
    case None
    with assms(5) pub body fresh have out: "ps' = ps1" "m' = ?m\<lparr>m_settled := True, m_calls := [CalledAck]\<rparr>"
      by (auto simp: nsq_deliver_def bridge_handler_def settle_delivery_def IsSettled_def)
    have "let final = amqp_domain_message targetTopic queue d in m_Payload final = m_Payload msg
        \<and> m_Metadata final = Map.empty \<and> m_UUID final = nat_text (amqp_DeliveryTag d)"
      if "delivered_publishing \<lparr>ap_MessageId = [], ap_Body = m_Payload msg, ap_Headers = Map.empty\<rparr> d" for d
      using amqp_message_arrives [of "NewMessage [] (m_Payload msg)" d targetTopic queue] that
      by (simp add: NewMessage_def Let_def)
    with None sends out show ?thesis by auto
  next
    case (Some e)
    with assms(5) pub body fresh have "ps' = ps1" "m' = ?m\<lparr>m_settled := True, m_calls := [CalledNack]\<rparr>"
      by (auto simp: nsq_deliver_def bridge_handler_def settle_delivery_def IsSettled_def)
    with sends Some show ?thesis by simp
  qed
qed

text \<open>A library that keeps what it is given to publish, in topics whose name is not empty.\<close>

definition keeping_amqp :: "(string \<times> amqp_publishing) list amqp_lib" where
  "keeping_amqp = \<lparr>am_Dial = \<lambda>u s. (Inr 0, s), am_Channel = \<lambda>c s. (Inr 0, s), am_Qos = \<lambda>c n s. (None, s),
     am_ExchangeDeclare = \<lambda>c t s. (None, s), am_QueueDeclare = \<lambda>c q s. (Inr q, s), am_QueueBind = \<lambda>c q t s. (None, s),
     am_Consume = \<lambda>c q s. (Inr 0, s),
     am_Publish = \<lambda>c t p s. if t = [] then (Some ''no topic'', s) else (None, s @ [(t, p)]),
     am_CloseChannel = \<lambda>c s. (None, s), am_CloseConn = \<lambda>c s. (None, s), am_IsClosed = \<lambda>c s. False\<rparr>"

lemma bridge_carries_the_payload_only_witness:
  "let (r, m', ps') = nsq_deliver sample_unmarshal ''in'' ''c'' (bridge_handler (amqp_target keeping_amqp) ''out'')
      \<lparr>nsq_ID = ''0'', nsq_Body = ''hi'', nsq_Attempts = 1, nsq_Timestamp = 0\<rparr>
      (\<lparr>rp_conn = 0, rp_channel = 0, rp_exchanges = {}\<rparr>, [])
   in m_calls m' = [CalledAck] \<and> length (snd ps') = 1 \<or> m_calls m' = [CalledNack] \<and> snd ps' = []"
proof -
  have sends: "amqp_sends keeping_amqp id" by (simp add: amqp_sends_def keeping_amqp_def)
  have rt: "sample_unmarshal p = Inr e" if "sample_marshal e = Inr p" for e p
    using that by (cases e) (auto simp: sample_marshal_def sample_unmarshal_def split: if_splits)
  have enc: "EncodeMessagePayload sample_marshal (Some (NewMessage ''id'' ''hi'')) = Inr ''hi''"
    by (simp add: EncodeMessagePayload_def NewMessage_def sample_marshal_def)
  let ?run = "nsq_deliver sample_unmarshal ''in'' ''c'' (bridge_handler (amqp_target keeping_amqp) ''out'')
      \<lparr>nsq_ID = ''0'', nsq_Body = ''hi'', nsq_Attempts = 1, nsq_Timestamp = 0\<rparr>
      (\<lparr>rp_conn = 0, rp_channel = 0, rp_exchanges = {}\<rparr>, [])"
  obtain r m' ps' where run: "?run = (r, m', ps')" using prod_cases3 by blast
  from bridge_carries_the_payload_only [where marshal = sample_marshal and queue = "''q''", OF sends rt enc _ run]
  show ?thesis unfolding run by auto
qed

end
