(* ===== verification/Log_Setup.thy ===== *)
theory Log_Setup
  imports Log_Levels
begin

text \<open>
  How a program sets up its logging: the command-line flags of \<open>pkg/log/options.go\<close>, the
  package's own logger and the names of loggers in \<open>log.go\<close>, and loggers kept in a context
  (\<open>context.go\<close>).

  pflag parses the command line; what it stores for a flag is a value of the flag's type, and a
  command line the list of what is stored, in order. zap's \<open>Named\<close> is the argument \<open>Named\<close>.
\<close>

section \<open>Flags\<close>

datatype flag_value = TextV string | SwitchV bool | NumberV int | TextsV "string list"

datatype flag_target =
    StringVar "string \<Rightarrow> Options \<Rightarrow> Options"
  | BoolVar "bool \<Rightarrow> Options \<Rightarrow> Options"
  | IntVar "int \<Rightarrow> Options \<Rightarrow> Options"
  | StringSliceVar "string list \<Rightarrow> Options \<Rightarrow> Options"

definition AddFlags :: "(string \<times> flag_target) list" where
  "AddFlags =
     [(''log.level'', StringVar (\<lambda>v. lo_Level_update (\<lambda>_. v))),
      (''log.disable-caller'', BoolVar (\<lambda>v. DisableCaller_update (\<lambda>_. v))),
      (''log.disable-stacktrace'', BoolVar (\<lambda>v. DisableStacktrace_update (\<lambda>_. v))),
      (''log.format'', StringVar (\<lambda>v. Format_update (\<lambda>_. v))),
      (''log.enable-color'', BoolVar (\<lambda>v. EnableColor_update (\<lambda>_. v))),
      (''log.output-paths'', StringSliceVar (\<lambda>v. OutputPaths_update (\<lambda>_. v))),
      (''log.error-output-paths'', StringSliceVar (\<lambda>v. ErrorOutputPaths_update (\<lambda>_. v))),
      (''log.development'', BoolVar (\<lambda>v. Development_update (\<lambda>_. v))),
      (''log.name'', StringVar (\<lambda>v. lo_Name_update (\<lambda>_. v))),
      (''log.max-size'', IntVar (\<lambda>v. MaxSize_update (\<lambda>_. v))),
      (''log.max-age'', IntVar (\<lambda>v. MaxAge_update (\<lambda>_. v))),
      (''log.max-backups'', IntVar (\<lambda>v. MaxBackups_update (\<lambda>_. v))),
      (''log.compress'', BoolVar (\<lambda>v. Compress_update (\<lambda>_. v))),
      (''log.enable-time-rotation'', BoolVar (\<lambda>v. EnableTimeRotation_update (\<lambda>_. v))),
      (''log.time-rotation-format'', StringVar (\<lambda>v. TimeRotationFormat_update (\<lambda>_. v))),
      (''log.enable-level-output'', BoolVar (\<lambda>v. EnableLevelOutput_update (\<lambda>_. v))),
      (''log.level-output-mode'', StringVar (\<lambda>v. LevelOutputMode_update (\<lambda>_. v)))]"

fun store_value :: "flag_target \<Rightarrow> flag_value \<Rightarrow> Options \<Rightarrow> Options" where
  "store_value (StringVar f) (TextV v) opts = f v opts"
| "store_value (BoolVar f) (SwitchV v) opts = f v opts"
| "store_value (IntVar f) (NumberV v) opts = f v opts"
| "store_value (StringSliceVar f) (TextsV v) opts = f v opts"
| "store_value _ _ opts = opts"

definition set_flag :: "string \<times> flag_value \<Rightarrow> Options \<Rightarrow> Options" where
  "set_flag a opts = (case map_of AddFlags (fst a) of None \<Rightarrow> opts | Some t \<Rightarrow> store_value t (snd a) opts)"

definition command_line :: "(string \<times> flag_value) list \<Rightarrow> Options" where
  "command_line args = fold set_flag args NewOptions"

text \<open>Each flag is added once, as pflag demands.\<close>

lemma flags_are_distinct: "distinct (map fst AddFlags)"
  by (simp add: AddFlags_def)

lemma stored_keeps_paths:
  assumes "(k, t) \<in> set AddFlags"
  shows "LevelOutputPaths (store_value t v opts) = LevelOutputPaths opts"
  using assms by (cases v) (auto simp: AddFlags_def)

lemma set_flag_keeps_paths: "LevelOutputPaths (set_flag a opts) = LevelOutputPaths opts"
  by (auto simp: set_flag_def stored_keeps_paths dest: map_of_SomeD split: option.split)

lemma flags_keep_paths: "LevelOutputPaths (fold set_flag args opts) = LevelOutputPaths opts"
  by (induction args arbitrary: opts) (simp_all add: set_flag_keeps_paths)

definition flags_for :: "Options \<Rightarrow> (string \<times> flag_value) list" where
  "flags_for opts =
     [(''log.level'', TextV (lo_Level opts)), (''log.disable-caller'', SwitchV (DisableCaller opts)),
      (''log.disable-stacktrace'', SwitchV (DisableStacktrace opts)), (''log.format'', TextV (Format opts)),
      (''log.enable-color'', SwitchV (EnableColor opts)), (''log.output-paths'', TextsV (OutputPaths opts)),
      (''log.error-output-paths'', TextsV (ErrorOutputPaths opts)), (''log.development'', SwitchV (Development opts)),
      (''log.name'', TextV (lo_Name opts)), (''log.max-size'', NumberV (MaxSize opts)),
      (''log.max-age'', NumberV (MaxAge opts)), (''log.max-backups'', NumberV (MaxBackups opts)),
      (''log.compress'', SwitchV (Compress opts)), (''log.enable-time-rotation'', SwitchV (EnableTimeRotation opts)),
      (''log.time-rotation-format'', TextV (TimeRotationFormat opts)),
      (''log.enable-level-output'', SwitchV (EnableLevelOutput opts)),
      (''log.level-output-mode'', TextV (LevelOutputMode opts))]"

lemma flags_for_reach:
  assumes "LevelOutputPaths opts = Map.empty"
  shows "command_line (flags_for opts) = opts"
  using assms by (simp add: command_line_def flags_for_def set_flag_def AddFlags_def NewOptions_def)

text \<open>
  A command line reaches every configuration but those with outputs for single levels: there
  is a flag for every option except the paths of the levels. So the flags that turn the levels'
  outputs on and choose their mode do nothing by themselves: the logger is the one that is
  made without them.
\<close>
theorem flags_reach_all_but_level_outputs:
  "range command_line = {opts. LevelOutputPaths opts = Map.empty}
    \<and> log_New parse can_make build [] (Some (command_line (args @ [(''log.enable-level-output'', SwitchV b), (''log.level-output-mode'', TextV mode)])))
      = log_New parse can_make build [] (Some (command_line args))"
proof
  have "LevelOutputPaths (command_line args) = Map.empty" for args
    by (simp add: command_line_def flags_keep_paths NewOptions_def)
  moreover have "opts \<in> range command_line" if "LevelOutputPaths opts = Map.empty" for opts
    using flags_for_reach [OF that] by (metis rangeI)
  ultimately show "range command_line = {opts. LevelOutputPaths opts = Map.empty}" by auto
  have "set_flag (''log.enable-level-output'', SwitchV b) opts = opts\<lparr>EnableLevelOutput := b\<rparr>"
    "set_flag (''log.level-output-mode'', TextV mode) opts = opts\<lparr>LevelOutputMode := mode\<rparr>" for opts
    by (simp_all add: set_flag_def AddFlags_def)
  then show "log_New parse can_make build [] (Some (command_line (args @ [(''log.enable-level-output'', SwitchV b),
        (''log.level-output-mode'', TextV mode)]))) = log_New parse can_make build [] (Some (command_line args))"
    by (simp add: command_line_def log_New_def log_level_def newLoggerWithTimeRotation_def encoder_of_def Let_def)
qed

section \<open>Named loggers\<close>

record named_logger =
  nl_name :: string
  nl_logger :: zapLogger

definition NewLogger :: "named_logger \<Rightarrow> named_logger" where
  "NewLogger l = l"

definition zl_WithName :: "(string \<Rightarrow> string \<Rightarrow> string) \<Rightarrow> string \<Rightarrow> named_logger \<Rightarrow> named_logger" where
  "zl_WithName Named name l = NewLogger (l\<lparr>nl_name := Named (nl_name l) name\<rparr>)"

definition zl_WithValues :: "arg list \<Rightarrow> named_logger \<Rightarrow> named_logger" where
  "zl_WithValues kvs l = NewLogger (l\<lparr>nl_logger := WithValues (nl_logger l) kvs\<rparr>)"

text \<open>The loggers of Go's own package that are made of it: what is printed is a record of one level.\<close>

definition StdErrLogger :: "named_logger option \<Rightarrow> (string \<Rightarrow> log_entry list) option" where
  "StdErrLogger std = map_option (\<lambda>l text. zl_emit (nl_logger l) ErrorLevel text []) std"

definition StdInfoLogger :: "named_logger option \<Rightarrow> (string \<Rightarrow> log_entry list) option" where
  "StdInfoLogger std = map_option (\<lambda>l text. zl_emit (nl_logger l) InfoLevel text []) std"

section \<open>The package's logger and loggers in a context\<close>

text \<open>
  The package's logger is replaced by \<open>Init\<close>, whose new logger \<open>build\<close> makes or fails to, which
  panics (\<open>None\<close>). A context holds a logger under a key of the package, or none.
\<close>

definition Init :: "(Options option \<Rightarrow> string + named_logger) \<Rightarrow> Options option \<Rightarrow> named_logger \<Rightarrow> named_logger option" where
  "Init build opts std = (case build opts of Inl err \<Rightarrow> None | Inr l \<Rightarrow> Some l)"

record logger_context =
  cx_logger :: "named_logger option"

definition zl_WithContext :: "named_logger \<Rightarrow> logger_context \<Rightarrow> logger_context" where
  "zl_WithContext l ctx = ctx\<lparr>cx_logger := Some l\<rparr>"

definition log_WithContext :: "named_logger \<Rightarrow> logger_context \<Rightarrow> logger_context" where
  "log_WithContext std ctx = zl_WithContext std ctx"

definition FromContext :: "(string \<Rightarrow> string \<Rightarrow> string) \<Rightarrow> named_logger \<Rightarrow> logger_context option \<Rightarrow> named_logger" where
  "FromContext Named std ctx =
     (case Option.bind ctx cx_logger of
        Some l \<Rightarrow> l
      | None \<Rightarrow> zl_WithName Named ''Unknown-Context'' std)"

text \<open>
  The logger taken from a context is the one that was put there last, with the configuration
  it had then: replacing the package's logger changes it for contexts without one only, which
  are given the present package logger under the name of an unknown context.
\<close>
theorem context_keeps_its_logger:
  assumes "Init build opts std = Some std'"
  shows "FromContext Named std' (Some (zl_WithContext l (zl_WithContext k ctx))) = l
    \<and> FromContext Named std' (Some (log_WithContext std ctx)) = std
    \<and> (\<exists>new. build opts = Inr new \<and> FromContext Named std' None = zl_WithName Named ''Unknown-Context'' new)"
  using assms by (auto simp: FromContext_def log_WithContext_def zl_WithContext_def Init_def split: sum.splits)

lemma context_keeps_its_logger_witness:
  "let all = \<lparr>nl_name = ''app'', nl_logger = \<lparr>zl_fields = [], zl_enabled = \<lambda>l. True\<rparr>\<rparr>; none = all\<lparr>nl_name := ''quiet''\<rparr>
   in FromContext (\<lambda>a b. a @ ''.'' @ b) none (Some (log_WithContext all \<lparr>cx_logger = None\<rparr>)) = all"
proof -
  let ?all = "\<lparr>nl_name = ''app'', nl_logger = \<lparr>zl_fields = [], zl_enabled = \<lambda>l. True\<rparr>\<rparr>"
  have "Init (\<lambda>opts. Inr (?all\<lparr>nl_name := ''quiet''\<rparr>)) None ?all = Some (?all\<lparr>nl_name := ''quiet''\<rparr>)"
    by (simp add: Init_def)
  from context_keeps_its_logger [OF this, of "\<lambda>a b. a @ ''.'' @ b" ?all ?all "\<lparr>cx_logger = None\<rparr>"]
  show ?thesis by (simp add: Let_def)
qed

end
