(* ===== verification/Spec2Isabelle.thy ===== *)
theory Spec2Isabelle
  imports Errors_Core Errors_Sets Errors_Aggregate Errors_Format Event_Catalog Outbox_Core
    Grpc_Types Grpc_Acl Grpc_Credential Grpc_Mtls Mtls_Config Redis_Lease
    Messaging_Core Messaging_Guards Messaging_Router Redis_Keys Redis_Runtime Rate_Limit Rate_Bucket
    Backpressure Process_Runtime Grpc_Metrics Grpc_Client Redis_Store Uow_Gorm Messaging_Broker Util_Ids Log_Output Database_Registry
    Event_Messaging Errors_Stack Posix_Shutdown Log_Adapters Tls_Credentials Messaging_Trail Lease_Service Log_Levels
    Messaging_Dedup Messaging_Reliability Messaging_Batching Messaging_Custom Messaging_Drain Messaging_Bridge Log_Setup
begin

text \<open>
  A verification library for component-base, a Go module of infrastructure packages that
  services build on: error values, events with an outbox, gRPC security and observation, Redis
  leases, stores and limits, messaging, units of work, databases, logging, start and shutdown.
  The packages hardly call each other; a service composes them. The theories follow the
  packages, and where one package relies on another or on something a caller plugs in, the
  interface is a locale, interpreted on the definitions that provide it.

  \<^bold>\<open>Theories and sources\<close> (paths under \<open>src/pkg\<close>)

  \<^item> \<open>Go_Prelude\<close>: Go's strings, durations, instants, \<open>int64\<close> arithmetic, \<open>strconv\<close>
    conversions and map iteration, with the facts every theory uses. \<open>Go_Floats\<close>: conversions from floats.
  \<^item> \<open>Errors_Core\<close>: \<open>errors/errors.go\<close>, \<open>code.go\<close>, \<open>go113.go\<close> and the chain walks of
    \<open>aggregate.go\<close>. One datatype \<open>gerr\<close> has a constructor per error type; \<open>Wrap\<close>, \<open>WithCode\<close>,
    \<open>Cause\<close>, \<open>Is\<close>, \<open>ParseCoder\<close>, \<open>Register\<close> are functions on it. \<open>Errors_Sets\<close> (\<open>sets.go\<close>),
    \<open>Errors_Aggregate\<close> (\<open>aggregate.go\<close>), \<open>Errors_Format\<close> (\<open>format.go\<close>) and \<open>Errors_Stack\<close>
    (\<open>stack.go\<close> and the printing verbs) build on it.
  \<^item> \<open>Event_Catalog\<close>: \<open>eventcatalog\<close>, the configuration of topics and events, its validation
    and the catalog with its two indexes. \<open>Outbox_Core\<close>: \<open>event\<close>, \<open>eventcodec\<close>, \<open>outbox\<close> and
    \<open>outboxcore\<close>, which stage events as records; the outbox sees a catalog through the locale
    \<open>topic_resolver\<close>, interpreted on catalogs made of validated configurations.
    \<open>Event_Messaging\<close>: \<open>eventmessaging\<close>, which makes messages of events.
  \<^item> \<open>Grpc_Types\<close>: \<open>grpc/interceptors/types.go\<close>. \<open>Grpc_Acl\<close>: \<open>acl.go\<close>. \<open>Grpc_Credential\<close>:
    \<open>credential.go\<close>. \<open>Grpc_Mtls\<close>: \<open>mtls.go\<close>. \<open>Mtls_Config\<close>: the package \<open>grpc/mtls\<close>;
    \<open>Tls_Credentials\<close>: its credentials, and every constructor of TLS configurations. The
    interceptors are verified against the locales \<open>access_checker\<close>, \<open>credential_validator\<close>
    (with \<open>composite_validator\<close>) and \<open>identity_validator\<close>, the HMAC validator against
    \<open>nonce_store\<close>; each is interpreted on the package's own list, validators and stores.
    \<open>Grpc_Observe\<close>: \<open>common.go\<close> (recovery, request ids, request logs) and the interceptors of
    \<open>audit.go\<close>; \<open>Grpc_Metrics\<close>: its counters and alerts; \<open>Grpc_Client\<close>: \<open>client.go\<close>.
  \<^item> \<open>Redis_Keys\<close>: \<open>redis/keyspace\<close> and \<open>redis/ops\<close>. \<open>Redis_Lease\<close>: \<open>redis/lease\<close>, \<open>locklease\<close>
    and its adapter; \<open>Lease_Service\<close>: how its services are made. \<open>Redis_Store\<close>: \<open>redis/store\<close>, with the locale \<open>value_codec\<close>, interpreted on
    every codec. \<open>Redis_Runtime\<close>: \<open>redis/runtime\<close>, named profiles and their retries.
  \<^item> \<open>Rate_Limit\<close>: \<open>ratelimit\<close> and its Redis adapter, behind the locale \<open>limiter\<close>, interpreted on
    the local and the distributed limiter; \<open>Rate_Bucket\<close>: what the bucket script guarantees over
    runs. \<open>Backpressure\<close>: \<open>backpressure\<close>.
  \<^item> \<open>Messaging_Core\<close>: messages, envelope, settlement by the transports and the middlewares of
    \<open>messaging\<close>; \<open>Messaging_Guards\<close>: what the guarding middlewares guarantee over runs, with
    the locale \<open>rate_limiter\<close>, interpreted on the token bucket; \<open>Messaging_Trail\<close>:
    the middlewares that log and audit; \<open>Messaging_Router\<close>:
    \<open>router.go\<close>; \<open>Messaging_Config\<close>: configuration, providers, topic creation;
    \<open>Messaging_Broker\<close>: the buses over NSQ and RabbitMQ.
  \<^item> The reusable parts of the programs in \<open>messaging/example\<close>:
    \<open>Messaging_Dedup\<close> (stores of the identities seen, in examples 09 and 12, both behind the locale
    \<open>seen_within\<close>), \<open>Messaging_Reliability\<close> (retries, limiter and breakers of 09 and 12),
    \<open>Messaging_Batching\<close> (10 and 15), \<open>Messaging_Custom\<close> (authentication, auditing, metrics and
    tracing of 10 and 11), \<open>Messaging_Drain\<close> (the shutdown manager of 13, as a step relation),
    \<open>Messaging_Bridge\<close> (14, composed with both transports).
  \<^item> \<open>Uow_Gorm\<close>: \<open>uow/gorm\<close>. \<open>Database_Url\<close> and \<open>Database_Registry\<close>: \<open>database\<close>;
    the registry is verified against the locale \<open>database_driver\<close>, interpreted on the three
    drivers together.
  \<^item> \<open>Process_Runtime\<close>: \<open>processruntime\<close> and \<open>shutdown\<close>; \<open>Posix_Shutdown\<close>: its manager of signals.
  \<^item> \<open>Log_Fields\<close>: fields, typed records, trace contexts and the middleware of \<open>log\<close>;
    \<open>Log_Output\<close>: options, outputs, rotation, levelled loggers; \<open>Log_Levels\<close>: the calls at a level, formatted and
    fatal ones included; \<open>Log_Setup\<close>: flags, names and contexts of loggers; \<open>Log_Adapters\<close>: the adapters for
    other logging interfaces. \<open>Logger_Request\<close>: the request loggers of \<open>logger\<close>, its HTTP access
    log and gRPC interceptors; \<open>Logger_Stores\<close>: its hooks for Redis, gorm and MongoDB.
  \<^item> \<open>Util_Strings\<close>: \<open>util/stringutil\<close>, \<open>homedir\<close>; \<open>Util_Ids\<close>: \<open>util/idutil\<close>, \<open>iputil\<close>, \<open>codeutil\<close>.

  \<^bold>\<open>How the code is represented.\<close> A struct is a record, an enumeration or a family of error
  types a datatype, a pointer or interface that may be nil an option; errors with texts in
  another alphabet are constructors of a datatype. Errors are the left of a sum or an option; a
  panic is a value of its own where the code can reach one. State is passed and returned; what
  is shared by pointer and changed through several of them is in a heap (the transaction states
  of \<open>Uow_Gorm\<close>). Where operations interleave there is a step relation (\<open>validate_step\<close>,
  \<open>reload_step\<close>, \<open>rt_reach\<close>, \<open>group_step\<close>, \<open>inflight_step\<close>, \<open>drain_step\<close>) or an explicit list of steps or
  events. Identifiers of 64 bits are words, floats are exact rationals. A log record is a value
  an operation returns; which outputs it reaches is the matter of \<open>Log_Output\<close>.

  What is not under \<open>src/\<close> is an argument: Redis commands, gorm, the clients of brokers and
  databases, TLS and certificate parsing, gRPC handlers, JSON and YAML, random tokens, clocks,
  HMAC-SHA256. Where a theorem relies on such an argument, its contract is a named hypothesis
  (\<open>redis_contract\<close>, \<open>hash_contract\<close>, \<open>value_contract\<close>, \<open>gorm_contract\<close>, \<open>amqp_broker\<close>,
  \<open>os_files\<close>, \<open>zap_encodes\<close>, \<open>event_json\<close>) and the witness provides an instance. What the code
  uses of Go's library is defined: \<open>strconv\<close>, \<open>net/url\<close> escapes, UTF-8, \<open>path\<close>. Ranging over a map
  takes the visiting order as an argument.

  \<^bold>\<open>What is shown.\<close>

  \<^item> Security: an accepted HMAC credential is never accepted again, for every store that keeps
    the nonce contract, because the nonce is kept for twice the validity of a timestamp;
    generated credentials are accepted; a handler behind the interceptors runs only for a
    proven subject, an allowed service or a granted method; the stream interceptors decide
    as the unary ones; reloading certificates never leaves a server without its policy;
    the constructors of TLS configurations agree.
  \<^item> Composition of interceptors: auditing outside recovery misses no call, inside it misses
    panics; retries outside the credential interceptor get fresh credentials, inside it they
    replay a nonce and are refused; identity and request id reach what is inside only.
  \<^item> Leases, limits, stores: a lease stays with its holder until it expires, through other
    clients' calls and network failures; the token bucket in Redis admits no more than burst and
    refill; requests at work stay below the limit; a stored string is read back until it
    expires; deleting by pattern ends and removes exactly the matching keys.
  \<^item> Messaging: every delivery is settled exactly once; retries stop at the first success;
    the breaker counts consecutive failures; the token bucket bounds what is handled;
    batches partition the messages; an audit trail tells the attempts; the router wraps and subscribes every handler once; an event
    arrives, over either transport, as the event it was. Of the examples: one identity is handled
    once within the time to live, the breaker with a fallback refines its automaton of three
    states, a shutdown admits no message after its waiting but those past the check, a bridged
    message is acknowledged just when it is published.
  \<^item> Events: validation decides exactly the well-formed configurations, the indexes agree with
    each other, subscriptions cover every event, staging a validated event cannot fail for a
    missing delivery class.
  \<^item> Transactions and processes: nested units of work are one flat transaction and its hooks run
    after the commit; all databases are connected or the first failure is named; a signal runs
    every shutdown callback and exits last.
  \<^item> Logging: which outputs a record reaches; the cache of the MongoDB monitor holds the commands
    under way; masking changes the texts under sensitive keys only; counters count.
  \<^item> Errors: annotations keep codes, causes and matching; flattening, filtering and the text of
    aggregates are characterised by the leaves of the tree; a wrapped error is traced in order.
  \<^item> Where the code does not do what it is meant to, the theorem states what it does: a stack
    annotation hides an error from \<open>Is\<close>, concurrent requests replay a credential, a renewal
    below one millisecond deletes the lock, skewed clocks refill a bucket twice, the back-off
    overflows, a panic behind the timeout middleware escapes recovery, subscriptions of two
    topics share a queue, hooks that are registered late are lost, a failed rotation of a log
    file is for ever, a running server never sees the certificates that are reloaded, formatted
    records of a context lose its trace, the access log cuts the body that handlers read, clients of MongoDB leak,
    the example's batches are acknowledged before they are handled, its exponential retries
    panic, a drained shutdown returns while a handler begins, a bridge drops the metadata.

  \<^bold>\<open>Bounds.\<close> Loops are structural recursion on what they range over. \<open>retry_loop\<close> and
  \<open>client_retry\<close> count the attempts that are left, one more than the retries at first, which is
  the loop's own bound. The scans of \<open>Redis_Keys\<close> end when the server's cursor does: they are
  partial functions, and that they end over a server that iterates is a theorem. Durations are
  integers; where the code computes with \<open>int64\<close> beyond its range, \<open>wrap64\<close> says what is kept
  (back-off, doubled validity, seconds since year 1).

  \<^bold>\<open>Not modelled:\<close> the line format of logs, compression and rotation by size (libraries), the insides of the
  clients the hooks and drivers wrap, the choice of a JSON library by a build tag, and the main
  programs and demonstrations of the examples, which publish, sleep and print.
\<close>

end
